(* ===== verification/Ledger_Prelude.thy ===== *)
theory Ledger_Prelude
  imports Main "HOL-Library.Word" "HOL-Library.Char_ord" "HOL-Library.List_Lexorder"
begin

text \<open>
  Shared vocabulary of the development: Go's \<open>error\<close> values as one datatype, results as sums,
  64-bit integers, decimal text as the \<open>strconv\<close> and \<open>math/big\<close> packages read and write it,
  hexadecimal text, instants of \<open>time.Time\<close>, and the generic lemmas every component uses.
  A Go string is a byte string, so it is a \<^typ>\<open>string\<close> here: one \<^typ>\<open>char\<close> per byte.
\<close>

named_theorems money_simps \<open>exact arithmetic facts of the money types\<close>
named_theorems wf_intros \<open>well-formedness preserved by an operation\<close>
named_theorems go_defs \<open>straight-line definitions that component proofs unfold\<close>

section \<open>Errors and results\<close>

text \<open>
  Every sentinel error of the \<open>domain\<close>, \<open>application\<close> and \<open>cockroach\<close> packages.
  \<open>PgError code\<close> is a \<open>pgconn.PgError\<close> with its SQLSTATE; \<open>ErrDriver\<close> any other failure of
  the database driver; \<open>ErrTxCommitRollback\<close> the driver's report that a commit rolled back;
  \<open>NilDereference\<close> stands for a run-time panic.
\<close>

datatype error =
    ErrAmount | ErrOverflow | ErrUnderflow
  | ErrIdentity | ErrBook | ErrAccount | ErrJournal
  | ErrState | ErrExpired | ErrEvidence | ErrLimit
  | ErrInvalid | ErrPermission | ErrNotFound | ErrConflict
  | ErrUnavailable | ErrUnknown | ErrIntegrity
  | PgError string | ErrTxCommitRollback | ErrDriver | NilDereference
  | ErrDelivery | ErrConfig

type_synonym 'a result = "error + 'a"

definition res_bind :: "'a result \<Rightarrow> ('a \<Rightarrow> 'b result) \<Rightarrow> 'b result" where
  "res_bind r f = (case r of Inl e \<Rightarrow> Inl e | Inr x \<Rightarrow> f x)"

definition is_ok :: "'a result \<Rightarrow> bool" where
  "is_ok r = (case r of Inl _ \<Rightarrow> False | Inr _ \<Rightarrow> True)"

lemma res_bind_simps [simp]:
  "res_bind (Inl e) f = Inl e"
  "res_bind (Inr x) f = f x"
  by (simp_all add: res_bind_def)

lemma res_bind_eq_Inr [simp]:
  "res_bind r f = Inr y \<longleftrightarrow> (\<exists>x. r = Inr x \<and> f x = Inr y)"
  by (cases r) simp_all

lemma res_bind_eq_Inl:
  "res_bind r f = Inl e \<longleftrightarrow> r = Inl e \<or> (\<exists>x. r = Inr x \<and> f x = Inl e)"
  by (cases r) simp_all

lemma is_ok_simps [simp]: "\<not> is_ok (Inl e)" "is_ok (Inr x)"
  by (simp_all add: is_ok_def)

lemma is_ok_iff: "is_ok r \<longleftrightarrow> (\<exists>x. r = Inr x)"
  by (cases r) simp_all

text \<open>A read of a Go map: the zero value when the key is absent.\<close>

definition map_get :: "'v \<Rightarrow> ('k \<rightharpoonup> 'v) \<Rightarrow> 'k \<Rightarrow> 'v" where
  "map_get zero m k = (case m k of None \<Rightarrow> zero | Some v \<Rightarrow> v)"

lemma map_get_simps [simp]:
  "m k = Some v \<Longrightarrow> map_get z m k = v"
  "m k = None \<Longrightarrow> map_get z m k = z"
  by (simp_all add: map_get_def)

section \<open>64-bit signed integers\<close>

type_synonym int64 = "64 word"

definition MaxInt64 :: int64 where
  "MaxInt64 = 9223372036854775807"

lemma sint_MaxInt64 [simp]: "sint MaxInt64 = 2 ^ 63 - 1"
  by (simp add: MaxInt64_def)

lemma sint64_range: "- (2 ^ 63) \<le> sint (x :: int64)" "sint (x :: int64) < 2 ^ 63"
  using sint_ge [of x] sint_lt [of x] by simp_all

lemma sint64_add:
  fixes a b :: int64
  assumes "- (2 ^ 63) \<le> sint a + sint b" and "sint a + sint b < 2 ^ 63"
  shows "sint (a + b) = sint a + sint b"
  using assms by (simp add: sint_word_ariths signed_take_bit_int_eq_self)

lemma sint64_diff:
  fixes a b :: int64
  assumes "- (2 ^ 63) \<le> sint a - sint b" and "sint a - sint b < 2 ^ 63"
  shows "sint (a - b) = sint a - sint b"
  using assms by (simp add: sint_word_ariths signed_take_bit_int_eq_self)

lemma sint64_of_int:
  "- (2 ^ 63) \<le> n \<Longrightarrow> n < 2 ^ 63 \<Longrightarrow> sint (word_of_int n :: int64) = n"
  by (simp add: sint_sbintrunc' signed_take_bit_int_eq_self)

lemma sint64_eq_iff: "(a :: int64) = b \<longleftrightarrow> sint a = sint b"
  by (metis signed_word_eqI)

section \<open>Decimal text\<close>

definition digit_char :: "nat \<Rightarrow> char" where
  "digit_char d = char_of (48 + d)"

definition digit_val :: "char \<Rightarrow> nat" where
  "digit_val c = of_char c - 48"

definition is_digit :: "char \<Rightarrow> bool" where
  "is_digit c = (CHR ''0'' \<le> c \<and> c \<le> CHR ''9'')"

text \<open>The text \<open>strconv.FormatInt\<close> and \<open>big.Int.String\<close> give a number in base ten.\<close>

fun dec :: "nat \<Rightarrow> string" where
  "dec n = (if n < 10 then [digit_char n] else dec (n div 10) @ [digit_char (n mod 10)])"

declare dec.simps [simp del]

definition format_int :: "int \<Rightarrow> string" where
  "format_int n = (if n < 0 then CHR ''-'' # dec (nat (- n)) else dec (nat n))"

text \<open>The number a string of decimal digits denotes.\<close>

definition dec_val :: "string \<Rightarrow> nat" where
  "dec_val s = foldl (\<lambda>a c. 10 * a + digit_val c) 0 s"

text \<open>
  Base-ten reading of a whole string with an optional sign, as \<open>strconv.ParseInt\<close> and
  \<open>big.Int.SetString\<close> do it for base 10; \<open>None\<close> is a syntax error.
\<close>

definition parse_int :: "string \<Rightarrow> int option" where
  "parse_int s =
     (let (neg, ds) = (case s of [] \<Rightarrow> (False, [])
                       | c # cs \<Rightarrow> if c = CHR ''-'' then (True, cs)
                                   else if c = CHR ''+'' then (False, cs) else (False, s))
      in if ds = [] \<or> \<not> list_all is_digit ds then None
         else Some (if neg then - int (dec_val ds) else int (dec_val ds)))"

text \<open>\<open>strconv.ParseInt(s, 10, 64)\<close>: \<open>None\<close> for a syntax or a range error.\<close>

definition parse_int64 :: "string \<Rightarrow> int64 option" where
  "parse_int64 s =
     (case parse_int s of None \<Rightarrow> None
      | Some n \<Rightarrow> if - (2 ^ 63) \<le> n \<and> n < 2 ^ 63 then Some (word_of_int n) else None)"

definition format_int64 :: "int64 \<Rightarrow> string" where
  "format_int64 x = format_int (sint x)"

text \<open>Canonical unsigned decimal text: digits only, no redundant leading zero.\<close>

definition canonical_dec :: "string \<Rightarrow> bool" where
  "canonical_dec s = (s \<noteq> [] \<and> list_all is_digit s \<and> (length s > 1 \<longrightarrow> hd s \<noteq> CHR ''0''))"

lemma digit_val_char [simp]: "d < 10 \<Longrightarrow> digit_val (digit_char d) = d"
  by (simp add: digit_val_def digit_char_def of_char_of)

lemma is_digit_char [simp]: "d < 10 \<Longrightarrow> is_digit (digit_char d)"
  by (simp add: is_digit_def digit_char_def less_eq_char_def of_char_of)

lemma digit_char_val [simp]: "is_digit c \<Longrightarrow> digit_char (digit_val c) = c"
  by (simp add: is_digit_def digit_char_def digit_val_def less_eq_char_def)

lemma digit_val_less: "is_digit c \<Longrightarrow> digit_val c < 10"
  by (auto simp: is_digit_def digit_val_def less_eq_char_def)

lemma is_digit_not_sign: "is_digit c \<Longrightarrow> c \<noteq> CHR ''-'' \<and> c \<noteq> CHR ''+''"
  by (auto simp: is_digit_def less_eq_char_def)

lemma digit_char_0 [simp]: "digit_char 0 = CHR ''0''"
  by code_simp

lemma digit_val_0 [simp]: "digit_val CHR ''0'' = 0"
  by code_simp

lemma is_digit_0 [simp]: "is_digit CHR ''0''"
  by code_simp

lemma digit_val_eq_0: "is_digit c \<Longrightarrow> digit_val c = 0 \<longleftrightarrow> c = CHR ''0''"
  by (metis digit_char_0 digit_char_val digit_val_0)

lemma dec_val_Nil [simp]: "dec_val [] = 0"
  by (simp add: dec_val_def)

lemma dec_val_snoc [simp]: "dec_val (s @ [c]) = 10 * dec_val s + digit_val c"
  by (simp add: dec_val_def)

lemma dec_val_dec [simp]: "dec_val (dec n) = n"
proof (induction n rule: dec.induct)
  case (1 n)
  show ?case
  proof (cases "n < 10")
    case True
    then have "dec n = [] @ [digit_char n]" by (simp add: dec.simps [of n])
    then show ?thesis using True by (simp only: dec_val_snoc) simp
  next
    case False
    with 1 have "dec_val (dec (n div 10)) = n div 10" by blast
    then show ?thesis using False by (simp add: dec.simps [of n])
  qed
qed

lemma dec_digits: "list_all is_digit (dec n)"
proof (induction n rule: dec.induct)
  case (1 n)
  then show ?case by (cases "n < 10") (simp_all add: dec.simps [of n])
qed

lemma dec_not_Nil [simp]: "dec n \<noteq> []"
  by (subst dec.simps) simp

lemma dec_hd: "0 < n \<Longrightarrow> hd (dec n) \<noteq> CHR ''0''"
proof (induction n rule: dec.induct)
  case (1 n)
  show ?case
  proof (cases "n < 10")
    case True
    then have "digit_char n \<noteq> CHR ''0''"
      using 1(2) digit_val_char [of n] by (metis digit_val_0 less_numeral_extra(3))
    then show ?thesis using True by (simp add: dec.simps [of n])
  next
    case False
    with 1 have "hd (dec (n div 10)) \<noteq> CHR ''0''" by simp
    then show ?thesis using False by (simp add: dec.simps [of n] hd_append)
  qed
qed

lemma dec_canonical: "canonical_dec (dec n)"
proof (cases "n = 0")
  case True
  then show ?thesis by (simp add: canonical_dec_def dec_digits dec.simps [of 0])
next
  case False
  then show ?thesis by (simp add: canonical_dec_def dec_digits dec_hd)
qed

lemma dec_val_Cons: "dec_val (c # s) = digit_val c * 10 ^ length s + dec_val s"
proof (induction s rule: rev_induct)
  case Nil
  have "dec_val ([] @ [c]) = digit_val c" by (simp only: dec_val_snoc) simp
  then show ?case by simp
next
  case (snoc x xs)
  have "dec_val (c # xs @ [x]) = dec_val ((c # xs) @ [x])" by simp
  also have "\<dots> = 10 * dec_val (c # xs) + digit_val x" by (simp only: dec_val_snoc)
  finally show ?case using snoc by simp
qed

lemma dec_val_bound: "list_all is_digit s \<Longrightarrow> dec_val s < 10 ^ length s"
proof (induction s rule: rev_induct)
  case (snoc x xs)
  then have "dec_val xs + 1 \<le> 10 ^ length xs" and "digit_val x < 10"
    by (simp_all add: digit_val_less)
  then show ?case by simp
qed simp

lemma dec_val_pos:
  assumes "list_all is_digit s" and "s \<noteq> []" and "hd s \<noteq> CHR ''0''"
  shows "10 ^ (length s - 1) \<le> dec_val s"
proof -
  obtain c cs where s: "s = c # cs" using assms(2) by (cases s) auto
  have "digit_val c \<noteq> 0"
    using assms(1,3) by (auto simp: s digit_val_eq_0)
  then have "10 ^ length cs \<le> digit_val c * 10 ^ length cs" by simp
  then show ?thesis by (simp add: s dec_val_Cons trans_le_add1)
qed

lemma dec_val_pos0:
  assumes "list_all is_digit s" and "s \<noteq> []" and "hd s \<noteq> CHR ''0''"
  shows "0 < dec_val s"
  by (rule less_le_trans [OF _ dec_val_pos [OF assms]]) simp

lemma canonical_dec_init:
  assumes "canonical_dec (zs @ [z])" and "zs \<noteq> []"
  shows "canonical_dec zs" and "0 < dec_val zs"
proof -
  show "canonical_dec zs" using assms by (auto simp: canonical_dec_def)
  show "0 < dec_val zs" using assms by (intro dec_val_pos0) (auto simp: canonical_dec_def)
qed

lemma canonical_dec_inj:
  assumes "canonical_dec s" and "canonical_dec t" and "dec_val s = dec_val t"
  shows "s = t"
  using assms
proof (induction s arbitrary: t rule: rev_induct)
  case Nil
  then show ?case by (simp add: canonical_dec_def)
next
  case (snoc x xs)
  obtain y ys where t: "t = ys @ [y]"
    using snoc.prems(2) by (cases t rule: rev_cases) (auto simp: canonical_dec_def)
  have dig: "is_digit x" "is_digit y" using snoc.prems by (auto simp: canonical_dec_def t)
  have eq: "10 * dec_val xs + digit_val x = 10 * dec_val ys + digit_val y"
    using snoc.prems(3) by (simp add: t)
  have tens: "dec_val xs = dec_val ys" and unit: "digit_val x = digit_val y"
    using eq digit_val_less [OF dig(1)] digit_val_less [OF dig(2)] by arith+
  have "x = y" using unit dig by (metis digit_char_val)
  have can: "canonical_dec (xs @ [x])" "canonical_dec (ys @ [y])" using snoc.prems t by simp_all
  have "xs = ys"
  proof (cases "xs = [] \<or> ys = []")
    case True
    then show ?thesis
      using canonical_dec_init(2) [OF can(1)] canonical_dec_init(2) [OF can(2)] tens
      by (metis dec_val_Nil less_irrefl)
  next
    case False
    then show ?thesis
      using snoc.IH canonical_dec_init(1) [OF can(1)] canonical_dec_init(1) [OF can(2)] tens by blast
  qed
  with \<open>x = y\<close> show ?case by (simp add: t)
qed

lemma dec_dec_val [simp]: "canonical_dec s \<Longrightarrow> dec (dec_val s) = s"
  by (rule canonical_dec_inj) (simp_all add: dec_canonical)

lemma dec_inj [simp]: "dec m = dec n \<longleftrightarrow> m = n"
  by (metis dec_val_dec)

lemma dec_length_le:
  assumes "0 < k"
  shows "length (dec n) \<le> k \<longleftrightarrow> n < 10 ^ k"
proof
  assume "length (dec n) \<le> k"
  then have "(10::nat) ^ length (dec n) \<le> 10 ^ k" by simp
  moreover have "n < 10 ^ length (dec n)" using dec_val_bound [OF dec_digits [of n]] by simp
  ultimately show "n < 10 ^ k" by (rule less_le_trans [rotated])
next
  assume n: "n < 10 ^ k"
  show "length (dec n) \<le> k"
  proof (cases "n = 0")
    case True
    then show ?thesis using assms by (simp add: dec.simps [of 0])
  next
    case False
    then have "10 ^ (length (dec n) - 1) \<le> n"
      using dec_val_pos [OF dec_digits dec_not_Nil, of n] by (simp add: dec_hd)
    then have "(10::nat) ^ (length (dec n) - 1) < 10 ^ k" using n by (rule le_less_trans)
    then have "length (dec n) - 1 < k" by (rule power_less_imp_less_exp [rotated]) simp
    then show ?thesis by simp
  qed
qed

lemma dec_length_mono:
  "canonical_dec s \<Longrightarrow> canonical_dec t \<Longrightarrow> length s < length t \<Longrightarrow> dec_val s < dec_val t"
proof -
  assume s: "canonical_dec s" and t: "canonical_dec t" and len: "length s < length t"
  have "length s > 0" using s by (auto simp: canonical_dec_def)
  then have "dec_val s < 10 ^ length s" using s dec_val_bound by (auto simp: canonical_dec_def)
  also have "(10::nat) ^ length s \<le> 10 ^ (length t - 1)" using len by simp
  also have "\<dots> \<le> dec_val t"
    using t len \<open>length s > 0\<close> by (intro dec_val_pos) (auto simp: canonical_dec_def)
  finally show ?thesis .
qed

text \<open>On digit strings of one length the byte order of Go strings is the numeric order.\<close>

lemma digit_less_iff: "is_digit c \<Longrightarrow> is_digit d \<Longrightarrow> c < d \<longleftrightarrow> digit_val c < digit_val d"
  by (auto simp: is_digit_def digit_val_def less_eq_char_def less_char_def)

lemma digit_val_inj: "is_digit c \<Longrightarrow> is_digit d \<Longrightarrow> digit_val c = digit_val d \<Longrightarrow> c = d"
  by (metis digit_char_val)

lemma dec_lex_less:
  "length s = length t \<Longrightarrow> list_all is_digit s \<Longrightarrow> list_all is_digit t \<Longrightarrow>
   s < t \<longleftrightarrow> dec_val s < dec_val t"
proof (induction s t rule: list_induct2)
  case (Cons c s d t)
  let ?m = "(10::nat) ^ length s"
  have bounds: "dec_val s < ?m" "dec_val t < ?m"
    using Cons dec_val_bound [of s] dec_val_bound [of t] by simp_all
  have less: "digit_val x * ?m + u < digit_val y * ?m + v"
    if "digit_val x < digit_val y" and "u < ?m" for x y u v
  proof -
    have "(digit_val x + 1) * ?m \<le> digit_val y * ?m"
      using that(1) by (intro mult_right_mono) simp_all
    then show ?thesis using that(2) by simp
  qed
  consider "c < d" | "c = d" | "d < c" by (rule linorder_cases)
  then show ?case
  proof cases
    case 1
    then have "digit_val c < digit_val d" using Cons.prems by (simp add: digit_less_iff)
    then show ?thesis using 1 less [of c d "dec_val s" "dec_val t"] bounds Cons.hyps
      by (simp add: dec_val_Cons)
  next
    case 2
    then show ?thesis using Cons by (simp add: dec_val_Cons)
  next
    case 3
    then have "digit_val d < digit_val c" using Cons.prems by (simp add: digit_less_iff)
    then show ?thesis using 3 less [of d c "dec_val t" "dec_val s"] bounds Cons.hyps
      by (auto simp: dec_val_Cons)
  qed
qed simp

lemma parse_int_canonical:
  assumes "canonical_dec s"
  shows "parse_int s = Some (int (dec_val s))"
proof -
  obtain c cs where s: "s = c # cs" using assms by (cases s) (auto simp: canonical_dec_def)
  have "c \<noteq> CHR ''-''" "c \<noteq> CHR ''+''"
    using assms is_digit_not_sign [of c] by (auto simp: canonical_dec_def s)
  then show ?thesis using assms by (auto simp: parse_int_def canonical_dec_def s)
qed

lemma parse_int_dec [simp]: "parse_int (dec n) = Some (int n)"
  by (simp add: parse_int_canonical dec_canonical)

lemma parse_int_format [simp]: "parse_int (format_int n) = Some n"
proof (cases "n < 0")
  case True
  then show ?thesis
    using dec_digits [of "nat (- n)"] by (simp add: format_int_def parse_int_def)
next
  case False
  then show ?thesis by (simp add: format_int_def)
qed

lemma parse_int64_format [simp]: "parse_int64 (format_int64 x) = Some x"
  using sint64_range [of x] by (simp add: parse_int64_def format_int64_def)

lemma format_int64_inj [simp]: "format_int64 x = format_int64 y \<longleftrightarrow> x = y"
  by (metis option.inject parse_int64_format)

text \<open>For evaluation, the same functions on binary integers instead of unary naturals.\<close>

function dec_int :: "int \<Rightarrow> string" where
  "dec_int n = (if n < 10 then [digit_char (nat n)] else dec_int (n div 10) @ [digit_char (nat (n mod 10))])"
  by auto
termination by (relation "measure nat") auto

declare dec_int.simps [simp del]

definition dec_ival :: "string \<Rightarrow> int" where
  "dec_ival s = foldl (\<lambda>a c. 10 * a + int (digit_val c)) 0 s"

lemma dec_int_dec: "0 \<le> n \<Longrightarrow> dec_int n = dec (nat n)"
proof (induction n rule: dec_int.induct)
  case (1 n)
  then show ?case
    by (subst dec_int.simps, subst dec.simps) (simp add: nat_div_distrib nat_mod_distrib nat_less_iff)
qed

lemma format_int_code [code]: "format_int n = (if n < 0 then CHR ''-'' # dec_int (- n) else dec_int n)"
  by (simp add: format_int_def dec_int_dec)

lemma dec_ival_dec_val: "dec_ival s = int (dec_val s)"
proof -
  have "foldl (\<lambda>a c. 10 * a + int (digit_val c)) (int n) s = int (foldl (\<lambda>a c. 10 * a + digit_val c) n s)" for n
  proof (induction s arbitrary: n)
    case (Cons c s)
    have "10 * int n + int (digit_val c) = int (10 * n + digit_val c)" by simp
    then show ?case using Cons [of "10 * n + digit_val c"] by (simp only: foldl_Cons)
  qed simp
  from this [of 0] show ?thesis by (simp add: dec_ival_def dec_val_def)
qed

lemma parse_int_code [code]:
  "parse_int s =
     (let (neg, ds) = (case s of [] \<Rightarrow> (False, [])
                       | c # cs \<Rightarrow> if c = CHR ''-'' then (True, cs)
                                   else if c = CHR ''+'' then (False, cs) else (False, s))
      in if ds = [] \<or> \<not> list_all is_digit ds then None
         else Some (if neg then - dec_ival ds else dec_ival ds))"
  unfolding parse_int_def dec_ival_dec_val by (rule refl)

section \<open>Bytes and hexadecimal text\<close>

type_synonym bytes = "8 word list"

definition hex_char :: "nat \<Rightarrow> char" where
  "hex_char d = (if d < 10 then char_of (48 + d) else char_of (87 + d))"

text \<open>The value of a hexadecimal digit of either case, as \<open>encoding/hex\<close> reads it.\<close>

definition hex_val :: "char \<Rightarrow> nat option" where
  "hex_val c =
     (let n = of_char c :: nat
      in if 48 \<le> n \<and> n \<le> 57 then Some (n - 48)
         else if 97 \<le> n \<and> n \<le> 102 then Some (n - 87)
         else if 65 \<le> n \<and> n \<le> 70 then Some (n - 55) else None)"

fun hex_decode :: "string \<Rightarrow> bytes option" where
  "hex_decode [] = Some []"
| "hex_decode [_] = None"
| "hex_decode (a # b # s) =
     (case (hex_val a, hex_val b, hex_decode s) of
        (Some x, Some y, Some bs) \<Rightarrow> Some (word_of_nat (16 * x + y) # bs)
      | _ \<Rightarrow> None)"

definition hex_byte :: "8 word \<Rightarrow> string" where
  "hex_byte w = [hex_char (unat w div 16), hex_char (unat w mod 16)]"

definition hex_encode :: "bytes \<Rightarrow> string" where
  "hex_encode bs = concat (map hex_byte bs)"

definition lower_char :: "char \<Rightarrow> char" where
  "lower_char c = (let n = of_char c :: nat in if 65 \<le> n \<and> n \<le> 90 then char_of (n + 32) else c)"

text \<open>\<open>strings.ToLower\<close> on ASCII text.\<close>

definition to_lower :: "string \<Rightarrow> string" where
  "to_lower s = map lower_char s"

lemma hex_val_char [simp]: "d < 16 \<Longrightarrow> hex_val (hex_char d) = Some d"
  by (auto simp: hex_val_def hex_char_def Let_def of_char_of)

lemma hex_val_less: "hex_val c = Some d \<Longrightarrow> d < 16"
  by (auto simp: hex_val_def Let_def split: if_splits)

lemma hex_val_lower [simp]: "hex_val (lower_char c) = hex_val c"
  by (auto simp: hex_val_def lower_char_def Let_def of_char_of)

lemma lower_lower [simp]: "lower_char (lower_char c) = lower_char c"
  by (auto simp: lower_char_def Let_def of_char_of)

lemma lower_hex_char [simp]: "d < 16 \<Longrightarrow> lower_char (hex_char d) = hex_char d"
  by (auto simp: lower_char_def hex_char_def Let_def of_char_of)

lemma hex_decode_append_byte:
  "hex_decode (hex_byte w @ s) = map_option ((#) w) (hex_decode s)"
proof -
  have "unat w < 2 ^ LENGTH(8)" by (rule unsigned_less)
  then have "unat w div 16 < 16" by simp
  then show ?thesis
    by (simp add: hex_byte_def split: option.splits)
qed

lemma hex_decode_encode [simp]: "hex_decode (hex_encode bs) = Some bs"
  by (induction bs) (simp_all add: hex_encode_def hex_decode_append_byte)

lemma length_hex_encode [simp]: "length (hex_encode bs) = 2 * length bs"
  by (induction bs) (simp_all add: hex_encode_def hex_byte_def)

lemma hex_decode_length: "hex_decode s = Some bs \<Longrightarrow> length s = 2 * length bs"
  by (induction s arbitrary: bs rule: hex_decode.induct) (auto split: option.splits)

lemma hex_decode_lower [simp]: "hex_decode (to_lower s) = hex_decode s"
  by (induction s rule: hex_decode.induct) (simp_all add: to_lower_def)

lemma to_lower_idem [simp]: "to_lower (to_lower s) = to_lower s"
  by (simp add: to_lower_def)

lemma length_to_lower [simp]: "length (to_lower s) = length s"
  by (simp add: to_lower_def)

text \<open>For evaluation, characters and bytes through binary integers.\<close>

lemma of_char_int: "(of_char c :: int) = int (of_char c)"
  by (cases c, simp only: of_char_def char.sel horner_sum_simps list.map of_nat_add of_nat_mult of_nat_of_bool of_nat_numeral, simp)

lemma hex_val_code [code]:
  "hex_val c =
     (let n = of_char c :: int
      in if 48 \<le> n \<and> n \<le> 57 then Some (nat (n - 48))
         else if 97 \<le> n \<and> n \<le> 102 then Some (nat (n - 87))
         else if 65 \<le> n \<and> n \<le> 70 then Some (nat (n - 55)) else None)"
  unfolding hex_val_def Let_def of_char_int by (auto simp: nat_diff_distrib)

lemma hex_char_code [code]: "hex_char d = (let n = int d in if n < 10 then char_of (48 + n) else char_of (87 + n))"
proof -
  have "48 + int d = int (48 + d)" "87 + int d = int (87 + d)" "int d < 10 \<longleftrightarrow> d < 10" by simp_all
  then show ?thesis by (simp only: hex_char_def Let_def char_of_nat)
qed

lemma lower_char_code [code]:
  "lower_char c = (let n = of_char c :: int in if 65 \<le> n \<and> n \<le> 90 then char_of (n + 32) else c)"
proof -
  have "int (of_char c) + 32 = int (of_char c + 32)" "65 \<le> int (of_char c) \<longleftrightarrow> 65 \<le> (of_char c :: nat)"
    "int (of_char c) \<le> 90 \<longleftrightarrow> of_char c \<le> (90 :: nat)" by linarith+
  then show ?thesis by (simp only: lower_char_def Let_def of_char_int char_of_nat)
qed

lemma digit_val_code [code]: "digit_val c = nat (of_char c - 48 :: int)"
  unfolding digit_val_def of_char_int by simp

lemma digit_char_code [code]: "digit_char d = char_of (48 + int d)"
proof -
  have "48 + int d = int (48 + d)" by simp
  then show ?thesis by (simp only: digit_char_def char_of_nat)
qed

lemma hex_byte_code [code]: "hex_byte w = (let n = uint w in [hex_char (nat (n div 16)), hex_char (nat (n mod 16))])"
proof -
  have "nat (uint w div 16) = nat (uint w) div 16" "nat (uint w mod 16) = nat (uint w) mod 16"
    using nat_div_distrib [of "uint w" 16] nat_mod_distrib [of "uint w" 16] by simp_all
  then show ?thesis by (simp only: hex_byte_def Let_def unat_eq_nat_uint)
qed

section \<open>Instants\<close>

text \<open>
  A \<open>time.Time\<close>: nanoseconds since Go's zero time (January 1, year 1, 00:00 UTC) and the offset
  of its location in seconds. Comparisons look at the instant only; the offset matters only
  for the text of a time.
\<close>

record time =
  t_ns :: int
  t_offset :: int

definition Before :: "time \<Rightarrow> time \<Rightarrow> bool" where
  "Before t u = (t_ns t < t_ns u)"

definition After :: "time \<Rightarrow> time \<Rightarrow> bool" where
  "After t u = (t_ns t > t_ns u)"

definition Time_IsZero :: "time \<Rightarrow> bool" where
  "Time_IsZero t = (t_ns t = 0)"

definition Time_UTC :: "time \<Rightarrow> time" where
  "Time_UTC t = t\<lparr>t_offset := 0\<rparr>"

text \<open>\<open>Add\<close> takes a \<open>time.Duration\<close>, a signed 64-bit count of nanoseconds.\<close>

definition Time_Add :: "time \<Rightarrow> int64 \<Rightarrow> time" where
  "Time_Add t d = t\<lparr>t_ns := t_ns t + sint d\<rparr>"

definition Second :: int64 where "Second = 1000000000"
definition Minute :: int64 where "Minute = 60000000000"

lemmas time_defs = Before_def After_def Time_IsZero_def Time_UTC_def Time_Add_def

text \<open>The civil date of a day count since 1 January of year 1 (proleptic Gregorian calendar).\<close>

definition leap :: "int \<Rightarrow> bool" where
  "leap y = (y mod 4 = 0 \<and> (y mod 100 \<noteq> 0 \<or> y mod 400 = 0))"

definition days_before_year :: "int \<Rightarrow> int" where
  "days_before_year y = 365 * (y - 1) + (y - 1) div 4 - (y - 1) div 100 + (y - 1) div 400"

definition year_of_day :: "int \<Rightarrow> int" where
  "year_of_day d =
     (let y = 400 * d div 146097 + 1
      in if d < days_before_year y then y - 1
         else if d < days_before_year (y + 1) then y else y + 1)"

definition month_lengths :: "int \<Rightarrow> int list" where
  "month_lengths y = [31, if leap y then 29 else 28, 31, 30, 31, 30, 31, 31, 30, 31, 30, 31]"

fun month_day :: "int list \<Rightarrow> int \<Rightarrow> int \<Rightarrow> int \<times> int" where
  "month_day [] m d = (m, d + 1)"
| "month_day (l # ls) m d = (if d < l then (m, d + 1) else month_day ls (m + 1) (d - l))"

definition pad :: "nat \<Rightarrow> string \<Rightarrow> string" where
  "pad n s = replicate (n - length s) CHR ''0'' @ s"

text \<open>\<open>Format("2006-01-02")\<close> of the local day count.\<close>

definition format_date :: "int \<Rightarrow> string" where
  "format_date d =
     (let y = year_of_day d; (m, k) = month_day (month_lengths y) 1 (d - days_before_year y)
      in pad 4 (format_int y) @ ''-'' @ pad 2 (format_int m) @ ''-'' @ pad 2 (format_int k))"

section \<open>Sums grouped by key\<close>

lemma sum_list_by_key:
  fixes f :: "'a \<Rightarrow> int"
  assumes "finite A" and "k ` set xs \<subseteq> A"
  shows "(\<Sum>x\<leftarrow>xs. f x) = (\<Sum>i\<in>A. \<Sum>x\<leftarrow>xs. if k x = i then f x else 0)"
  using assms(2)
proof (induction xs)
  case (Cons x xs)
  then have "(\<Sum>i\<in>A. if k x = i then f x else 0) = f x" using assms(1) by (simp add: sum.delta)
  then show ?case using Cons by (simp add: sum.distrib)
qed simp

end
