(* ===== verification/Money.thy ===== *)
theory Money
  imports Ledger_Prelude
begin

text \<open>
  The exact values of \<open>domain/money.go\<close>: \<open>Amount\<close>, a non-negative \<open>int64\<close> of minor units, and
  \<open>Wide\<close>, a canonical decimal text of at most 38 digits. The locale \<open>exact_money\<close> states what
  both types promise their clients; it is interpreted on each of them, and the arithmetic of
  totals and limits rests on those facts.
\<close>

section \<open>Amount\<close>

datatype amount = Amount (units: int64)

text \<open>Every \<open>Amount\<close> built by this package is non-negative; the zero value is zero.\<close>

definition amount_ok :: "amount \<Rightarrow> bool" where
  "amount_ok a = (0 \<le> sint (units a))"

definition amount_val :: "amount \<Rightarrow> int" where
  "amount_val a = sint (units a)"

definition canonicalDigits :: "string \<Rightarrow> nat \<Rightarrow> bool" where
  "canonicalDigits s mx =
     (if s = [] \<or> length s > mx \<or> (length s > 1 \<and> s ! 0 = CHR ''0'') then False
      else list_all (\<lambda>c. \<not> (c < CHR ''0'' \<or> c > CHR ''9'')) s)"

definition NewAmount :: "int64 \<Rightarrow> amount result" where
  "NewAmount n = (if sint n < 0 then Inl ErrAmount else Inr (Amount n))"

definition ParseAmount :: "string \<Rightarrow> amount result" where
  "ParseAmount s =
     (if \<not> canonicalDigits s 19 then Inl ErrAmount
      else case parse_int64 s of None \<Rightarrow> Inl ErrOverflow | Some n \<Rightarrow> Inr (Amount n))"

definition Amount_String :: "amount \<Rightarrow> string" where
  "Amount_String a = format_int64 (units a)"

definition Amount_IsZero :: "amount \<Rightarrow> bool" where
  "Amount_IsZero a = (units a = 0)"

definition Principal :: "amount \<Rightarrow> unit result" where
  "Principal a = (if sint (units a) \<le> 0 then Inl ErrAmount else Inr ())"

definition Amount_Add :: "amount \<Rightarrow> amount \<Rightarrow> amount result" where
  "Amount_Add a b =
     (if sint (units a) > sint (MaxInt64 - units b) then Inl ErrOverflow
      else Inr (Amount (units a + units b)))"

definition Amount_Sub :: "amount \<Rightarrow> amount \<Rightarrow> amount result" where
  "Amount_Sub a b =
     (if sint (units a) < sint (units b) then Inl ErrUnderflow
      else Inr (Amount (units a - units b)))"

section \<open>Wide\<close>

datatype wide = Wide (digits: string)

abbreviation zero_wide :: wide where
  "zero_wide \<equiv> Wide []"

definition ParseWide :: "string \<Rightarrow> wide result" where
  "ParseWide s =
     (if \<not> canonicalDigits s 38 then Inl ErrAmount
      else if s = ''0'' then Inr zero_wide else Inr (Wide s))"

definition WideAmount :: "amount \<Rightarrow> wide" where
  "WideAmount a = (case ParseWide (Amount_String a) of Inl _ \<Rightarrow> zero_wide | Inr w \<Rightarrow> w)"

definition Wide_String :: "wide \<Rightarrow> string" where
  "Wide_String w = (if digits w = [] then ''0'' else digits w)"

definition Wide_IsZero :: "wide \<Rightarrow> bool" where
  "Wide_IsZero w = (digits w = [])"

definition Cmp :: "wide \<Rightarrow> wide \<Rightarrow> int" where
  "Cmp w other =
     (let a = Wide_String w; b = Wide_String other
      in if length a < length b then - 1
         else if length a > length b then 1
         else if a < b then - 1
         else if a > b then 1 else 0)"

text \<open>
  \<open>big.Int.SetString\<close> returns no number for text it cannot read, and the code would then use
  a nil pointer; \<open>calculate_no_panic\<close> below shows that no \<open>Wide\<close> of this package gets there.
\<close>

definition calculate :: "wide \<Rightarrow> wide \<Rightarrow> bool \<Rightarrow> wide result" where
  "calculate w other subtract =
     (case (parse_int (Wide_String w), parse_int (Wide_String other)) of
        (Some a, Some b) \<Rightarrow>
          (let c = (if subtract then a - b else a + b)
           in if c < 0 then Inl ErrUnderflow
              else if length (format_int c) > 38 then Inl ErrOverflow
              else ParseWide (format_int c))
      | _ \<Rightarrow> Inl NilDereference)"

definition Wide_Add :: "wide \<Rightarrow> wide \<Rightarrow> wide result" where
  "Wide_Add w other = calculate w other False"

definition Wide_Sub :: "wide \<Rightarrow> wide \<Rightarrow> wide result" where
  "Wide_Sub w other = calculate w other True"

text \<open>The representation invariant: empty for zero, otherwise canonical text of 38 digits at most.\<close>

definition wide_ok :: "wide \<Rightarrow> bool" where
  "wide_ok w = (digits w = [] \<or> (canonical_dec (digits w) \<and> length (digits w) \<le> 38 \<and> digits w \<noteq> ''0''))"

definition wide_val :: "wide \<Rightarrow> int" where
  "wide_val w = int (dec_val (Wide_String w))"

lemma wide_val_code [code]: "wide_val w = dec_ival (Wide_String w)"
  by (simp add: wide_val_def dec_ival_dec_val)

definition wide_max :: int where
  "wide_max = 10 ^ 38 - 1"

definition wide_of :: "int \<Rightarrow> wide" where
  "wide_of n = (if n = 0 then zero_wide else Wide (dec (nat n)))"

section \<open>Facts about the text representations\<close>

lemma is_digit_alt: "(\<not> (c < CHR ''0'' \<or> c > CHR ''9'')) = is_digit c"
  by (auto simp: is_digit_def not_less)

lemma canonicalDigits_iff: "canonicalDigits s n \<longleftrightarrow> canonical_dec s \<and> length s \<le> n"
  unfolding canonicalDigits_def is_digit_alt canonical_dec_def
  by (cases s) (auto simp: not_less)

lemma canonical_0 [simp]: "canonical_dec ''0''"
  by (simp add: canonical_dec_def)

lemma dec_val_0 [simp]: "dec_val ''0'' = 0"
  by (simp add: dec_val_Cons)

lemma dec_0: "dec 0 = ''0''"
  by (simp add: dec.simps)

lemma dec_eq_0 [simp]: "dec n = ''0'' \<longleftrightarrow> n = 0"
  by (metis dec_0 dec_inj)

lemma canonical_val_0: "canonical_dec s \<Longrightarrow> dec_val s = 0 \<longleftrightarrow> s = ''0''"
  using dec_0 dec_dec_val by fastforce

lemma format_int_nonneg: "0 \<le> n \<Longrightarrow> format_int n = dec (nat n)"
  by (simp add: format_int_def)

lemma wide_String_canonical:
  "wide_ok w \<Longrightarrow> canonical_dec (Wide_String w) \<and> length (Wide_String w) \<le> 38"
  by (auto simp: wide_ok_def Wide_String_def)

lemma wide_parse [simp]: "wide_ok w \<Longrightarrow> parse_int (Wide_String w) = Some (wide_val w)"
  by (simp add: wide_String_canonical parse_int_canonical wide_val_def)

lemma wide_val_nonneg [simp]: "0 \<le> wide_val w"
  by (simp add: wide_val_def)

lemma wide_val_le: "wide_ok w \<Longrightarrow> wide_val w \<le> wide_max"
proof -
  assume "wide_ok w"
  then have "length (Wide_String w) \<le> 38" and "list_all is_digit (Wide_String w)"
    using wide_String_canonical by (auto simp: canonical_dec_def)
  then have "dec_val (Wide_String w) < 10 ^ 38"
    using dec_val_bound power_increasing [of "length (Wide_String w)" 38 "10::nat"] by fastforce
  then have "int (dec_val (Wide_String w)) < int (10 ^ 38)" by (simp only: of_nat_less_iff)
  then show ?thesis by (simp add: wide_val_def wide_max_def)
qed

lemma wide_val_inj: "wide_ok v \<Longrightarrow> wide_ok w \<Longrightarrow> wide_val v = wide_val w \<longleftrightarrow> v = w"
proof
  assume ok: "wide_ok v" "wide_ok w" and eq: "wide_val v = wide_val w"
  then have "Wide_String v = Wide_String w"
    using canonical_dec_inj wide_String_canonical by (auto simp: wide_val_def)
  with ok show "v = w" by (cases v; cases w) (auto simp: Wide_String_def wide_ok_def split: if_splits)
qed simp

lemma wide_of_ok [wf_intros]: "0 \<le> n \<Longrightarrow> n \<le> wide_max \<Longrightarrow> wide_ok (wide_of n)"
  using dec_length_le [of 38 "nat n"] by (auto simp: wide_ok_def wide_of_def dec_canonical nat_less_iff wide_max_def)

lemma wide_val_of [simp]: "0 \<le> n \<Longrightarrow> wide_val (wide_of n) = n"
  by (simp add: wide_val_def wide_of_def Wide_String_def)

lemma ParseWide_dec:
  "ParseWide (dec n) = (if int n \<le> wide_max then Inr (wide_of (int n)) else Inl ErrAmount)"
  using dec_length_le [of 38 n]
  by (auto simp: ParseWide_def canonicalDigits_iff dec_canonical wide_of_def dec_0 wide_max_def)

lemma ParseWide_ok: "ParseWide s = Inr w \<Longrightarrow> wide_ok w \<and> Wide_String w = s"
  by (auto simp: ParseWide_def canonicalDigits_iff wide_ok_def Wide_String_def canonical_dec_def
      split: if_splits)

lemma calculate_eq:
  assumes "wide_ok v" and "wide_ok w"
  shows "calculate v w subtract =
    (let c = (if subtract then wide_val v - wide_val w else wide_val v + wide_val w)
     in if c < 0 then Inl ErrUnderflow else if c > wide_max then Inl ErrOverflow
        else Inr (wide_of c))"
proof -
  let ?c = "if subtract then wide_val v - wide_val w else wide_val v + wide_val w"
  have "length (dec (nat ?c)) > 38 \<longleftrightarrow> ?c > wide_max" if "0 \<le> ?c"
    using dec_length_le [of 38 "nat ?c"] that by (auto simp: not_less nat_less_iff wide_max_def)
  then show ?thesis
    using assms by (auto simp: calculate_def Let_def format_int_nonneg ParseWide_dec)
qed

section \<open>What a money type promises\<close>

text \<open>
  Every value is the image under \<open>mk\<close> of a number between 0 and a bound; addition is exact and
  reports overflow beyond the bound; subtraction is exact and reports underflow below zero.
\<close>

locale exact_money =
  fixes ok :: "'m \<Rightarrow> bool"
    and val :: "'m \<Rightarrow> int"
    and mk :: "int \<Rightarrow> 'm"
    and add :: "'m \<Rightarrow> 'm \<Rightarrow> 'm result"
    and sub :: "'m \<Rightarrow> 'm \<Rightarrow> 'm result"
    and bound :: int
  assumes val_range: "ok a \<Longrightarrow> 0 \<le> val a \<and> val a \<le> bound"
    and mk_val: "ok a \<Longrightarrow> mk (val a) = a"
    and val_mk: "0 \<le> n \<Longrightarrow> n \<le> bound \<Longrightarrow> ok (mk n) \<and> val (mk n) = n"
    and add_eq: "ok a \<Longrightarrow> ok b \<Longrightarrow>
          add a b = (if val a + val b \<le> bound then Inr (mk (val a + val b)) else Inl ErrOverflow)"
    and sub_eq: "ok a \<Longrightarrow> ok b \<Longrightarrow>
          sub a b = (if val b \<le> val a then Inr (mk (val a - val b)) else Inl ErrUnderflow)"
begin

lemma val_inj: "ok a \<Longrightarrow> ok b \<Longrightarrow> val a = val b \<longleftrightarrow> a = b"
  by (metis mk_val)

lemma add_Inr:
  assumes "ok a" and "ok b" and "add a b = Inr c"
  shows "ok c" and "val c = val a + val b" and "val a + val b \<le> bound"
proof -
  have c: "c = mk (val a + val b)" and le: "val a + val b \<le> bound"
    using assms add_eq by (auto split: if_splits)
  have "ok c \<and> val c = val a + val b"
    using c le val_range [OF assms(1)] val_range [OF assms(2)] val_mk by simp
  then show "ok c" and "val c = val a + val b" and "val a + val b \<le> bound" using le by simp_all
qed

lemma sub_Inr:
  assumes "ok a" and "ok b" and "sub a b = Inr c"
  shows "ok c" and "val c = val a - val b" and "val b \<le> val a"
proof -
  have c: "c = mk (val a - val b)" and le: "val b \<le> val a"
    using assms sub_eq by (auto split: if_splits)
  have "ok c \<and> val c = val a - val b"
    using c le val_range [OF assms(1)] val_range [OF assms(2)] val_mk by simp
  then show "ok c" and "val c = val a - val b" and "val b \<le> val a" using le by simp_all
qed

lemma add_Inl: "ok a \<Longrightarrow> ok b \<Longrightarrow> add a b = Inl e \<Longrightarrow> e = ErrOverflow \<and> bound < val a + val b"
  by (auto simp: add_eq split: if_splits)

lemma sub_Inl: "ok a \<Longrightarrow> ok b \<Longrightarrow> sub a b = Inl e \<Longrightarrow> e = ErrUnderflow \<and> val a < val b"
  by (auto simp: sub_eq split: if_splits)

lemma add_commute: "ok a \<Longrightarrow> ok b \<Longrightarrow> add a b = add b a"
  by (simp add: add_eq add.commute)

lemma add_sub_cancel: "ok a \<Longrightarrow> ok b \<Longrightarrow> add a b = Inr c \<Longrightarrow> sub c b = Inr a"
  using add_Inr [of a b c] val_range [of a] by (simp add: sub_eq mk_val)

lemma sub_add_cancel: "ok a \<Longrightarrow> ok b \<Longrightarrow> sub a b = Inr c \<Longrightarrow> add c b = Inr a"
  using sub_Inr [of a b c] val_range [of a] by (simp add: add_eq mk_val)

end

definition amount_of :: "int \<Rightarrow> amount" where
  "amount_of n = Amount (word_of_int n)"

interpretation amt: exact_money amount_ok amount_val amount_of Amount_Add Amount_Sub "2 ^ 63 - 1"
proof unfold_locales
  fix a b :: amount and n :: int
  show "amount_of (amount_val a) = a" by (simp add: amount_of_def amount_val_def)
  show "amount_ok a \<Longrightarrow> 0 \<le> amount_val a \<and> amount_val a \<le> 2 ^ 63 - 1"
    using sint64_range(2) [of "units a"] by (simp add: amount_ok_def amount_val_def)
  show "0 \<le> n \<Longrightarrow> n \<le> 2 ^ 63 - 1 \<Longrightarrow> amount_ok (amount_of n) \<and> amount_val (amount_of n) = n"
    using sint64_of_int [of n] by (simp add: amount_ok_def amount_val_def amount_of_def)
  assume ok: "amount_ok a" "amount_ok b"
  have room: "sint (MaxInt64 - units b) = 2 ^ 63 - 1 - sint (units b)"
    using ok sint64_range(2) [of "units b"] sint64_diff [of MaxInt64 "units b"]
    by (simp add: amount_ok_def)
  have "amount_of (amount_val a + amount_val b) = Amount (units a + units b)"
    and "amount_of (amount_val a - amount_val b) = Amount (units a - units b)"
    by (simp_all add: amount_of_def amount_val_def)
  then show "Amount_Add a b = (if amount_val a + amount_val b \<le> 2 ^ 63 - 1
        then Inr (amount_of (amount_val a + amount_val b)) else Inl ErrOverflow)"
    and "Amount_Sub a b = (if amount_val b \<le> amount_val a
        then Inr (amount_of (amount_val a - amount_val b)) else Inl ErrUnderflow)"
    using room by (auto simp: Amount_Add_def Amount_Sub_def amount_val_def)
qed

lemma wide_of_val: "wide_ok w \<Longrightarrow> wide_of (wide_val w) = w"
  using wide_val_inj [of "wide_of (wide_val w)" w] by (simp add: wide_of_ok wide_val_le)

interpretation wid: exact_money wide_ok wide_val wide_of Wide_Add Wide_Sub wide_max
proof unfold_locales
  fix v w :: wide and n :: int
  show "wide_ok v \<Longrightarrow> 0 \<le> wide_val v \<and> wide_val v \<le> wide_max" by (simp add: wide_val_le)
  show "wide_ok v \<Longrightarrow> wide_of (wide_val v) = v" by (rule wide_of_val)
  show "0 \<le> n \<Longrightarrow> n \<le> wide_max \<Longrightarrow> wide_ok (wide_of n) \<and> wide_val (wide_of n) = n"
    by (simp add: wide_of_ok)
  assume ok: "wide_ok v" "wide_ok w"
  have sum: "0 \<le> wide_val v + wide_val w" by (simp add: add_nonneg_nonneg)
  have diff: "wide_val v - wide_val w \<le> wide_max"
    using wide_val_le [OF ok(1)] wide_val_nonneg [of w] by linarith
  show "Wide_Add v w = (if wide_val v + wide_val w \<le> wide_max
        then Inr (wide_of (wide_val v + wide_val w)) else Inl ErrOverflow)"
    and "Wide_Sub v w = (if wide_val w \<le> wide_val v
        then Inr (wide_of (wide_val v - wide_val w)) else Inl ErrUnderflow)"
    using ok sum diff by (simp_all add: Wide_Add_def Wide_Sub_def calculate_eq Let_def not_less)
qed

lemmas wide_arith = wid.add_eq wid.sub_eq wid.val_mk

section \<open>Comparison and conversion\<close>

lemma Cmp_val:
  assumes "wide_ok v" and "wide_ok w"
  shows "Cmp v w = sgn (wide_val v - wide_val w)"
proof -
  let ?a = "Wide_String v" and ?b = "Wide_String w"
  have can: "canonical_dec ?a" "canonical_dec ?b" using assms wide_String_canonical by auto
  then have dig: "list_all is_digit ?a" "list_all is_digit ?b" by (simp_all add: canonical_dec_def)
  consider "length ?a < length ?b" | "length ?b < length ?a" | "length ?a = length ?b" by linarith
  then show ?thesis
  proof cases
    case 1
    then have "dec_val ?a < dec_val ?b" by (rule dec_length_mono [OF can])
    then show ?thesis using 1 by (simp add: Cmp_def Let_def wide_val_def)
  next
    case 2
    then have "dec_val ?b < dec_val ?a" by (rule dec_length_mono [OF can(2,1)])
    then show ?thesis using 2 by (simp add: Cmp_def Let_def wide_val_def)
  next
    case 3
    then have "?a < ?b \<longleftrightarrow> dec_val ?a < dec_val ?b" "?b < ?a \<longleftrightarrow> dec_val ?b < dec_val ?a"
      using dig by (simp_all add: dec_lex_less)
    moreover have "?a = ?b \<longleftrightarrow> dec_val ?a = dec_val ?b" using can canonical_dec_inj by auto
    ultimately show ?thesis using 3 by (auto simp: Cmp_def Let_def wide_val_def sgn_if)
  qed
qed

lemma Cmp_iff [money_simps]:
  assumes "wide_ok v" and "wide_ok w"
  shows "Cmp v w < 0 \<longleftrightarrow> wide_val v < wide_val w"
    and "Cmp v w > 0 \<longleftrightarrow> wide_val v > wide_val w"
    and "Cmp v w = 0 \<longleftrightarrow> v = w"
  using assms wide_val_inj [OF assms] by (auto simp: Cmp_val sgn_if)

lemma amount_val_range: "amount_ok a \<Longrightarrow> 0 \<le> amount_val a \<and> amount_val a < 2 ^ 63"
  using sint64_range(2) [of "units a"] by (simp add: amount_ok_def amount_val_def)

lemma Amount_String_dec: "amount_ok a \<Longrightarrow> Amount_String a = dec (nat (amount_val a))"
  by (simp add: Amount_String_def format_int64_def format_int_def amount_ok_def amount_val_def)

lemma amount_val_wide_max: "amount_ok a \<Longrightarrow> amount_val a \<le> wide_max"
  using amount_val_range [of a] by (simp add: wide_max_def)

lemma WideAmount_eq: "amount_ok a \<Longrightarrow> WideAmount a = wide_of (amount_val a)"
  using amount_val_range [of a] amount_val_wide_max [of a]
  by (simp add: WideAmount_def Amount_String_dec ParseWide_dec)

lemma WideAmount_ok [wf_intros, simp]: "amount_ok a \<Longrightarrow> wide_ok (WideAmount a)"
  using amount_val_range [of a] by (simp add: WideAmount_eq wide_of_ok amount_val_wide_max)

lemma WideAmount_val [money_simps, simp]: "amount_ok a \<Longrightarrow> wide_val (WideAmount a) = amount_val a"
  using amount_val_range [of a] by (simp add: WideAmount_eq)

lemma zero_wide_ok [wf_intros, simp]: "wide_ok zero_wide"
  by (simp add: wide_ok_def)

lemma zero_wide_val [money_simps, simp]: "wide_val zero_wide = 0"
  by (simp add: wide_val_def Wide_String_def)

lemma Wide_IsZero_val: "wide_ok w \<Longrightarrow> Wide_IsZero w \<longleftrightarrow> wide_val w = 0"
  using wide_val_inj [of w zero_wide] by (cases w) (simp add: Wide_IsZero_def)

lemma Amount_IsZero_val [money_simps]: "Amount_IsZero a \<longleftrightarrow> amount_val a = 0"
  by (simp add: Amount_IsZero_def amount_val_def sint64_eq_iff)

lemma Principal_iff [money_simps]: "Principal a = Inr () \<longleftrightarrow> 0 < amount_val a"
  by (simp add: Principal_def amount_val_def)

lemma Principal_ok: "Principal a = Inr () \<Longrightarrow> amount_ok a"
  by (simp add: Principal_def amount_ok_def split: if_splits)

lemma ParseAmount_cases:
  "ParseAmount s =
     (if \<not> (canonical_dec s \<and> length s \<le> 19) then Inl ErrAmount
      else if 2 ^ 63 \<le> dec_val s then Inl ErrOverflow
      else Inr (Amount (word_of_int (int (dec_val s)))))"
proof (cases "canonical_dec s \<and> length s \<le> 19")
  case True
  then have "parse_int s = Some (int (dec_val s))" by (simp add: parse_int_canonical)
  then show ?thesis
    using True by (auto simp: ParseAmount_def canonicalDigits_iff parse_int64_def)
qed (simp add: ParseAmount_def canonicalDigits_iff)

lemma ParseAmount_String:
  assumes "amount_ok a"
  shows "ParseAmount (Amount_String a) = Inr a"
proof -
  let ?n = "nat (amount_val a)"
  have lt: "?n < 2 ^ 63" using amount_val_range [OF assms] by (simp add: nat_less_iff)
  then have "length (dec ?n) \<le> 19" using dec_length_le [of 19 ?n] by simp
  moreover have "word_of_int (amount_val a) = units a" by (simp add: amount_val_def)
  ultimately show ?thesis
    using assms lt amount_val_range [OF assms] by (simp add: Amount_String_dec ParseAmount_cases dec_canonical)
qed

lemma ParseAmount_ok: "ParseAmount s = Inr a \<Longrightarrow> amount_ok a"
  using sint64_of_int [of "int (dec_val s)"] by (auto simp: ParseAmount_cases amount_ok_def split: if_split_asm)

lemma ParseWide_String:
  assumes "wide_ok w"
  shows "ParseWide (Wide_String w) = Inr w"
proof -
  have "Wide_String w = dec (nat (wide_val w))" using assms by (simp add: wide_val_def wide_String_canonical)
  then show ?thesis using assms by (simp add: ParseWide_dec wide_val_le wide_of_val)
qed

instantiation amount :: linorder
begin

definition less_eq_amount :: "amount \<Rightarrow> amount \<Rightarrow> bool" where
  "a \<le> b \<longleftrightarrow> amount_val a \<le> amount_val b"

definition less_amount :: "amount \<Rightarrow> amount \<Rightarrow> bool" where
  "a < b \<longleftrightarrow> amount_val a < amount_val b"

instance
proof
  fix a b c :: amount
  show "a \<le> b \<Longrightarrow> b \<le> a \<Longrightarrow> a = b"
    by (cases a; cases b) (simp add: less_eq_amount_def amount_val_def sint64_eq_iff)
qed (auto simp: less_eq_amount_def less_amount_def)

end

section \<open>Properties\<close>

text \<open>
  C35. Decimal text and amounts correspond one to one: parsing the text of a non-negative amount
  gives the amount back, and every text that parses is the text of the amount it parses to,
  which is non-negative. So there is one wire form for each amount.
\<close>

theorem amount_text_roundtrip:
  "(amount_ok a \<longrightarrow> ParseAmount (Amount_String a) = Inr a) \<and>
   (ParseAmount s = Inr b \<longrightarrow> amount_ok b \<and> Amount_String b = s)"
proof (intro conjI impI)
  assume "amount_ok a"
  then show "ParseAmount (Amount_String a) = Inr a" by (rule ParseAmount_String)
next
  assume "ParseAmount s = Inr b"
  then have can: "canonical_dec s" and lt: "dec_val s < 2 ^ 63"
    and b: "b = Amount (word_of_int (int (dec_val s)))"
    by (auto simp: ParseAmount_cases split: if_splits)
  then have v: "amount_val b = int (dec_val s)"
    using sint64_of_int [of "int (dec_val s)"] by (simp add: amount_val_def)
  show "amount_ok b" using \<open>ParseAmount s = Inr b\<close> by (rule ParseAmount_ok)
  then show "Amount_String b = s" using can by (simp add: Amount_String_dec v)
qed

theorem amount_text_roundtrip_witness:
  "amount_ok (Amount 1250) \<and> ParseAmount ''1250'' = Inr (Amount 1250) \<and> Amount_String (Amount 1250) = ''1250''"
proof -
  have ok: "amount_ok (Amount 1250)" by (simp add: amount_ok_def)
  have str: "Amount_String (Amount 1250) = ''1250''" by code_simp
  from amount_text_roundtrip [of "Amount 1250" "''1250''" "Amount 1250"] ok str show ?thesis by simp
qed

text \<open>
  C34. Arithmetic on wide amounts, which are decimal texts of at most 38 digits, is exact:
  addition and subtraction give the text of the sum and of the difference, overflow is reported
  exactly above 38 digits and underflow exactly below zero, comparison is the sign of the
  difference, and the text of every value parses back to it.
\<close>

theorem wide_arithmetic_exact:
  assumes "wide_ok v" and "wide_ok w"
  shows "Wide_Add v w = (if wide_val v + wide_val w \<le> wide_max then Inr (wide_of (wide_val v + wide_val w)) else Inl ErrOverflow)
    \<and> Wide_Sub v w = (if wide_val w \<le> wide_val v then Inr (wide_of (wide_val v - wide_val w)) else Inl ErrUnderflow)
    \<and> Cmp v w = sgn (wide_val v - wide_val w)
    \<and> ParseWide (Wide_String v) = Inr v"
  using assms by (simp add: wid.add_eq wid.sub_eq Cmp_val sgn_if ParseWide_String)

theorem wide_arithmetic_exact_witness:
  "let v = Wide ''250''; w = Wide ''1250''
   in wide_ok v \<and> wide_ok w \<and> Wide_Add v w = Inr (wide_of 1500) \<and> Wide_Sub v w = Inl ErrUnderflow
      \<and> Wide_Sub w v = Inr (wide_of 1000) \<and> Cmp v w = - 1"
proof -
  let ?v = "Wide ''250''" and ?w = "Wide ''1250''"
  have ok: "wide_ok ?v" "wide_ok ?w" by code_simp+
  have val: "wide_val ?v = 250" "wide_val ?w = 1250" by code_simp+
  from wide_arithmetic_exact [OF ok] wide_arithmetic_exact [OF ok(2,1)] ok val show ?thesis
    by (simp add: Let_def wide_max_def)
qed

end
