(* ===== verification/Accounting.thy ===== *)
theory Accounting
  imports Money
begin

unbundle bit_operations_syntax

text \<open>
  \<open>domain/accounting.go\<close>: UUID identities, books, accounts, the running totals of an account and
  journals. \<open>Totals\<close> is refined by a specification on integers (\<open>spec_post\<close>, \<open>spec_reserve\<close>,
  \<open>spec_release\<close>) that says for every input, errors included, what an operation does.
\<close>

section \<open>Identities\<close>

type_synonym ID = string

text \<open>\<open>strings.ReplaceAll(s, "-", "")\<close> is the filter; an all-zero identity is refused.\<close>

definition ParseID :: "string \<Rightarrow> ID result" where
  "ParseID s =
     (if length s \<noteq> 36 \<or> s ! 8 \<noteq> CHR ''-'' \<or> s ! 13 \<noteq> CHR ''-'' \<or> s ! 18 \<noteq> CHR ''-''
         \<or> s ! 23 \<noteq> CHR ''-'' then Inl ErrIdentity
      else case hex_decode (filter (\<lambda>c. c \<noteq> CHR ''-'') s) of
             None \<Rightarrow> Inl ErrIdentity
           | Some raw \<Rightarrow>
               if length raw \<noteq> 16 then Inl ErrIdentity
               else if \<not> list_ex (\<lambda>b. b \<noteq> 0) raw then Inl ErrIdentity
               else Inr (to_lower s))"

definition ID_Valid :: "ID \<Rightarrow> bool" where
  "ID_Valid i = (case ParseID i of Inl _ \<Rightarrow> False | Inr parsed \<Rightarrow> parsed = i)"

text \<open>\<open>NewID\<close> stamps the version and variant bits on the 16 bytes \<open>rand.Read\<close> delivered.\<close>

definition NewID :: "bytes \<Rightarrow> ID" where
  "NewID b0 =
     (let b1 = b0[6 := (b0 ! 6 AND 0x0f) OR 0x40]; b = b1[8 := (b1 ! 8 AND 0x3f) OR 0x80]
      in hex_encode (take 4 b) @ ''-'' @ hex_encode (take 2 (drop 4 b)) @ ''-'' @
         hex_encode (take 2 (drop 6 b)) @ ''-'' @ hex_encode (take 2 (drop 8 b)) @ ''-'' @
         hex_encode (drop 10 b))"

section \<open>Books and accounts\<close>

record book =
  bk_ID :: ID
  bk_Currency :: string
  bk_Scale :: int

definition Book_Validate :: "book \<Rightarrow> unit result" where
  "Book_Validate b =
     (if \<not> ID_Valid (bk_ID b) \<or> bk_Currency b \<noteq> ''KES'' \<or> bk_Scale b \<noteq> 2 then Inl ErrBook else Inr ())"

text \<open>\<open>Purpose\<close> and \<open>Side\<close> are Go string types with named constants, not closed enums.\<close>

type_synonym purpose = string
type_synonym side = string

definition Wallet :: purpose where "Wallet = ''WALLET''"
definition ProviderPool :: purpose where "ProviderPool = ''PROVIDER_POOL''"
definition FeeIncome :: purpose where "FeeIncome = ''FEE_INCOME''"
definition Debit :: side where "Debit = ''DEBIT''"
definition Credit :: side where "Credit = ''CREDIT''"

lemmas const_defs = Wallet_def ProviderPool_def FeeIncome_def Debit_def Credit_def

lemma const_distinct [simp]:
  "Wallet \<noteq> ProviderPool" "ProviderPool \<noteq> Wallet" "Wallet \<noteq> FeeIncome" "FeeIncome \<noteq> Wallet"
  "ProviderPool \<noteq> FeeIncome" "FeeIncome \<noteq> ProviderPool" "Debit \<noteq> Credit" "Credit \<noteq> Debit"
  "Wallet \<noteq> []" "ProviderPool \<noteq> []" "FeeIncome \<noteq> []" "[] \<noteq> Wallet" "[] \<noteq> ProviderPool" "[] \<noteq> FeeIncome"
  by (simp_all add: const_defs)

record account =
  ac_ID :: ID
  ac_Book :: book
  ac_Owner :: ID
  ac_Purpose :: purpose

definition Account_Validate :: "account \<Rightarrow> unit result" where
  "Account_Validate a =
     (if \<not> ID_Valid (ac_ID a) \<or> \<not> ID_Valid (ac_Owner a) \<or> \<not> is_ok (Book_Validate (ac_Book a))
      then Inl ErrAccount
      else if ac_Purpose a \<noteq> Wallet \<and> ac_Purpose a \<noteq> ProviderPool \<and> ac_Purpose a \<noteq> FeeIncome
      then Inl ErrAccount else Inr ())"

definition NormalSide :: "account \<Rightarrow> side" where
  "NormalSide a = (if ac_Purpose a = ProviderPool then Debit else Credit)"

section \<open>Totals\<close>

record totals =
  tt_Debits :: wide
  tt_Credits :: wide
  tt_Held :: wide

definition Posted :: "totals \<Rightarrow> purpose \<Rightarrow> wide result" where
  "Posted t p =
     (if p = ProviderPool then Wide_Sub (tt_Debits t) (tt_Credits t)
      else if p = Wallet \<or> p = FeeIncome then Wide_Sub (tt_Credits t) (tt_Debits t)
      else Inl ErrAccount)"

definition Available :: "totals \<Rightarrow> purpose \<Rightarrow> wide result" where
  "Available t p = res_bind (Posted t p) (\<lambda>posted. Wide_Sub posted (tt_Held t))"

definition Post :: "totals \<Rightarrow> purpose \<Rightarrow> side \<Rightarrow> amount \<Rightarrow> totals result" where
  "Post t p side amount =
     res_bind
       (if side = Debit then
          res_bind (Wide_Add (tt_Debits t) (WideAmount amount)) (\<lambda>w. Inr (t\<lparr>tt_Debits := w\<rparr>))
        else if side = Credit then
          res_bind (Wide_Add (tt_Credits t) (WideAmount amount)) (\<lambda>w. Inr (t\<lparr>tt_Credits := w\<rparr>))
        else Inl ErrJournal)
       (\<lambda>next. res_bind (Available next p) (\<lambda>_. Inr next))"

definition Totals_Reserve :: "totals \<Rightarrow> purpose \<Rightarrow> amount \<Rightarrow> totals result" where
  "Totals_Reserve t p amount =
     (if p \<noteq> Wallet \<and> p \<noteq> ProviderPool then Inl ErrAccount
      else res_bind (Wide_Add (tt_Held t) (WideAmount amount)) (\<lambda>w.
             let next = t\<lparr>tt_Held := w\<rparr> in res_bind (Available next p) (\<lambda>_. Inr next)))"

definition Totals_Release :: "totals \<Rightarrow> amount \<Rightarrow> totals result" where
  "Totals_Release t amount =
     res_bind (Wide_Sub (tt_Held t) (WideAmount amount)) (\<lambda>w. Inr (t\<lparr>tt_Held := w\<rparr>))"

section \<open>Journals\<close>

record line =
  ln_Account :: account
  ln_Side :: side
  ln_Amount :: amount

record journal =
  jr_book :: book
  jr_lines :: "line list"
  jr_digest :: string

text \<open>
  The loop of \<open>NewJournal\<close>: running debits and credits, the accounts seen and the text written
  to the hash so far.
\<close>

fun journal_loop :: "book \<Rightarrow> line list \<Rightarrow> wide \<Rightarrow> wide \<Rightarrow> ID set \<Rightarrow> string \<Rightarrow> (wide \<times> wide \<times> string) result" where
  "journal_loop book [] debits credits seen written = Inr (debits, credits, written)"
| "journal_loop book (l # ls) debits credits seen written =
     (if \<not> is_ok (Account_Validate (ln_Account l)) \<or> ac_Book (ln_Account l) \<noteq> book
         \<or> \<not> is_ok (Principal (ln_Amount l)) \<or> ac_ID (ln_Account l) \<in> seen
      then Inl ErrJournal
      else
        let seen' = insert (ac_ID (ln_Account l)) seen;
            written' = written @ ac_ID (ln_Account l) @ ''|'' @ ln_Side l @ ''|'' @ Amount_String (ln_Amount l) @ ''\<newline>''
        in if ln_Side l = Debit then
             res_bind (Wide_Add debits (WideAmount (ln_Amount l)))
               (\<lambda>d. journal_loop book ls d credits seen' written')
           else if ln_Side l = Credit then
             res_bind (Wide_Add credits (WideAmount (ln_Amount l)))
               (\<lambda>c. journal_loop book ls debits c seen' written')
           else Inl ErrJournal)"

definition NewJournal :: "(string \<Rightarrow> bytes) \<Rightarrow> book \<Rightarrow> line list \<Rightarrow> journal result" where
  "NewJournal sha256 book lines =
     (if \<not> is_ok (Book_Validate book) \<or> length lines < 2 \<or> length lines > 8 then Inl ErrJournal
      else res_bind
        (journal_loop book lines zero_wide zero_wide {}
           (bk_ID book @ ''|'' @ bk_Currency book @ ''|'' @ format_int (bk_Scale book) @ ''\<newline>''))
        (\<lambda>(debits, credits, written).
           if Cmp debits credits \<noteq> 0 then Inl ErrJournal
           else Inr \<lparr>jr_book = book, jr_lines = lines, jr_digest = hex_encode (sha256 written)\<rparr>))"

section \<open>Identities: facts\<close>

lemma to_lower_nth: "i < length s \<Longrightarrow> to_lower s ! i = lower_char (s ! i)"
  by (simp add: to_lower_def)

lemma lower_dash [simp]: "lower_char c = CHR ''-'' \<longleftrightarrow> c = CHR ''-''"
proof
  let ?n = "of_char c :: nat"
  assume a: "lower_char c = CHR ''-''"
  show "c = CHR ''-''"
  proof (cases "65 \<le> ?n \<and> ?n \<le> 90")
    case True
    with a have "char_of (?n + 32) = CHR ''-''" by (simp add: lower_char_def)
    then have "of_char (char_of (?n + 32) :: char) = (45 :: nat)" by simp
    then show ?thesis using True by (simp only: of_char_of) simp
  next
    case False
    with a show ?thesis by (auto simp: lower_char_def Let_def)
  qed
qed (simp add: lower_char_def)

lemma filter_to_lower:
  "filter (\<lambda>c. c \<noteq> CHR ''-'') (to_lower s) = to_lower (filter (\<lambda>c. c \<noteq> CHR ''-'') s)"
  by (induction s) (simp_all add: to_lower_def)

lemma ParseID_lower: "ParseID (to_lower s) = ParseID s"
  by (cases "length s = 36") (simp_all add: ParseID_def to_lower_nth filter_to_lower split: option.split)

lemma ParseID_Inr: "ParseID s = Inr i \<Longrightarrow> i = to_lower s \<and> ID_Valid i \<and> length i = 36"
proof -
  assume a: "ParseID s = Inr i"
  then have "i = to_lower s" "length s = 36"
    by (auto simp: ParseID_def split: if_splits option.splits)
  then show ?thesis using a by (simp add: ID_Valid_def ParseID_lower)
qed

lemma ParseID_error: "ParseID s = Inl e \<Longrightarrow> e = ErrIdentity"
  by (auto simp: ParseID_def split: if_splits option.splits)

lemma ID_Valid_not_Nil [simp]: "\<not> ID_Valid []"
  by (simp add: ID_Valid_def ParseID_def)

lemma ID_Valid_ParseID: "ID_Valid i \<longleftrightarrow> ParseID i = Inr i"
  by (auto simp: ID_Valid_def split: sum.splits)

section \<open>Totals: the specification on integers\<close>

definition totals_ok :: "totals \<Rightarrow> bool" where
  "totals_ok t = (wide_ok (tt_Debits t) \<and> wide_ok (tt_Credits t) \<and> wide_ok (tt_Held t))"

text \<open>Debits, credits and held funds as numbers.\<close>

type_synonym tally = "int \<times> int \<times> int"

definition tally_of :: "totals \<Rightarrow> tally" where
  "tally_of t = (wide_val (tt_Debits t), wide_val (tt_Credits t), wide_val (tt_Held t))"

definition spec_posted :: "purpose \<Rightarrow> tally \<Rightarrow> int" where
  "spec_posted p = (\<lambda>(d, c, h). if p = ProviderPool then d - c else c - d)"

definition spec_available :: "purpose \<Rightarrow> tally \<Rightarrow> int" where
  "spec_available p = (\<lambda>(d, c, h). spec_posted p (d, c, h) - h)"

definition known_purpose :: "purpose \<Rightarrow> bool" where
  "known_purpose p = (p = Wallet \<or> p = ProviderPool \<or> p = FeeIncome)"

text \<open>A tally no further posting or hold has overdrawn.\<close>

definition solvent :: "purpose \<Rightarrow> tally \<Rightarrow> bool" where
  "solvent p = (\<lambda>(d, c, h). known_purpose p \<and> 0 \<le> d \<and> 0 \<le> c \<and> 0 \<le> h
     \<and> d \<le> wide_max \<and> c \<le> wide_max \<and> h \<le> wide_max \<and> h \<le> spec_posted p (d, c, h))"

text \<open>The outcome of a change: the new tally when it is solvent, the code's error otherwise.\<close>

definition settle :: "purpose \<Rightarrow> tally \<Rightarrow> tally result" where
  "settle p t = (if \<not> known_purpose p then Inl ErrAccount
     else if spec_available p t < 0 \<or> spec_posted p t < 0 then Inl ErrUnderflow else Inr t)"

definition spec_post :: "purpose \<Rightarrow> side \<Rightarrow> int \<Rightarrow> tally \<Rightarrow> tally result" where
  "spec_post p side n = (\<lambda>(d, c, h).
     if side = Debit then (if d + n > wide_max then Inl ErrOverflow else settle p (d + n, c, h))
     else if side = Credit then (if c + n > wide_max then Inl ErrOverflow else settle p (d, c + n, h))
     else Inl ErrJournal)"

definition spec_reserve :: "purpose \<Rightarrow> int \<Rightarrow> tally \<Rightarrow> tally result" where
  "spec_reserve p n = (\<lambda>(d, c, h).
     if p \<noteq> Wallet \<and> p \<noteq> ProviderPool then Inl ErrAccount
     else if h + n > wide_max then Inl ErrOverflow else settle p (d, c, h + n))"

definition spec_release :: "int \<Rightarrow> tally \<Rightarrow> tally result" where
  "spec_release n = (\<lambda>(d, c, h). if h < n then Inl ErrUnderflow else Inr (d, c, h - n))"

lemma spec_posted_range:
  assumes "totals_ok t"
  shows "spec_posted p (tally_of t) \<le> wide_max"
  using assms wide_val_nonneg [of "tt_Debits t"] wide_val_nonneg [of "tt_Credits t"]
    wide_val_le [of "tt_Debits t"] wide_val_le [of "tt_Credits t"]
  unfolding spec_posted_def tally_of_def totals_ok_def by (auto simp del: wide_val_nonneg)

lemma Posted_eq:
  assumes "totals_ok t"
  shows "Posted t p =
    (if \<not> known_purpose p then Inl ErrAccount
     else if spec_posted p (tally_of t) < 0 then Inl ErrUnderflow
     else Inr (wide_of (spec_posted p (tally_of t))))"
  using assms
  by (auto simp: Posted_def known_purpose_def spec_posted_def tally_of_def totals_ok_def wid.sub_eq)

lemma Available_eq:
  assumes "totals_ok t"
  shows "Available t p =
    (if \<not> known_purpose p then Inl ErrAccount
     else if spec_posted p (tally_of t) < 0 \<or> spec_available p (tally_of t) < 0 then Inl ErrUnderflow
     else Inr (wide_of (spec_available p (tally_of t))))"
proof (cases "known_purpose p \<and> 0 \<le> spec_posted p (tally_of t)")
  case True
  let ?n = "spec_posted p (tally_of t)"
  have w: "wide_ok (wide_of ?n)" "wide_val (wide_of ?n) = ?n"
    using True spec_posted_range [OF assms] by (simp_all add: wide_of_ok)
  have "spec_available p (tally_of t) = ?n - wide_val (tt_Held t)"
    by (simp add: spec_available_def tally_of_def)
  then show ?thesis
    using True w assms by (simp add: Available_def Posted_eq totals_ok_def wid.sub_eq not_less)
next
  case False
  then show ?thesis using assms by (auto simp: Available_def Posted_eq)
qed

lemma Available_settle:
  "totals_ok t \<Longrightarrow> res_bind (Available t p) (\<lambda>_. Inr x) = map_sum id (\<lambda>_. x) (settle p (tally_of t))"
  by (auto simp: Available_eq settle_def)

lemma tally_upd [simp]:
  "tally_of (t\<lparr>tt_Debits := w\<rparr>) = (wide_val w, wide_val (tt_Credits t), wide_val (tt_Held t))"
  "tally_of (t\<lparr>tt_Credits := w\<rparr>) = (wide_val (tt_Debits t), wide_val w, wide_val (tt_Held t))"
  "tally_of (t\<lparr>tt_Held := w\<rparr>) = (wide_val (tt_Debits t), wide_val (tt_Credits t), wide_val w)"
  by (simp_all add: tally_of_def)

lemma totals_ok_upd [wf_intros]:
  "totals_ok t \<Longrightarrow> wide_ok w \<Longrightarrow> totals_ok (t\<lparr>tt_Debits := w\<rparr>)"
  "totals_ok t \<Longrightarrow> wide_ok w \<Longrightarrow> totals_ok (t\<lparr>tt_Credits := w\<rparr>)"
  "totals_ok t \<Longrightarrow> wide_ok w \<Longrightarrow> totals_ok (t\<lparr>tt_Held := w\<rparr>)"
  by (simp_all add: totals_ok_def)

lemma map_sum_settle:
  "tally_of x = u \<Longrightarrow> map_sum id tally_of (map_sum id (\<lambda>_. x) (settle p u)) = settle p u"
  by (auto simp: settle_def)

lemma amount_room:
  assumes "wide_ok w" and "amount_ok a" and "wide_val w + amount_val a \<le> wide_max"
  shows "wide_ok (wide_of (wide_val w + amount_val a))"
    and "wide_val (wide_of (wide_val w + amount_val a)) = wide_val w + amount_val a"
  using assms amount_val_range [of a] by (simp_all add: wide_of_ok add_nonneg_nonneg)

text \<open>The three operations on totals refine their specifications, errors included.\<close>

lemma Post_refines:
  assumes "totals_ok t" and "amount_ok a"
  shows "map_sum id tally_of (Post t p side a) = spec_post p side (amount_val a) (tally_of t)"
proof -
  have ok: "wide_ok (tt_Debits t)" "wide_ok (tt_Credits t)" "wide_ok (WideAmount a)"
    using assms by (simp_all add: totals_ok_def)
  have tally: "tally_of t = (wide_val (tt_Debits t), wide_val (tt_Credits t), wide_val (tt_Held t))"
    by (simp add: tally_of_def)
  consider "side = Debit" | "side = Credit" | "side \<noteq> Debit \<and> side \<noteq> Credit" by blast
  then show ?thesis
  proof cases
    case 1
    then show ?thesis
      using ok assms amount_room [OF ok(1) assms(2)]
      by (simp add: Post_def spec_post_def tally wid.add_eq Available_settle totals_ok_upd not_less
          map_sum_settle)
  next
    case 2
    then show ?thesis
      using ok assms amount_room [OF ok(2) assms(2)]
      by (simp add: Post_def spec_post_def tally wid.add_eq Available_settle totals_ok_upd not_less
          map_sum_settle)
  next
    case 3
    then show ?thesis by (simp add: Post_def spec_post_def tally)
  qed
qed

lemma Reserve_refines:
  assumes "totals_ok t" and "amount_ok a"
  shows "map_sum id tally_of (Totals_Reserve t p a) = spec_reserve p (amount_val a) (tally_of t)"
proof -
  have ok: "wide_ok (tt_Held t)" "wide_ok (WideAmount a)" using assms by (simp_all add: totals_ok_def)
  have tally: "tally_of t = (wide_val (tt_Debits t), wide_val (tt_Credits t), wide_val (tt_Held t))"
    by (simp add: tally_of_def)
  show ?thesis
    using ok assms amount_room [OF ok(1) assms(2)]
    by (simp add: Totals_Reserve_def spec_reserve_def tally wid.add_eq Available_settle totals_ok_upd
        not_less map_sum_settle Let_def)
qed

lemma Release_refines:
  assumes "totals_ok t" and "amount_ok a"
  shows "map_sum id tally_of (Totals_Release t a) = spec_release (amount_val a) (tally_of t)"
  using assms amount_val_range [of a]
  by (auto simp: Totals_Release_def spec_release_def totals_ok_def tally_of_def wid.sub_eq not_less)

lemma wide_amount_ok:
  assumes "wide_ok w" and "amount_ok a"
  shows "Wide_Add w (WideAmount a) = Inr u \<Longrightarrow> wide_ok u"
    and "Wide_Sub w (WideAmount a) = Inr u \<Longrightarrow> wide_ok u"
  by (rule wid.add_Inr(1) [OF assms(1) WideAmount_ok [OF assms(2)]], assumption,
      rule wid.sub_Inr(1) [OF assms(1) WideAmount_ok [OF assms(2)]], assumption)

lemma Post_ok:
  assumes "totals_ok t" and "amount_ok a" and "Post t p side a = Inr u"
  shows "totals_ok u"
  using assms
  by (auto simp: Post_def intro: totals_ok_upd dest!: wide_amount_ok(1) [rotated 2]
      split: if_splits) (auto simp: totals_ok_def)

lemma Reserve_ok:
  assumes "totals_ok t" and "amount_ok a" and "Totals_Reserve t p a = Inr u"
  shows "totals_ok u"
  using assms
  by (auto simp: Totals_Reserve_def Let_def totals_ok_def dest!: wide_amount_ok(1) [rotated 2]
      split: if_splits)

lemma Release_ok:
  assumes "totals_ok t" and "amount_ok a" and "Totals_Release t a = Inr u"
  shows "totals_ok u"
  using assms
  by (auto simp: Totals_Release_def totals_ok_def dest!: wide_amount_ok(2) [rotated 2])

lemma settle_Inr: "settle p u = Inr v \<Longrightarrow> v = u \<and> known_purpose p \<and> 0 \<le> spec_available p u"
  by (auto simp: settle_def split: if_splits)

lemma totals_solvent:
  "totals_ok t \<Longrightarrow> settle p (tally_of t) = Inr v \<Longrightarrow> solvent p (tally_of t)"
  by (auto simp: settle_def solvent_def totals_ok_def tally_of_def spec_available_def wide_val_le
      split: if_splits)

lemma Post_Inr:
  assumes "totals_ok t" and "amount_ok a" and "Post t p side a = Inr u"
  shows "solvent p (tally_of u)" and "totals_ok u"
    and "side = Debit \<and> tally_of u = (fst (tally_of t) + amount_val a, snd (tally_of t)) \<or>
         side = Credit \<and> tally_of u =
           (fst (tally_of t), fst (snd (tally_of t)) + amount_val a, snd (snd (tally_of t)))"
proof -
  show ok: "totals_ok u" using assms by (rule Post_ok)
  have spec: "spec_post p side (amount_val a) (tally_of t) = Inr (tally_of u)"
    using Post_refines [OF assms(1,2), of p side] assms(3) by simp
  then have settled: "\<exists>v. settle p v = Inr (tally_of u)"
    by (auto simp: spec_post_def split: prod.splits if_splits)
  then have "settle p (tally_of u) = Inr (tally_of u)" using settle_Inr by metis
  then show "solvent p (tally_of u)" by (rule totals_solvent [OF ok])
  show "side = Debit \<and> tally_of u = (fst (tally_of t) + amount_val a, snd (tally_of t)) \<or>
         side = Credit \<and> tally_of u =
           (fst (tally_of t), fst (snd (tally_of t)) + amount_val a, snd (snd (tally_of t)))"
    using spec by (auto simp: spec_post_def dest!: settle_Inr split: prod.splits if_splits)
qed

lemma Reserve_Inr:
  assumes "totals_ok t" and "amount_ok a" and "Totals_Reserve t p a = Inr u"
  shows "solvent p (tally_of u)" and "totals_ok u" and "p = Wallet \<or> p = ProviderPool"
    and "tally_of u = (fst (tally_of t), fst (snd (tally_of t)), snd (snd (tally_of t)) + amount_val a)"
proof -
  show ok: "totals_ok u" using assms by (rule Reserve_ok)
  have spec: "spec_reserve p (amount_val a) (tally_of t) = Inr (tally_of u)"
    using Reserve_refines [OF assms(1,2), of p] assms(3) by simp
  then have "\<exists>v. settle p v = Inr (tally_of u)"
    by (auto simp: spec_reserve_def split: prod.splits if_splits)
  then have "settle p (tally_of u) = Inr (tally_of u)" using settle_Inr by metis
  then show "solvent p (tally_of u)" by (rule totals_solvent [OF ok])
  show "p = Wallet \<or> p = ProviderPool"
    and "tally_of u = (fst (tally_of t), fst (snd (tally_of t)), snd (snd (tally_of t)) + amount_val a)"
    using spec by (auto simp: spec_reserve_def dest!: settle_Inr split: prod.splits if_splits)
qed

lemma Release_Inr:
  assumes "totals_ok t" and "amount_ok a" and "Totals_Release t a = Inr u"
  shows "totals_ok u"
    and "tally_of u = (fst (tally_of t), fst (snd (tally_of t)), snd (snd (tally_of t)) - amount_val a)"
    and "amount_val a \<le> snd (snd (tally_of t))"
proof -
  show "totals_ok u" using assms by (rule Release_ok)
  have "spec_release (amount_val a) (tally_of t) = Inr (tally_of u)"
    using Release_refines [OF assms(1,2)] assms(3) by simp
  then show "tally_of u = (fst (tally_of t), fst (snd (tally_of t)), snd (snd (tally_of t)) - amount_val a)"
    and "amount_val a \<le> snd (snd (tally_of t))"
    by (auto simp: spec_release_def split: prod.splits if_splits)
qed

section \<open>Journals: facts\<close>

text \<open>What a line must satisfy, the sum of one side, and the text that is hashed.\<close>

definition line_ok :: "book \<Rightarrow> line \<Rightarrow> bool" where
  "line_ok book l = (is_ok (Account_Validate (ln_Account l)) \<and> ac_Book (ln_Account l) = book
     \<and> 0 < amount_val (ln_Amount l) \<and> (ln_Side l = Debit \<or> ln_Side l = Credit))"

definition side_sum :: "side \<Rightarrow> line list \<Rightarrow> int" where
  "side_sum sd ls = (\<Sum>l\<leftarrow>ls. if ln_Side l = sd then amount_val (ln_Amount l) else 0)"

definition line_text :: "line \<Rightarrow> string" where
  "line_text l = ac_ID (ln_Account l) @ ''|'' @ ln_Side l @ ''|'' @ Amount_String (ln_Amount l) @ ''\<newline>''"

definition journal_text :: "book \<Rightarrow> line list \<Rightarrow> string" where
  "journal_text book ls =
     bk_ID book @ ''|'' @ bk_Currency book @ ''|'' @ format_int (bk_Scale book) @ ''\<newline>'' @ concat (map line_text ls)"

lemma side_sum_simps [simp]:
  "side_sum sd [] = 0"
  "side_sum sd (l # ls) = (if ln_Side l = sd then amount_val (ln_Amount l) else 0) + side_sum sd ls"
  by (simp_all add: side_sum_def)

lemma is_ok_Principal: "is_ok (Principal a) \<longleftrightarrow> 0 < amount_val a"
  by (simp add: Principal_def amount_val_def)

lemma amount_pos_ok: "0 < amount_val a \<Longrightarrow> amount_ok a"
  by (simp add: amount_ok_def amount_val_def)

lemma side_sum_nonneg: "\<forall>l\<in>set ls. line_ok book l \<Longrightarrow> 0 \<le> side_sum sd ls"
  by (induction ls) (auto simp: line_ok_def)

lemma side_sum_bound: "side_sum sd ls \<le> int (length ls) * 2 ^ 63"
proof (induction ls)
  case (Cons l ls)
  have "amount_val (ln_Amount l) \<le> 2 ^ 63"
    using sint64_range(2) [of "units (ln_Amount l)"] by (simp add: amount_val_def)
  then show ?case using Cons by (simp add: algebra_simps)
qed simp

lemma journal_loop_sound:
  assumes "journal_loop book ls d c seen written = Inr (d', c', written')" and "wide_ok d" and "wide_ok c"
  shows "wide_ok d' \<and> wide_ok c' \<and> wide_val d' = wide_val d + side_sum Debit ls
    \<and> wide_val c' = wide_val c + side_sum Credit ls \<and> (\<forall>l\<in>set ls. line_ok book l)
    \<and> distinct (map (ac_ID \<circ> ln_Account) ls) \<and> seen \<inter> set (map (ac_ID \<circ> ln_Account) ls) = {}
    \<and> written' = written @ concat (map line_text ls)"
  using assms
proof (induction ls arbitrary: d c seen written)
  case (Cons l ls)
  have ok: "amount_ok (ln_Amount l)"
    using Cons.prems(1) by (auto simp: is_ok_Principal amount_pos_ok split: if_splits)
  note add = wid.add_Inr [OF _ WideAmount_ok [OF ok]]
  consider (debit) d1 where "ln_Side l = Debit" "Wide_Add d (WideAmount (ln_Amount l)) = Inr d1"
      "journal_loop book ls d1 c (insert (ac_ID (ln_Account l)) seen) (written @ line_text l) = Inr (d', c', written')"
    | (credit) c1 where "ln_Side l = Credit" "Wide_Add c (WideAmount (ln_Amount l)) = Inr c1"
      "journal_loop book ls d c1 (insert (ac_ID (ln_Account l)) seen) (written @ line_text l) = Inr (d', c', written')"
    using Cons.prems(1) by (auto simp: Let_def line_text_def split: if_splits)
  then show ?case
  proof cases
    case debit
    then show ?thesis
      using Cons.IH [OF debit(3)] add [OF Cons.prems(2) debit(2)] Cons.prems ok
      by (auto simp: line_ok_def is_ok_Principal split: if_splits)
  next
    case credit
    then show ?thesis
      using Cons.IH [OF credit(3)] add [OF Cons.prems(3) credit(2)] Cons.prems ok
      by (auto simp: line_ok_def is_ok_Principal split: if_splits)
  qed
qed simp

lemma journal_loop_complete:
  assumes "\<forall>l\<in>set ls. line_ok book l" and "distinct (map (ac_ID \<circ> ln_Account) ls)"
    and "seen \<inter> set (map (ac_ID \<circ> ln_Account) ls) = {}" and "wide_ok d" and "wide_ok c"
    and "wide_val d + side_sum Debit ls \<le> wide_max" and "wide_val c + side_sum Credit ls \<le> wide_max"
  shows "is_ok (journal_loop book ls d c seen written)"
  using assms
proof (induction ls arbitrary: d c seen written)
  case (Cons l ls)
  have ok: "amount_ok (ln_Amount l)" and rest: "\<forall>l\<in>set ls. line_ok book l"
    using Cons.prems(1) by (auto simp: line_ok_def amount_pos_ok)
  note nonneg = side_sum_nonneg [OF rest, of Debit] side_sum_nonneg [OF rest, of Credit]
  have step: "\<exists>u. Wide_Add w (WideAmount (ln_Amount l)) = Inr u \<and> wide_ok u
      \<and> wide_val u = wide_val w + amount_val (ln_Amount l)"
    if "wide_ok w" "wide_val w + amount_val (ln_Amount l) \<le> wide_max" for w
    using that ok amount_room [OF that(1) ok] by (simp add: wid.add_eq)
  consider "ln_Side l = Debit" | "ln_Side l = Credit" using Cons.prems(1) by (auto simp: line_ok_def)
  then show ?case
  proof cases
    case 1
    then obtain u where u: "Wide_Add d (WideAmount (ln_Amount l)) = Inr u" "wide_ok u"
        "wide_val u = wide_val d + amount_val (ln_Amount l)"
      using step [of d] Cons.prems nonneg by fastforce
    show ?thesis
      using 1 u Cons.prems nonneg Cons.IH [of "insert (ac_ID (ln_Account l)) seen" u c]
      by (auto simp: Let_def line_ok_def is_ok_Principal)
  next
    case 2
    then obtain u where u: "Wide_Add c (WideAmount (ln_Amount l)) = Inr u" "wide_ok u"
        "wide_val u = wide_val c + amount_val (ln_Amount l)"
      using step [of c] Cons.prems nonneg by fastforce
    show ?thesis
      using 2 u Cons.prems nonneg Cons.IH [of "insert (ac_ID (ln_Account l)) seen" d u]
      by (auto simp: Let_def line_ok_def is_ok_Principal)
  qed
qed simp

definition journal_valid :: "book \<Rightarrow> line list \<Rightarrow> bool" where
  "journal_valid book ls =
     (is_ok (Book_Validate book) \<and> 2 \<le> length ls \<and> length ls \<le> 8 \<and> (\<forall>l\<in>set ls. line_ok book l)
      \<and> distinct (map (ac_ID \<circ> ln_Account) ls) \<and> side_sum Debit ls = side_sum Credit ls)"

lemma NewJournal_sound:
  assumes "NewJournal sha256 book ls = Inr j"
  shows "journal_valid book ls \<and>
    j = \<lparr>jr_book = book, jr_lines = ls, jr_digest = hex_encode (sha256 (journal_text book ls))\<rparr>"
proof -
  obtain d c written where loop: "journal_loop book ls zero_wide zero_wide {}
        (bk_ID book @ ''|'' @ bk_Currency book @ ''|'' @ format_int (bk_Scale book) @ ''\<newline>'') = Inr (d, c, written)"
    and len: "is_ok (Book_Validate book)" "2 \<le> length ls" "length ls \<le> 8" and cmp: "Cmp d c = 0"
    and j: "j = \<lparr>jr_book = book, jr_lines = ls, jr_digest = hex_encode (sha256 written)\<rparr>"
    using assms by (auto simp: NewJournal_def split: if_splits)
  note facts = journal_loop_sound [OF loop zero_wide_ok zero_wide_ok]
  then have "d = c" using cmp by (auto simp: Cmp_iff)
  then show ?thesis using facts len j by (auto simp: journal_valid_def journal_text_def)
qed

lemma NewJournal_complete:
  assumes "journal_valid book ls"
  shows "is_ok (NewJournal sha256 book ls)"
proof -
  have "side_sum sd ls \<le> wide_max" for sd
  proof -
    have "int (length ls) * 2 ^ 63 \<le> 8 * 2 ^ 63" using assms by (simp add: journal_valid_def)
    then show ?thesis using side_sum_bound [of sd ls] by (simp add: wide_max_def)
  qed
  then have "is_ok (journal_loop book ls zero_wide zero_wide {} written)" for written
    using assms by (intro journal_loop_complete) (auto simp: journal_valid_def)
  then obtain d c written where loop: "journal_loop book ls zero_wide zero_wide {}
        (bk_ID book @ ''|'' @ bk_Currency book @ ''|'' @ format_int (bk_Scale book) @ ''\<newline>'') = Inr (d, c, written)"
    by (metis is_ok_iff prod_cases3)
  note facts = journal_loop_sound [OF loop zero_wide_ok zero_wide_ok]
  then have "wide_val d = wide_val c" using assms by (auto simp: journal_valid_def)
  then have "Cmp d c = 0" using facts by (simp add: Cmp_val)
  then show ?thesis using assms loop by (simp add: NewJournal_def journal_valid_def not_less)
qed

section \<open>Fresh identities: facts\<close>

lemma hex_char_not_dash: "d < 16 \<Longrightarrow> hex_char d \<noteq> CHR ''-''"
proof
  assume "d < 16" and "hex_char d = CHR ''-''"
  then have "hex_val CHR ''-'' = Some d" using hex_val_char [of d] by simp
  then show False by (simp add: hex_val_def)
qed

lemma byte_halves: "unat (w :: 8 word) div 16 < 16"
proof -
  have "unat w < 2 ^ LENGTH(8)" by (rule unsigned_less)
  then show ?thesis by simp
qed

lemma hex_encode_chars: "c \<in> set (hex_encode bs) \<Longrightarrow> c \<noteq> CHR ''-'' \<and> lower_char c = c"
  by (auto simp: hex_encode_def hex_byte_def hex_char_not_dash byte_halves)

lemma filter_hex_encode [simp]: "filter (\<lambda>c. c \<noteq> CHR ''-'') (hex_encode bs) = hex_encode bs"
  using hex_encode_chars by (auto simp: filter_id_conv)

lemma lower_hex_encode [simp]: "to_lower (hex_encode bs) = hex_encode bs"
  using hex_encode_chars by (auto simp: to_lower_def map_idI)

lemma hex_encode_append: "hex_encode (xs @ ys) = hex_encode xs @ hex_encode ys"
  by (simp add: hex_encode_def)

lemma to_lower_append [simp]: "to_lower (s @ t) = to_lower s @ to_lower t"
  by (simp add: to_lower_def)

lemma to_lower_dash [simp]: "to_lower (CHR ''-'' # s) = CHR ''-'' # to_lower s"
  by (simp add: to_lower_def lower_char_def)

lemma take_drop_parts:
  "hex_encode (take 4 b) @ hex_encode (take 2 (drop 4 b)) @ hex_encode (take 2 (drop 6 b)) @
   hex_encode (take 2 (drop 8 b)) @ hex_encode (drop 10 b) = hex_encode b"
proof -
  have "take 4 b @ take 2 (drop 4 b) @ take 2 (drop 6 b) @ take 2 (drop 8 b) @ drop 10 b = b"
    using append_take_drop_id [of 2 "drop 8 b"] append_take_drop_id [of 2 "drop 6 b"]
      append_take_drop_id [of 2 "drop 4 b"] append_take_drop_id [of 4 b] by simp
  then show ?thesis by (simp flip: hex_encode_append)
qed

lemma ParseID_hyphenated:
  assumes "length b = 16" and "\<exists>x\<in>set b. x \<noteq> 0"
  defines "s \<equiv> hex_encode (take 4 b) @ ''-'' @ hex_encode (take 2 (drop 4 b)) @ ''-'' @
     hex_encode (take 2 (drop 6 b)) @ ''-'' @ hex_encode (take 2 (drop 8 b)) @ ''-'' @ hex_encode (drop 10 b)"
  shows "ParseID s = Inr s"
proof -
  have "filter (\<lambda>c. c \<noteq> CHR ''-'') s = hex_encode b"
    by (simp add: s_def take_drop_parts)
  moreover have "to_lower s = s" by (simp add: s_def)
  moreover have "length s = 36" "s ! 8 = CHR ''-''" "s ! 13 = CHR ''-''" "s ! 18 = CHR ''-''" "s ! 23 = CHR ''-''"
    using assms(1) by (simp_all add: s_def nth_append min_def)
  ultimately show ?thesis using assms(1,2) by (auto simp: ParseID_def list_ex_iff)
qed

section \<open>Identities made and read\<close>

text \<open>
  Every identity \<open>NewID\<close> produces is a valid, canonical, nonzero UUID, whatever sixteen bytes
  the random source delivers: the version bits keep it from being the refused all-zero value.
\<close>

lemma new_id_valid:
  assumes "length b = 16"
  shows "ID_Valid (NewID b)"
proof -
  define b1 where "b1 = b[6 := (b ! 6 AND 0x0f) OR 0x40]"
  define b2 where "b2 = b1[8 := (b1 ! 8 AND 0x3f) OR 0x80]"
  have "b2 ! 6 = (b ! 6 AND 0x0f) OR 0x40" using assms by (simp add: b2_def b1_def)
  then have "bit (b2 ! 6) 6" by (simp add: bit_simps)
  then have "b2 ! 6 \<noteq> 0" by auto
  moreover have len: "length b2 = 16" using assms by (simp add: b2_def b1_def)
  then have "b2 ! 6 \<in> set b2" by (intro nth_mem) simp
  ultimately have "\<exists>x\<in>set b2. x \<noteq> 0" by blast
  from ParseID_hyphenated [OF len this] have "ParseID (NewID b) = Inr (NewID b)"
    unfolding NewID_def Let_def b2_def b1_def .
  then show ?thesis by (simp add: ID_Valid_ParseID)
qed

lemma new_id_valid_witness:
  "length (replicate 16 0 :: bytes) = 16 \<and> ID_Valid (NewID (replicate 16 0))"
  using new_id_valid [of "replicate 16 0"] by simp

text \<open>
  \<open>ParseID\<close> canonicalises: what it accepts it returns in lower case, the result is valid and
  parses to itself, letter case never changes the verdict, and every refusal is \<open>ErrIdentity\<close>.
\<close>

lemma parse_id_canonical:
  "ParseID (to_lower s) = ParseID s \<and>
   (case ParseID s of Inl e \<Rightarrow> e = ErrIdentity
    | Inr i \<Rightarrow> i = to_lower s \<and> ID_Valid i \<and> ParseID i = Inr i \<and> length i = 36)"
  using ParseID_Inr [of s] ParseID_error [of s] ID_Valid_ParseID
  by (auto simp: ParseID_lower split: sum.split)

text \<open>
  C31. Posting, reserving and releasing on the decimal texts of an account's totals does exactly
  what the specification on integers says, the error of every refusal included: overflow beyond
  38 digits, underflow when available funds would turn negative, an unknown purpose or side.
\<close>

theorem totals_refine_spec:
  assumes "totals_ok t" and "amount_ok a"
  shows "map_sum id tally_of (Post t p side a) = spec_post p side (amount_val a) (tally_of t) \<and>
    map_sum id tally_of (Totals_Reserve t p a) = spec_reserve p (amount_val a) (tally_of t) \<and>
    map_sum id tally_of (Totals_Release t a) = spec_release (amount_val a) (tally_of t)"
  using Post_refines [OF assms] Reserve_refines [OF assms] Release_refines [OF assms] by blast

theorem totals_refine_spec_witness:
  "let t = \<lparr>tt_Debits = Wide ''30'', tt_Credits = Wide ''100'', tt_Held = Wide ''10''\<rparr>; a = Amount 60
   in totals_ok t \<and> amount_ok a
      \<and> map_sum id tally_of (Post t Wallet Debit a) = Inr (90, 100, 10)
      \<and> map_sum id tally_of (Totals_Reserve t Wallet a) = Inr (30, 100, 70)
      \<and> map_sum id tally_of (Totals_Release t a) = Inl ErrUnderflow"
proof -
  define t where "t = \<lparr>tt_Debits = Wide ''30'', tt_Credits = Wide ''100'', tt_Held = Wide ''10''\<rparr>"
  have ok: "totals_ok t" "amount_ok (Amount 60)" by (simp_all add: t_def) code_simp+
  have v: "tally_of t = (30, 100, 10)" "amount_val (Amount 60) = 60" by (simp_all add: t_def) code_simp+
  show ?thesis
    using totals_refine_spec [OF ok, of Wallet Debit] ok
    by (simp add: v spec_post_def spec_reserve_def spec_release_def settle_def known_purpose_def
        spec_available_def spec_posted_def wide_max_def Let_def flip: t_def)
qed

text \<open>
  C30. \<open>NewJournal\<close> accepts exactly the balanced journals: a valid book, two to eight lines on
  distinct valid accounts of that book, positive amounts, known sides and equal sums of debits
  and credits. It returns the lines unchanged with the digest of their text.
\<close>

theorem new_journal_balanced:
  "NewJournal sha256 book ls = Inr j \<longleftrightarrow>
   journal_valid book ls \<and>
   j = \<lparr>jr_book = book, jr_lines = ls, jr_digest = hex_encode (sha256 (journal_text book ls))\<rparr>"
proof
  assume "NewJournal sha256 book ls = Inr j"
  then show "journal_valid book ls \<and>
   j = \<lparr>jr_book = book, jr_lines = ls, jr_digest = hex_encode (sha256 (journal_text book ls))\<rparr>"
    by (rule NewJournal_sound)
next
  assume r: "journal_valid book ls \<and>
   j = \<lparr>jr_book = book, jr_lines = ls, jr_digest = hex_encode (sha256 (journal_text book ls))\<rparr>"
  then have "is_ok (NewJournal sha256 book ls)" by (intro NewJournal_complete) simp
  then obtain j' where j': "NewJournal sha256 book ls = Inr j'" by (auto simp: is_ok_iff)
  from NewJournal_sound [OF j'] r have "j' = j" by simp
  with j' show "NewJournal sha256 book ls = Inr j" by simp
qed

end
