(* ===== verification/Holds.thy ===== *)
theory Holds
  imports Accounting
begin

text \<open>
  \<open>domain/holds.go\<close>: the life of a hold (\<open>HoldStateValue\<close> with its optimistic version) and the
  usage of a daily limit. The hold is a state machine; \<open>hold_step\<close> collects its transitions.
\<close>

section \<open>Hold states\<close>

type_synonym hold_state = string

definition Reserved :: hold_state where "Reserved = ''RESERVED''"
definition Exposed :: hold_state where "Exposed = ''EXPOSED''"
definition Captured :: hold_state where "Captured = ''CAPTURED''"
definition Released :: hold_state where "Released = ''RELEASED''"

lemmas hold_state_defs = Reserved_def Exposed_def Captured_def Released_def

lemma hold_state_distinct [simp]:
  "Reserved \<noteq> Exposed" "Exposed \<noteq> Reserved" "Reserved \<noteq> Captured" "Captured \<noteq> Reserved"
  "Reserved \<noteq> Released" "Released \<noteq> Reserved" "Exposed \<noteq> Captured" "Captured \<noteq> Exposed"
  "Exposed \<noteq> Released" "Released \<noteq> Exposed" "Captured \<noteq> Released" "Released \<noteq> Captured"
  by (simp_all add: hold_state_defs)

record hold_state_value =
  hs_State :: hold_state
  hs_Version :: int64
  hs_ExpiresAt :: time

definition NextVersion :: "int64 \<Rightarrow> int64 result" where
  "NextVersion current =
     (if sint current < 0 \<or> current = MaxInt64 then Inl ErrOverflow else Inr (current + 1))"

definition Hold_Expose :: "hold_state_value \<Rightarrow> int64 \<Rightarrow> time \<Rightarrow> hold_state_value result" where
  "Hold_Expose h expected now =
     (if hs_State h \<noteq> Reserved \<or> hs_Version h \<noteq> expected then Inl ErrState
      else if \<not> Before now (hs_ExpiresAt h) then Inl ErrExpired
      else res_bind (NextVersion (hs_Version h)) (\<lambda>v.
             Inr (h\<lparr>hs_State := Exposed, hs_Version := v\<rparr>)))"

definition Hold_Capture :: "hold_state_value \<Rightarrow> int64 \<Rightarrow> bool \<Rightarrow> hold_state_value result" where
  "Hold_Capture h expected verifiedSuccess =
     (if hs_State h \<noteq> Exposed \<or> hs_Version h \<noteq> expected then Inl ErrState
      else if \<not> verifiedSuccess then Inl ErrEvidence
      else res_bind (NextVersion (hs_Version h)) (\<lambda>v.
             Inr (h\<lparr>hs_State := Captured, hs_Version := v\<rparr>)))"

definition Hold_Release :: "hold_state_value \<Rightarrow> int64 \<Rightarrow> bool \<Rightarrow> hold_state_value result" where
  "Hold_Release h expected verifiedFencedFailure =
     (if hs_Version h \<noteq> expected \<or> (hs_State h \<noteq> Reserved \<and> hs_State h \<noteq> Exposed) then Inl ErrState
      else if hs_State h = Exposed \<and> \<not> verifiedFencedFailure then Inl ErrEvidence
      else res_bind (NextVersion (hs_Version h)) (\<lambda>v.
             Inr (h\<lparr>hs_State := Released, hs_Version := v\<rparr>)))"

section \<open>Limit usage\<close>

record usage_values =
  uv_Reserved :: wide
  uv_Consumed :: wide

definition Usage_Admit :: "usage_values \<Rightarrow> wide \<Rightarrow> amount \<Rightarrow> bool \<Rightarrow> usage_values result" where
  "Usage_Admit u cap amount reserve =
     res_bind (Wide_Add (uv_Reserved u) (uv_Consumed u)) (\<lambda>total0.
     res_bind (Wide_Add total0 (WideAmount amount)) (\<lambda>total.
       if Cmp total cap > 0 then Inl ErrLimit
       else if reserve
         then res_bind (Wide_Add (uv_Reserved u) (WideAmount amount)) (\<lambda>w. Inr (u\<lparr>uv_Reserved := w\<rparr>))
         else res_bind (Wide_Add (uv_Consumed u) (WideAmount amount)) (\<lambda>w. Inr (u\<lparr>uv_Consumed := w\<rparr>))))"

definition Usage_Resolve :: "usage_values \<Rightarrow> amount \<Rightarrow> bool \<Rightarrow> usage_values result" where
  "Usage_Resolve u amount capture =
     res_bind (Wide_Sub (uv_Reserved u) (WideAmount amount)) (\<lambda>r.
       let next = u\<lparr>uv_Reserved := r\<rparr>
       in if capture
          then res_bind (Wide_Add (uv_Consumed u) (WideAmount amount)) (\<lambda>c. Inr (next\<lparr>uv_Consumed := c\<rparr>))
          else Inr next)"

section \<open>Versions\<close>

lemma NextVersion_Inr:
  assumes "NextVersion v = Inr w"
  shows "sint w = sint v + 1" and "0 < sint w" and "0 \<le> sint v" and "w \<noteq> v"
proof -
  have nonneg: "0 \<le> sint v" and w: "w = v + 1" and "v \<noteq> MaxInt64"
    using assms by (auto simp: NextVersion_def split: if_splits)
  then have "sint v \<noteq> sint MaxInt64" by (simp add: sint64_eq_iff del: sint_MaxInt64)
  then have "sint v + 1 < 2 ^ 63" using sint64_range(2) [of v] by simp
  then show "sint w = sint v + 1" using w nonneg sint64_add [of v 1] by simp
  then show "0 < sint w" and "w \<noteq> v" using nonneg by auto
  show "0 \<le> sint v" by (rule nonneg)
qed

lemma NextVersion_Inl: "NextVersion v = Inl e \<longleftrightarrow> e = ErrOverflow \<and> (sint v < 0 \<or> v = MaxInt64)"
  by (auto simp: NextVersion_def)

section \<open>The hold state machine\<close>

inductive hold_step :: "hold_state_value \<Rightarrow> hold_state_value \<Rightarrow> bool" where
  expose: "Hold_Expose h expected now = Inr h' \<Longrightarrow> hold_step h h'"
| capture: "Hold_Capture h expected verified = Inr h' \<Longrightarrow> hold_step h h'"
| release: "Hold_Release h expected fenced = Inr h' \<Longrightarrow> hold_step h h'"

text \<open>A hold as \<open>admit\<close> creates it: reserved, version 1.\<close>

definition new_hold_state :: "time \<Rightarrow> hold_state_value" where
  "new_hold_state t = \<lparr>hs_State = Reserved, hs_Version = 1, hs_ExpiresAt = t\<rparr>"

inductive hold_reachable :: "time \<Rightarrow> hold_state_value \<Rightarrow> bool" for t where
  new: "hold_reachable t (new_hold_state t)"
| step: "hold_reachable t h \<Longrightarrow> hold_step h h' \<Longrightarrow> hold_reachable t h'"

definition open_hold :: "hold_state_value \<Rightarrow> bool" where
  "open_hold h = (hs_State h = Reserved \<or> hs_State h = Exposed)"

lemma Expose_Inr:
  "Hold_Expose h expected now = Inr h' \<longleftrightarrow>
     hs_State h = Reserved \<and> hs_Version h = expected \<and> Before now (hs_ExpiresAt h)
     \<and> (\<exists>v. NextVersion (hs_Version h) = Inr v \<and> h' = h\<lparr>hs_State := Exposed, hs_Version := v\<rparr>)"
  by (auto simp: Hold_Expose_def)

lemma Capture_Inr:
  "Hold_Capture h expected verified = Inr h' \<longleftrightarrow>
     hs_State h = Exposed \<and> hs_Version h = expected \<and> verified
     \<and> (\<exists>v. NextVersion (hs_Version h) = Inr v \<and> h' = h\<lparr>hs_State := Captured, hs_Version := v\<rparr>)"
  by (auto simp: Hold_Capture_def)

lemma HRelease_Inr:
  "Hold_Release h expected fenced = Inr h' \<longleftrightarrow>
     open_hold h \<and> hs_Version h = expected \<and> (hs_State h = Exposed \<longrightarrow> fenced)
     \<and> (\<exists>v. NextVersion (hs_Version h) = Inr v \<and> h' = h\<lparr>hs_State := Released, hs_Version := v\<rparr>)"
  by (auto simp: Hold_Release_def open_hold_def)

lemmas hold_ops_Inr = Expose_Inr Capture_Inr HRelease_Inr

lemma hold_stepD:
  assumes "hold_step h h'"
  shows "open_hold h" and "sint (hs_Version h') = sint (hs_Version h) + 1"
    and "hs_ExpiresAt h' = hs_ExpiresAt h"
    and "hs_State h = Reserved \<and> (hs_State h' = Exposed \<or> hs_State h' = Released) \<or>
         hs_State h = Exposed \<and> (hs_State h' = Captured \<or> hs_State h' = Released)"
  using assms
  by (cases rule: hold_step.cases; auto simp: hold_ops_Inr open_hold_def dest: NextVersion_Inr)+

section \<open>Usage: the specification on integers\<close>

definition usage_ok :: "usage_values \<Rightarrow> bool" where
  "usage_ok u = (wide_ok (uv_Reserved u) \<and> wide_ok (uv_Consumed u))"

definition usage_of :: "usage_values \<Rightarrow> int \<times> int" where
  "usage_of u = (wide_val (uv_Reserved u), wide_val (uv_Consumed u))"

definition spec_admit :: "int \<Rightarrow> int \<Rightarrow> bool \<Rightarrow> int \<times> int \<Rightarrow> (int \<times> int) result" where
  "spec_admit cap n reserve = (\<lambda>(r, c).
     if r + c + n > wide_max then Inl ErrOverflow
     else if r + c + n > cap then Inl ErrLimit
     else Inr (if reserve then (r + n, c) else (r, c + n)))"

definition spec_resolve :: "int \<Rightarrow> bool \<Rightarrow> int \<times> int \<Rightarrow> (int \<times> int) result" where
  "spec_resolve n capture = (\<lambda>(r, c).
     if r < n then Inl ErrUnderflow
     else if capture \<and> c + n > wide_max then Inl ErrOverflow
     else Inr (r - n, if capture then c + n else c))"

lemma Usage_Admit_refines:
  assumes ok: "usage_ok u" "wide_ok cap" "amount_ok a"
  shows "map_sum id usage_of (Usage_Admit u cap a reserve) =
    spec_admit (wide_val cap) (amount_val a) reserve (usage_of u)"
proof -
  let ?R = "wide_val (uv_Reserved u)" and ?C = "wide_val (uv_Consumed u)" and ?A = "amount_val a"
  have w: "wide_ok (uv_Reserved u)" "wide_ok (uv_Consumed u)" "wide_ok (WideAmount a)"
    using ok by (simp_all add: usage_ok_def)
  have nonneg: "0 \<le> ?R" "0 \<le> ?C" "0 \<le> ?A" using amount_val_range [OF ok(3)] by simp_all
  show ?thesis
  proof (cases "?R + ?C + ?A \<le> wide_max")
    case True
    then have fits: "?R + ?C \<le> wide_max" "?R + ?A \<le> wide_max" "?C + ?A \<le> wide_max"
      using nonneg by linarith+
    have mk: "wide_ok (wide_of n) \<and> wide_val (wide_of n) = n" if "0 \<le> n" "n \<le> wide_max" for n
      using that by (simp add: wide_of_ok)
    show ?thesis
      using True fits nonneg w ok mk [of "?R + ?C"] mk [of "?R + ?C + ?A"] mk [of "?R + ?A"] mk [of "?C + ?A"]
      by (simp add: Usage_Admit_def spec_admit_def usage_of_def wid.add_eq Cmp_iff not_less not_le)
         (insert fits, auto)
  next
    case False
    have mk: "?R + ?C \<le> wide_max \<Longrightarrow> wide_ok (wide_of (?R + ?C)) \<and> wide_val (wide_of (?R + ?C)) = ?R + ?C"
      using nonneg by (simp add: wide_of_ok)
    show ?thesis
      using False nonneg w ok mk
      by (cases "?R + ?C \<le> wide_max") (simp_all add: Usage_Admit_def spec_admit_def usage_of_def wid.add_eq)
  qed
qed

lemma Usage_Resolve_refines:
  assumes ok: "usage_ok u" "amount_ok a"
  shows "map_sum id usage_of (Usage_Resolve u a capture) =
    spec_resolve (amount_val a) capture (usage_of u)"
proof -
  have w: "wide_ok (uv_Reserved u)" "wide_ok (uv_Consumed u)" "wide_ok (WideAmount a)"
    and a: "0 \<le> amount_val a"
    using ok amount_val_range [OF ok(2)] by (simp_all add: usage_ok_def)
  show ?thesis
    using w a ok(2)
    by (simp add: Usage_Resolve_def spec_resolve_def usage_of_def wid.add_eq wid.sub_eq Let_def not_less
        add_nonneg_nonneg)
qed

lemma Usage_Admit_ok:
  assumes "usage_ok u" and "amount_ok a" and "Usage_Admit u cap a reserve = Inr v"
  shows "usage_ok v"
  using assms
  by (auto simp: Usage_Admit_def usage_ok_def dest!: wide_amount_ok(1) [rotated 2] split: if_splits)

lemma Usage_Resolve_ok:
  assumes "usage_ok u" and "amount_ok a" and "Usage_Resolve u a capture = Inr v"
  shows "usage_ok v"
  using assms
  by (auto simp: Usage_Resolve_def usage_ok_def Let_def split: if_splits
      dest!: wide_amount_ok(1) [rotated 2] wide_amount_ok(2) [rotated 2])

section \<open>Properties\<close>

text \<open>
  C32. The life of a hold: whatever sequence of expose, capture and release commands succeeds, a
  hold is reserved at version 1, exposed at version 2, captured at version 3, or released at
  version 2 (never exposed) or 3 (after exposure); its expiry never changes. So a hold is
  resolved at most once, and never captured without having been exposed.
\<close>

theorem hold_lifecycle:
  assumes "hold_reachable t h"
  shows "hs_ExpiresAt h = t \<and>
    (hs_State h, sint (hs_Version h)) \<in>
      {(Reserved, 1), (Exposed, 2), (Captured, 3), (Released, 2), (Released, 3)}"
  using assms
proof (induction rule: hold_reachable.induct)
  case new
  show ?case by (simp add: new_hold_state_def)
next
  case (step h h')
  from hold_stepD [OF step.hyps(2)] step.IH show ?case by auto
qed

theorem hold_lifecycle_witness:
  "hold_reachable \<lparr>t_ns = 100, t_offset = 0\<rparr>
       \<lparr>hs_State = Exposed, hs_Version = 2, hs_ExpiresAt = \<lparr>t_ns = 100, t_offset = 0\<rparr>\<rparr> \<and>
   (Exposed, sint (2 :: int64)) \<in>
     {(Reserved, 1), (Exposed, 2), (Captured, 3), (Released, 2), (Released, 3)}"
proof -
  let ?t = "\<lparr>t_ns = 100, t_offset = 0\<rparr>"
  have "Hold_Expose (new_hold_state ?t) 1 \<lparr>t_ns = 50, t_offset = 0\<rparr> =
      Inr \<lparr>hs_State = Exposed, hs_Version = 2, hs_ExpiresAt = ?t\<rparr>"
    by (simp add: Hold_Expose_def new_hold_state_def Before_def NextVersion_def MaxInt64_def)
  then have r: "hold_reachable ?t \<lparr>hs_State = Exposed, hs_Version = 2, hs_ExpiresAt = ?t\<rparr>"
    by (intro hold_reachable.step [OF hold_reachable.new] hold_step.expose)
  from hold_lifecycle [OF r] r show ?thesis by simp
qed

text \<open>
  Optimistic concurrency of holds: once a command has moved a hold, every command that still
  carries the version it moved from is refused with a state conflict, so of two commands racing
  on one version at most one takes effect. A resolved hold refuses every command.
\<close>

lemma hold_stale_version_refused:
  assumes "hold_step h h'"
  shows "Hold_Expose h' (hs_Version h) now = Inl ErrState \<and>
    Hold_Capture h' (hs_Version h) verified = Inl ErrState \<and>
    Hold_Release h' (hs_Version h) fenced = Inl ErrState \<and>
    (\<not> open_hold h' \<longrightarrow> (\<forall>h''. \<not> hold_step h' h''))"
proof -
  have "hs_Version h' \<noteq> hs_Version h" using hold_stepD(2) [OF assms] by auto
  then show ?thesis using hold_stepD(1) [of h']
    by (auto simp: Hold_Expose_def Hold_Capture_def Hold_Release_def)
qed

lemma hold_stale_version_refused_witness:
  "let h = \<lparr>hs_State = Exposed, hs_Version = 2, hs_ExpiresAt = \<lparr>t_ns = 100, t_offset = 0\<rparr>\<rparr>;
       h' = \<lparr>hs_State = Captured, hs_Version = 3, hs_ExpiresAt = \<lparr>t_ns = 100, t_offset = 0\<rparr>\<rparr>
   in hold_step h h' \<and> Hold_Release h' 2 True = Inl ErrState \<and> \<not> open_hold h'
      \<and> (\<forall>h''. \<not> hold_step h' h'')"
proof -
  let ?h = "\<lparr>hs_State = Exposed, hs_Version = 2, hs_ExpiresAt = \<lparr>t_ns = 100, t_offset = 0\<rparr>\<rparr>"
  let ?h' = "\<lparr>hs_State = Captured, hs_Version = 3, hs_ExpiresAt = \<lparr>t_ns = 100, t_offset = 0\<rparr>\<rparr>"
  have "Hold_Capture ?h 2 True = Inr ?h'"
    by (simp add: Hold_Capture_def NextVersion_def MaxInt64_def)
  then have s: "hold_step ?h ?h'" by (rule hold_step.capture)
  have o: "\<not> open_hold ?h'" by (simp add: open_hold_def)
  from hold_stale_version_refused [OF s, of undefined undefined True] s o show ?thesis
    by (simp add: Let_def)
qed

text \<open>
  C33. Daily limits: admission and resolution on the decimal texts do exactly what the
  specification on integers says. Admission succeeds if and only if reserved plus consumed plus
  the new amount stays within the cap; it adds the amount to one of the two and leaves the
  other; resolution moves a reservation into consumption or gives it back.
\<close>

theorem usage_refines_spec:
  assumes "usage_ok u" and "wide_ok cap" and "amount_ok a"
  shows "map_sum id usage_of (Usage_Admit u cap a reserve) =
      spec_admit (wide_val cap) (amount_val a) reserve (usage_of u) \<and>
    map_sum id usage_of (Usage_Resolve u a capture) =
      spec_resolve (amount_val a) capture (usage_of u)"
  using Usage_Admit_refines [OF assms] Usage_Resolve_refines [OF assms(1,3)] by blast

theorem usage_refines_spec_witness:
  "let u = \<lparr>uv_Reserved = Wide ''500'', uv_Consumed = Wide ''400''\<rparr>; cap = Wide ''1000''; a = Amount 100
   in usage_ok u \<and> wide_ok cap \<and> amount_ok a
      \<and> map_sum id usage_of (Usage_Admit u cap a True) = Inr (600, 400)
      \<and> map_sum id usage_of (Usage_Resolve u a True) = Inr (400, 500)"
proof -
  define u where "u = \<lparr>uv_Reserved = Wide ''500'', uv_Consumed = Wide ''400''\<rparr>"
  have ok: "usage_ok u" "wide_ok (Wide ''1000'')" "amount_ok (Amount 100)"
    by (simp_all add: u_def) code_simp+
  have v: "usage_of u = (500, 400)" "wide_val (Wide ''1000'') = 1000" "amount_val (Amount 100) = 100"
    by (simp_all add: u_def) code_simp+
  show ?thesis
    using usage_refines_spec [OF ok, of True True] ok
    by (simp add: v spec_admit_def spec_resolve_def wide_max_def Let_def flip: u_def)
qed

end
