(* ===== verification/Model.thy ===== *)
theory Model
  imports Holds
begin

text \<open>
  The data of \<open>application/model.go\<close> and \<open>application/auth.go\<close>: callers, commands, loaded state,
  plans and receipts. A Go pointer that may be nil is an option; a \<open>map\<close> is a partial function,
  except for the grants of a caller, whose size the code asks for and which are association lists.
\<close>

section \<open>Callers\<close>

type_synonym kind = string

definition CreateAccount :: kind where "CreateAccount = ''CREATE_ACCOUNT''"
definition TransferInternal :: kind where "TransferInternal = ''TRANSFER_INTERNAL''"
definition ReservePayout :: kind where "ReservePayout = ''RESERVE_PAYOUT''"
definition MarkHoldExposed :: kind where "MarkHoldExposed = ''MARK_HOLD_EXPOSED''"
definition CapturePayout :: kind where "CapturePayout = ''CAPTURE_PAYOUT''"
definition ReleasePayout :: kind where "ReleasePayout = ''RELEASE_PAYOUT''"
definition SetAccountControl :: kind where "SetAccountControl = ''SET_ACCOUNT_CONTROL''"

lemmas kind_defs = CreateAccount_def TransferInternal_def ReservePayout_def MarkHoldExposed_def
  CapturePayout_def ReleasePayout_def SetAccountControl_def

lemma kind_distinct [simp]:
  "CreateAccount \<noteq> TransferInternal" "CreateAccount \<noteq> ReservePayout" "CreateAccount \<noteq> MarkHoldExposed" "CreateAccount \<noteq> CapturePayout" "CreateAccount \<noteq> ReleasePayout" "CreateAccount \<noteq> SetAccountControl"
  "TransferInternal \<noteq> CreateAccount" "TransferInternal \<noteq> ReservePayout" "TransferInternal \<noteq> MarkHoldExposed" "TransferInternal \<noteq> CapturePayout" "TransferInternal \<noteq> ReleasePayout" "TransferInternal \<noteq> SetAccountControl"
  "ReservePayout \<noteq> CreateAccount" "ReservePayout \<noteq> TransferInternal" "ReservePayout \<noteq> MarkHoldExposed" "ReservePayout \<noteq> CapturePayout" "ReservePayout \<noteq> ReleasePayout" "ReservePayout \<noteq> SetAccountControl"
  "MarkHoldExposed \<noteq> CreateAccount" "MarkHoldExposed \<noteq> TransferInternal" "MarkHoldExposed \<noteq> ReservePayout" "MarkHoldExposed \<noteq> CapturePayout" "MarkHoldExposed \<noteq> ReleasePayout" "MarkHoldExposed \<noteq> SetAccountControl"
  "CapturePayout \<noteq> CreateAccount" "CapturePayout \<noteq> TransferInternal" "CapturePayout \<noteq> ReservePayout" "CapturePayout \<noteq> MarkHoldExposed" "CapturePayout \<noteq> ReleasePayout" "CapturePayout \<noteq> SetAccountControl"
  "ReleasePayout \<noteq> CreateAccount" "ReleasePayout \<noteq> TransferInternal" "ReleasePayout \<noteq> ReservePayout" "ReleasePayout \<noteq> MarkHoldExposed" "ReleasePayout \<noteq> CapturePayout" "ReleasePayout \<noteq> SetAccountControl"
  "SetAccountControl \<noteq> CreateAccount" "SetAccountControl \<noteq> TransferInternal" "SetAccountControl \<noteq> ReservePayout" "SetAccountControl \<noteq> MarkHoldExposed" "SetAccountControl \<noteq> CapturePayout" "SetAccountControl \<noteq> ReleasePayout"
  by (simp_all add: kind_defs)

record caller =
  cl_Identity :: string
  cl_Books :: "(ID \<times> bool) list"
  cl_Permissions :: "(string \<times> bool) list"
  cl_Subjects :: "(ID \<times> bool) list"

definition Allows :: "caller \<Rightarrow> ID \<Rightarrow> string \<Rightarrow> bool" where
  "Allows c book permission =
     (cl_Identity c \<noteq> [] \<and> map_get False (map_of (cl_Books c)) book
      \<and> map_get False (map_of (cl_Permissions c)) permission)"

text \<open>An empty subject set grants every subject of the allowed books.\<close>

definition AllowsSubject :: "caller \<Rightarrow> ID \<Rightarrow> bool" where
  "AllowsSubject c subject =
     (length (cl_Subjects c) = 0 \<or> map_get False (map_of (cl_Subjects c)) subject)"

section \<open>Signed authorisations\<close>

record grant =
  gr_ID :: ID
  gr_Issuer :: string
  gr_BookID :: ID
  gr_PaymentID :: ID
  gr_SubjectID :: ID
  gr_SourceID :: ID
  gr_BeneficiaryID :: ID
  gr_Principal :: amount
  gr_Fee :: amount
  gr_PolicyID :: ID
  gr_QuoteID :: ID
  gr_Currency :: string
  gr_SubjectEpoch :: int64
  gr_AccountEpoch :: int64
  gr_NotBefore :: time
  gr_ExpiresAt :: time

record signed_grant =
  sg_Claims :: grant
  sg_Signature :: string

record evidence =
  ev_ID :: ID
  ev_Issuer :: string
  ev_BookID :: ID
  ev_PaymentID :: ID
  ev_HoldID :: ID
  ev_AttemptID :: ID
  ev_ProviderAccountID :: ID
  ev_BeneficiaryID :: ID
  ev_Principal :: amount
  ev_Currency :: string
  ev_CapabilityID :: ID
  ev_FinalState :: string
  ev_SubmissionFenced :: bool
  ev_ObservedAt :: time
  ev_SourceDigest :: string

record signed_evidence =
  se_Claims :: evidence
  se_Signature :: string

record trust =
  ts_GrantKeys :: "string \<rightharpoonup> bytes"
  ts_EvidenceKeys :: "string \<rightharpoonup> bytes"

section \<open>Commands\<close>

record create =
  cr_AccountID :: ID
  cr_OwnerID :: ID
  cr_Purpose :: purpose

record terms =
  tm_PaymentID :: ID
  tm_SourceID :: ID
  tm_BeneficiaryID :: ID
  tm_Principal :: amount
  tm_Fee :: amount
  tm_Currency :: string
  tm_PolicyID :: ID
  tm_QuoteID :: ID
  tm_Grant :: signed_grant

record transfer =
  tr_Terms :: terms

record reserve =
  rs_Terms :: terms
  rs_HoldID :: ID
  rs_AttemptID :: ID
  rs_PoolID :: ID
  rs_ExpiresAt :: time

record hold_ref =
  rf_PaymentID :: ID
  rf_HoldID :: ID
  rf_AttemptID :: ID
  rf_ExpectedVersion :: int64

record expose =
  ex_Ref :: hold_ref
  ex_GrantID :: ID

record capture =
  cp_Ref :: hold_ref
  cp_Evidence :: signed_evidence

record release =
  rl_Ref :: hold_ref
  rl_Reason :: string
  rl_Evidence :: "signed_evidence option"

record control_key =
  ck_Kind :: string
  ck_ID :: ID

abbreviation Key :: "string \<Rightarrow> ID \<Rightarrow> control_key" where
  "Key k i \<equiv> \<lparr>ck_Kind = k, ck_ID = i\<rparr>"

definition ControlKey_String :: "control_key \<Rightarrow> string" where
  "ControlKey_String k = ck_Kind k @ '':'' @ ck_ID k"

record set_control =
  sc_Key :: control_key
  sc_ExpectedVersion :: int64
  sc_DebitFrozen :: bool
  sc_CreditFrozen :: bool
  sc_DailyCap :: wide
  sc_RevokeGrants :: bool
  sc_Reason :: string

record command =
  cm_BookID :: ID
  cm_OperationID :: ID
  cm_Kind :: kind
  cm_Create :: "create option"
  cm_Transfer :: "transfer option"
  cm_Reserve :: "reserve option"
  cm_Expose :: "expose option"
  cm_Capture :: "capture option"
  cm_Release :: "release option"
  cm_Control :: "set_control option"

section \<open>Loaded state\<close>

record app_book =
  bo_Book :: book
  bo_DefaultCap :: wide
  bo_Synthetic :: bool

record policy =
  po_ID :: ID
  po_Fee :: amount
  po_FeeAccountID :: ID
  po_PoolID :: ID
  po_ProviderAccountID :: ID
  po_CapabilityID :: ID
  po_MaxHoldSeconds :: int64

record balance =
  bl_AccountID :: ID
  bl_Totals :: totals
  bl_Version :: int64

record control =
  ct_Key :: control_key
  ct_Version :: int64
  ct_Epoch :: int64
  ct_DebitFrozen :: bool
  ct_CreditFrozen :: bool
  ct_DailyCap :: wide

record hold =
  hd_ID :: ID
  hd_Terms :: terms
  hd_OwnerID :: ID
  hd_AttemptID :: ID
  hd_PoolID :: ID
  hd_FeeAccountID :: ID
  hd_ProviderAccountID :: ID
  hd_CapabilityID :: ID
  hd_Bucket :: string
  hd_State :: hold_state_value

record claim =
  cc_PaymentID :: ID
  cc_AdmissionOperationID :: ID
  cc_AdmissionOutcome :: string
  cc_MaterialHash :: string
  cc_State :: string
  cc_HoldID :: ID
  cc_ResultOperationID :: ID

record usage =
  ug_OwnerID :: ID
  ug_Bucket :: string
  ug_Values :: usage_values
  ug_Version :: int64

record 'a change =
  ch_Before :: "'a option"
  ch_After :: 'a

record receipt =
  rc_CallerIdentity :: string
  rc_SchemaVersion :: string
  rc_BookID :: ID
  rc_OperationID :: ID
  rc_Kind :: kind
  rc_RequestHash :: string
  rc_Outcome :: string
  rc_Reason :: string
  rc_PaymentID :: ID
  rc_SubjectIDs :: "ID list"
  rc_JournalID :: ID
  rc_HoldID :: ID
  rc_HoldVersion :: int64
  rc_ControlVersions :: "string \<rightharpoonup> string"
  rc_AccountVersions :: "ID \<rightharpoonup> string"
  rc_PolicyID :: ID
  rc_EvidenceID :: ID
  rc_LimitChange :: "usage change option"
  rc_RecordedAt :: time
  rc_EventID :: ID

record operation =
  op_Canonical :: string
  op_Receipt :: receipt

record state =
  st_Book :: app_book
  st_Accounts :: "ID \<rightharpoonup> account"
  st_Balances :: "ID \<rightharpoonup> balance"
  st_Controls :: "control_key \<rightharpoonup> control"
  st_Policy :: "policy option"
  st_Claim :: "claim option"
  st_Hold :: "hold option"
  st_Usage :: "usage option"

record plan =
  pl_Command :: command
  pl_Canonical :: string
  pl_Receipt :: receipt
  pl_NewAccount :: "account option"
  pl_Journal :: "journal option"
  pl_Balances :: "balance change list"
  pl_Controls :: "control change list"
  pl_Hold :: "hold change option"
  pl_Usage :: "usage change option"
  pl_Claim :: "claim change option"
  pl_Evidence :: "evidence option"

text \<open>Zero values Go produces for an absent map entry or a fresh struct.\<close>

abbreviation zero_totals :: totals where
  "zero_totals \<equiv> \<lparr>tt_Debits = zero_wide, tt_Credits = zero_wide, tt_Held = zero_wide\<rparr>"

abbreviation zero_book :: book where
  "zero_book \<equiv> \<lparr>bk_ID = [], bk_Currency = [], bk_Scale = 0\<rparr>"

abbreviation zero_account :: account where
  "zero_account \<equiv> \<lparr>ac_ID = [], ac_Book = zero_book, ac_Owner = [], ac_Purpose = []\<rparr>"

abbreviation zero_usage :: usage_values where
  "zero_usage \<equiv> \<lparr>uv_Reserved = zero_wide, uv_Consumed = zero_wide\<rparr>"

text \<open>
  Components the program calls and does not define: JSON canonicalisation (\<open>json.Marshal\<close>
  followed by \<open>jsoncanonicalizer.Transform\<close>) of a JSON value, SHA-256, Ed25519 verification,
  the offset of Africa/Nairobi in the time-zone database, in seconds, at an instant, and the
  instant a TIMESTAMPTZ column gives back for the one written to it. Each is a field of this
  record, an argument of the definitions that use it.
\<close>

datatype json =
    JNull | JBool bool | JNum string | JStr string | JTime time
  | JArr "json list" | JObj "(string \<times> json) list"

record env =
  en_Canonical :: "json \<Rightarrow> string result"
  en_sha256 :: "string \<Rightarrow> bytes"
  en_verify :: "bytes \<Rightarrow> string \<Rightarrow> bytes \<Rightarrow> bool"
  en_zone :: "int \<Rightarrow> int"
  en_timestamptz :: "time \<Rightarrow> time"

end
