(* ===== verification/Auth.thy ===== *)
theory Auth
  imports Model
begin

text \<open>
  \<open>application/auth.go\<close>: the canonical message of a grant or an evidence record, signature
  verification, and the two bindings the ledger checks before it acts on signed claims. JSON
  objects are written with their keys in order, as \<open>json.Unmarshal\<close> into a Go map followed by
  canonicalisation makes the order of struct fields irrelevant.
\<close>

section \<open>Unpadded URL-safe base64\<close>

definition b64_val :: "char \<Rightarrow> nat option" where
  "b64_val c =
     (let n = of_char c :: nat
      in if 65 \<le> n \<and> n \<le> 90 then Some (n - 65)
         else if 97 \<le> n \<and> n \<le> 122 then Some (n - 71)
         else if 48 \<le> n \<and> n \<le> 57 then Some (n + 4)
         else if n = 45 then Some 62 else if n = 95 then Some 63 else None)"

fun b64_quanta :: "nat list \<Rightarrow> bytes option" where
  "b64_quanta [] = Some []"
| "b64_quanta [_] = None"
| "b64_quanta [a, b] = Some [word_of_nat (4 * a + b div 16)]"
| "b64_quanta [a, b, c] =
     Some [word_of_nat (4 * a + b div 16), word_of_nat (16 * (b mod 16) + c div 4)]"
| "b64_quanta (a # b # c # d # r) =
     map_option (\<lambda>bs. word_of_nat (4 * a + b div 16) # word_of_nat (16 * (b mod 16) + c div 4)
       # word_of_nat (64 * (c mod 4) + d) # bs) (b64_quanta r)"

text \<open>\<open>base64.RawURLEncoding.DecodeString\<close>, which skips carriage returns and line feeds.\<close>

definition b64_decode :: "string \<Rightarrow> bytes option" where
  "b64_decode s =
     Option.bind (those (map b64_val (filter (\<lambda>c. of_char c \<noteq> (10 :: nat) \<and> of_char c \<noteq> (13 :: nat)) s)))
       b64_quanta"

section \<open>Claims as JSON\<close>

definition grant_json :: "grant \<Rightarrow> json" where
  "grant_json g = JObj
     [(''account_epoch'', JStr (format_int64 (gr_AccountEpoch g))),
      (''beneficiary_id'', JStr (gr_BeneficiaryID g)),
      (''book_id'', JStr (gr_BookID g)),
      (''currency'', JStr (gr_Currency g)),
      (''expires_at'', JTime (gr_ExpiresAt g)),
      (''fee'', JStr (Amount_String (gr_Fee g))),
      (''id'', JStr (gr_ID g)),
      (''issuer'', JStr (gr_Issuer g)),
      (''not_before'', JTime (gr_NotBefore g)),
      (''payment_id'', JStr (gr_PaymentID g)),
      (''policy_id'', JStr (gr_PolicyID g)),
      (''principal'', JStr (Amount_String (gr_Principal g))),
      (''quote_id'', JStr (gr_QuoteID g)),
      (''source_id'', JStr (gr_SourceID g)),
      (''subject_epoch'', JStr (format_int64 (gr_SubjectEpoch g))),
      (''subject_id'', JStr (gr_SubjectID g))]"

definition evidence_json :: "evidence \<Rightarrow> json" where
  "evidence_json e = JObj
     [(''attempt_id'', JStr (ev_AttemptID e)),
      (''beneficiary_id'', JStr (ev_BeneficiaryID e)),
      (''book_id'', JStr (ev_BookID e)),
      (''capability_id'', JStr (ev_CapabilityID e)),
      (''currency'', JStr (ev_Currency e)),
      (''final_state'', JStr (ev_FinalState e)),
      (''hold_id'', JStr (ev_HoldID e)),
      (''id'', JStr (ev_ID e)),
      (''issuer'', JStr (ev_Issuer e)),
      (''observed_at'', JTime (ev_ObservedAt e)),
      (''payment_id'', JStr (ev_PaymentID e)),
      (''principal'', JStr (Amount_String (ev_Principal e))),
      (''provider_account_id'', JStr (ev_ProviderAccountID e)),
      (''source_digest'', JStr (ev_SourceDigest e)),
      (''submission_fenced'', JBool (ev_SubmissionFenced e))]"

section \<open>Verification\<close>

definition hash :: "env \<Rightarrow> string \<Rightarrow> string" where
  "hash E s = hex_encode (en_sha256 E s)"

definition proofMessage :: "env \<Rightarrow> string \<Rightarrow> json \<Rightarrow> string result" where
  "proofMessage E purpose claims =
     res_bind (en_Canonical E claims) (\<lambda>canonical.
       Inr (''pesaro.ledger/'' @ purpose @ ''/v1\<newline>'' @ canonical))"

text \<open>An issuer without a key has the nil key, which is not 32 bytes long.\<close>

definition verifyProof :: "env \<Rightarrow> string \<Rightarrow> json \<Rightarrow> string \<Rightarrow> bytes \<Rightarrow> bool" where
  "verifyProof E purpose claims signature key =
     (if length key \<noteq> 32 \<or> length signature > 128 then False
      else case b64_decode signature of None \<Rightarrow> False
           | Some sig \<Rightarrow> (case proofMessage E purpose claims of Inl _ \<Rightarrow> False
                        | Inr m \<Rightarrow> en_verify E key m sig))"

definition grantBinding :: "env \<Rightarrow> trust \<Rightarrow> ID \<Rightarrow> terms \<Rightarrow> ID \<Rightarrow> bool" where
  "grantBinding E t book terms owner =
     (let g = sg_Claims (tm_Grant terms)
      in ID_Valid (gr_ID g)
         \<and> verifyProof E ''grant'' (grant_json g) (sg_Signature (tm_Grant terms))
             (map_get [] (ts_GrantKeys t) (gr_Issuer g))
         \<and> gr_BookID g = book \<and> gr_PaymentID g = tm_PaymentID terms \<and> gr_SubjectID g = owner
         \<and> gr_SourceID g = tm_SourceID terms \<and> gr_BeneficiaryID g = tm_BeneficiaryID terms
         \<and> gr_Principal g = tm_Principal terms \<and> gr_Fee g = tm_Fee terms
         \<and> gr_PolicyID g = tm_PolicyID terms \<and> gr_QuoteID g = tm_QuoteID terms
         \<and> gr_Currency g = tm_Currency terms)"

definition trust_evidence :: "env \<Rightarrow> trust \<Rightarrow> ID \<Rightarrow> hold \<Rightarrow> signed_evidence \<Rightarrow> time \<Rightarrow> bool" where
  "trust_evidence E t book h sev now =
     (let e = se_Claims sev; digest = hex_decode (ev_SourceDigest e)
      in ID_Valid (ev_ID e)
         \<and> verifyProof E ''evidence'' (evidence_json e) (se_Signature sev)
             (map_get [] (ts_EvidenceKeys t) (ev_Issuer e))
         \<and> ev_BookID e = book \<and> ev_PaymentID e = tm_PaymentID (hd_Terms h) \<and> ev_HoldID e = hd_ID h
         \<and> ev_AttemptID e = hd_AttemptID h \<and> ev_ProviderAccountID e = hd_ProviderAccountID h
         \<and> ev_BeneficiaryID e = tm_BeneficiaryID (hd_Terms h)
         \<and> ev_Principal e = tm_Principal (hd_Terms h) \<and> ev_Currency e = tm_Currency (hd_Terms h)
         \<and> ev_CapabilityID e = hd_CapabilityID h
         \<and> (case digest of None \<Rightarrow> False | Some d \<Rightarrow> length d = 32)
         \<and> \<not> Time_IsZero (ev_ObservedAt e) \<and> \<not> After (ev_ObservedAt e) (Time_Add now Minute)
         \<and> (ev_FinalState e = ''FINAL_SUCCESS'' \<or>
            (ev_FinalState e = ''FINAL_FAILURE'' \<and> ev_SubmissionFenced e)))"

end
