(* ===== verification/Command.thy ===== *)
theory Command
  imports Auth
begin

text \<open>
  The methods of \<open>Command\<close> in \<open>application/service.go\<close>: payment and hold identities, the required
  permission, validation, and the canonical financial instruction (\<open>Material\<close>) that binds an
  operation identity.
\<close>

section \<open>Calendar day of a command\<close>

definition Bucket :: "env \<Rightarrow> time \<Rightarrow> string" where
  "Bucket E now = format_date ((t_ns now + en_zone E (t_ns now) * 1000000000) div 86400000000000)"

section \<open>Identities and permission\<close>

text \<open>A read through a nil payload pointer is a panic.\<close>

definition deref :: "'a option \<Rightarrow> ('a \<Rightarrow> 'b) \<Rightarrow> 'b result" where
  "deref p f = (case p of None \<Rightarrow> Inl NilDereference | Some x \<Rightarrow> Inr (f x))"

definition PaymentID :: "command \<Rightarrow> ID result" where
  "PaymentID c =
     (if cm_Kind c = TransferInternal then deref (cm_Transfer c) (tm_PaymentID \<circ> tr_Terms)
      else if cm_Kind c = ReservePayout then deref (cm_Reserve c) (tm_PaymentID \<circ> rs_Terms)
      else if cm_Kind c = MarkHoldExposed then deref (cm_Expose c) (rf_PaymentID \<circ> ex_Ref)
      else if cm_Kind c = CapturePayout then deref (cm_Capture c) (rf_PaymentID \<circ> cp_Ref)
      else if cm_Kind c = ReleasePayout then deref (cm_Release c) (rf_PaymentID \<circ> rl_Ref)
      else Inr [])"

definition HoldID :: "command \<Rightarrow> ID result" where
  "HoldID c =
     (if cm_Kind c = ReservePayout then deref (cm_Reserve c) rs_HoldID
      else if cm_Kind c = MarkHoldExposed then deref (cm_Expose c) (rf_HoldID \<circ> ex_Ref)
      else if cm_Kind c = CapturePayout then deref (cm_Capture c) (rf_HoldID \<circ> cp_Ref)
      else if cm_Kind c = ReleasePayout then deref (cm_Release c) (rf_HoldID \<circ> rl_Ref)
      else Inr [])"

definition Permission :: "command \<Rightarrow> string" where
  "Permission c =
     (if cm_Kind c = CreateAccount then ''provision''
      else if cm_Kind c = SetAccountControl then ''control''
      else if cm_Kind c = CapturePayout then ''resolve''
      else if cm_Kind c = ReleasePayout \<and>
              (case cm_Release c of None \<Rightarrow> False | Some r \<Rightarrow> rl_Reason r = ''FINAL_FAILURE'')
      then ''resolve'' else ''spend'')"

section \<open>Validation\<close>

definition validTerms :: "terms \<Rightarrow> bool" where
  "validTerms t =
     (let g = sg_Claims (tm_Grant t)
      in ID_Valid (tm_PaymentID t) \<and> ID_Valid (tm_SourceID t) \<and> ID_Valid (tm_BeneficiaryID t)
         \<and> ID_Valid (tm_PolicyID t) \<and> ID_Valid (tm_QuoteID t) \<and> is_ok (Principal (tm_Principal t))
         \<and> tm_Currency t = ''KES'' \<and> ID_Valid (gr_ID g) \<and> ID_Valid (gr_SubjectID g)
         \<and> length (gr_Issuer g) > 0 \<and> length (gr_Issuer g) \<le> 64
         \<and> length (sg_Signature (tm_Grant t)) \<le> 128
         \<and> \<not> Time_IsZero (gr_NotBefore g) \<and> \<not> Time_IsZero (gr_ExpiresAt g))"

definition validRef :: "hold_ref \<Rightarrow> bool" where
  "validRef r = (ID_Valid (rf_PaymentID r) \<and> ID_Valid (rf_HoldID r) \<and> ID_Valid (rf_AttemptID r)
     \<and> sint (rf_ExpectedVersion r) > 0)"

definition payload_count :: "command \<Rightarrow> nat" where
  "payload_count c = length (filter id
     [cm_Create c \<noteq> None, cm_Transfer c \<noteq> None, cm_Reserve c \<noteq> None, cm_Expose c \<noteq> None,
      cm_Capture c \<noteq> None, cm_Release c \<noteq> None, cm_Control c \<noteq> None])"

definition valid_payload :: "command \<Rightarrow> bool" where
  "valid_payload c =
     (if cm_Kind c = CreateAccount then
        (case cm_Create c of None \<Rightarrow> False | Some r \<Rightarrow>
           ID_Valid (cr_AccountID r) \<and> ID_Valid (cr_OwnerID r) \<and> cr_Purpose r = Wallet)
      else if cm_Kind c = TransferInternal then
        (case cm_Transfer c of None \<Rightarrow> False | Some t \<Rightarrow> validTerms (tr_Terms t))
      else if cm_Kind c = ReservePayout then
        (case cm_Reserve c of None \<Rightarrow> False | Some r \<Rightarrow>
           validTerms (rs_Terms r) \<and> ID_Valid (rs_HoldID r) \<and> ID_Valid (rs_AttemptID r)
           \<and> ID_Valid (rs_PoolID r) \<and> \<not> Time_IsZero (rs_ExpiresAt r))
      else if cm_Kind c = MarkHoldExposed then
        (case cm_Expose c of None \<Rightarrow> False | Some x \<Rightarrow> validRef (ex_Ref x) \<and> ID_Valid (ex_GrantID x))
      else if cm_Kind c = CapturePayout then
        (case cm_Capture c of None \<Rightarrow> False | Some x \<Rightarrow>
           validRef (cp_Ref x) \<and> ID_Valid (ev_ID (se_Claims (cp_Evidence x)))
           \<and> length (se_Signature (cp_Evidence x)) \<le> 128)
      else if cm_Kind c = ReleasePayout then
        (case cm_Release c of None \<Rightarrow> False | Some r \<Rightarrow>
           validRef (rl_Ref r) \<and>
           (if rl_Reason r = ''FINAL_FAILURE'' then
              (case rl_Evidence r of None \<Rightarrow> False | Some e \<Rightarrow>
                 ID_Valid (ev_ID (se_Claims e)) \<and> length (se_Signature e) \<le> 128)
            else (rl_Reason r = ''CANCEL'' \<or> rl_Reason r = ''EXPIRY'') \<and> rl_Evidence r = None))
      else if cm_Kind c = SetAccountControl then
        (case cm_Control c of None \<Rightarrow> False | Some s \<Rightarrow>
           ID_Valid (ck_ID (sc_Key s)) \<and> (ck_Kind (sc_Key s) = ''SUBJECT'' \<or> ck_Kind (sc_Key s) = ''ACCOUNT'')
           \<and> sint (sc_ExpectedVersion s) > 0 \<and> length (sc_Reason s) > 0 \<and> length (sc_Reason s) \<le> 64)
      else False)"

definition Command_Validate :: "command \<Rightarrow> unit result" where
  "Command_Validate c =
     (if \<not> ID_Valid (cm_BookID c) \<or> \<not> ID_Valid (cm_OperationID c) then Inl ErrInvalid
      else if payload_count c \<noteq> 1 then Inl ErrInvalid
      else if \<not> valid_payload c then Inl ErrInvalid else Inr ())"

section \<open>Material\<close>

text \<open>The JSON of each payload, signatures included, as \<open>json.Marshal\<close> writes it.\<close>

definition terms_json :: "terms \<Rightarrow> json" where
  "terms_json t = JObj
     [(''beneficiary_id'', JStr (tm_BeneficiaryID t)),
      (''currency'', JStr (tm_Currency t)),
      (''fee'', JStr (Amount_String (tm_Fee t))),
      (''grant'', JObj [(''claims'', grant_json (sg_Claims (tm_Grant t))),
                      (''signature'', JStr (sg_Signature (tm_Grant t)))]),
      (''payment_id'', JStr (tm_PaymentID t)),
      (''policy_id'', JStr (tm_PolicyID t)),
      (''principal'', JStr (Amount_String (tm_Principal t))),
      (''quote_id'', JStr (tm_QuoteID t)),
      (''source_id'', JStr (tm_SourceID t))]"

definition ref_json :: "hold_ref \<Rightarrow> json" where
  "ref_json r = JObj
     [(''attempt_id'', JStr (rf_AttemptID r)),
      (''expected_version'', JStr (format_int64 (rf_ExpectedVersion r))),
      (''hold_id'', JStr (rf_HoldID r)),
      (''payment_id'', JStr (rf_PaymentID r))]"

definition signed_evidence_json :: "signed_evidence \<Rightarrow> json" where
  "signed_evidence_json s = JObj
     [(''claims'', evidence_json (se_Claims s)), (''signature'', JStr (se_Signature s))]"

definition option_json :: "('a \<Rightarrow> json) \<Rightarrow> 'a option \<Rightarrow> json" where
  "option_json f p = (case p of None \<Rightarrow> JNull | Some x \<Rightarrow> f x)"

definition create_json :: "create \<Rightarrow> json" where
  "create_json r = JObj
     [(''account_id'', JStr (cr_AccountID r)), (''owner_id'', JStr (cr_OwnerID r)),
      (''purpose'', JStr (cr_Purpose r))]"

definition transfer_json :: "transfer \<Rightarrow> json" where
  "transfer_json r = JObj [(''terms'', terms_json (tr_Terms r))]"

definition reserve_json :: "reserve \<Rightarrow> json" where
  "reserve_json r = JObj
     [(''attempt_id'', JStr (rs_AttemptID r)), (''expires_at'', JTime (rs_ExpiresAt r)),
      (''hold_id'', JStr (rs_HoldID r)), (''pool_id'', JStr (rs_PoolID r)),
      (''terms'', terms_json (rs_Terms r))]"

definition expose_json :: "expose \<Rightarrow> json" where
  "expose_json r = JObj [(''grant_id'', JStr (ex_GrantID r)), (''ref'', ref_json (ex_Ref r))]"

definition capture_json :: "capture \<Rightarrow> json" where
  "capture_json r = JObj
     [(''evidence'', signed_evidence_json (cp_Evidence r)), (''ref'', ref_json (cp_Ref r))]"

definition release_json :: "release \<Rightarrow> json" where
  "release_json r = JObj
     [(''evidence'', option_json signed_evidence_json (rl_Evidence r)),
      (''reason'', JStr (rl_Reason r)), (''ref'', ref_json (rl_Ref r))]"

definition control_json :: "set_control \<Rightarrow> json" where
  "control_json s = JObj
     [(''credit_frozen'', JBool (sc_CreditFrozen s)),
      (''daily_cap'', JStr (Wide_String (sc_DailyCap s))),
      (''debit_frozen'', JBool (sc_DebitFrozen s)),
      (''expected_version'', JStr (format_int64 (sc_ExpectedVersion s))),
      (''key'', JObj [(''id'', JStr (ck_ID (sc_Key s))), (''kind'', JStr (ck_Kind (sc_Key s)))]),
      (''reason'', JStr (sc_Reason s)),
      (''revoke_grants'', JBool (sc_RevokeGrants s))]"

definition Payload :: "command \<Rightarrow> json" where
  "Payload c =
     (if cm_Kind c = CreateAccount then option_json create_json (cm_Create c)
      else if cm_Kind c = TransferInternal then option_json transfer_json (cm_Transfer c)
      else if cm_Kind c = ReservePayout then option_json reserve_json (cm_Reserve c)
      else if cm_Kind c = MarkHoldExposed then option_json expose_json (cm_Expose c)
      else if cm_Kind c = CapturePayout then option_json capture_json (cm_Capture c)
      else if cm_Kind c = ReleasePayout then option_json release_json (cm_Release c)
      else if cm_Kind c = SetAccountControl then option_json control_json (cm_Control c)
      else JNull)"

fun removeSignatures :: "json \<Rightarrow> json" where
  "removeSignatures (JObj kvs) =
     JObj (map (\<lambda>(k, v). (k, removeSignatures v)) (filter (\<lambda>(k, v). k \<noteq> ''signature'') kvs))"
| "removeSignatures (JArr vs) = JArr (map removeSignatures vs)"
| "removeSignatures v = v"

definition material_json :: "command \<Rightarrow> json" where
  "material_json c = JObj
     [(''body'', removeSignatures (Payload c)), (''book_id'', JStr (cm_BookID c)),
      (''kind'', JStr (cm_Kind c)), (''schema_version'', JStr ''1'')]"

definition Material :: "env \<Rightarrow> command \<Rightarrow> string result" where
  "Material E c =
     (case en_Canonical E (material_json c) of
        Inl _ \<Rightarrow> Inl ErrInvalid
      | Inr data \<Rightarrow> if length data > 16384 then Inl ErrInvalid else Inr data)"

end
