(* ===== verification/Event.thy ===== *)
theory Event
  imports Command
begin

text \<open>
  \<open>contracts/events/ledger/v1/event.go\<close>: the wire envelope of a resolved operation. JSON texts are written by
  \<open>json.Marshal\<close> and canonicalised by \<open>jsoncanonicalizer.Transform\<close>; both are fields of the record
  \<open>codec\<close>, the second together with the value its text stands for. What \<open>encoding/json\<close> makes of that
  value, field by field, and \<open>time.Parse\<close> are defined here.
\<close>

section \<open>\<open>time.Parse(time.RFC3339Nano, s)\<close>\<close>

text \<open>Numbers of one or two digits; a fixed field needs both.\<close>

definition getnum :: "bool \<Rightarrow> string \<Rightarrow> (int \<times> string) option" where
  "getnum fixed s =
     (case s of
        [] \<Rightarrow> None
      | a # rest \<Rightarrow>
          if \<not> is_digit a then None
          else case rest of
            b # rest' \<Rightarrow> if is_digit b then Some (int (digit_val a) * 10 + int (digit_val b), rest')
                        else if fixed then None else Some (int (digit_val a), rest)
          | [] \<Rightarrow> if fixed then None else Some (int (digit_val a), []))"

definition literal :: "char \<Rightarrow> string \<Rightarrow> string option" where
  "literal c s = (case s of [] \<Rightarrow> None | x # rest \<Rightarrow> if x = c then Some rest else None)"

definition year4 :: "string \<Rightarrow> (int \<times> string) option" where
  "year4 s = (if length s \<ge> 4 \<and> list_all is_digit (take 4 s) then Some (dec_ival (take 4 s), drop 4 s) else None)"

text \<open>An optional fraction: a comma or period and digits, of which nine count.\<close>

definition fraction :: "string \<Rightarrow> int \<times> string" where
  "fraction s =
     (case s of
        c # d # _ \<Rightarrow>
          if (c = CHR ''.'' \<or> c = CHR '','') \<and> is_digit d then
            (let ds = takeWhile is_digit (tl s); n = take 9 ds
             in (dec_ival n * 10 ^ (9 - length n), dropWhile is_digit (tl s)))
          else (0, s)
      | _ \<Rightarrow> (0, s))"

text \<open>The zone: \<open>Z\<close>, or a signed offset of hours and minutes.\<close>

definition zone :: "string \<Rightarrow> (int \<times> string) option" where
  "zone s =
     (case s of
        [] \<Rightarrow> None
      | c # rest \<Rightarrow>
          if c = CHR ''Z'' then Some (0, rest)
          else if length s < 6 \<or> s ! 3 \<noteq> CHR '':'' then None
          else
            (case (getnum True (take 2 rest), getnum True (take 2 (drop 4 s))) of
               (Some (h, _), Some (m, _)) \<Rightarrow>
                 if h > 24 \<or> m > 60 then None
                 else if c = CHR ''+'' then Some ((h * 60 + m) * 60, drop 6 s)
                 else if c = CHR ''-'' then Some (- ((h * 60 + m) * 60), drop 6 s)
                 else None
             | _ \<Rightarrow> None))"

definition bounded :: "int \<Rightarrow> int \<Rightarrow> (int \<times> string) option \<Rightarrow> (int \<times> string) option" where
  "bounded lo hi r = (case r of None \<Rightarrow> None | Some (n, s) \<Rightarrow> if lo \<le> n \<and> n < hi then Some (n, s) else None)"

definition instant :: "int \<Rightarrow> int \<Rightarrow> int \<Rightarrow> int \<Rightarrow> int \<Rightarrow> int \<Rightarrow> int \<Rightarrow> int \<Rightarrow> time" where
  "instant y mo d h mi s ns offset =
     (let days = days_before_year y + sum_list (take (nat (mo - 1)) (month_lengths y)) + (d - 1)
      in \<lparr>t_ns = (days * 86400 + h * 3600 + mi * 60 + s - offset) * 1000000000 + ns, t_offset = offset\<rparr>)"

definition Time_Parse :: "string \<Rightarrow> time option" where
  "Time_Parse s =
     Option.bind (year4 s) (\<lambda>(y, s).
     Option.bind (literal (CHR ''-'') s) (\<lambda>s.
     Option.bind (bounded 1 13 (getnum True s)) (\<lambda>(mo, s).
     Option.bind (literal (CHR ''-'') s) (\<lambda>s.
     Option.bind (getnum True s) (\<lambda>(d, s).
     Option.bind (literal (CHR ''T'') s) (\<lambda>s.
     Option.bind (bounded 0 24 (getnum False s)) (\<lambda>(h, s).
     Option.bind (literal (CHR '':'') s) (\<lambda>s.
     Option.bind (bounded 0 60 (getnum True s)) (\<lambda>(mi, s).
     Option.bind (literal (CHR '':'') s) (\<lambda>s.
     Option.bind (bounded 0 60 (getnum True s)) (\<lambda>(sec, s).
       let (ns, s) = fraction s
       in Option.bind (zone s) (\<lambda>(offset, s).
            if s \<noteq> [] \<or> d < 1 \<or> d > month_lengths y ! nat (mo - 1) then None
            else Some (instant y mo d h mi sec ns offset)))))))))))))"

text \<open>\<open>Format\<close> with the same layout: nine digits of fraction without trailing zeros.\<close>

definition format_fraction :: "int \<Rightarrow> string" where
  "format_fraction ns =
     (let ds = rev (dropWhile (\<lambda>c. c = CHR ''0'') (rev (pad 9 (format_int ns))))
      in if ds = [] then [] else CHR ''.'' # ds)"

definition format_zone :: "int \<Rightarrow> string" where
  "format_zone offset =
     (if offset = 0 then ''Z''
      else let m = \<bar>offset\<bar> div 60
           in (if offset < 0 then ''-'' else ''+'') @ pad 2 (format_int (m div 60)) @ '':'' @ pad 2 (format_int (m mod 60)))"

definition Time_Format :: "time \<Rightarrow> string" where
  "Time_Format t =
     (let local = t_ns t + t_offset t * 1000000000; sec = local div 1000000000 mod 86400
      in format_date (local div 86400000000000) @ ''T'' @ pad 2 (format_int (sec div 3600)) @ '':''
         @ pad 2 (format_int (sec div 60 mod 60)) @ '':'' @ pad 2 (format_int (sec mod 60))
         @ format_fraction (local mod 1000000000) @ format_zone (t_offset t))"

section \<open>Identities\<close>

definition lower_hex :: "char \<Rightarrow> bool" where
  "lower_hex c = (is_digit c \<or> (CHR ''a'' \<le> c \<and> c \<le> CHR ''f''))"

definition ValidID :: "string \<Rightarrow> bool" where
  "ValidID s = (length s = 36 \<and>
     list_all (\<lambda>(i, c). if i \<in> {8, 13, 18, 23} then c = CHR ''-'' else lower_hex c) (enumerate 0 s))"

definition ValidHash :: "string \<Rightarrow> bool" where
  "ValidHash s = (length s = 64 \<and> list_all lower_hex s)"

section \<open>Envelope\<close>

record event =
  evt_Version :: string
  evt_Producer :: string
  evt_Type :: string
  evt_Country :: string
  evt_BookID :: string
  evt_EventID :: string
  evt_OperationID :: string
  evt_OccurredAt :: string
  evt_Receipt :: "json option"

record receipt_identity =
  ri_Version :: string
  ri_BookID :: string
  ri_EventID :: string
  ri_OperationID :: string
  ri_RequestHash :: string
  ri_Kind :: string
  ri_Outcome :: string
  ri_RecordedAt :: string

definition zero_event :: event where
  "zero_event = \<lparr>evt_Version = [], evt_Producer = [], evt_Type = [], evt_Country = [], evt_BookID = [], evt_EventID = [],
     evt_OperationID = [], evt_OccurredAt = [], evt_Receipt = None\<rparr>"

definition zero_identity :: receipt_identity where
  "zero_identity = \<lparr>ri_Version = [], ri_BookID = [], ri_EventID = [], ri_OperationID = [], ri_RequestHash = [], ri_Kind = [],
     ri_Outcome = [], ri_RecordedAt = []\<rparr>"

text \<open>
  How \<open>encoding/json\<close> matches an object key to a field: the exact name, or the name under case
  folding, where the long s and the Kelvin sign fold to ASCII letters.
\<close>

fun fold_name :: "string \<Rightarrow> string" where
  "fold_name (a # b # c # s) =
     (if a = char_of (197 :: nat) \<and> b = char_of (191 :: nat) then CHR ''s'' # fold_name (c # s)
      else if a = char_of (226 :: nat) \<and> b = char_of (132 :: nat) \<and> c = char_of (170 :: nat) then CHR ''k'' # fold_name s
      else lower_char a # fold_name (b # c # s))"
| "fold_name [a, b] = (if a = char_of (197 :: nat) \<and> b = char_of (191 :: nat) then ''s'' else [lower_char a, lower_char b])"
| "fold_name s = map lower_char s"

definition field_for :: "string list \<Rightarrow> string \<Rightarrow> string option" where
  "field_for names key =
     (if key \<in> set names then Some key else List.find (\<lambda>n. fold_name n = fold_name key) names)"

definition event_fields :: "string list" where
  "event_fields = [''schema_version'', ''producer'', ''event_type'', ''country_id'', ''book_id'', ''event_id'', ''operation_id'',
     ''occurred_at'', ''receipt'']"

definition identity_fields :: "string list" where
  "identity_fields = [''schema_version'', ''book_id'', ''event_id'', ''operation_id'', ''request_hash'', ''kind'', ''outcome'', ''recorded_at'']"

text \<open>A string member sets its field, \<open>null\<close> leaves it, another value is a type error.\<close>

definition set_event :: "string \<Rightarrow> string \<Rightarrow> event \<Rightarrow> event" where
  "set_event n s e =
     (if n = ''schema_version'' then e\<lparr>evt_Version := s\<rparr> else if n = ''producer'' then e\<lparr>evt_Producer := s\<rparr>
      else if n = ''event_type'' then e\<lparr>evt_Type := s\<rparr> else if n = ''country_id'' then e\<lparr>evt_Country := s\<rparr>
      else if n = ''book_id'' then e\<lparr>evt_BookID := s\<rparr> else if n = ''event_id'' then e\<lparr>evt_EventID := s\<rparr>
      else if n = ''operation_id'' then e\<lparr>evt_OperationID := s\<rparr> else e\<lparr>evt_OccurredAt := s\<rparr>)"

definition set_identity :: "string \<Rightarrow> string \<Rightarrow> receipt_identity \<Rightarrow> receipt_identity" where
  "set_identity n s r =
     (if n = ''schema_version'' then r\<lparr>ri_Version := s\<rparr> else if n = ''book_id'' then r\<lparr>ri_BookID := s\<rparr>
      else if n = ''event_id'' then r\<lparr>ri_EventID := s\<rparr> else if n = ''operation_id'' then r\<lparr>ri_OperationID := s\<rparr>
      else if n = ''request_hash'' then r\<lparr>ri_RequestHash := s\<rparr> else if n = ''kind'' then r\<lparr>ri_Kind := s\<rparr>
      else if n = ''outcome'' then r\<lparr>ri_Outcome := s\<rparr> else r\<lparr>ri_RecordedAt := s\<rparr>)"

definition string_member :: "(string \<Rightarrow> 'r \<Rightarrow> 'r) \<Rightarrow> json \<Rightarrow> 'r \<Rightarrow> 'r option" where
  "string_member put v r = (case v of JStr s \<Rightarrow> Some (put s r) | JNull \<Rightarrow> Some r | _ \<Rightarrow> None)"

fun event_members :: "(string \<times> json) list \<Rightarrow> event \<Rightarrow> event option" where
  "event_members [] e = Some e"
| "event_members ((k, v) # kvs) e =
     (case field_for event_fields k of
        None \<Rightarrow> None
      | Some n \<Rightarrow> Option.bind (if n = ''receipt'' then Some (e\<lparr>evt_Receipt := Some v\<rparr>) else string_member (set_event n) v e)
          (event_members kvs))"

fun identity_members :: "(string \<times> json) list \<Rightarrow> receipt_identity \<Rightarrow> receipt_identity option" where
  "identity_members [] r = Some r"
| "identity_members ((k, v) # kvs) r =
     Option.bind (case field_for identity_fields k of None \<Rightarrow> Some r | Some n \<Rightarrow> string_member (set_identity n) v r)
       (identity_members kvs)"

definition decode_event :: "json \<Rightarrow> event option" where
  "decode_event j = (case j of JObj kvs \<Rightarrow> event_members kvs zero_event | JNull \<Rightarrow> Some zero_event | _ \<Rightarrow> None)"

definition Identity :: "event \<Rightarrow> receipt_identity option" where
  "Identity e = (case evt_Receipt e of
      None \<Rightarrow> None
    | Some (JObj kvs) \<Rightarrow> identity_members kvs zero_identity
    | Some JNull \<Rightarrow> Some zero_identity
    | Some _ \<Rightarrow> None)"

section \<open>Encoding and decoding\<close>

record codec =
  cd_Marshal :: "json \<Rightarrow> string option"
  cd_Transform :: "string \<Rightarrow> (string \<times> json) option"

definition MaxBytes :: nat where "MaxBytes = 65536"

definition event_kinds :: "string list" where
  "event_kinds = [''FIXTURE_FUND'', CreateAccount, TransferInternal, ReservePayout, MarkHoldExposed, CapturePayout, ReleasePayout,
     SetAccountControl]"

definition event_valid :: "event \<Rightarrow> receipt_identity \<Rightarrow> bool" where
  "event_valid e r =
     ((case Time_Parse (evt_OccurredAt e) of None \<Rightarrow> False | Some t \<Rightarrow> \<not> Time_IsZero t)
      \<and> evt_Version e = ''1'' \<and> evt_Producer e = ''ledger'' \<and> evt_Type e = ''LedgerOperationResolved'' \<and> evt_Country e = ''KE''
      \<and> ValidID (evt_BookID e) \<and> ValidID (evt_EventID e) \<and> ValidID (evt_OperationID e)
      \<and> ri_Version r = ''1'' \<and> ri_BookID r = evt_BookID e \<and> ri_EventID r = evt_EventID e \<and> ri_OperationID r = evt_OperationID e
      \<and> ri_RecordedAt r = evt_OccurredAt e \<and> ValidHash (ri_RequestHash r)
      \<and> (ri_Outcome r = ''APPLIED'' \<or> ri_Outcome r = ''REJECTED'') \<and> ri_Kind r \<in> set event_kinds)"

definition Decode :: "codec \<Rightarrow> string \<Rightarrow> (event \<times> string) option" where
  "Decode cd data =
     (if length data = 0 \<or> length data > MaxBytes then None
      else Option.bind (cd_Transform cd data) (\<lambda>(canonical, j).
           Option.bind (decode_event j) (\<lambda>e.
           Option.bind (Identity e) (\<lambda>r.
             if event_valid e r then Some (e, canonical) else None))))"

definition event_json :: "event \<Rightarrow> json" where
  "event_json e = JObj
     [(''schema_version'', JStr (evt_Version e)), (''producer'', JStr (evt_Producer e)), (''event_type'', JStr (evt_Type e)),
      (''country_id'', JStr (evt_Country e)), (''book_id'', JStr (evt_BookID e)), (''event_id'', JStr (evt_EventID e)),
      (''operation_id'', JStr (evt_OperationID e)), (''occurred_at'', JStr (evt_OccurredAt e)),
      (''receipt'', case evt_Receipt e of None \<Rightarrow> JNull | Some v \<Rightarrow> v)]"

definition Encode :: "codec \<Rightarrow> event \<Rightarrow> string option" where
  "Encode cd e = Option.bind (cd_Marshal cd (event_json e)) (\<lambda>data. map_option snd (Decode cd data))"

definition New :: "codec \<Rightarrow> string \<Rightarrow> string \<Rightarrow> string \<Rightarrow> json \<Rightarrow> event option" where
  "New cd book ev op receipt =
     (let e = \<lparr>evt_Version = ''1'', evt_Producer = ''ledger'', evt_Type = ''LedgerOperationResolved'', evt_Country = ''KE'',
               evt_BookID = book, evt_EventID = ev, evt_OperationID = op, evt_OccurredAt = [], evt_Receipt = Some receipt\<rparr>
      in Option.bind (Identity e) (\<lambda>r.
           let e' = e\<lparr>evt_OccurredAt := ri_RecordedAt r\<rparr> in Option.bind (Encode cd e') (\<lambda>_. Some e')))"

section \<open>What canonicalisation keeps\<close>

definition ascii :: "string \<Rightarrow> bool" where
  "ascii s = list_all (\<lambda>c. of_char c < (128 :: nat)) s"

text \<open>
  How the value of a canonical text relates to the value that was marshalled: ASCII strings are kept
  and others stay non-ASCII (invalid UTF-8 becomes a replacement character), an object with distinct
  ASCII names keeps them in some order, and numbers keep their kind.
\<close>

inductive jcs_same :: "json \<Rightarrow> json \<Rightarrow> bool" where
  null: "jcs_same JNull JNull"
| bool: "jcs_same (JBool b) (JBool b)"
| num: "jcs_same (JNum n) (JNum n')"
| str: "s = s' \<or> \<not> ascii s \<and> \<not> ascii s' \<Longrightarrow> jcs_same (JStr s) (JStr s')"
| time: "jcs_same (JTime t) j"
| arr: "list_all2 jcs_same js js' \<Longrightarrow> jcs_same (JArr js) (JArr js')"
| obj: "distinct (map fst kvs) \<Longrightarrow> list_all ascii (map fst kvs) \<Longrightarrow> distinct (map fst kvs') \<Longrightarrow> set (map fst kvs') = set (map fst kvs) \<Longrightarrow>
    (\<And>k v v'. map_of kvs k = Some v \<Longrightarrow> map_of kvs' k = Some v' \<Longrightarrow> jcs_same v v') \<Longrightarrow> jcs_same (JObj kvs) (JObj kvs')"
| odd: "\<not> (distinct (map fst kvs) \<and> list_all ascii (map fst kvs)) \<Longrightarrow> jcs_same (JObj kvs) j"

inductive_cases jcs_strE: "jcs_same (JStr s) j"
inductive_cases jcs_objE: "jcs_same (JObj kvs) j"

text \<open>What the codec is documented to do: canonical texts are fixed points, and marshalled values are kept.\<close>

definition jcs_codec :: "codec \<Rightarrow> bool" where
  "jcs_codec cd =
     ((\<forall>d c j. cd_Transform cd d = Some (c, j) \<longrightarrow> cd_Transform cd c = Some (c, j))
      \<and> (\<forall>d c j j'. cd_Marshal cd j = Some d \<longrightarrow> cd_Transform cd d = Some (c, j') \<longrightarrow> jcs_same j j'))"

lemma jcs_same_refl: "jcs_same j j"
proof (induction j)
  case (JArr js)
  then have "list_all2 jcs_same js js" by (simp add: list_all2_conv_all_nth)
  then show ?case by (rule jcs_same.arr)
next
  case (JObj kvs)
  show ?case
  proof (cases "distinct (map fst kvs) \<and> list_all ascii (map fst kvs)")
    case True
    have "jcs_same v v'" if "map_of kvs k = Some v" "map_of kvs k = Some v'" for k v v'
    proof -
      have "(k, v) \<in> set kvs" "v' = v" using that by (simp_all add: map_of_SomeD)
      then show ?thesis using JObj.IH [of "(k, v)" v] by (simp add: snds.intros)
    qed
    then show ?thesis using True by (intro jcs_same.obj) auto
  qed (rule jcs_same.odd)
qed (auto intro: jcs_same.intros)

subsection \<open>Fields read back\<close>

definition get_event :: "string \<Rightarrow> event \<Rightarrow> string" where
  "get_event n e =
     (if n = ''schema_version'' then evt_Version e else if n = ''producer'' then evt_Producer e
      else if n = ''event_type'' then evt_Type e else if n = ''country_id'' then evt_Country e
      else if n = ''book_id'' then evt_BookID e else if n = ''event_id'' then evt_EventID e
      else if n = ''operation_id'' then evt_OperationID e else evt_OccurredAt e)"

definition get_identity :: "string \<Rightarrow> receipt_identity \<Rightarrow> string" where
  "get_identity n r =
     (if n = ''schema_version'' then ri_Version r else if n = ''book_id'' then ri_BookID r
      else if n = ''event_id'' then ri_EventID r else if n = ''operation_id'' then ri_OperationID r
      else if n = ''request_hash'' then ri_RequestHash r else if n = ''kind'' then ri_Kind r
      else if n = ''outcome'' then ri_Outcome r else ri_RecordedAt r)"

definition text_or :: "string \<Rightarrow> json option \<Rightarrow> string" where
  "text_or d m = (case m of Some (JStr s) \<Rightarrow> s | _ \<Rightarrow> d)"

lemma text_or_simps [simp]: "text_or d None = d" "text_or d (Some (JStr s)) = s" "text_or d (Some JNull) = d"
  by (simp_all add: text_or_def)

lemma field_for_exact: "n \<in> set names \<Longrightarrow> field_for names n = Some n" by (simp add: field_for_def)

lemma event_members_read:
  assumes "event_members kvs e = Some e1" and "distinct (map fst kvs)" and "set (map fst kvs) \<subseteq> set event_fields"
  shows "n \<in> set event_fields - {''receipt''} \<Longrightarrow>
      get_event n e1 = text_or (get_event n e) (map_of kvs n)"
    and "evt_Receipt e1 = (case map_of kvs ''receipt'' of Some v \<Rightarrow> Some v | None \<Rightarrow> evt_Receipt e)"
proof -
  have "(\<forall>n\<in>set event_fields - {''receipt''}. get_event n e1 = text_or (get_event n e) (map_of kvs n))
    \<and> evt_Receipt e1 = (case map_of kvs ''receipt'' of Some v \<Rightarrow> Some v | None \<Rightarrow> evt_Receipt e)"
    using assms
  proof (induction kvs arbitrary: e)
    case (Cons kv kvs)
    obtain k v where kv: "kv = (k, v)" by fastforce
    have k: "k \<in> set event_fields" "map_of kvs k = None" using Cons.prems kv by (auto simp: map_of_eq_None_iff)
    obtain e2 where e2: "(if k = ''receipt'' then Some (e\<lparr>evt_Receipt := Some v\<rparr>) else string_member (set_event k) v e) = Some e2"
      and rest: "event_members kvs e2 = Some e1"
      using Cons.prems(1) by (auto simp: kv field_for_exact [OF k(1)] bind_eq_Some_conv)
    have ih: "\<forall>n\<in>set event_fields - {''receipt''}. get_event n e1 = text_or (get_event n e2) (map_of kvs n)"
      "evt_Receipt e1 = (case map_of kvs ''receipt'' of Some v \<Rightarrow> Some v | None \<Rightarrow> evt_Receipt e2)"
      using Cons.IH [OF rest] Cons.prems by simp_all
    have set_get: "get_event n (set_event k s e) = (if n = k then s else get_event n e)" if "n \<in> set event_fields - {''receipt''}" "k \<noteq> ''receipt''" for n s
      using that k(1) by (auto simp: event_fields_def get_event_def set_event_def)
    have keep: "evt_Receipt (set_event k s e) = evt_Receipt e" "get_event n (e\<lparr>evt_Receipt := Some v\<rparr>) = get_event n e" for s n
      by (simp_all add: set_event_def get_event_def)
    show ?case
    proof (cases "k = ''receipt''")
      case True
      then show ?thesis using ih k(2) e2 keep by (auto simp: kv)
    next
      case False
      then show ?thesis using ih k(2) e2 keep set_get by (auto simp: kv string_member_def split: json.split_asm option.split)
    qed
  qed simp
  then show "n \<in> set event_fields - {''receipt''} \<Longrightarrow>
      get_event n e1 = text_or (get_event n e) (map_of kvs n)"
    and "evt_Receipt e1 = (case map_of kvs ''receipt'' of Some v \<Rightarrow> Some v | None \<Rightarrow> evt_Receipt e)" by blast+
qed


lemma identity_members_read:
  assumes "identity_members kvs r = Some r1" and "distinct (map fst kvs)"
    and "\<And>k. k \<in> set (map fst kvs) \<Longrightarrow> k \<notin> set identity_fields \<Longrightarrow> field_for identity_fields k = None"
    and "n \<in> set identity_fields"
  shows "get_identity n r1 = text_or (get_identity n r) (map_of kvs n)"
  using assms(1-3)
proof (induction kvs arbitrary: r)
  case (Cons kv kvs)
  obtain k v where kv: "kv = (k, v)" by fastforce
  have free: "map_of kvs k = None" using Cons.prems(2) kv by (auto simp: map_of_eq_None_iff)
  obtain r2 where r2: "(case field_for identity_fields k of None \<Rightarrow> Some r | Some n \<Rightarrow> string_member (set_identity n) v r) = Some r2"
    and rest: "identity_members kvs r2 = Some r1"
    using Cons.prems(1) by (auto simp: kv bind_eq_Some_conv)
  have ih: "get_identity n r1 = text_or (get_identity n r2) (map_of kvs n)"
    using Cons.IH [OF rest] Cons.prems by simp
  show ?case
  proof (cases "k \<in> set identity_fields")
    case True
    have set_get: "get_identity n (set_identity k s r) = (if n = k then s else get_identity n r)" for s
      using assms(4) True by (auto simp: identity_fields_def get_identity_def set_identity_def)
    show ?thesis using ih r2 free field_for_exact [OF True] set_get by (auto simp: kv string_member_def split: json.split_asm)
  next
    case False
    then have "r2 = r" "n \<noteq> k" using r2 Cons.prems(3) [of k] assms(4) by (auto simp: kv)
    then show ?thesis using ih by (simp add: kv)
  qed
qed simp

text \<open>An envelope that decodes from the canonical form of a marshalled one has its texts.\<close>

lemma lower_hex_ascii: "lower_hex c \<Longrightarrow> of_char c < (128 :: nat)"
  by (auto simp: lower_hex_def is_digit_def less_eq_char_def)

lemma ValidHash_ascii: "ValidHash s \<Longrightarrow> ascii s"
  by (auto simp: ValidHash_def ascii_def list_all_iff lower_hex_ascii)

lemma ValidID_ascii: "ValidID s \<Longrightarrow> ascii s"
proof -
  assume v: "ValidID s"
  have "of_char (s ! i) < (128 :: nat)" if "i < length s" for i
  proof -
    have "(i, s ! i) \<in> set (enumerate 0 s)" using that by (simp add: in_set_enumerate_eq)
    then have "if i \<in> {8, 13, 18, 23} then s ! i = CHR ''-'' else lower_hex (s ! i)"
      using v by (auto simp: ValidID_def list_all_iff)
    then show ?thesis using lower_hex_ascii by (auto split: if_split_asm)
  qed
  then show "ascii s" by (simp add: ascii_def list_all_length)
qed

lemma jcs_same_member:
  assumes "jcs_same (JObj kvs) j" and "distinct (map fst kvs)" and "list_all ascii (map fst kvs)"
  obtains kvs' where "j = JObj kvs'" and "distinct (map fst kvs')" and "set (map fst kvs') = set (map fst kvs)"
    and "\<And>n v. map_of kvs n = Some v \<Longrightarrow> \<exists>v'. map_of kvs' n = Some v' \<and> jcs_same v v'"
proof (rule jcs_objE [OF assms(1)])
  fix kvs'
  assume j: "j = JObj kvs'" "distinct (map fst kvs')" "fst ` set kvs' = fst ` set kvs"
    and same: "\<And>k v v'. (k, v) \<in> set kvs \<Longrightarrow> (k, v') \<in> set kvs' \<Longrightarrow> jcs_same v v'"
  have "\<exists>v'. map_of kvs' n = Some v' \<and> jcs_same v v'" if "map_of kvs n = Some v" for n v
  proof -
    have "n \<in> fst ` set kvs'" using map_of_SomeD [OF that] j(3) by force
    then obtain v' where v': "map_of kvs' n = Some v'" by (metis map_of_eq_None_iff not_None_eq)
    then show ?thesis using same [OF map_of_SomeD [OF that] map_of_SomeD [OF v']] by blast
  qed
  then show thesis using j that by simp
qed (use assms(2,3) in simp)

lemma jcs_same_text:
  assumes "\<exists>v'. m = Some v' \<and> jcs_same (JStr s) v'" and "ascii (text_or d m)"
  shows "text_or d m = s"
  using assms by (auto elim: jcs_strE)

definition envelope :: "event \<Rightarrow> string list" where
  "envelope e = map (\<lambda>n. get_event n e) (butlast event_fields)"

lemma literal_ascii: "literal c s = Some s' \<Longrightarrow> of_char c < (128 :: nat) \<Longrightarrow> ascii s' \<Longrightarrow> ascii s"
  by (auto simp: literal_def ascii_def split: list.split_asm if_split_asm)

lemma digit_ascii: "is_digit c \<Longrightarrow> of_char c < (128 :: nat)"
  by (auto simp: is_digit_def less_eq_char_def)

lemma getnum_ascii: "getnum b s = Some (n, s') \<Longrightarrow> ascii s' \<Longrightarrow> ascii s"
  using digit_ascii by (auto simp: getnum_def ascii_def split: list.split_asm if_split_asm)

lemma bounded_Some: "bounded lo hi r = Some x \<Longrightarrow> r = Some x"
  by (auto simp: bounded_def split: option.split_asm if_split_asm)

lemma year4_ascii:
  assumes "year4 s = Some (n, s')" and "ascii s'"
  shows "ascii s"
proof -
  have "list_all (\<lambda>c. of_char c < (128 :: nat)) (take 4 s @ drop 4 s)"
    using assms digit_ascii by (auto simp: year4_def ascii_def list_all_iff simp del: append_take_drop_id split: if_split_asm)
  then show ?thesis by (simp add: ascii_def)
qed

lemma fraction_ascii:
  assumes "ascii (snd (fraction s))"
  shows "ascii s"
proof (cases "snd (fraction s) = s")
  case False
  then obtain c t where c: "s = c # t" "c = CHR ''.'' \<or> c = CHR '',''" "snd (fraction s) = dropWhile is_digit t"
    by (cases s; cases "tl s"; simp add: fraction_def Let_def split: if_split_asm)
  have "list_all (\<lambda>c. of_char c < (128 :: nat)) (takeWhile is_digit t @ dropWhile is_digit t)"
    unfolding list_all_append using assms c(3) digit_ascii set_takeWhileD by (fastforce simp: ascii_def list_all_iff)
  then have "ascii t" by (simp add: ascii_def)
  moreover have "of_char c < (128 :: nat)" using c(2) by auto
  ultimately show ?thesis by (simp add: c(1) ascii_def)
qed (use assms in simp)

lemma getnum_two: "getnum True [a, b] = Some x \<Longrightarrow> is_digit a \<and> is_digit b"
  by (auto simp: getnum_def split: if_split_asm)

lemma zone_ascii:
  assumes "zone s = Some (n, s')" and "ascii s'"
  shows "ascii s"
proof (cases "length s < 6")
  case True
  then show ?thesis using assms by (auto simp: zone_def ascii_def split: list.split_asm if_split_asm)
next
  case False
  then obtain c a b m d e t where s: "s = c # a # b # m # d # e # t"
    by (auto simp: not_less numeral_eq_Suc Suc_le_length_iff)
  show ?thesis
  proof (cases "c = CHR ''Z''")
    case True
    then show ?thesis using assms by (simp add: zone_def ascii_def s)
  next
    case False
    then obtain x y where two: "getnum True [a, b] = Some x" "getnum True [d, e] = Some y" "m = CHR '':''"
      and c: "c = CHR ''+'' \<or> c = CHR ''-''" and t: "s' = t"
      using assms(1) by (auto simp: zone_def s split: option.split_asm if_split_asm)
    have "of_char c < (128 :: nat)" "of_char m < (128 :: nat)" using c two(3) by auto
    then show ?thesis
      using getnum_two [OF two(1)] getnum_two [OF two(2)] digit_ascii assms(2) by (simp add: s t ascii_def)
  qed
qed

lemma read_ascii:
  "Option.bind (literal c s) g = Some t \<Longrightarrow> of_char c < (128 :: nat) \<Longrightarrow> (\<And>s'. g s' = Some t \<Longrightarrow> ascii s') \<Longrightarrow> ascii s"
  "Option.bind (getnum b s) (case_prod f) = Some t \<Longrightarrow> (\<And>n s'. f n s' = Some t \<Longrightarrow> ascii s') \<Longrightarrow> ascii s"
  "Option.bind (bounded lo hi (getnum b s)) (case_prod f) = Some t \<Longrightarrow> (\<And>n s'. f n s' = Some t \<Longrightarrow> ascii s') \<Longrightarrow> ascii s"
  "Option.bind (year4 s) (case_prod f) = Some t \<Longrightarrow> (\<And>n s'. f n s' = Some t \<Longrightarrow> ascii s') \<Longrightarrow> ascii s"
  "Option.bind (zone s) (case_prod f) = Some t \<Longrightarrow> (\<And>n s'. f n s' = Some t \<Longrightarrow> ascii s') \<Longrightarrow> ascii s"
  by (force simp: bind_eq_Some_conv intro: literal_ascii getnum_ascii year4_ascii zone_ascii dest: bounded_Some)+

lemma read_fraction:
  "(let (ns, r) = fraction s in f ns r) = Some t \<Longrightarrow> (\<And>n r. f n r = Some t \<Longrightarrow> ascii r) \<Longrightarrow> ascii s"
  by (cases "fraction s") (auto intro: fraction_ascii)

lemma Time_Parse_ascii: "Time_Parse s = Some t \<Longrightarrow> ascii s"
  unfolding Time_Parse_def
  by (erule read_ascii(4), ((erule read_ascii(1), simp) | erule read_ascii(3) | erule read_ascii(2))+)
     (erule read_fraction, erule read_ascii(5), simp add: ascii_def split: if_split_asm)


text \<open>On ASCII names, case folding is lower case.\<close>

lemma high_char: "of_char c < (128 :: nat) \<Longrightarrow> c \<noteq> char_of (197 :: nat)" "of_char c < (128 :: nat) \<Longrightarrow> c \<noteq> char_of (226 :: nat)"
  by (auto simp only: of_char_of) simp_all

lemma fold_plain: "ascii s \<Longrightarrow> fold_name s = map lower_char s"
  by (induction s rule: fold_name.induct)
     ((simp_all only: ascii_def list_all_iff list.set fold_name.simps high_char simp_thms if_False list.map insert_iff ball_simps), simp)

lemma field_for_other:
  assumes "ascii k" and "map lower_char k = k" and "list_all (\<lambda>n. ascii n \<and> map lower_char n = n) names" and "k \<notin> set names"
  shows "field_for names k = None"
  using assms by (auto simp: field_for_def fold_plain list_all_iff find_None_iff)

lemma identity_names_lower: "list_all (\<lambda>n. ascii n \<and> map lower_char n = n) identity_fields" by code_simp

lemma decoded_envelope:
  assumes "jcs_same (event_json e) j" and "decode_event j = Some e1" and "event_valid e1 r"
  shows "envelope e1 = envelope e"
    and "\<exists>v. evt_Receipt e1 = Some v \<and> jcs_same (case evt_Receipt e of None \<Rightarrow> JNull | Some v \<Rightarrow> v) v"
proof -
  let ?kvs = "[(''schema_version'', JStr (evt_Version e)), (''producer'', JStr (evt_Producer e)), (''event_type'', JStr (evt_Type e)),
      (''country_id'', JStr (evt_Country e)), (''book_id'', JStr (evt_BookID e)), (''event_id'', JStr (evt_EventID e)),
      (''operation_id'', JStr (evt_OperationID e)), (''occurred_at'', JStr (evt_OccurredAt e)),
      (''receipt'', case evt_Receipt e of None \<Rightarrow> JNull | Some v \<Rightarrow> v)]"
  have names: "distinct (map fst ?kvs)" "list_all ascii (map fst ?kvs)" "set (map fst ?kvs) = set event_fields"
    by (simp_all add: event_fields_def ascii_def)
  obtain kvs where j: "j = JObj kvs" "distinct (map fst kvs)" "set (map fst kvs) = set (map fst ?kvs)"
    and same: "\<And>n v. map_of ?kvs n = Some v \<Longrightarrow> \<exists>v'. map_of kvs n = Some v' \<and> jcs_same v v'"
    using assms(1) unfolding event_json_def by (rule jcs_same_member [OF _ names(1,2)]) blast
  have run: "event_members kvs zero_event = Some e1" using assms(2) by (simp add: decode_event_def j(1))
  note read = event_members_read [OF run j(2) equalityD1 [OF j(3) [unfolded names(3)]]]
  have ascii: "ascii (get_event n e1)" if "n \<in> set event_fields - {''receipt''}" for n
  proof -
    have "ascii (evt_OccurredAt e1)" using assms(3) Time_Parse_ascii by (auto simp: event_valid_def split: option.split_asm)
    moreover have "ascii (evt_BookID e1)" "ascii (evt_EventID e1)" "ascii (evt_OperationID e1)"
      using assms(3) ValidID_ascii by (auto simp: event_valid_def)
    moreover have "ascii (evt_Version e1)" "ascii (evt_Producer e1)" "ascii (evt_Type e1)" "ascii (evt_Country e1)"
      using assms(3) by (auto simp: event_valid_def ascii_def)
    ultimately show ?thesis by (simp add: get_event_def)
  qed
  have texts: "get_event n e1 = get_event n e" if n: "n \<in> set event_fields - {''receipt''}" for n
  proof -
    have "map_of ?kvs n = Some (JStr (get_event n e))" using n by (auto simp: event_fields_def get_event_def)
    from jcs_same_text [OF same [OF this]] show ?thesis using read(1) [OF n] ascii [OF n] by simp
  qed
  show "envelope e1 = envelope e" unfolding envelope_def by (rule map_cong [OF refl texts]) (auto simp: event_fields_def)
  show "\<exists>v. evt_Receipt e1 = Some v \<and> jcs_same (case evt_Receipt e of None \<Rightarrow> JNull | Some v \<Rightarrow> v) v"
    using same [of "''receipt''"] read(2) by auto
qed


lemma Decode_Some:
  "Decode cd data = Some (e, c) \<longleftrightarrow> 0 < length data \<and> length data \<le> MaxBytes \<and>
     (\<exists>j r. cd_Transform cd data = Some (c, j) \<and> decode_event j = Some e \<and> Identity e = Some r \<and> event_valid e r)"
  by (auto simp: Decode_def bind_eq_Some_conv split: if_split_asm)

lemma Encode_decodes:
  assumes "jcs_codec cd" and "Encode cd e = Some wire"
  obtains j e1 r where "cd_Transform cd wire = Some (wire, j)" "decode_event j = Some e1" "Identity e1 = Some r" "event_valid e1 r"
    "jcs_same (event_json e) j"
proof -
  obtain data e1 where "cd_Marshal cd (event_json e) = Some data" "Decode cd data = Some (e1, wire)"
    using assms(2) by (auto simp: Encode_def bind_eq_Some_conv)
  moreover then obtain j r where "cd_Transform cd data = Some (wire, j)" "decode_event j = Some e1" "Identity e1 = Some r" "event_valid e1 r"
    by (auto simp: Decode_Some)
  ultimately show thesis using assms(1) that unfolding jcs_codec_def by blast
qed

section \<open>Round trip\<close>

text \<open>
  C36. What \<open>Encode\<close> writes, \<open>Decode\<close> reads back. Over a codec that behaves as documented, the wire form of an
  event stands for an envelope with the same version, producer, type, country, book, event, operation and time, whose receipt
  is the canonical form of the one encoded: \<open>Decode\<close> returns it with the wire form as its own canonical text, if the
  wire form is not empty and within \<open>MaxBytes\<close>, and refuses it otherwise. The bound is not implied:
  \<open>Encode\<close> checks the length of the text before canonicalisation only.
\<close>

theorem event_roundtrip:
  assumes "jcs_codec cd" and "Encode cd e = Some wire"
  shows "\<exists>e1 v. envelope e1 = envelope e \<and> evt_Receipt e1 = Some v
    \<and> jcs_same (case evt_Receipt e of None \<Rightarrow> JNull | Some v \<Rightarrow> v) v
    \<and> Decode cd wire = (if 0 < length wire \<and> length wire \<le> MaxBytes then Some (e1, wire) else None)"
proof -
  obtain j e1 r where d: "cd_Transform cd wire = Some (wire, j)" "decode_event j = Some e1" "Identity e1 = Some r" "event_valid e1 r"
    "jcs_same (event_json e) j" using Encode_decodes [OF assms] .
  have "Decode cd wire = (if 0 < length wire \<and> length wire \<le> MaxBytes then Some (e1, wire) else None)"
    using d by (simp add: Decode_def)
  then show ?thesis using decoded_envelope [OF d(5,2,4)] by blast
qed

definition x_uuid :: "char \<Rightarrow> string" where
  "x_uuid c = replicate 8 c @ ''-'' @ replicate 4 c @ ''-'' @ replicate 4 c @ ''-'' @ replicate 4 c @ ''-'' @ replicate 12 c"

definition x_envelope :: event where
  "x_envelope = \<lparr>evt_Version = ''1'', evt_Producer = ''ledger'', evt_Type = ''LedgerOperationResolved'', evt_Country = ''KE'',
     evt_BookID = x_uuid (CHR ''a''), evt_EventID = x_uuid (CHR ''b''), evt_OperationID = x_uuid (CHR ''c''),
     evt_OccurredAt = ''2026-01-02T03:04:05.5Z'',
     evt_Receipt = Some (JObj [(''schema_version'', JStr ''1''), (''book_id'', JStr (x_uuid (CHR ''a''))),
       (''event_id'', JStr (x_uuid (CHR ''b''))), (''operation_id'', JStr (x_uuid (CHR ''c''))),
       (''request_hash'', JStr (replicate 64 (CHR ''0''))), (''kind'', JStr ''TRANSFER_INTERNAL''), (''outcome'', JStr ''APPLIED''),
       (''recorded_at'', JStr ''2026-01-02T03:04:05.5Z'')])\<rparr>"

text \<open>A codec that knows one text.\<close>

definition one_text :: "json \<Rightarrow> string \<Rightarrow> codec" where
  "one_text j s = \<lparr>cd_Marshal = (\<lambda>v. if v = j then Some s else None), cd_Transform = (\<lambda>t. if t = s then Some (s, j) else None)\<rparr>"

lemma one_text_jcs: "jcs_codec (one_text j s)"
  by (auto simp: jcs_codec_def one_text_def jcs_same_refl split: if_split_asm)

definition x_identity :: receipt_identity where
  "x_identity = \<lparr>ri_Version = ''1'', ri_BookID = x_uuid (CHR ''a''), ri_EventID = x_uuid (CHR ''b''),
     ri_OperationID = x_uuid (CHR ''c''), ri_RequestHash = replicate 64 (CHR ''0''), ri_Kind = ''TRANSFER_INTERNAL'',
     ri_Outcome = ''APPLIED'', ri_RecordedAt = ''2026-01-02T03:04:05.5Z''\<rparr>"

lemma x_envelope_read: "decode_event (event_json x_envelope) = Some x_envelope" "Identity x_envelope = Some x_identity"
  by code_simp+

lemma x_envelope_parts:
  "Option.bind (Time_Parse ''2026-01-02T03:04:05.5Z'') (\<lambda>t. Some (Time_IsZero t)) = Some False"
  "list_all ValidID [x_uuid (CHR ''a''), x_uuid (CHR ''b''), x_uuid (CHR ''c'')]"
  "ValidHash (replicate 64 (CHR ''0''))" "''TRANSFER_INTERNAL'' \<in> set event_kinds"
  by code_simp+

lemma x_envelope_valid: "event_valid x_envelope x_identity"
  using x_envelope_parts unfolding event_valid_def x_envelope_def x_identity_def
  by (auto simp: bind_eq_Some_conv)

definition x_codec :: codec where "x_codec = one_text (event_json x_envelope) ''wire''"

lemma x_decode: "Decode x_codec ''wire'' = Some (x_envelope, ''wire'')"
  unfolding Decode_Some using x_envelope_read x_envelope_valid by (simp add: x_codec_def one_text_def MaxBytes_def)

theorem event_roundtrip_witness:
  "\<exists>e1. Decode x_codec ''wire'' = Some (e1, ''wire'') \<and> evt_EventID e1 = x_uuid (CHR ''b'')"
proof -
  have jcs: "jcs_codec x_codec" unfolding x_codec_def by (rule one_text_jcs)
  have enc: "Encode x_codec x_envelope = Some ''wire''"
    using x_decode by (simp add: Encode_def x_codec_def one_text_def)
  have len: "0 < length ''wire'' \<and> length ''wire'' \<le> MaxBytes" by (simp add: MaxBytes_def)
  obtain e1 where e1: "Decode x_codec ''wire'' = Some (e1, ''wire'')" "envelope e1 = envelope x_envelope"
    using event_roundtrip [OF jcs enc] unfolding if_P [OF len] by blast
  moreover have "evt_EventID e1 = envelope e1 ! 5" by (simp add: envelope_def event_fields_def get_event_def)
  moreover have "envelope x_envelope ! 5 = x_uuid (CHR ''b'')" by (simp add: envelope_def event_fields_def get_event_def x_envelope_def)
  ultimately show ?thesis by auto
qed

text \<open>
  The bound on the wire form is needed: when canonicalisation lengthens a text beyond it, \<open>Encode\<close> returns what
  \<open>Decode\<close> refuses.
\<close>

definition long_text :: string where "long_text = replicate (Suc MaxBytes) (CHR ''0'')"

definition long_codec :: codec where
  "long_codec = \<lparr>cd_Marshal = (\<lambda>v. if v = event_json x_envelope then Some ''short'' else None),
     cd_Transform = (\<lambda>t. if t \<in> {''short'', long_text} then Some (long_text, event_json x_envelope) else None)\<rparr>"

lemma encoded_may_outgrow:
  "jcs_codec long_codec \<and> Encode long_codec x_envelope = Some long_text \<and> Decode long_codec long_text = None"
proof -
  have "jcs_codec long_codec" by (auto simp: jcs_codec_def long_codec_def jcs_same_refl split: if_split_asm)
  moreover have "Decode long_codec ''short'' = Some (x_envelope, long_text)"
    unfolding Decode_Some using x_envelope_read x_envelope_valid by (simp add: long_codec_def MaxBytes_def)
  then have "Encode long_codec x_envelope = Some long_text" by (simp add: Encode_def long_codec_def)
  moreover have "Decode long_codec long_text = None" by (simp add: Decode_def long_text_def)
  ultimately show ?thesis by blast
qed

end
