(* ===== verification/Evaluate.thy ===== *)
theory Evaluate
  imports Command
begin

text \<open>
  \<open>application/evaluate.go\<close>: the decision on one command against the state loaded for it. Each
  function takes the plan and returns either an error, or a reason (empty when the command is
  admitted) with the plan as the code has filled it in up to that point. The caller discards
  the plan of an error, and all but its evidence and subjects when there is a reason.
\<close>

type_synonym verdict = "(string \<times> plan) result"

abbreviation applied :: "plan \<Rightarrow> verdict" where
  "applied p \<equiv> Inr ([], p)"

abbreviation rejected :: "string \<Rightarrow> plan \<Rightarrow> verdict" where
  "rejected reason p \<equiv> Inr (reason, p)"

definition with_subjects :: "plan \<Rightarrow> ID list \<Rightarrow> plan" where
  "with_subjects p ids = p\<lparr>pl_Receipt := (pl_Receipt p)\<lparr>rc_SubjectIDs := ids\<rparr>\<rparr>"

definition controlsFor :: "state \<Rightarrow> account \<Rightarrow> (control \<times> control) result" where
  "controlsFor st a =
     (case st_Controls st (Key ''SUBJECT'' (ac_Owner a)) of
        None \<Rightarrow> Inl ErrIntegrity
      | Some sub \<Rightarrow>
          (case st_Controls st (Key ''ACCOUNT'' (ac_ID a)) of
             None \<Rightarrow> Inl ErrIntegrity
           | Some acct \<Rightarrow> Inr (sub, acct)))"

section \<open>Accounts and controls\<close>

fun missing_controls :: "state \<Rightarrow> control_key list \<Rightarrow> control change list" where
  "missing_controls st [] = []"
| "missing_controls st (key # keys) =
     (case st_Controls st key of
        Some _ \<Rightarrow> missing_controls st keys
      | None \<Rightarrow>
          \<lparr>ch_Before = None,
           ch_After = \<lparr>ct_Key = key, ct_Version = 1, ct_Epoch = 1, ct_DebitFrozen = False,
             ct_CreditFrozen = False,
             ct_DailyCap = (if ck_Kind key = ''SUBJECT'' then bo_DefaultCap (st_Book st) else zero_wide)\<rparr>\<rparr>
          # missing_controls st keys)"

definition create :: "caller \<Rightarrow> command \<Rightarrow> state \<Rightarrow> plan \<Rightarrow> verdict" where
  "create c cmd st p0 =
     (case cm_Create cmd of None \<Rightarrow> Inl NilDereference
      | Some request \<Rightarrow>
        if \<not> AllowsSubject c (cr_OwnerID request) then Inl ErrPermission
        else
          let p = with_subjects p0 [cr_OwnerID request]
          in if st_Accounts st (cr_AccountID request) \<noteq> None then rejected ''ACCOUNT_EXISTS'' p
             else
               let a = \<lparr>ac_ID = cr_AccountID request, ac_Book = bo_Book (st_Book st),
                        ac_Owner = cr_OwnerID request, ac_Purpose = cr_Purpose request\<rparr>
               in if \<not> is_ok (Account_Validate a) then Inl ErrInvalid
                  else applied (p\<lparr>
                    pl_NewAccount := Some a,
                    pl_Balances := [\<lparr>ch_Before = None,
                      ch_After = \<lparr>bl_AccountID = ac_ID a, bl_Totals = zero_totals, bl_Version = 1\<rparr>\<rparr>],
                    pl_Controls := pl_Controls p @ missing_controls st
                      [Key ''SUBJECT'' (ac_Owner a), Key ''ACCOUNT'' (ac_ID a)]\<rparr>))"

definition set_control_after :: "set_control \<Rightarrow> control \<Rightarrow> control result" where
  "set_control_after req before =
     res_bind (NextVersion (ct_Version before)) (\<lambda>v.
     res_bind (if sc_RevokeGrants req then NextVersion (ct_Epoch before) else Inr (ct_Epoch before)) (\<lambda>e.
       Inr (before\<lparr>ct_Version := v, ct_Epoch := e, ct_DebitFrozen := sc_DebitFrozen req,
         ct_CreditFrozen := sc_CreditFrozen req, ct_DailyCap := sc_DailyCap req\<rparr>)))"

definition setControl :: "caller \<Rightarrow> command \<Rightarrow> state \<Rightarrow> plan \<Rightarrow> verdict" where
  "setControl c cmd st p0 =
     (case cm_Control cmd of None \<Rightarrow> Inl NilDereference
      | Some req \<Rightarrow>
        res_bind
          (if ck_Kind (sc_Key req) = ''ACCOUNT'' then
             (case st_Accounts st (ck_ID (sc_Key req)) of
                None \<Rightarrow> Inl ErrNotFound
              | Some a \<Rightarrow> if \<not> Wide_IsZero (sc_DailyCap req) then Inl ErrInvalid else Inr (ac_Owner a))
           else Inr (ck_ID (sc_Key req)))
          (\<lambda>subject.
             if \<not> AllowsSubject c subject then Inl ErrPermission
             else
               let p = with_subjects p0 [subject]
               in case st_Controls st (sc_Key req) of
                    None \<Rightarrow> Inl ErrNotFound
                  | Some before \<Rightarrow>
                      if ct_Version before \<noteq> sc_ExpectedVersion req then rejected ''STATE_CONFLICT'' p
                      else (case set_control_after req before of
                              Inl _ \<Rightarrow> rejected ''NUMERIC_LIMIT'' p
                            | Inr after \<Rightarrow>
                                applied (p\<lparr>pl_Controls := [\<lparr>ch_Before = Some before, ch_After = after\<rparr>]\<rparr>))))"

section \<open>Transfers\<close>

definition transfer_lines :: "account \<Rightarrow> account \<Rightarrow> account \<Rightarrow> amount \<Rightarrow> terms \<Rightarrow> line list" where
  "transfer_lines a recipient feeAccount tot terms =
     [\<lparr>ln_Account = a, ln_Side = Debit, ln_Amount = tot\<rparr>,
      \<lparr>ln_Account = recipient, ln_Side = Credit, ln_Amount = tm_Principal terms\<rparr>] @
     (if Amount_IsZero (tm_Fee terms) then []
      else [\<lparr>ln_Account = feeAccount, ln_Side = Credit, ln_Amount = tm_Fee terms\<rparr>])"

text \<open>The loop that posts the lines of a transfer: each one moves the balance of its account.\<close>

fun post_lines :: "state \<Rightarrow> line list \<Rightarrow> plan \<Rightarrow> verdict" where
  "post_lines st [] p = applied p"
| "post_lines st (l # ls) p =
     (case st_Balances st (ac_ID (ln_Account l)) of
        None \<Rightarrow> Inl ErrIntegrity
      | Some before \<Rightarrow>
          (case Post (bl_Totals before) (ac_Purpose (ln_Account l)) (ln_Side l) (ln_Amount l) of
             Inl _ \<Rightarrow> rejected ''NUMERIC_LIMIT'' p
           | Inr totals \<Rightarrow>
               (case NextVersion (bl_Version before) of
                  Inl _ \<Rightarrow> rejected ''NUMERIC_LIMIT'' p
                | Inr v \<Rightarrow>
                    post_lines st ls (p\<lparr>pl_Balances := pl_Balances p @
                      [\<lparr>ch_Before = Some before,
                        ch_After = before\<lparr>bl_Totals := totals, bl_Version := v\<rparr>\<rparr>]\<rparr>))))"

definition admit_transfer ::
  "env \<Rightarrow> state \<Rightarrow> terms \<Rightarrow> account \<Rightarrow> account \<Rightarrow> amount \<Rightarrow> plan \<Rightarrow> verdict" where
  "admit_transfer E st terms a feeAccount tot p =
     (if tm_SourceID terms = tm_BeneficiaryID terms then rejected ''SELF_TRANSFER'' p
      else case st_Accounts st (tm_BeneficiaryID terms) of
        None \<Rightarrow> rejected ''UNKNOWN_BENEFICIARY'' p
      | Some recipient \<Rightarrow>
          if ac_Purpose recipient \<noteq> Wallet then rejected ''INVALID_ACCOUNT_PURPOSE'' p
          else res_bind (controlsFor st recipient) (\<lambda>(rs, ra).
            if ct_CreditFrozen rs \<or> ct_CreditFrozen ra then rejected ''BENEFICIARY_BLOCKED'' p
            else
              let lines = transfer_lines a recipient feeAccount tot terms
              in case NewJournal (en_sha256 E) (bo_Book (st_Book st)) lines of
                   Inl _ \<Rightarrow> Inl ErrIntegrity
                 | Inr journal \<Rightarrow> post_lines st lines (p\<lparr>pl_Journal := Some journal\<rparr>)))"

section \<open>Payout reservations\<close>

text \<open>The loop that holds funds of the wallet and of the provider pool.\<close>

fun reserve_entries :: "state \<Rightarrow> (ID \<times> amount) list \<Rightarrow> plan \<Rightarrow> verdict" where
  "reserve_entries st [] p = applied p"
| "reserve_entries st ((i, amount) # es) p =
     (case st_Balances st i of
        None \<Rightarrow> Inl ErrIntegrity
      | Some before \<Rightarrow>
          (case Totals_Reserve (bl_Totals before) (ac_Purpose (map_get zero_account (st_Accounts st) i)) amount of
             Inl e \<Rightarrow> rejected (if e = ErrUnderflow then ''PROVIDER_CAPACITY_EXCEEDED'' else ''NUMERIC_LIMIT'') p
           | Inr totals \<Rightarrow>
               (case NextVersion (bl_Version before) of
                  Inl _ \<Rightarrow> rejected ''NUMERIC_LIMIT'' p
                | Inr v \<Rightarrow>
                    reserve_entries st es (p\<lparr>pl_Balances := pl_Balances p @
                      [\<lparr>ch_Before = Some before,
                        ch_After = before\<lparr>bl_Totals := totals, bl_Version := v\<rparr>\<rparr>]\<rparr>))))"

text \<open>The hold as it is stored: the replayable signature is erased.\<close>

definition new_hold :: "reserve \<Rightarrow> terms \<Rightarrow> account \<Rightarrow> policy \<Rightarrow> string \<Rightarrow> hold" where
  "new_hold r terms a policy bucket =
     \<lparr>hd_ID = rs_HoldID r,
      hd_Terms = terms\<lparr>tm_Grant := (tm_Grant terms)\<lparr>sg_Signature := []\<rparr>\<rparr>,
      hd_OwnerID = ac_Owner a, hd_AttemptID = rs_AttemptID r, hd_PoolID = rs_PoolID r,
      hd_FeeAccountID = po_FeeAccountID policy, hd_ProviderAccountID = po_ProviderAccountID policy,
      hd_CapabilityID = po_CapabilityID policy, hd_Bucket = bucket,
      hd_State = new_hold_state (rs_ExpiresAt r)\<rparr>"

definition admit_reserve ::
  "state \<Rightarrow> reserve \<Rightarrow> terms \<Rightarrow> account \<Rightarrow> policy \<Rightarrow> amount \<Rightarrow> string \<Rightarrow> time \<Rightarrow> plan \<Rightarrow> verdict" where
  "admit_reserve st r terms a policy tot bucket now p =
     (if st_Hold st \<noteq> None then rejected ''HOLD_EXISTS'' p
      else if rs_PoolID r \<noteq> po_PoolID policy then rejected ''INVALID_PROVIDER_POOL'' p
      else case st_Accounts st (rs_PoolID r) of
        None \<Rightarrow> Inl ErrIntegrity
      | Some pool \<Rightarrow>
          if ac_Purpose pool \<noteq> ProviderPool then Inl ErrIntegrity
          else res_bind (controlsFor st pool) (\<lambda>(ps, pa).
            if ct_DebitFrozen ps \<or> ct_DebitFrozen pa then rejected ''PROVIDER_POOL_BLOCKED'' p
            else if \<not> Before now (rs_ExpiresAt r)
                 \<or> After (rs_ExpiresAt r) (Time_Add now (po_MaxHoldSeconds policy * Second))
                 \<or> After (rs_ExpiresAt r) (gr_ExpiresAt (sg_Claims (tm_Grant terms)))
            then rejected ''INVALID_EXPIRY'' p
            else res_bind
              (reserve_entries st [(ac_ID a, tot), (ac_ID pool, tm_Principal terms)] p)
              (\<lambda>(reason, q).
                 if reason \<noteq> [] then rejected reason q
                 else applied (q\<lparr>pl_Hold := Some \<lparr>ch_Before = None,
                   ch_After = new_hold r terms a policy bucket\<rparr>\<rparr>))))"

section \<open>Admission\<close>

definition admit_terms :: "command \<Rightarrow> terms result" where
  "admit_terms cmd =
     (if cm_Kind cmd = TransferInternal then deref (cm_Transfer cmd) tr_Terms
      else deref (cm_Reserve cmd) rs_Terms)"

text \<open>The usage of the owner's day before the command, and after it with its new version.\<close>

definition current_usage :: "env \<Rightarrow> state \<Rightarrow> account \<Rightarrow> time \<Rightarrow> usage" where
  "current_usage E st a now =
     (case st_Usage st of
        None \<Rightarrow> \<lparr>ug_OwnerID = ac_Owner a, ug_Bucket = Bucket E now, ug_Values = zero_usage, ug_Version = 0\<rparr>
      | Some u \<Rightarrow> u)"

definition next_usage :: "usage \<Rightarrow> usage_values result \<Rightarrow> usage result" where
  "next_usage u values =
     res_bind values (\<lambda>v. res_bind (NextVersion (ug_Version u)) (\<lambda>n.
       Inr (u\<lparr>ug_Values := v, ug_Version := n\<rparr>)))"

text \<open>From the policy to the point where the payment is known to fit funds and limit.\<close>

definition admit_funds ::
  "env \<Rightarrow> command \<Rightarrow> state \<Rightarrow> time \<Rightarrow> terms \<Rightarrow> account \<Rightarrow> control \<Rightarrow> policy \<Rightarrow> plan \<Rightarrow> verdict" where
  "admit_funds E cmd st now terms a sub policy p =
     (case st_Accounts st (po_FeeAccountID policy) of
        None \<Rightarrow> Inl ErrIntegrity
      | Some feeAccount \<Rightarrow>
          if ac_Purpose feeAccount \<noteq> FeeIncome then Inl ErrIntegrity
          else case Amount_Add (tm_Principal terms) (tm_Fee terms) of
            Inl _ \<Rightarrow> rejected ''NUMERIC_LIMIT'' p
          | Inr tot \<Rightarrow>
              (case st_Balances st (ac_ID a) of
                 None \<Rightarrow> Inl ErrIntegrity
               | Some bal \<Rightarrow>
                   (case Available (bl_Totals bal) (ac_Purpose a) of
                      Inl _ \<Rightarrow> Inl ErrIntegrity
                    | Inr available \<Rightarrow>
                        if Cmp available (WideAmount tot) < 0 then rejected ''INSUFFICIENT_FUNDS'' p
                        else
                          let usage = current_usage E st a now
                          in if ug_OwnerID usage \<noteq> ac_Owner a \<or> ug_Bucket usage \<noteq> Bucket E now
                             then Inl ErrIntegrity
                             else case next_usage usage (Usage_Admit (ug_Values usage) (ct_DailyCap sub)
                                         (tm_Principal terms) (cm_Kind cmd = ReservePayout)) of
                               Inl e \<Rightarrow> rejected (if e = ErrLimit then ''LIMIT_EXCEEDED'' else ''NUMERIC_LIMIT'') p
                             | Inr nextUsage \<Rightarrow>
                                 let q = p\<lparr>pl_Usage := Some \<lparr>ch_Before = st_Usage st, ch_After = nextUsage\<rparr>\<rparr>
                                 in if cm_Kind cmd = TransferInternal
                                    then admit_transfer E st terms a feeAccount tot q
                                    else (case cm_Reserve cmd of None \<Rightarrow> Inl NilDereference
                                          | Some r \<Rightarrow> admit_reserve st r terms a policy tot
                                              (ug_Bucket usage) now q))))"

definition admit ::
  "env \<Rightarrow> trust \<Rightarrow> caller \<Rightarrow> command \<Rightarrow> state \<Rightarrow> time \<Rightarrow> plan \<Rightarrow> verdict" where
  "admit E t c cmd st now p0 =
     res_bind (admit_terms cmd) (\<lambda>terms.
       case st_Accounts st (tm_SourceID terms) of
         None \<Rightarrow> Inl ErrNotFound
       | Some a \<Rightarrow>
           if \<not> AllowsSubject c (ac_Owner a) then Inl ErrPermission
           else
             let p = with_subjects p0 [ac_Owner a]
             in if \<not> grantBinding E t (cm_BookID cmd) terms (ac_Owner a) then Inl ErrPermission
                else if ac_Purpose a \<noteq> Wallet then rejected ''INVALID_ACCOUNT_PURPOSE'' p
                else res_bind (controlsFor st a) (\<lambda>(sub, acct).
                  if st_Claim st \<noteq> None then rejected ''BUSINESS_ALREADY_DECIDED'' p
                  else
                    let g = sg_Claims (tm_Grant terms)
                    in if Before now (gr_NotBefore g) \<or> \<not> Before now (gr_ExpiresAt g)
                       then rejected ''GRANT_EXPIRED'' p
                       else if gr_SubjectEpoch g \<noteq> ct_Epoch sub \<or> gr_AccountEpoch g \<noteq> ct_Epoch acct
                       then rejected ''AUTHORIZATION_REVOKED'' p
                       else if ct_DebitFrozen sub \<or> ct_DebitFrozen acct
                       then rejected ''ACCOUNT_BLOCKED'' p
                       else case st_Policy st of
                         None \<Rightarrow> rejected ''INVALID_POLICY'' p
                       | Some policy \<Rightarrow>
                           if po_ID policy \<noteq> tm_PolicyID terms \<or> po_Fee policy \<noteq> tm_Fee terms
                           then rejected ''INVALID_POLICY'' p
                           else admit_funds E cmd st now terms a sub policy p))"

section \<open>Resolution\<close>

definition resolve_ref :: "command \<Rightarrow> hold_ref result" where
  "resolve_ref cmd =
     (if cm_Kind cmd = MarkHoldExposed then deref (cm_Expose cmd) ex_Ref
      else if cm_Kind cmd = CapturePayout then deref (cm_Capture cmd) cp_Ref
      else deref (cm_Release cmd) rl_Ref)"

text \<open>
  The three branches that decide the next state of the hold. Each returns a reason, the plan
  (with the evidence it has verified) and, when the reason is empty, the new state.
\<close>

type_synonym hold_verdict = "(string \<times> plan \<times> hold_state_value) result"

abbreviation refused :: "string \<Rightarrow> plan \<Rightarrow> hold \<Rightarrow> hold_verdict" where
  "refused reason p h \<equiv> Inr (reason, p, hd_State h)"

abbreviation moved :: "plan \<Rightarrow> hold_state_value \<Rightarrow> hold_verdict" where
  "moved p s \<equiv> Inr ([], p, s)"

definition resolve_expose ::
  "trust \<Rightarrow> expose \<Rightarrow> state \<Rightarrow> hold \<Rightarrow> time \<Rightarrow> plan \<Rightarrow> hold_verdict" where
  "resolve_expose t x st before now p =
     (case st_Accounts st (tm_SourceID (hd_Terms before)) of
        None \<Rightarrow> Inl ErrIntegrity
      | Some a \<Rightarrow>
          res_bind (controlsFor st a) (\<lambda>(sub, acct).
            let g = sg_Claims (tm_Grant (hd_Terms before))
            in if ex_GrantID x \<noteq> gr_ID g then refused ''GRANT_BINDING_CONFLICT'' p before
               else if ct_DebitFrozen sub \<or> ct_DebitFrozen acct then refused ''ACCOUNT_BLOCKED'' p before
               else if gr_SubjectEpoch g \<noteq> ct_Epoch sub \<or> gr_AccountEpoch g \<noteq> ct_Epoch acct
               then refused ''AUTHORIZATION_REVOKED'' p before
               else if Before now (gr_NotBefore g) \<or> \<not> Before now (gr_ExpiresAt g)
                    \<or> length (map_get [] (ts_GrantKeys t) (gr_Issuer g)) \<noteq> 32
               then refused ''GRANT_EXPIRED'' p before
               else case st_Accounts st (hd_PoolID before) of
                 None \<Rightarrow> Inl ErrIntegrity
               | Some pool \<Rightarrow>
                   res_bind (controlsFor st pool) (\<lambda>(ps, pa).
                     if ct_DebitFrozen ps \<or> ct_DebitFrozen pa then refused ''PROVIDER_POOL_BLOCKED'' p before
                     else case Hold_Expose (hd_State before) (rf_ExpectedVersion (ex_Ref x)) now of
                       Inl e \<Rightarrow> refused (if e = ErrExpired then ''HOLD_EXPIRED'' else ''STATE_CONFLICT'') p before
                     | Inr s \<Rightarrow> moved p s)))"

definition resolve_capture ::
  "env \<Rightarrow> trust \<Rightarrow> ID \<Rightarrow> capture \<Rightarrow> hold \<Rightarrow> time \<Rightarrow> plan \<Rightarrow> hold_verdict" where
  "resolve_capture E t book x before now p =
     (let ev = cp_Evidence x
      in if \<not> trust_evidence E t book before ev now \<or> ev_FinalState (se_Claims ev) \<noteq> ''FINAL_SUCCESS''
         then refused ''INVALID_EVIDENCE'' p before
         else
           let q = p\<lparr>pl_Evidence := Some (se_Claims ev)\<rparr>
           in case Hold_Capture (hd_State before) (rf_ExpectedVersion (cp_Ref x)) True of
                Inl _ \<Rightarrow> refused ''STATE_CONFLICT'' q before
              | Inr s \<Rightarrow> moved q s)"

definition resolve_release ::
  "env \<Rightarrow> trust \<Rightarrow> ID \<Rightarrow> release \<Rightarrow> hold \<Rightarrow> time \<Rightarrow> plan \<Rightarrow> hold_verdict" where
  "resolve_release E t book r before now p =
     (let finish = (\<lambda>q fenced.
            case Hold_Release (hd_State before) (rf_ExpectedVersion (rl_Ref r)) fenced of
              Inl _ \<Rightarrow> refused ''STATE_CONFLICT'' q before
            | Inr s \<Rightarrow> moved q s)
      in if rl_Reason r = ''FINAL_FAILURE'' then
           (case rl_Evidence r of
              None \<Rightarrow> refused ''INVALID_EVIDENCE'' p before
            | Some ev \<Rightarrow>
                if \<not> trust_evidence E t book before ev now
                   \<or> ev_FinalState (se_Claims ev) \<noteq> ''FINAL_FAILURE''
                then refused ''INVALID_EVIDENCE'' p before
                else
                  let q = p\<lparr>pl_Evidence := Some (se_Claims ev)\<rparr>
                  in if hs_State (hd_State before) \<noteq> Exposed then refused ''STATE_CONFLICT'' q before
                     else finish q True)
         else if hs_State (hd_State before) = Exposed then refused ''EXPOSED_REQUIRES_EVIDENCE'' p before
         else if rl_Reason r = ''EXPIRY'' \<and> Before now (hs_ExpiresAt (hd_State before))
         then refused ''NOT_EXPIRED'' p before
         else finish p False)"

definition resolve_state ::
  "env \<Rightarrow> trust \<Rightarrow> command \<Rightarrow> state \<Rightarrow> hold \<Rightarrow> time \<Rightarrow> plan \<Rightarrow> hold_verdict" where
  "resolve_state E t cmd st before now p =
     (if cm_Kind cmd = MarkHoldExposed then
        (case cm_Expose cmd of None \<Rightarrow> Inl NilDereference
         | Some x \<Rightarrow> resolve_expose t x st before now p)
      else if cm_Kind cmd = CapturePayout then
        (case cm_Capture cmd of None \<Rightarrow> Inl NilDereference
         | Some x \<Rightarrow> resolve_capture E t (cm_BookID cmd) x before now p)
      else
        (case cm_Release cmd of None \<Rightarrow> Inl NilDereference
         | Some r \<Rightarrow> resolve_release E t (cm_BookID cmd) r before now p))"

text \<open>The loop over the wallet and the pool: undo the hold and, on capture, post it.\<close>

fun settle_entries :: "state \<Rightarrow> bool \<Rightarrow> (ID \<times> amount \<times> side) list \<Rightarrow> plan \<Rightarrow> plan result" where
  "settle_entries st capture [] p = Inr p"
| "settle_entries st capture ((i, amount, side) # es) p =
     (case st_Balances st i of
        None \<Rightarrow> Inl ErrIntegrity
      | Some old \<Rightarrow>
          (case res_bind (Totals_Release (bl_Totals old) amount) (\<lambda>freed.
                  if capture then Post freed (ac_Purpose (map_get zero_account (st_Accounts st) i)) side amount
                  else Inr freed) of
             Inl _ \<Rightarrow> Inl ErrIntegrity
           | Inr totals \<Rightarrow>
               (case NextVersion (bl_Version old) of
                  Inl _ \<Rightarrow> Inl ErrIntegrity
                | Inr v \<Rightarrow>
                    settle_entries st capture es (p\<lparr>pl_Balances := pl_Balances p @
                      [\<lparr>ch_Before = Some old, ch_After = old\<lparr>bl_Totals := totals, bl_Version := v\<rparr>\<rparr>]\<rparr>))))"

definition settle_usage :: "state \<Rightarrow> hold \<Rightarrow> bool \<Rightarrow> plan \<Rightarrow> plan result" where
  "settle_usage st before capture p =
     (case st_Usage st of
        None \<Rightarrow> Inl ErrIntegrity
      | Some u \<Rightarrow>
          if ug_OwnerID u \<noteq> hd_OwnerID before \<or> ug_Bucket u \<noteq> hd_Bucket before then Inl ErrIntegrity
          else case next_usage u (Usage_Resolve (ug_Values u) (tm_Principal (hd_Terms before)) capture) of
            Inl _ \<Rightarrow> Inl ErrIntegrity
          | Inr v \<Rightarrow> Inr (p\<lparr>pl_Usage := Some \<lparr>ch_Before = st_Usage st, ch_After = v\<rparr>\<rparr>))"

definition capture_fee :: "state \<Rightarrow> account \<Rightarrow> amount \<Rightarrow> plan \<Rightarrow> plan result" where
  "capture_fee st feeAccount fee p =
     (if Amount_IsZero fee then Inr p
      else case st_Balances st (ac_ID feeAccount) of
        None \<Rightarrow> Inl ErrIntegrity
      | Some old \<Rightarrow>
          (case Post (bl_Totals old) (ac_Purpose feeAccount) Credit fee of
             Inl _ \<Rightarrow> Inl ErrIntegrity
           | Inr totals \<Rightarrow>
               (case NextVersion (bl_Version old) of
                  Inl _ \<Rightarrow> Inl ErrIntegrity
                | Inr v \<Rightarrow> Inr (p\<lparr>pl_Balances := pl_Balances p @
                    [\<lparr>ch_Before = Some old, ch_After = old\<lparr>bl_Totals := totals, bl_Version := v\<rparr>\<rparr>]\<rparr>))))"

definition capture_journal :: "env \<Rightarrow> state \<Rightarrow> hold \<Rightarrow> amount \<Rightarrow> plan \<Rightarrow> plan result" where
  "capture_journal E st before tot p =
     (let terms = hd_Terms before;
          account = map_get zero_account (st_Accounts st);
          source = account (tm_SourceID terms); pool = account (hd_PoolID before);
          fee = account (hd_FeeAccountID before)
      in res_bind (capture_fee st fee (tm_Fee terms) p) (\<lambda>q.
           case NewJournal (en_sha256 E) (bo_Book (st_Book st)) (transfer_lines source pool fee tot terms) of
             Inl _ \<Rightarrow> Inl ErrIntegrity
           | Inr j \<Rightarrow> Inr (q\<lparr>pl_Journal := Some j\<rparr>)))"

text \<open>Everything after the hold has moved: no rejection is left, only integrity errors.\<close>

definition resolve_money :: "env \<Rightarrow> command \<Rightarrow> state \<Rightarrow> hold \<Rightarrow> plan \<Rightarrow> plan result" where
  "resolve_money E cmd st before p =
     (let terms = hd_Terms before; capture = (cm_Kind cmd = CapturePayout)
      in case Amount_Add (tm_Principal terms) (tm_Fee terms) of
           Inl _ \<Rightarrow> Inl ErrIntegrity
         | Inr tot \<Rightarrow>
             res_bind (settle_entries st capture
               [(tm_SourceID terms, tot, Debit), (hd_PoolID before, tm_Principal terms, Credit)] p) (\<lambda>p1.
             res_bind (settle_usage st before capture p1) (\<lambda>p2.
               if capture then capture_journal E st before tot p2 else Inr p2)))"

definition resolve_claim :: "command \<Rightarrow> claim \<Rightarrow> hold \<Rightarrow> claim" where
  "resolve_claim cmd claim after =
     claim\<lparr>cc_State := hs_State (hd_State after), cc_ResultOperationID := cm_OperationID cmd\<rparr>"

definition resolve ::
  "env \<Rightarrow> trust \<Rightarrow> caller \<Rightarrow> command \<Rightarrow> state \<Rightarrow> time \<Rightarrow> plan \<Rightarrow> verdict" where
  "resolve E t c cmd st now p0 =
     (case st_Hold st of
        None \<Rightarrow> Inl ErrNotFound
      | Some before \<Rightarrow>
          if \<not> AllowsSubject c (hd_OwnerID before) then Inl ErrPermission
          else
            let p = with_subjects p0 [hd_OwnerID before]
            in res_bind (resolve_ref cmd) (\<lambda>ref.
              if rf_PaymentID ref \<noteq> tm_PaymentID (hd_Terms before) \<or> rf_AttemptID ref \<noteq> hd_AttemptID before
              then rejected ''HOLD_BINDING_CONFLICT'' p
              else case st_Claim st of
                None \<Rightarrow> Inl ErrIntegrity
              | Some claim \<Rightarrow>
                  if cc_HoldID claim \<noteq> hd_ID before then Inl ErrIntegrity
                  else res_bind (resolve_state E t cmd st before now p) (\<lambda>(reason, p1, s).
                    if reason \<noteq> [] then rejected reason p1
                    else
                      let after = before\<lparr>hd_State := s\<rparr>;
                          p2 = p1\<lparr>pl_Hold := Some \<lparr>ch_Before = Some before, ch_After = after\<rparr>,
                                 pl_Claim := Some \<lparr>ch_Before = st_Claim st,
                                   ch_After = resolve_claim cmd claim after\<rparr>\<rparr>
                      in if cm_Kind cmd = MarkHoldExposed then applied p2
                         else res_bind (resolve_money E cmd st before p2) applied)))"

section \<open>Dispatch\<close>

definition evaluate ::
  "env \<Rightarrow> trust \<Rightarrow> caller \<Rightarrow> command \<Rightarrow> state \<Rightarrow> time \<Rightarrow> plan \<Rightarrow> verdict" where
  "evaluate E t c cmd st now p =
     (if cm_Kind cmd = CreateAccount then create c cmd st p
      else if cm_Kind cmd = SetAccountControl then setControl c cmd st p
      else if cm_Kind cmd = TransferInternal \<or> cm_Kind cmd = ReservePayout then admit E t c cmd st now p
      else if cm_Kind cmd = MarkHoldExposed \<or> cm_Kind cmd = CapturePayout \<or> cm_Kind cmd = ReleasePayout
      then resolve E t c cmd st now p
      else Inl ErrInvalid)"

end
