(* ===== verification/Effects.thy ===== *)
theory Effects
  imports Evaluate
begin

text \<open>
  What an applied plan does to money. A movement is an account with the change of its debits,
  credits and held funds; the loops of \<open>evaluate.go\<close> turn a list of movements into balance
  changes, and the effect of a plan relates those changes to its journal and to its hold.
\<close>

section \<open>Well-formed inputs\<close>

definition balance_ok :: "purpose \<Rightarrow> balance \<Rightarrow> bool" where
  "balance_ok p b = (totals_ok (bl_Totals b) \<and> solvent p (tally_of (bl_Totals b)))"

definition terms_ok :: "terms \<Rightarrow> bool" where
  "terms_ok t = (0 < amount_val (tm_Principal t) \<and> amount_ok (tm_Fee t))"

text \<open>A hold that \<open>admit\<close> can have created: it binds a wallet of its owner to a provider pool.\<close>

definition hold_ok :: "(ID \<rightharpoonup> account) \<Rightarrow> hold \<Rightarrow> bool" where
  "hold_ok accounts h =
     (terms_ok (hd_Terms h)
      \<and> amount_val (tm_Principal (hd_Terms h)) + amount_val (tm_Fee (hd_Terms h)) < 2 ^ 63
      \<and> (case accounts (tm_SourceID (hd_Terms h)) of None \<Rightarrow> False
         | Some a \<Rightarrow> ac_Purpose a = Wallet \<and> ac_Owner a = hd_OwnerID h)
      \<and> (case accounts (hd_PoolID h) of None \<Rightarrow> False | Some a \<Rightarrow> ac_Purpose a = ProviderPool)
      \<and> (case accounts (hd_FeeAccountID h) of None \<Rightarrow> False | Some a \<Rightarrow> ac_Purpose a = FeeIncome))"

definition state_ok :: "state \<Rightarrow> bool" where
  "state_ok st =
     ((\<forall>i a. st_Accounts st i = Some a \<longrightarrow> ac_ID a = i \<and> (\<exists>b. st_Balances st i = Some b))
      \<and> (\<forall>i b. st_Balances st i = Some b \<longrightarrow> bl_AccountID b = i \<and>
           (\<exists>a. st_Accounts st i = Some a \<and> balance_ok (ac_Purpose a) b))
      \<and> (\<forall>u. st_Usage st = Some u \<longrightarrow> usage_ok (ug_Values u))
      \<and> (\<forall>h. st_Hold st = Some h \<longrightarrow> hold_ok (st_Accounts st) h))"

definition command_ok :: "command \<Rightarrow> bool" where
  "command_ok cmd =
     ((\<forall>x. cm_Create cmd = Some x \<longrightarrow> cr_Purpose x = Wallet)
      \<and> (\<forall>x. cm_Transfer cmd = Some x \<longrightarrow> terms_ok (tr_Terms x))
      \<and> (\<forall>x. cm_Reserve cmd = Some x \<longrightarrow> terms_ok (rs_Terms x)))"

definition fresh_plan :: "plan \<Rightarrow> bool" where
  "fresh_plan p = (pl_NewAccount p = None \<and> pl_Journal p = None \<and> pl_Balances p = [] \<and> pl_Controls p = []
     \<and> pl_Hold p = None \<and> pl_Usage p = None \<and> pl_Claim p = None \<and> pl_Evidence p = None)"

section \<open>Movements\<close>

type_synonym movement = "ID \<times> tally"

definition tally_add :: "tally \<Rightarrow> tally \<Rightarrow> tally" where
  "tally_add = (\<lambda>(d, c, h) (d', c', h'). (d + d', c + c', h + h'))"

text \<open>One balance change carries out one movement: from the loaded balance, one version up.\<close>

definition moves :: "state \<Rightarrow> movement \<Rightarrow> balance change \<Rightarrow> bool" where
  "moves st m ch =
     (case (st_Accounts st (fst m), st_Balances st (fst m)) of
        (Some a, Some b) \<Rightarrow>
          ch_Before ch = Some b \<and> bl_AccountID (ch_After ch) = fst m
          \<and> sint (bl_Version (ch_After ch)) = sint (bl_Version b) + 1
          \<and> balance_ok (ac_Purpose a) (ch_After ch)
          \<and> tally_of (bl_Totals (ch_After ch)) = tally_add (tally_of (bl_Totals b)) (snd m)
      | _ \<Rightarrow> False)"

definition line_movement :: "line \<Rightarrow> movement" where
  "line_movement l =
     (ac_ID (ln_Account l),
      if ln_Side l = Debit then (amount_val (ln_Amount l), 0, 0) else (0, amount_val (ln_Amount l), 0))"

definition reserve_movement :: "ID \<times> amount \<Rightarrow> movement" where
  "reserve_movement = (\<lambda>(i, a). (i, (0, 0, amount_val a)))"

definition settle_movement :: "bool \<Rightarrow> ID \<times> amount \<times> side \<Rightarrow> movement" where
  "settle_movement capture = (\<lambda>(i, a, side).
     (i, (if capture \<and> side = Debit then amount_val a else 0,
          if capture \<and> side \<noteq> Debit then amount_val a else 0, - amount_val a)))"

lemma state_ok_balance:
  assumes "state_ok st" and "st_Balances st i = Some b"
  obtains a where "st_Accounts st i = Some a" "ac_ID a = i" "bl_AccountID b = i" "balance_ok (ac_Purpose a) b"
  using assms unfolding state_ok_def by metis

lemma state_ok_account:
  assumes "state_ok st" and "st_Accounts st i = Some a"
  shows "ac_ID a = i" and "\<exists>b. st_Balances st i = Some b"
  using assms unfolding state_ok_def by blast+

lemma post_moves:
  assumes "state_ok st" and "amount_ok n" and "st_Balances st i = Some b" and "st_Accounts st i = Some a"
    and "Post (bl_Totals b) (ac_Purpose a) side n = Inr t" and "NextVersion (bl_Version b) = Inr v"
  shows "moves st (i, if side = Debit then (amount_val n, 0, 0) else (0, amount_val n, 0))
    \<lparr>ch_Before = Some b, ch_After = b\<lparr>bl_Totals := t, bl_Version := v\<rparr>\<rparr>"
proof -
  have b: "totals_ok (bl_Totals b)" "bl_AccountID b = i"
    using assms(1,3) by (auto elim: state_ok_balance simp: balance_ok_def)
  show ?thesis
    using Post_Inr [OF b(1) assms(2,5)] NextVersion_Inr(1) [OF assms(6)] assms(3,4) b(2)
    by (cases "tally_of (bl_Totals b)") (auto simp: moves_def balance_ok_def tally_add_def)
qed

lemma reserve_moves:
  assumes "state_ok st" and "amount_ok n" and "st_Balances st i = Some b" and "st_Accounts st i = Some a"
    and "Totals_Reserve (bl_Totals b) (ac_Purpose a) n = Inr t" and "NextVersion (bl_Version b) = Inr v"
  shows "moves st (i, (0, 0, amount_val n))
    \<lparr>ch_Before = Some b, ch_After = b\<lparr>bl_Totals := t, bl_Version := v\<rparr>\<rparr>"
proof -
  have b: "totals_ok (bl_Totals b)" "bl_AccountID b = i"
    using assms(1,3) by (auto elim: state_ok_balance simp: balance_ok_def)
  show ?thesis
    using Reserve_Inr [OF b(1) assms(2,5)] NextVersion_Inr(1) [OF assms(6)] assms(3,4) b(2)
    by (cases "tally_of (bl_Totals b)") (auto simp: moves_def balance_ok_def tally_add_def)
qed

lemma solvent_freed: "solvent p (d, c, h) \<Longrightarrow> 0 \<le> n \<Longrightarrow> n \<le> h \<Longrightarrow> solvent p (d, c, h - n)"
  by (auto simp: solvent_def spec_posted_def)

lemma release_moves:
  assumes "state_ok st" and "amount_ok n" and "st_Balances st i = Some b"
    and "Totals_Release (bl_Totals b) n = Inr t" and "NextVersion (bl_Version b) = Inr v"
  shows "moves st (i, (0, 0, - amount_val n))
    \<lparr>ch_Before = Some b, ch_After = b\<lparr>bl_Totals := t, bl_Version := v\<rparr>\<rparr>"
proof -
  obtain a where a: "st_Accounts st i = Some a" "bl_AccountID b = i" "balance_ok (ac_Purpose a) b"
    using assms(1,3) by (rule state_ok_balance)
  then have ok: "totals_ok (bl_Totals b)" "solvent (ac_Purpose a) (tally_of (bl_Totals b))"
    by (simp_all add: balance_ok_def)
  show ?thesis
    using Release_Inr [OF ok(1) assms(2,4)] NextVersion_Inr(1) [OF assms(5)] assms(3) a ok(2)
      amount_val_range [OF assms(2)]
    by (cases "tally_of (bl_Totals b)") (auto simp: moves_def balance_ok_def tally_add_def intro: solvent_freed)
qed

lemma settle_moves:
  assumes "state_ok st" and "amount_ok n" and "st_Balances st i = Some b" and "st_Accounts st i = Some a"
    and "Totals_Release (bl_Totals b) n = Inr f" and "Post f (ac_Purpose a) side n = Inr t"
    and "NextVersion (bl_Version b) = Inr v"
  shows "moves st (settle_movement True (i, n, side))
    \<lparr>ch_Before = Some b, ch_After = b\<lparr>bl_Totals := t, bl_Version := v\<rparr>\<rparr>"
proof -
  have b: "totals_ok (bl_Totals b)" "bl_AccountID b = i"
    using assms(1,3) by (auto elim: state_ok_balance simp: balance_ok_def)
  note freed = Release_Inr [OF b(1) assms(2,5)]
  show ?thesis
    using Post_Inr [OF freed(1) assms(2,6)] freed(2) NextVersion_Inr(1) [OF assms(7)] assms(3,4) b(2)
    by (cases "tally_of (bl_Totals b)")
       (auto simp: moves_def balance_ok_def tally_add_def settle_movement_def)
qed

section \<open>The loops carry out their movements\<close>

lemma post_lines_applied:
  assumes "post_lines st ls p = applied q" and "state_ok st"
    and "\<forall>l\<in>set ls. amount_ok (ln_Amount l) \<and> st_Accounts st (ac_ID (ln_Account l)) = Some (ln_Account l)"
  shows "\<exists>chs. q = p\<lparr>pl_Balances := pl_Balances p @ chs\<rparr> \<and> list_all2 (moves st) (map line_movement ls) chs"
  using assms
proof (induction ls arbitrary: p)
  case (Cons l ls)
  let ?i = "ac_ID (ln_Account l)"
  obtain b t v where b: "st_Balances st ?i = Some b"
    and t: "Post (bl_Totals b) (ac_Purpose (ln_Account l)) (ln_Side l) (ln_Amount l) = Inr t"
    and v: "NextVersion (bl_Version b) = Inr v"
    using Cons.prems(1) by (auto split: option.splits sum.splits)
  let ?ch = "\<lparr>ch_Before = Some b, ch_After = b\<lparr>bl_Totals := t, bl_Version := v\<rparr>\<rparr>"
  have "moves st (line_movement l) ?ch"
    using post_moves [OF Cons.prems(2) _ b _ t v] Cons.prems(3) by (simp add: line_movement_def)
  moreover obtain chs where "q = p\<lparr>pl_Balances := pl_Balances p @ ?ch # chs\<rparr>"
      "list_all2 (moves st) (map line_movement ls) chs"
    using Cons.IH [of "p\<lparr>pl_Balances := pl_Balances p @ [?ch]\<rparr>"] Cons.prems b t v by auto
  ultimately show ?case by (intro exI [of _ "?ch # chs"]) simp
qed simp

lemma reserve_entries_applied:
  assumes "reserve_entries st es p = applied q" and "state_ok st"
    and "\<forall>(i, a)\<in>set es. amount_ok a \<and> (\<exists>x. st_Accounts st i = Some x)"
  shows "\<exists>chs. q = p\<lparr>pl_Balances := pl_Balances p @ chs\<rparr> \<and> list_all2 (moves st) (map reserve_movement es) chs"
  using assms
proof (induction es arbitrary: p)
  case (Cons e es)
  obtain i n where e: "e = (i, n)" by fastforce
  obtain x where x: "st_Accounts st i = Some x" "amount_ok n" using Cons.prems(3) by (auto simp: e)
  obtain b t v where b: "st_Balances st i = Some b"
    and t: "Totals_Reserve (bl_Totals b) (ac_Purpose x) n = Inr t" and v: "NextVersion (bl_Version b) = Inr v"
    using Cons.prems(1) x(1) by (auto simp: e map_get_def split: option.splits sum.splits if_splits)
  let ?ch = "\<lparr>ch_Before = Some b, ch_After = b\<lparr>bl_Totals := t, bl_Version := v\<rparr>\<rparr>"
  have "moves st (reserve_movement e) ?ch"
    using reserve_moves [OF Cons.prems(2) x(2) b x(1) t v] by (simp add: e reserve_movement_def)
  moreover obtain chs where "q = p\<lparr>pl_Balances := pl_Balances p @ ?ch # chs\<rparr>"
      "list_all2 (moves st) (map reserve_movement es) chs"
    using Cons.IH [of "p\<lparr>pl_Balances := pl_Balances p @ [?ch]\<rparr>"] Cons.prems b t v x(1)
    by (auto simp: e map_get_def)
  ultimately show ?case by (intro exI [of _ "?ch # chs"]) simp
qed simp

lemma settle_entries_applied:
  assumes "settle_entries st capture es p = Inr q" and "state_ok st"
    and "\<forall>(i, a, side)\<in>set es. amount_ok a \<and> (\<exists>x. st_Accounts st i = Some x)"
  shows "\<exists>chs. q = p\<lparr>pl_Balances := pl_Balances p @ chs\<rparr> \<and>
    list_all2 (moves st) (map (settle_movement capture) es) chs"
  using assms
proof (induction es arbitrary: p)
  case (Cons e es)
  obtain i n side where e: "e = (i, n, side)" by (cases e) auto
  obtain x where x: "st_Accounts st i = Some x" "amount_ok n" using Cons.prems(3) by (auto simp: e)
  obtain b f t v where b: "st_Balances st i = Some b" and f: "Totals_Release (bl_Totals b) n = Inr f"
    and t: "(if capture then Post f (ac_Purpose x) side n else Inr f) = Inr t"
    and v: "NextVersion (bl_Version b) = Inr v"
    using Cons.prems(1) x(1)
    by (cases "st_Balances st i"; cases capture) (auto simp: e split: sum.splits)
  let ?ch = "\<lparr>ch_Before = Some b, ch_After = b\<lparr>bl_Totals := t, bl_Version := v\<rparr>\<rparr>"
  have "moves st (settle_movement capture e) ?ch"
    using settle_moves [OF Cons.prems(2) x(2) b x(1) f _ v] release_moves [OF Cons.prems(2) x(2) b f v] t
    by (cases capture) (auto simp: e settle_movement_def)
  moreover obtain chs where "q = p\<lparr>pl_Balances := pl_Balances p @ ?ch # chs\<rparr>"
      "list_all2 (moves st) (map (settle_movement capture) es) chs"
    using Cons.IH [of "p\<lparr>pl_Balances := pl_Balances p @ [?ch]\<rparr>"] Cons.prems b f t v x(1)
    by (cases capture) (auto simp: e)
  ultimately show ?case by (intro exI [of _ "?ch # chs"]) simp
qed simp

section \<open>The effect of a plan\<close>

definition change_by :: "('a \<Rightarrow> int) \<Rightarrow> 'a change \<Rightarrow> int" where
  "change_by f ch = f (ch_After ch) - (case ch_Before ch of None \<Rightarrow> 0 | Some b \<Rightarrow> f b)"

definition opt_change :: "('a \<Rightarrow> int) \<Rightarrow> 'a change option \<Rightarrow> int" where
  "opt_change f c = (case c of None \<Rightarrow> 0 | Some ch \<Rightarrow> change_by f ch)"

abbreviation debits :: "balance \<Rightarrow> int" where "debits b \<equiv> fst (tally_of (bl_Totals b))"
abbreviation credits :: "balance \<Rightarrow> int" where "credits b \<equiv> fst (snd (tally_of (bl_Totals b)))"
abbreviation held :: "balance \<Rightarrow> int" where "held b \<equiv> snd (snd (tally_of (bl_Totals b)))"

text \<open>The change of a quantity of account \<open>i\<close>, and what the journal and the hold say it should be.\<close>

definition balance_delta :: "(balance \<Rightarrow> int) \<Rightarrow> ID \<Rightarrow> balance change list \<Rightarrow> int" where
  "balance_delta f i chs = (\<Sum>ch\<leftarrow>chs. if bl_AccountID (ch_After ch) = i then change_by f ch else 0)"

definition lines_delta :: "side \<Rightarrow> ID \<Rightarrow> line list \<Rightarrow> int" where
  "lines_delta sd i ls =
     (\<Sum>l\<leftarrow>ls. if ln_Side l = sd \<and> ac_ID (ln_Account l) = i then amount_val (ln_Amount l) else 0)"

definition journal_delta :: "side \<Rightarrow> ID \<Rightarrow> plan \<Rightarrow> int" where
  "journal_delta sd i p = (case pl_Journal p of None \<Rightarrow> 0 | Some j \<Rightarrow> lines_delta sd i (jr_lines j))"

definition hold_total :: "hold \<Rightarrow> int" where
  "hold_total h = amount_val (tm_Principal (hd_Terms h)) + amount_val (tm_Fee (hd_Terms h))"

definition hold_held :: "ID \<Rightarrow> hold \<Rightarrow> int" where
  "hold_held i h =
     (if open_hold (hd_State h) then
        (if tm_SourceID (hd_Terms h) = i then hold_total h else 0)
        + (if hd_PoolID h = i then amount_val (tm_Principal (hd_Terms h)) else 0)
      else 0)"

definition hold_limit :: "hold \<Rightarrow> int" where
  "hold_limit h = (if open_hold (hd_State h) then amount_val (tm_Principal (hd_Terms h)) else 0)"

definition usage_reserved :: "usage \<Rightarrow> int" where
  "usage_reserved u = wide_val (uv_Reserved (ug_Values u))"

definition balance_change_ok :: "state \<Rightarrow> plan \<Rightarrow> balance change \<Rightarrow> bool" where
  "balance_change_ok st p ch =
     (let after = ch_After ch; i = bl_AccountID after
      in case ch_Before ch of
           Some b \<Rightarrow> (case st_Accounts st i of None \<Rightarrow> False
             | Some a \<Rightarrow> st_Balances st i = Some b \<and> sint (bl_Version after) = sint (bl_Version b) + 1
                 \<and> balance_ok (ac_Purpose a) after)
         | None \<Rightarrow> (case pl_NewAccount p of None \<Rightarrow> False
             | Some a \<Rightarrow> ac_ID a = i \<and> st_Accounts st i = None \<and> st_Balances st i = None
                 \<and> bl_Version after = 1 \<and> bl_Totals after = zero_totals \<and> ac_Purpose a = Wallet))"

text \<open>
  The effect every applied plan has: each account is changed at most once, from its loaded
  balance to a solvent one; debits and credits change by the lines of the journal and by nothing
  else; held funds change by what the hold of the plan reserves or gives back.
\<close>

definition plan_effect :: "state \<Rightarrow> plan \<Rightarrow> bool" where
  "plan_effect st p =
     (distinct (map (bl_AccountID \<circ> ch_After) (pl_Balances p))
      \<and> (\<forall>ch\<in>set (pl_Balances p). balance_change_ok st p ch)
      \<and> (\<forall>j. pl_Journal p = Some j \<longrightarrow> jr_book j = bo_Book (st_Book st) \<and> journal_valid (jr_book j) (jr_lines j))
      \<and> (\<forall>i. balance_delta debits i (pl_Balances p) = journal_delta Debit i p
           \<and> balance_delta credits i (pl_Balances p) = journal_delta Credit i p
           \<and> balance_delta held i (pl_Balances p) = opt_change (hold_held i) (pl_Hold p)))"

text \<open>The usage record of the plan changes its reservation exactly as the hold does.\<close>

definition usage_effect :: "plan \<Rightarrow> bool" where
  "usage_effect p =
     (opt_change usage_reserved (pl_Usage p) = opt_change hold_limit (pl_Hold p)
      \<and> (\<forall>u. pl_Usage p = Some u \<longrightarrow> usage_ok (ug_Values (ch_After u))
           \<and> (\<forall>h. pl_Hold p = Some h \<longrightarrow> ug_OwnerID (ch_After u) = hd_OwnerID (ch_After h)
                 \<and> ug_Bucket (ch_After u) = hd_Bucket (ch_After h))))"

lemma moves_accounts:
  "list_all2 (moves st) ms chs \<Longrightarrow> map (bl_AccountID \<circ> ch_After) chs = map fst ms"
  by (induction rule: list_all2_induct) (auto simp: moves_def split: option.splits)

lemma moves_change:
  assumes "moves st m ch"
  shows "change_by debits ch = fst (snd m)" and "change_by credits ch = fst (snd (snd m))"
    and "change_by held ch = snd (snd (snd m))" and "bl_AccountID (ch_After ch) = fst m"
    and "balance_change_ok st p ch"
  using assms
  by (auto simp: moves_def change_by_def tally_add_def balance_change_ok_def
      split: option.splits prod.splits)

definition moved_by :: "(tally \<Rightarrow> int) \<Rightarrow> ID \<Rightarrow> movement list \<Rightarrow> int" where
  "moved_by f i ms = (\<Sum>m\<leftarrow>ms. if fst m = i then f (snd m) else 0)"

lemma moved_by_simps [simp]:
  "moved_by f i [] = 0"
  "moved_by f i (m # ms) = (if fst m = i then f (snd m) else 0) + moved_by f i ms"
  by (simp_all add: moved_by_def)

lemma moves_delta:
  assumes "list_all2 (moves st) ms chs"
  shows "balance_delta debits i chs = moved_by fst i ms"
    and "balance_delta credits i chs = moved_by (fst \<circ> snd) i ms"
    and "balance_delta held i chs = moved_by (snd \<circ> snd) i ms"
  using assms
  by (induction rule: list_all2_induct) (auto simp: balance_delta_def dest: moves_change)

lemma moves_changes_ok:
  "list_all2 (moves st) ms chs \<Longrightarrow> \<forall>ch\<in>set chs. balance_change_ok st p ch"
  by (induction rule: list_all2_induct) (auto dest: moves_change(5))

lemma line_moved:
  assumes "\<forall>l\<in>set ls. ln_Side l = Debit \<or> ln_Side l = Credit"
  shows "moved_by fst i (map line_movement ls) = lines_delta Debit i ls"
    and "moved_by (fst \<circ> snd) i (map line_movement ls) = lines_delta Credit i ls"
    and "moved_by (snd \<circ> snd) i (map line_movement ls) = 0"
  using assms by (induction ls) (auto simp: line_movement_def lines_delta_def)

text \<open>A plan whose balance changes carry out movements has the effect those movements add up to.\<close>

lemma plan_effectI:
  assumes "list_all2 (moves st) ms (pl_Balances p)" and "distinct (map fst ms)"
    and "\<And>j. pl_Journal p = Some j \<Longrightarrow> jr_book j = bo_Book (st_Book st) \<and> journal_valid (jr_book j) (jr_lines j)"
    and "\<And>i. moved_by fst i ms = journal_delta Debit i p"
    and "\<And>i. moved_by (fst \<circ> snd) i ms = journal_delta Credit i p"
    and "\<And>i. moved_by (snd \<circ> snd) i ms = opt_change (hold_held i) (pl_Hold p)"
  shows "plan_effect st p"
  unfolding plan_effect_def
  using assms(2-) moves_accounts [OF assms(1)] moves_delta [OF assms(1)] moves_changes_ok [OF assms(1)]
  by (intro conjI allI impI) auto

section \<open>Transfers\<close>

lemma controlsFor_Inr:
  "controlsFor st a = Inr (s, c) \<longleftrightarrow>
     st_Controls st (Key ''SUBJECT'' (ac_Owner a)) = Some s \<and> st_Controls st (Key ''ACCOUNT'' (ac_ID a)) = Some c"
  by (auto simp: controlsFor_def split: option.splits)

lemma admit_transfer_applied:
  assumes "admit_transfer E st terms a feeAccount tot p = applied q"
  obtains recipient journal where "st_Accounts st (tm_BeneficiaryID terms) = Some recipient"
    "ac_Purpose recipient = Wallet"
    "NewJournal (en_sha256 E) (bo_Book (st_Book st)) (transfer_lines a recipient feeAccount tot terms) = Inr journal"
    "post_lines st (transfer_lines a recipient feeAccount tot terms) (p\<lparr>pl_Journal := Some journal\<rparr>) = applied q"
  using assms
  by (auto simp: admit_transfer_def Let_def split: if_splits option.splits sum.splits)

lemma transfer_effect:
  assumes "admit_transfer E st terms a feeAccount tot p = applied q" and "state_ok st" and "terms_ok terms"
    and "amount_ok tot" and "st_Accounts st (ac_ID a) = Some a"
    and "st_Accounts st (ac_ID feeAccount) = Some feeAccount"
    and "pl_Balances p = []" and "pl_Hold p = None"
  shows "plan_effect st q" and "pl_Usage q = pl_Usage p" and "pl_Hold q = None"
    and "\<exists>recipient. st_Accounts st (tm_BeneficiaryID terms) = Some recipient \<and>
      map_option jr_lines (pl_Journal q) = Some (transfer_lines a recipient feeAccount tot terms)"
proof -
  obtain recipient journal where r: "st_Accounts st (tm_BeneficiaryID terms) = Some recipient"
    and j: "NewJournal (en_sha256 E) (bo_Book (st_Book st)) (transfer_lines a recipient feeAccount tot terms) = Inr journal"
    and post: "post_lines st (transfer_lines a recipient feeAccount tot terms) (p\<lparr>pl_Journal := Some journal\<rparr>) = applied q"
    using assms(1) by (rule admit_transfer_applied)
  let ?ls = "transfer_lines a recipient feeAccount tot terms"
  note valid = NewJournal_sound [OF j]
  have lines: "\<forall>l\<in>set ?ls. amount_ok (ln_Amount l) \<and> st_Accounts st (ac_ID (ln_Account l)) = Some (ln_Account l)"
    using assms(3-6) r state_ok_account(1) [OF assms(2) r]
    by (auto simp: transfer_lines_def terms_ok_def amount_pos_ok)
  from post_lines_applied [OF post assms(2) lines] assms(7) obtain chs
    where q: "q = p\<lparr>pl_Journal := Some journal, pl_Balances := chs\<rparr>"
      and chs: "list_all2 (moves st) (map line_movement ?ls) chs" by auto
  have sides: "\<forall>l\<in>set ?ls. ln_Side l = Debit \<or> ln_Side l = Credit" by (auto simp: transfer_lines_def)
  show "plan_effect st q"
  proof (rule plan_effectI)
    show "list_all2 (moves st) (map line_movement ?ls) (pl_Balances q)" using chs q by simp
    show "distinct (map fst (map line_movement ?ls))"
      using valid by (simp add: journal_valid_def comp_def line_movement_def)
  qed (use valid line_moved [OF sides] assms(8) in
        \<open>auto simp: q journal_delta_def opt_change_def\<close>)
  show "pl_Usage q = pl_Usage p" "pl_Hold q = None" using q assms(8) by simp_all
  show "\<exists>recipient. st_Accounts st (tm_BeneficiaryID terms) = Some recipient \<and>
      map_option jr_lines (pl_Journal q) = Some (transfer_lines a recipient feeAccount tot terms)"
    using r q valid by auto
qed

section \<open>Reservations\<close>

lemma admit_reserve_applied:
  assumes "admit_reserve st r terms a policy tot bucket now p = applied q"
  obtains pool q' where "st_Hold st = None" "rs_PoolID r = po_PoolID policy"
    "st_Accounts st (rs_PoolID r) = Some pool" "ac_Purpose pool = ProviderPool"
    "Before now (rs_ExpiresAt r)"
    "reserve_entries st [(ac_ID a, tot), (ac_ID pool, tm_Principal terms)] p = applied q'"
    "q = q'\<lparr>pl_Hold := Some \<lparr>ch_Before = None, ch_After = new_hold r terms a policy bucket\<rparr>\<rparr>"
  using assms
  by (auto simp: admit_reserve_def simp del: reserve_entries.simps split: if_splits option.splits)

lemma new_hold_held:
  "hold_held i (new_hold r terms a policy bucket) =
     (if tm_SourceID terms = i then amount_val (tm_Principal terms) + amount_val (tm_Fee terms) else 0)
     + (if rs_PoolID r = i then amount_val (tm_Principal terms) else 0)"
  "hold_limit (new_hold r terms a policy bucket) = amount_val (tm_Principal terms)"
  by (simp_all add: hold_held_def hold_limit_def hold_total_def new_hold_def new_hold_state_def open_hold_def)

lemma reserve_effect:
  assumes "admit_reserve st r terms a policy tot bucket now p = applied q" and "state_ok st" and "terms_ok terms"
    and "amount_ok tot" and "amount_val tot = amount_val (tm_Principal terms) + amount_val (tm_Fee terms)"
    and "st_Accounts st (ac_ID a) = Some a" and "ac_Purpose a = Wallet" and "ac_ID a = tm_SourceID terms"
    and "pl_Balances p = []" and "pl_Journal p = None"
  shows "plan_effect st q" and "pl_Usage q = pl_Usage p" and "pl_Journal q = None"
    and "pl_Hold q = Some \<lparr>ch_Before = None, ch_After = new_hold r terms a policy bucket\<rparr>"
    and "\<exists>pool. st_Accounts st (rs_PoolID r) = Some pool \<and> ac_Purpose pool = ProviderPool"
    and "st_Hold st = None"
proof -
  obtain pool q' where none: "st_Hold st = None"
    and pool: "st_Accounts st (rs_PoolID r) = Some pool" "ac_Purpose pool = ProviderPool"
    and entries: "reserve_entries st [(ac_ID a, tot), (ac_ID pool, tm_Principal terms)] p = applied q'"
    and q: "q = q'\<lparr>pl_Hold := Some \<lparr>ch_Before = None, ch_After = new_hold r terms a policy bucket\<rparr>\<rparr>"
    using assms(1) by (rule admit_reserve_applied)
  have pid: "ac_ID pool = rs_PoolID r" using state_ok_account(1) [OF assms(2) pool(1)] .
  let ?es = "[(ac_ID a, tot), (ac_ID pool, tm_Principal terms)]"
  have ok: "\<forall>(i, n)\<in>set ?es. amount_ok n \<and> (\<exists>x. st_Accounts st i = Some x)"
    using assms(3,4,6) pool pid by (auto simp: terms_ok_def amount_pos_ok)
  from reserve_entries_applied [OF entries assms(2) ok] assms(9) obtain chs
    where q': "q' = p\<lparr>pl_Balances := chs\<rparr>" and chs: "list_all2 (moves st) (map reserve_movement ?es) chs" by auto
  have neq: "ac_ID a \<noteq> ac_ID pool" using assms(6,7) pool pid by auto
  show "plan_effect st q"
  proof (rule plan_effectI)
    show "list_all2 (moves st) (map reserve_movement ?es) (pl_Balances q)" using chs q q' by simp
    show "distinct (map fst (map reserve_movement ?es))" using neq by (simp add: reserve_movement_def)
  qed (use assms(5,8,10) pid in
        \<open>auto simp: q q' journal_delta_def opt_change_def change_by_def reserve_movement_def new_hold_held\<close>)
  show "pl_Usage q = pl_Usage p" "pl_Journal q = None"
    "pl_Hold q = Some \<lparr>ch_Before = None, ch_After = new_hold r terms a policy bucket\<rparr>"
    using q q' assms(10) by simp_all
  show "\<exists>pool. st_Accounts st (rs_PoolID r) = Some pool \<and> ac_Purpose pool = ProviderPool" using pool by blast
  show "st_Hold st = None" by (rule none)
qed

section \<open>Admission\<close>

lemma next_usage_Inr:
  "next_usage u r = Inr w \<longleftrightarrow>
     (\<exists>v n. r = Inr v \<and> NextVersion (ug_Version u) = Inr n \<and> w = u\<lparr>ug_Values := v, ug_Version := n\<rparr>)"
  by (auto simp: next_usage_def)

text \<open>Everything \<open>admit\<close> has established when it applies a command.\<close>

definition admitted ::
  "env \<Rightarrow> trust \<Rightarrow> caller \<Rightarrow> command \<Rightarrow> state \<Rightarrow> time \<Rightarrow> terms \<Rightarrow> account \<Rightarrow> control \<Rightarrow> control \<Rightarrow> policy \<Rightarrow> bool" where
  "admitted E t c cmd st now terms a sub acct policy =
     (admit_terms cmd = Inr terms \<and> st_Accounts st (tm_SourceID terms) = Some a
      \<and> AllowsSubject c (ac_Owner a) \<and> grantBinding E t (cm_BookID cmd) terms (ac_Owner a)
      \<and> ac_Purpose a = Wallet \<and> controlsFor st a = Inr (sub, acct) \<and> st_Claim st = None
      \<and> \<not> Before now (gr_NotBefore (sg_Claims (tm_Grant terms)))
      \<and> Before now (gr_ExpiresAt (sg_Claims (tm_Grant terms)))
      \<and> gr_SubjectEpoch (sg_Claims (tm_Grant terms)) = ct_Epoch sub
      \<and> gr_AccountEpoch (sg_Claims (tm_Grant terms)) = ct_Epoch acct
      \<and> \<not> ct_DebitFrozen sub \<and> \<not> ct_DebitFrozen acct
      \<and> st_Policy st = Some policy \<and> po_ID policy = tm_PolicyID terms \<and> po_Fee policy = tm_Fee terms)"

lemma admit_applied:
  assumes "admit E t c cmd st now p0 = applied q"
  obtains terms a sub acct policy where "admitted E t c cmd st now terms a sub acct policy"
    "admit_funds E cmd st now terms a sub policy (with_subjects p0 [ac_Owner a]) = applied q"
proof -
  obtain terms where terms: "admit_terms cmd = Inr terms" using assms by (auto simp: admit_def)
  obtain a where a: "st_Accounts st (tm_SourceID terms) = Some a"
    using assms terms by (auto simp: admit_def split: option.split_asm)
  obtain sub acct where ctl: "controlsFor st a = Inr (sub, acct)"
    using assms terms a by (auto simp: admit_def Let_def split: if_split_asm)
  obtain policy where "st_Policy st = Some policy"
    using assms terms a ctl by (auto simp: admit_def Let_def split: if_split_asm option.split_asm)
  with assms terms a ctl have "admitted E t c cmd st now terms a sub acct policy"
    and "admit_funds E cmd st now terms a sub policy (with_subjects p0 [ac_Owner a]) = applied q"
    by (simp_all add: admit_def admitted_def Let_def split: if_split_asm)
  then show thesis by (rule that)
qed

text \<open>What \<open>admit_funds\<close> has established: the payment fits the available funds and the daily cap.\<close>

definition funded ::
  "env \<Rightarrow> command \<Rightarrow> state \<Rightarrow> time \<Rightarrow> terms \<Rightarrow> account \<Rightarrow> control \<Rightarrow> policy \<Rightarrow> account \<Rightarrow> amount \<Rightarrow> usage_values \<Rightarrow> int64 \<Rightarrow> bool" where
  "funded E cmd st now terms a sub policy feeAccount tot uv n =
     (st_Accounts st (po_FeeAccountID policy) = Some feeAccount \<and> ac_Purpose feeAccount = FeeIncome
      \<and> Amount_Add (tm_Principal terms) (tm_Fee terms) = Inr tot
      \<and> (\<exists>bal available. st_Balances st (ac_ID a) = Some bal
           \<and> Available (bl_Totals bal) (ac_Purpose a) = Inr available \<and> 0 \<le> Cmp available (WideAmount tot))
      \<and> ug_OwnerID (current_usage E st a now) = ac_Owner a
      \<and> ug_Bucket (current_usage E st a now) = Bucket E now
      \<and> Usage_Admit (ug_Values (current_usage E st a now)) (ct_DailyCap sub) (tm_Principal terms)
          (cm_Kind cmd = ReservePayout) = Inr uv
      \<and> NextVersion (ug_Version (current_usage E st a now)) = Inr n)"

abbreviation usage_change :: "env \<Rightarrow> state \<Rightarrow> account \<Rightarrow> time \<Rightarrow> usage_values \<Rightarrow> int64 \<Rightarrow> usage change" where
  "usage_change E st a now uv n \<equiv> \<lparr>ch_Before = st_Usage st,
     ch_After = (current_usage E st a now)\<lparr>ug_Values := uv, ug_Version := n\<rparr>\<rparr>"

lemma admit_funds_applied:
  assumes "admit_funds E cmd st now terms a sub policy p = applied q"
  obtains (transfer) feeAccount tot uv n
    where "funded E cmd st now terms a sub policy feeAccount tot uv n" "cm_Kind cmd = TransferInternal"
      "admit_transfer E st terms a feeAccount tot (p\<lparr>pl_Usage := Some (usage_change E st a now uv n)\<rparr>) = applied q"
  | (reserve) feeAccount tot uv n r
    where "funded E cmd st now terms a sub policy feeAccount tot uv n" "cm_Kind cmd \<noteq> TransferInternal"
      "cm_Reserve cmd = Some r"
      "admit_reserve st r terms a policy tot (Bucket E now) now
         (p\<lparr>pl_Usage := Some (usage_change E st a now uv n)\<rparr>) = applied q"
  using assms unfolding admit_funds_def Let_def funded_def
  by (auto simp: next_usage_Inr not_less split: option.split_asm if_split_asm sum.split_asm)

lemma with_subjects_simps [simp]:
  "pl_Balances (with_subjects p ids) = pl_Balances p" "pl_Hold (with_subjects p ids) = pl_Hold p"
  "pl_Journal (with_subjects p ids) = pl_Journal p" "pl_Usage (with_subjects p ids) = pl_Usage p"
  "pl_NewAccount (with_subjects p ids) = pl_NewAccount p" "pl_Controls (with_subjects p ids) = pl_Controls p"
  "pl_Claim (with_subjects p ids) = pl_Claim p" "pl_Evidence (with_subjects p ids) = pl_Evidence p"
  by (simp_all add: with_subjects_def)

lemma zero_usage_ok: "usage_ok zero_usage"
  by (simp add: usage_ok_def)

lemma current_usage_ok: "state_ok st \<Longrightarrow> usage_ok (ug_Values (current_usage E st a now))"
  by (auto simp: current_usage_def state_ok_def zero_usage_ok split: option.split)

lemma Usage_Admit_values:
  assumes "usage_ok u" and "amount_ok a" and "Usage_Admit u cap a reserve = Inr v"
  shows "wide_val (uv_Reserved v) = wide_val (uv_Reserved u) + (if reserve then amount_val a else 0)"
    and "wide_val (uv_Consumed v) = wide_val (uv_Consumed u) + (if reserve then 0 else amount_val a)"
  using assms
  by (auto simp: Usage_Admit_def usage_ok_def split: if_split_asm dest!: wid.add_Inr(2) [rotated 2])

lemma Usage_Resolve_values:
  assumes "usage_ok u" and "amount_ok a" and "Usage_Resolve u a capture = Inr v"
  shows "wide_val (uv_Reserved v) = wide_val (uv_Reserved u) - amount_val a"
    and "wide_val (uv_Consumed v) = wide_val (uv_Consumed u) + (if capture then amount_val a else 0)"
  using Usage_Resolve_refines [OF assms(1,2), of capture] assms(3)
  by (auto simp: spec_resolve_def usage_of_def split: if_splits)

lemma funded_total:
  assumes "funded E cmd st now terms a sub policy feeAccount tot uv n" and "terms_ok terms"
  shows "amount_ok tot" and "amount_val tot = amount_val (tm_Principal terms) + amount_val (tm_Fee terms)"
proof -
  have "Amount_Add (tm_Principal terms) (tm_Fee terms) = Inr tot" using assms(1) by (simp add: funded_def)
  moreover have "amount_ok (tm_Principal terms)" "amount_ok (tm_Fee terms)"
    using assms(2) by (simp_all add: terms_ok_def amount_pos_ok)
  ultimately show "amount_ok tot" and "amount_val tot = amount_val (tm_Principal terms) + amount_val (tm_Fee terms)"
    using amt.add_Inr by blast+
qed

lemma funded_usage:
  assumes "funded E cmd st now terms a sub policy feeAccount tot uv n" and "terms_ok terms" and "state_ok st"
  shows "usage_ok uv"
    and "opt_change usage_reserved (Some (usage_change E st a now uv n)) =
      (if cm_Kind cmd = ReservePayout then amount_val (tm_Principal terms) else 0)"
proof -
  have admit: "Usage_Admit (ug_Values (current_usage E st a now)) (ct_DailyCap sub) (tm_Principal terms)
      (cm_Kind cmd = ReservePayout) = Inr uv" using assms(1) by (simp add: funded_def)
  have ok: "usage_ok (ug_Values (current_usage E st a now))" "amount_ok (tm_Principal terms)"
    using assms(2,3) by (simp_all add: terms_ok_def amount_pos_ok current_usage_ok)
  show "usage_ok uv" using ok admit by (rule Usage_Admit_ok)
  show "opt_change usage_reserved (Some (usage_change E st a now uv n)) =
      (if cm_Kind cmd = ReservePayout then amount_val (tm_Principal terms) else 0)"
    using Usage_Admit_values(1) [OF ok admit]
    by (simp add: opt_change_def change_by_def usage_reserved_def current_usage_def split: option.split)
qed

lemma admit_effect:
  assumes "admit E t c cmd st now p = applied q" and "state_ok st" and "command_ok cmd" and "fresh_plan p"
    and "cm_Kind cmd = TransferInternal \<or> cm_Kind cmd = ReservePayout"
  shows "plan_effect st q \<and> usage_effect q"
proof -
  obtain terms a sub acct policy where adm: "admitted E t c cmd st now terms a sub acct policy"
    and funds: "admit_funds E cmd st now terms a sub policy (with_subjects p [ac_Owner a]) = applied q"
    using assms(1) by (rule admit_applied)
  let ?p = "with_subjects p [ac_Owner a]"
  have a: "st_Accounts st (tm_SourceID terms) = Some a" "ac_Purpose a = Wallet" and tm: "admit_terms cmd = Inr terms"
    using adm by (simp_all add: admitted_def)
  have aid: "ac_ID a = tm_SourceID terms" "st_Accounts st (ac_ID a) = Some a"
    using state_ok_account(1) [OF assms(2) a(1)] a(1) by simp_all
  have terms: "terms_ok terms"
    using tm assms(3,5) by (auto simp: admit_terms_def deref_def command_ok_def split: option.splits if_splits)
  from funds show ?thesis
  proof (cases rule: admit_funds_applied)
    case (transfer feeAccount tot uv n)
    note tot = funded_total [OF transfer(1) terms] and use = funded_usage [OF transfer(1) terms assms(2)]
    have fee: "st_Accounts st (ac_ID feeAccount) = Some feeAccount"
      using transfer(1) state_ok_account(1) [OF assms(2)] by (auto simp: funded_def)
    note eff = transfer_effect [OF transfer(3) assms(2) terms tot(1) aid(2) fee]
    show ?thesis
      using eff use transfer(2) assms(4) by (simp add: fresh_plan_def usage_effect_def opt_change_def)
  next
    case (reserve feeAccount tot uv n r)
    note tot = funded_total [OF reserve(1) terms] and use = funded_usage [OF reserve(1) terms assms(2)]
    have kind: "cm_Kind cmd = ReservePayout" using reserve(2) assms(5) by simp
    note eff = reserve_effect [OF reserve(4) assms(2) terms tot aid(2) a(2) aid(1)]
    have "ug_OwnerID (current_usage E st a now) = ac_Owner a" "ug_Bucket (current_usage E st a now) = Bucket E now"
      using reserve(1) by (simp_all add: funded_def)
    then show ?thesis
      using eff use kind assms(4) new_hold_held(2)
      by (simp add: fresh_plan_def usage_effect_def opt_change_def change_by_def) (simp add: new_hold_def)
  qed
qed

section \<open>Resolution\<close>

text \<open>What must be established before a hold moves: who vouches for it, and from which state.\<close>

definition move_allowed ::
  "env \<Rightarrow> trust \<Rightarrow> command \<Rightarrow> state \<Rightarrow> hold \<Rightarrow> time \<Rightarrow> hold_state_value \<Rightarrow> evidence option \<Rightarrow> bool" where
  "move_allowed E t cmd st h now s ev =
     (if cm_Kind cmd = MarkHoldExposed then
        hs_State (hd_State h) = Reserved \<and> hs_State s = Exposed \<and> ev = None
        \<and> Before now (hs_ExpiresAt (hd_State h))
        \<and> Before now (gr_ExpiresAt (sg_Claims (tm_Grant (hd_Terms h))))
      else if cm_Kind cmd = CapturePayout then
        hs_State (hd_State h) = Exposed \<and> hs_State s = Captured
        \<and> (\<exists>x. cm_Capture cmd = Some x \<and> trust_evidence E t (cm_BookID cmd) h (cp_Evidence x) now
             \<and> ev_FinalState (se_Claims (cp_Evidence x)) = ''FINAL_SUCCESS''
             \<and> ev = Some (se_Claims (cp_Evidence x)))
      else
        hs_State s = Released \<and>
        (hs_State (hd_State h) = Reserved \<and> ev = None \<or>
         hs_State (hd_State h) = Exposed \<and>
           (\<exists>r x. cm_Release cmd = Some r \<and> rl_Evidence r = Some x
             \<and> trust_evidence E t (cm_BookID cmd) h x now
             \<and> ev_FinalState (se_Claims x) = ''FINAL_FAILURE'' \<and> ev = Some (se_Claims x))))"

lemma resolve_expose_moved:
  assumes "resolve_expose t x st h now p = Inr ([], q, s)"
  shows "q = p \<and> hold_step (hd_State h) s \<and> hs_State (hd_State h) = Reserved \<and> hs_State s = Exposed
    \<and> Before now (hs_ExpiresAt (hd_State h)) \<and> Before now (gr_ExpiresAt (sg_Claims (tm_Grant (hd_Terms h))))
    \<and> rf_ExpectedVersion (ex_Ref x) = hs_Version (hd_State h)"
proof -
  have e: "Hold_Expose (hd_State h) (rf_ExpectedVersion (ex_Ref x)) now = Inr s" and "q = p"
    and "Before now (gr_ExpiresAt (sg_Claims (tm_Grant (hd_Terms h))))"
    using assms by (auto simp: resolve_expose_def Let_def split: option.split_asm if_split_asm sum.split_asm)
  then show ?thesis using hold_step.expose [OF e] by (auto simp: Expose_Inr)
qed

lemma resolve_capture_moved:
  assumes "resolve_capture E t book x h now p = Inr ([], q, s)"
  shows "q = p\<lparr>pl_Evidence := Some (se_Claims (cp_Evidence x))\<rparr> \<and> hold_step (hd_State h) s
    \<and> hs_State (hd_State h) = Exposed \<and> hs_State s = Captured
    \<and> trust_evidence E t book h (cp_Evidence x) now \<and> ev_FinalState (se_Claims (cp_Evidence x)) = ''FINAL_SUCCESS''
    \<and> rf_ExpectedVersion (cp_Ref x) = hs_Version (hd_State h)"
proof -
  have e: "Hold_Capture (hd_State h) (rf_ExpectedVersion (cp_Ref x)) True = Inr s"
    and r: "q = p\<lparr>pl_Evidence := Some (se_Claims (cp_Evidence x))\<rparr>"
      "trust_evidence E t book h (cp_Evidence x) now" "ev_FinalState (se_Claims (cp_Evidence x)) = ''FINAL_SUCCESS''"
    using assms by (auto simp: resolve_capture_def Let_def split: if_split_asm sum.split_asm)
  show ?thesis using hold_step.capture [OF e] e r by (auto simp: Capture_Inr)
qed

lemma resolve_release_moved:
  assumes "resolve_release E t book r h now p = Inr ([], q, s)"
  shows "hold_step (hd_State h) s \<and> hs_State s = Released \<and> rf_ExpectedVersion (rl_Ref r) = hs_Version (hd_State h) \<and>
    (hs_State (hd_State h) = Reserved \<and> q = p \<or>
     hs_State (hd_State h) = Exposed \<and> (\<exists>x. rl_Evidence r = Some x \<and> trust_evidence E t book h x now
       \<and> ev_FinalState (se_Claims x) = ''FINAL_FAILURE'' \<and> q = p\<lparr>pl_Evidence := Some (se_Claims x)\<rparr>))"
proof -
  have "\<exists>fenced. Hold_Release (hd_State h) (rf_ExpectedVersion (rl_Ref r)) fenced = Inr s \<and>
    (hs_State (hd_State h) \<noteq> Exposed \<and> q = p \<or>
     hs_State (hd_State h) = Exposed \<and> (\<exists>x. rl_Evidence r = Some x \<and> trust_evidence E t book h x now
       \<and> ev_FinalState (se_Claims x) = ''FINAL_FAILURE'' \<and> q = p\<lparr>pl_Evidence := Some (se_Claims x)\<rparr>))"
    using assms by (auto simp: resolve_release_def Let_def split: if_split_asm sum.split_asm option.split_asm)
  then obtain fenced where e: "Hold_Release (hd_State h) (rf_ExpectedVersion (rl_Ref r)) fenced = Inr s"
    and r: "hs_State (hd_State h) \<noteq> Exposed \<and> q = p \<or>
     hs_State (hd_State h) = Exposed \<and> (\<exists>x. rl_Evidence r = Some x \<and> trust_evidence E t book h x now
       \<and> ev_FinalState (se_Claims x) = ''FINAL_FAILURE'' \<and> q = p\<lparr>pl_Evidence := Some (se_Claims x)\<rparr>)" by blast
  show ?thesis using hold_step.release [OF e] e r by (auto simp: HRelease_Inr open_hold_def)
qed

lemma resolve_state_moved:
  assumes "resolve_state E t cmd st h now p = Inr ([], q, s)" and "pl_Evidence p = None"
  shows "hold_step (hd_State h) s" and "q = p\<lparr>pl_Evidence := pl_Evidence q\<rparr>"
    and "move_allowed E t cmd st h now s (pl_Evidence q)"
proof -
  consider (x) x where "cm_Kind cmd = MarkHoldExposed" "resolve_expose t x st h now p = Inr ([], q, s)"
    | (c) x where "cm_Kind cmd = CapturePayout" "cm_Capture cmd = Some x"
        "resolve_capture E t (cm_BookID cmd) x h now p = Inr ([], q, s)"
    | (r) x where "cm_Kind cmd \<noteq> MarkHoldExposed" "cm_Kind cmd \<noteq> CapturePayout" "cm_Release cmd = Some x"
        "resolve_release E t (cm_BookID cmd) x h now p = Inr ([], q, s)"
    using assms(1) by (auto simp: resolve_state_def split: if_split_asm option.split_asm)
  then have "hold_step (hd_State h) s \<and> q = p\<lparr>pl_Evidence := pl_Evidence q\<rparr>
    \<and> move_allowed E t cmd st h now s (pl_Evidence q)"
  proof cases
    case x
    then show ?thesis using resolve_expose_moved [OF x(2)] assms(2) by (simp add: move_allowed_def)
  next
    case c
    then show ?thesis using resolve_capture_moved [OF c(3)] by (simp add: move_allowed_def)
  next
    case r
    then show ?thesis using resolve_release_moved [OF r(4)] assms(2) by (auto simp: move_allowed_def)
  qed
  then show "hold_step (hd_State h) s" and "q = p\<lparr>pl_Evidence := pl_Evidence q\<rparr>"
    and "move_allowed E t cmd st h now s (pl_Evidence q)" by blast+
qed

lemma settle_usage_Inr:
  assumes "settle_usage st h capture p = Inr q"
  obtains u v n where "st_Usage st = Some u" "ug_OwnerID u = hd_OwnerID h" "ug_Bucket u = hd_Bucket h"
    "Usage_Resolve (ug_Values u) (tm_Principal (hd_Terms h)) capture = Inr v" "NextVersion (ug_Version u) = Inr n"
    "q = p\<lparr>pl_Usage := Some \<lparr>ch_Before = Some u, ch_After = u\<lparr>ug_Values := v, ug_Version := n\<rparr>\<rparr>\<rparr>"
  using assms by (auto simp: settle_usage_def next_usage_Inr split: option.split_asm if_split_asm sum.split_asm)

lemma capture_fee_Inr:
  assumes "capture_fee st f fee p = Inr q" and "state_ok st" and "amount_ok fee"
    and "st_Accounts st (ac_ID f) = Some f"
  shows "\<exists>chs. q = p\<lparr>pl_Balances := pl_Balances p @ chs\<rparr> \<and>
    list_all2 (moves st) (if Amount_IsZero fee then [] else [(ac_ID f, (0, amount_val fee, 0))]) chs"
proof (cases "Amount_IsZero fee")
  case True
  then show ?thesis using assms(1) by (intro exI [of _ "[]"]) (simp add: capture_fee_def)
next
  case False
  then obtain b t v where b: "st_Balances st (ac_ID f) = Some b"
    and t: "Post (bl_Totals b) (ac_Purpose f) Credit fee = Inr t" and v: "NextVersion (bl_Version b) = Inr v"
    and q: "q = p\<lparr>pl_Balances := pl_Balances p @ [\<lparr>ch_Before = Some b, ch_After = b\<lparr>bl_Totals := t, bl_Version := v\<rparr>\<rparr>]\<rparr>"
    using assms(1) by (auto simp: capture_fee_def split: option.split_asm sum.split_asm)
  show ?thesis
    using post_moves [OF assms(2,3) b assms(4) t v] q False
    by (intro exI [of _ "[\<lparr>ch_Before = Some b, ch_After = b\<lparr>bl_Totals := t, bl_Version := v\<rparr>\<rparr>]"]) simp
qed

text \<open>The three accounts of a hold and its total, as the loaded state has them.\<close>

lemma hold_ok_accounts:
  assumes "hold_ok (st_Accounts st) h" and "state_ok st"
  obtains src pool fee where "st_Accounts st (tm_SourceID (hd_Terms h)) = Some src"
    "ac_ID src = tm_SourceID (hd_Terms h)" "ac_Purpose src = Wallet" "ac_Owner src = hd_OwnerID h"
    "st_Accounts st (hd_PoolID h) = Some pool" "ac_ID pool = hd_PoolID h" "ac_Purpose pool = ProviderPool"
    "st_Accounts st (hd_FeeAccountID h) = Some fee" "ac_ID fee = hd_FeeAccountID h" "ac_Purpose fee = FeeIncome"
  using assms(1) state_ok_account(1) [OF assms(2)]
  by (auto simp: hold_ok_def split: option.split_asm)

lemma hold_ok_total:
  assumes "hold_ok acc h"
  obtains tot where "Amount_Add (tm_Principal (hd_Terms h)) (tm_Fee (hd_Terms h)) = Inr tot" "amount_ok tot"
    "amount_val tot = hold_total h" "amount_ok (tm_Principal (hd_Terms h))" "amount_ok (tm_Fee (hd_Terms h))"
proof -
  let ?P = "tm_Principal (hd_Terms h)" and ?F = "tm_Fee (hd_Terms h)"
  have ok: "amount_ok ?P" "amount_ok ?F" and sum: "amount_val ?P + amount_val ?F \<le> 2 ^ 63 - 1"
    using assms by (auto simp: hold_ok_def terms_ok_def amount_pos_ok)
  have add: "Amount_Add ?P ?F = Inr (amount_of (amount_val ?P + amount_val ?F))"
    by (simp only: amt.add_eq [OF ok] sum if_True)
  show thesis
    by (rule that [OF add]) (use amt.add_Inr [OF ok add] ok in \<open>simp_all add: hold_total_def\<close>)
qed

lemma settled_held:
  assumes "hold_ok acc h" and "open_hold (hd_State h)" and "\<not> open_hold s"
    and "amount_val tot = hold_total h"
  shows "moved_by (snd \<circ> snd) i (map (settle_movement capture)
      [(tm_SourceID (hd_Terms h), tot, Debit), (hd_PoolID h, tm_Principal (hd_Terms h), Credit)])
    = opt_change (hold_held i) (Some \<lparr>ch_Before = Some h, ch_After = h\<lparr>hd_State := s\<rparr>\<rparr>)"
  using assms by (simp add: settle_movement_def opt_change_def change_by_def hold_held_def hold_total_def)

lemma settled_posted:
  assumes "ac_ID src = tm_SourceID (hd_Terms h)" and "ac_ID pool = hd_PoolID h"
  shows "moved_by fst i (map (settle_movement True)
      [(tm_SourceID (hd_Terms h), tot, Debit), (hd_PoolID h, tm_Principal (hd_Terms h), Credit)]
      @ (if Amount_IsZero (tm_Fee (hd_Terms h)) then [] else [(ac_ID fee, (0, amount_val (tm_Fee (hd_Terms h)), 0))]))
    = lines_delta Debit i (transfer_lines src pool fee tot (hd_Terms h))"
    and "moved_by (fst \<circ> snd) i (map (settle_movement True)
      [(tm_SourceID (hd_Terms h), tot, Debit), (hd_PoolID h, tm_Principal (hd_Terms h), Credit)]
      @ (if Amount_IsZero (tm_Fee (hd_Terms h)) then [] else [(ac_ID fee, (0, amount_val (tm_Fee (hd_Terms h)), 0))]))
    = lines_delta Credit i (transfer_lines src pool fee tot (hd_Terms h))"
  using assms by (simp_all add: settle_movement_def lines_delta_def transfer_lines_def)

lemma moved_by_append [simp]: "moved_by f i (xs @ ys) = moved_by f i xs + moved_by f i ys"
  by (simp add: moved_by_def)

lemma release_effect:
  assumes "resolve_money E cmd st h p = Inr q" and "state_ok st" and "hold_ok (st_Accounts st) h"
    and "cm_Kind cmd \<noteq> CapturePayout" and "open_hold (hd_State h)" and "\<not> open_hold s"
    and "pl_Balances p = []" and "pl_Journal p = None"
    and "pl_Hold p = Some \<lparr>ch_Before = Some h, ch_After = h\<lparr>hd_State := s\<rparr>\<rparr>"
  shows "plan_effect st q \<and> pl_Journal q = None \<and> pl_Hold q = pl_Hold p
    \<and> (\<exists>p'. settle_usage st h False p' = Inr q) \<and> pl_Claim q = pl_Claim p"
proof -
  obtain src pool fee where acc: "st_Accounts st (tm_SourceID (hd_Terms h)) = Some src" "ac_Purpose src = Wallet"
    "st_Accounts st (hd_PoolID h) = Some pool" "ac_Purpose pool = ProviderPool"
    using assms(3,2) by (rule hold_ok_accounts)
  obtain tot where tot: "Amount_Add (tm_Principal (hd_Terms h)) (tm_Fee (hd_Terms h)) = Inr tot" "amount_ok tot"
    "amount_val tot = hold_total h" "amount_ok (tm_Principal (hd_Terms h))"
    using assms(3) by (rule hold_ok_total)
  let ?es = "[(tm_SourceID (hd_Terms h), tot, Debit), (hd_PoolID h, tm_Principal (hd_Terms h), Credit)]"
  obtain p1 where p1: "settle_entries st False ?es p = Inr p1" and u: "settle_usage st h False p1 = Inr q"
    using assms(1,4) tot(1) by (auto simp: resolve_money_def Let_def simp del: settle_entries.simps)
  have "\<forall>(i, n, side)\<in>set ?es. amount_ok n \<and> (\<exists>x. st_Accounts st i = Some x)" using acc tot by simp
  from settle_entries_applied [OF p1 assms(2) this] assms(7) obtain chs
    where q1: "p1 = p\<lparr>pl_Balances := chs\<rparr>" and chs: "list_all2 (moves st) (map (settle_movement False) ?es) chs" by auto
  obtain uch where q: "q = p1\<lparr>pl_Usage := Some uch\<rparr>" using u by (rule settle_usage_Inr)
  have "plan_effect st q"
  proof (rule plan_effectI)
    show "list_all2 (moves st) (map (settle_movement False) ?es) (pl_Balances q)" using chs q q1 by simp
    show "distinct (map fst (map (settle_movement False) ?es))" using acc by (auto simp: settle_movement_def)
    show "moved_by (snd \<circ> snd) i (map (settle_movement False) ?es) = opt_change (hold_held i) (pl_Hold q)" for i
      using settled_held [OF assms(3,5,6) tot(3)] assms(9) q q1 by simp
  qed (use assms(8) in \<open>auto simp: q q1 journal_delta_def settle_movement_def\<close>)
  then show ?thesis using q q1 assms(8) u by (intro conjI exI [of _ p1]) simp_all
qed

lemma capture_effect:
  assumes "resolve_money E cmd st h p = Inr q" and "state_ok st" and "hold_ok (st_Accounts st) h"
    and "cm_Kind cmd = CapturePayout" and "open_hold (hd_State h)" and "\<not> open_hold s"
    and "pl_Balances p = []" and "pl_Journal p = None"
    and "pl_Hold p = Some \<lparr>ch_Before = Some h, ch_After = h\<lparr>hd_State := s\<rparr>\<rparr>"
  shows "plan_effect st q \<and> pl_Journal q \<noteq> None \<and> pl_Hold q = pl_Hold p
    \<and> (\<exists>p' q'. settle_usage st h True p' = Inr q' \<and> pl_Usage q' = pl_Usage q) \<and> pl_Claim q = pl_Claim p"
proof -
  obtain src pool fee where acc: "st_Accounts st (tm_SourceID (hd_Terms h)) = Some src"
    "ac_ID src = tm_SourceID (hd_Terms h)" "st_Accounts st (hd_PoolID h) = Some pool" "ac_ID pool = hd_PoolID h"
    "st_Accounts st (hd_FeeAccountID h) = Some fee" "ac_ID fee = hd_FeeAccountID h"
    using assms(3,2) by (rule hold_ok_accounts)
  obtain tot where tot: "Amount_Add (tm_Principal (hd_Terms h)) (tm_Fee (hd_Terms h)) = Inr tot" "amount_ok tot"
    "amount_val tot = hold_total h" "amount_ok (tm_Principal (hd_Terms h))" "amount_ok (tm_Fee (hd_Terms h))"
    using assms(3) by (rule hold_ok_total)
  let ?es = "[(tm_SourceID (hd_Terms h), tot, Debit), (hd_PoolID h, tm_Principal (hd_Terms h), Credit)]"
  let ?ls = "transfer_lines src pool fee tot (hd_Terms h)"
  obtain p1 p2 p3 j where p1: "settle_entries st True ?es p = Inr p1" and p2: "settle_usage st h True p1 = Inr p2"
    and p3: "capture_fee st fee (tm_Fee (hd_Terms h)) p2 = Inr p3"
    and j: "NewJournal (en_sha256 E) (bo_Book (st_Book st)) ?ls = Inr j" and q: "q = p3\<lparr>pl_Journal := Some j\<rparr>"
    using assms(1,4) tot(1) acc
    by (cases "NewJournal (en_sha256 E) (bo_Book (st_Book st)) ?ls")
       (auto simp: resolve_money_def capture_journal_def Let_def simp del: settle_entries.simps)
  have "\<forall>(i, n, side)\<in>set ?es. amount_ok n \<and> (\<exists>x. st_Accounts st i = Some x)" using acc tot by simp
  from settle_entries_applied [OF p1 assms(2) this] assms(7) obtain chs
    where q1: "p1 = p\<lparr>pl_Balances := chs\<rparr>" and chs: "list_all2 (moves st) (map (settle_movement True) ?es) chs" by auto
  obtain uch where q2: "p2 = p1\<lparr>pl_Usage := Some uch\<rparr>" using p2 by (rule settle_usage_Inr)
  have fee: "st_Accounts st (ac_ID fee) = Some fee" using acc by simp
  let ?fm = "if Amount_IsZero (tm_Fee (hd_Terms h)) then [] else [(ac_ID fee, (0, amount_val (tm_Fee (hd_Terms h)), 0))]"
  from capture_fee_Inr [OF p3 assms(2) tot(5) fee] obtain fch
    where q3: "p3 = p2\<lparr>pl_Balances := pl_Balances p2 @ fch\<rparr>" and fch: "list_all2 (moves st) ?fm fch" by blast
  note valid = NewJournal_sound [OF j]
  let ?ms = "map (settle_movement True) ?es @ ?fm"
  have "plan_effect st q"
  proof (rule plan_effectI)
    show "list_all2 (moves st) ?ms (pl_Balances q)"
      using list_all2_appendI [OF chs fch] q q3 q2 q1 by simp
    have "map fst ?ms = map (ac_ID \<circ> ln_Account) ?ls"
      using acc by (simp add: settle_movement_def transfer_lines_def)
    then show "distinct (map fst ?ms)" using valid by (simp add: journal_valid_def)
    have "moved_by (snd \<circ> snd) i ?fm = 0" for i by simp
    moreover have "pl_Hold q = Some \<lparr>ch_Before = Some h, ch_After = h\<lparr>hd_State := s\<rparr>\<rparr>"
      using assms(9) q q1 q2 q3 by simp
    ultimately show "moved_by (snd \<circ> snd) i ?ms = opt_change (hold_held i) (pl_Hold q)" for i
      by (simp only: moved_by_append settled_held [OF assms(3,5,6) tot(3)] add_0_right)
    show "moved_by fst i ?ms = journal_delta Debit i q" "moved_by (fst \<circ> snd) i ?ms = journal_delta Credit i q" for i
      using settled_posted [OF acc(2,4), of _ tot fee] valid q
      by (simp_all only: journal_delta_def) simp_all
  qed (use valid q in auto)
  then show ?thesis using q q1 q2 q3 p2 by (intro conjI exI [of _ p1] exI [of _ p2]) simp_all
qed

lemma settle_usage_effect:
  assumes "settle_usage st h capture p = Inr q" and "state_ok st" and "hold_ok acc h"
  shows "opt_change usage_reserved (pl_Usage q) = - amount_val (tm_Principal (hd_Terms h))"
    and "\<exists>u. pl_Usage q = Some u \<and> usage_ok (ug_Values (ch_After u)) \<and> ug_OwnerID (ch_After u) = hd_OwnerID h
      \<and> ug_Bucket (ch_After u) = hd_Bucket h"
proof -
  obtain u v n where u: "st_Usage st = Some u" "ug_OwnerID u = hd_OwnerID h" "ug_Bucket u = hd_Bucket h"
    and v: "Usage_Resolve (ug_Values u) (tm_Principal (hd_Terms h)) capture = Inr v"
    and q: "q = p\<lparr>pl_Usage := Some \<lparr>ch_Before = Some u, ch_After = u\<lparr>ug_Values := v, ug_Version := n\<rparr>\<rparr>\<rparr>"
    using assms(1) by (rule settle_usage_Inr)
  have ok: "usage_ok (ug_Values u)" "amount_ok (tm_Principal (hd_Terms h))"
    using assms(2,3) u(1) by (simp_all add: state_ok_def hold_ok_def terms_ok_def amount_pos_ok)
  show "opt_change usage_reserved (pl_Usage q) = - amount_val (tm_Principal (hd_Terms h))"
    using Usage_Resolve_values(1) [OF ok v] by (simp add: q opt_change_def change_by_def usage_reserved_def)
  show "\<exists>u. pl_Usage q = Some u \<and> usage_ok (ug_Values (ch_After u)) \<and> ug_OwnerID (ch_After u) = hd_OwnerID h
      \<and> ug_Bucket (ch_After u) = hd_Bucket h"
    using Usage_Resolve_ok [OF ok v] u by (simp add: q)
qed

lemma resolve_applied:
  assumes "resolve E t c cmd st now p0 = applied q" and "pl_Evidence p0 = None"
  obtains h claim s ev p1 where "st_Hold st = Some h" "AllowsSubject c (hd_OwnerID h)"
    "st_Claim st = Some claim" "cc_HoldID claim = hd_ID h"
    "hold_step (hd_State h) s" "move_allowed E t cmd st h now s ev"
    "p1 = (with_subjects p0 [hd_OwnerID h])\<lparr>pl_Evidence := ev,
       pl_Hold := Some \<lparr>ch_Before = Some h, ch_After = h\<lparr>hd_State := s\<rparr>\<rparr>,
       pl_Claim := Some \<lparr>ch_Before = Some claim, ch_After = resolve_claim cmd claim (h\<lparr>hd_State := s\<rparr>)\<rparr>\<rparr>"
    "(if cm_Kind cmd = MarkHoldExposed then Inr p1 else resolve_money E cmd st h p1) = Inr q"
proof -
  obtain h where h: "st_Hold st = Some h" using assms(1) by (auto simp: resolve_def split: option.split_asm)
  obtain ref where r: "resolve_ref cmd = Inr ref" and al: "AllowsSubject c (hd_OwnerID h)"
    using assms(1) h by (auto simp: resolve_def Let_def split: if_split_asm)
  obtain claim where cl: "st_Claim st = Some claim" "cc_HoldID claim = hd_ID h"
    using assms(1) h r by (auto simp: resolve_def Let_def split: if_split_asm option.split_asm)
  let ?p = "with_subjects p0 [hd_OwnerID h]"
  obtain p' s where st: "resolve_state E t cmd st h now ?p = Inr ([], p', s)"
    using assms(1) h r al cl by (auto simp: resolve_def Let_def split: if_split_asm)
  let ?p1 = "p'\<lparr>pl_Hold := Some \<lparr>ch_Before = Some h, ch_After = h\<lparr>hd_State := s\<rparr>\<rparr>,
    pl_Claim := Some \<lparr>ch_Before = Some claim, ch_After = resolve_claim cmd claim (h\<lparr>hd_State := s\<rparr>)\<rparr>\<rparr>"
  have rest: "(if cm_Kind cmd = MarkHoldExposed then Inr ?p1 else resolve_money E cmd st h ?p1) = Inr q"
    using assms(1) h r al cl st by (auto simp: resolve_def Let_def split: if_split_asm)
  have ev: "pl_Evidence ?p = None" using assms(2) by simp
  note mv = resolve_state_moved [OF st ev]
  have "?p1 = ?p\<lparr>pl_Evidence := pl_Evidence p',
       pl_Hold := Some \<lparr>ch_Before = Some h, ch_After = h\<lparr>hd_State := s\<rparr>\<rparr>,
       pl_Claim := Some \<lparr>ch_Before = Some claim, ch_After = resolve_claim cmd claim (h\<lparr>hd_State := s\<rparr>)\<rparr>\<rparr>"
    by (subst mv(2)) simp
  then show thesis using that [OF h al cl mv(1) _ _ rest] mv(3) by simp
qed

lemma resolve_effect:
  assumes "resolve E t c cmd st now p = applied q" and "state_ok st" and "fresh_plan p"
  shows "plan_effect st q \<and> usage_effect q"
proof -
  obtain h claim s ev p1 where h: "st_Hold st = Some h" and step: "hold_step (hd_State h) s"
    and al: "move_allowed E t cmd st h now s ev"
    and p1: "p1 = (with_subjects p [hd_OwnerID h])\<lparr>pl_Evidence := ev,
       pl_Hold := Some \<lparr>ch_Before = Some h, ch_After = h\<lparr>hd_State := s\<rparr>\<rparr>,
       pl_Claim := Some \<lparr>ch_Before = Some claim, ch_After = resolve_claim cmd claim (h\<lparr>hd_State := s\<rparr>)\<rparr>\<rparr>"
    and rest: "(if cm_Kind cmd = MarkHoldExposed then Inr p1 else resolve_money E cmd st h p1) = Inr q"
    using assms(1,3) by (auto simp: fresh_plan_def elim: resolve_applied)
  have ok: "hold_ok (st_Accounts st) h" using assms(2) h by (simp add: state_ok_def)
  have opened: "open_hold (hd_State h)" using hold_stepD(1) [OF step] .
  have pf: "pl_Balances p1 = []" "pl_Journal p1 = None" "pl_Usage p1 = None"
    "pl_Hold p1 = Some \<lparr>ch_Before = Some h, ch_After = h\<lparr>hd_State := s\<rparr>\<rparr>"
    using p1 assms(3) by (auto simp: fresh_plan_def)
  show ?thesis
  proof (cases "cm_Kind cmd = MarkHoldExposed")
    case True
    then have q: "q = p1" and op: "open_hold s" using rest al by (simp_all add: move_allowed_def open_hold_def)
    have "opt_change (hold_held i) (pl_Hold q) = 0" "opt_change hold_limit (pl_Hold q) = 0" for i
      using pf opened op
      by (simp_all add: q opt_change_def change_by_def hold_held_def hold_limit_def hold_total_def)
    then show ?thesis
      using pf by (simp add: q plan_effect_def usage_effect_def balance_delta_def journal_delta_def opt_change_def)
  next
    case False
    then have closed: "\<not> open_hold s" using al by (auto simp: move_allowed_def open_hold_def split: if_split_asm)
    have money: "resolve_money E cmd st h p1 = Inr q" using rest False by simp
    obtain p' q' capture where eff: "plan_effect st q" "pl_Hold q = pl_Hold p1"
      and u: "settle_usage st h capture p' = Inr q'" "pl_Usage q' = pl_Usage q"
      using release_effect [OF money assms(2) ok _ opened closed pf(1,2,4)]
        capture_effect [OF money assms(2) ok _ opened closed pf(1,2,4)] by metis
    have "opt_change hold_limit (pl_Hold q) = - amount_val (tm_Principal (hd_Terms h))"
      using eff(2) pf(4) opened closed by (simp add: opt_change_def change_by_def hold_limit_def)
    then show ?thesis
      using eff pf(4) settle_usage_effect [OF u(1) assms(2) ok] u(2) by (auto simp: usage_effect_def)
  qed
qed

section \<open>Accounts and controls\<close>

lemma create_applied:
  assumes "create c cmd st p = applied q"
  obtains r a where "cm_Create cmd = Some r" "AllowsSubject c (cr_OwnerID r)" "st_Accounts st (cr_AccountID r) = None"
    "a = \<lparr>ac_ID = cr_AccountID r, ac_Book = bo_Book (st_Book st), ac_Owner = cr_OwnerID r, ac_Purpose = cr_Purpose r\<rparr>"
    "is_ok (Account_Validate a)"
    "q = (with_subjects p [cr_OwnerID r])\<lparr>pl_NewAccount := Some a,
       pl_Balances := [\<lparr>ch_Before = None, ch_After = \<lparr>bl_AccountID = ac_ID a, bl_Totals = zero_totals, bl_Version = 1\<rparr>\<rparr>],
       pl_Controls := pl_Controls p @ missing_controls st [Key ''SUBJECT'' (ac_Owner a), Key ''ACCOUNT'' (ac_ID a)]\<rparr>"
  using assms by (auto simp: create_def Let_def split: option.split_asm if_split_asm)

lemma create_effect:
  assumes "create c cmd st p = applied q" and "state_ok st" and "command_ok cmd" and "fresh_plan p"
  shows "plan_effect st q \<and> usage_effect q"
proof -
  obtain r a where r: "cm_Create cmd = Some r" "st_Accounts st (cr_AccountID r) = None"
    and a: "a = \<lparr>ac_ID = cr_AccountID r, ac_Book = bo_Book (st_Book st), ac_Owner = cr_OwnerID r, ac_Purpose = cr_Purpose r\<rparr>"
    and q: "q = (with_subjects p [cr_OwnerID r])\<lparr>pl_NewAccount := Some a,
       pl_Balances := [\<lparr>ch_Before = None, ch_After = \<lparr>bl_AccountID = ac_ID a, bl_Totals = zero_totals, bl_Version = 1\<rparr>\<rparr>],
       pl_Controls := pl_Controls p @ missing_controls st [Key ''SUBJECT'' (ac_Owner a), Key ''ACCOUNT'' (ac_ID a)]\<rparr>"
    using assms(1) by (rule create_applied)
  have "st_Balances st (cr_AccountID r) = None"
    using r(2) by (cases "st_Balances st (cr_AccountID r)") (auto elim: state_ok_balance [OF assms(2)])
  moreover have "cr_Purpose r = Wallet" using assms(3) r(1) by (simp add: command_ok_def)
  ultimately show ?thesis
    using r a q assms(4)
    by (simp add: plan_effect_def usage_effect_def balance_change_ok_def balance_delta_def change_by_def
        opt_change_def journal_delta_def fresh_plan_def tally_of_def)
qed

lemma setControl_applied:
  assumes "setControl c cmd st p = applied q"
  obtains req before after ids where "cm_Control cmd = Some req" "st_Controls st (sc_Key req) = Some before"
    "ct_Version before = sc_ExpectedVersion req" "set_control_after req before = Inr after"
    "q = (with_subjects p ids)\<lparr>pl_Controls := [\<lparr>ch_Before = Some before, ch_After = after\<rparr>]\<rparr>"
  using assms
  by (auto simp: setControl_def Let_def split: option.split_asm if_split_asm sum.split_asm)

lemma setControl_effect:
  assumes "setControl c cmd st p = applied q" and "fresh_plan p"
  shows "plan_effect st q \<and> usage_effect q"
proof -
  obtain ids ch where "q = (with_subjects p ids)\<lparr>pl_Controls := [ch]\<rparr>"
    using assms(1) by (rule setControl_applied)
  then show ?thesis
    using assms(2)
    by (simp add: plan_effect_def usage_effect_def balance_delta_def opt_change_def journal_delta_def fresh_plan_def)
qed

lemma evaluate_effect:
  assumes "evaluate E t c cmd st now p = applied q" and "state_ok st" and "command_ok cmd" and "fresh_plan p"
  shows "plan_effect st q \<and> usage_effect q"
  using assms create_effect setControl_effect admit_effect resolve_effect
  unfolding evaluate_def by (meson Inl_Inr_False)

end
