(* ===== verification/Scenario.thy ===== *)
theory Scenario
  imports Effects
begin

text \<open>
  A small ledger on which the properties are evaluated: one book, two wallets of two owners, a fee
  account and a provider pool, a policy with a fee of 5, and grants and evidence whose signatures the
  instantiated verifier accepts. The external components are concrete functions here.
\<close>

definition x_env :: env where
  "x_env = \<lparr>en_Canonical = (\<lambda>j. case j of JObj ((_, JObj ((_, JStr s) # _)) # _) \<Rightarrow> Inr s | _ \<Rightarrow> Inr ''{}''),
     en_sha256 = (\<lambda>s. replicate 32 (word_of_nat (length s))),
     en_verify = (\<lambda>key m sig. length sig = 3), en_zone = (\<lambda>_. 10800),
     en_timestamptz = (\<lambda>t. \<lparr>t_ns = t_ns t div 1000 * 1000, t_offset = 0\<rparr>)\<rparr>"

definition x_id :: "char \<Rightarrow> ID" where
  "x_id c = ''00000000-0000-4000-8000-00000000000'' @ [c]"

abbreviation x_book_id :: ID where "x_book_id \<equiv> x_id (CHR ''1'')"
abbreviation x_alice :: ID where "x_alice \<equiv> x_id (CHR ''a'')"
abbreviation x_bob :: ID where "x_bob \<equiv> x_id (CHR ''b'')"
abbreviation x_house :: ID where "x_house \<equiv> x_id (CHR ''c'')"
abbreviation x_wallet_a :: ID where "x_wallet_a \<equiv> x_id (CHR ''2'')"
abbreviation x_wallet_b :: ID where "x_wallet_b \<equiv> x_id (CHR ''3'')"
abbreviation x_fees :: ID where "x_fees \<equiv> x_id (CHR ''4'')"
abbreviation x_pool :: ID where "x_pool \<equiv> x_id (CHR ''5'')"
abbreviation x_policy_id :: ID where "x_policy_id \<equiv> x_id (CHR ''6'')"
abbreviation x_payment :: ID where "x_payment \<equiv> x_id (CHR ''7'')"
abbreviation x_hold_id :: ID where "x_hold_id \<equiv> x_id (CHR ''8'')"
abbreviation x_attempt :: ID where "x_attempt \<equiv> x_id (CHR ''9'')"
abbreviation x_grant_id :: ID where "x_grant_id \<equiv> x_id (CHR ''d'')"
abbreviation x_quote :: ID where "x_quote \<equiv> x_id (CHR ''e'')"
abbreviation x_op :: ID where "x_op \<equiv> x_id (CHR ''f'')"

definition x_time :: "int \<Rightarrow> time" where
  "x_time s = \<lparr>t_ns = s * 1000000000, t_offset = 0\<rparr>"

definition x_dbook :: book where
  "x_dbook = \<lparr>bk_ID = x_book_id, bk_Currency = ''KES'', bk_Scale = 2\<rparr>"

definition x_book :: app_book where
  "x_book = \<lparr>bo_Book = x_dbook, bo_DefaultCap = Wide ''100000'', bo_Synthetic = True\<rparr>"

definition x_account :: "ID \<Rightarrow> ID \<Rightarrow> purpose \<Rightarrow> account" where
  "x_account i owner p = \<lparr>ac_ID = i, ac_Book = x_dbook, ac_Owner = owner, ac_Purpose = p\<rparr>"

definition x_accounts :: "(ID \<times> account) list" where
  "x_accounts =
     [(x_wallet_a, x_account x_wallet_a x_alice Wallet), (x_wallet_b, x_account x_wallet_b x_bob Wallet),
      (x_fees, x_account x_fees x_house FeeIncome), (x_pool, x_account x_pool x_house ProviderPool)]"

definition x_balance :: "ID \<Rightarrow> string \<Rightarrow> string \<Rightarrow> string \<Rightarrow> balance" where
  "x_balance i d c h = \<lparr>bl_AccountID = i,
     bl_Totals = \<lparr>tt_Debits = Wide d, tt_Credits = Wide c, tt_Held = Wide h\<rparr>, bl_Version = 4\<rparr>"

definition x_balances :: "string \<Rightarrow> string \<Rightarrow> (ID \<times> balance) list" where
  "x_balances held_a held_pool =
     [(x_wallet_a, x_balance x_wallet_a [] ''1000'' held_a), (x_wallet_b, x_balance x_wallet_b [] [] []),
      (x_fees, x_balance x_fees [] [] []), (x_pool, x_balance x_pool ''1000'' [] held_pool)]"

definition x_control :: "control_key \<Rightarrow> control" where
  "x_control k = \<lparr>ct_Key = k, ct_Version = 3, ct_Epoch = 2, ct_DebitFrozen = False, ct_CreditFrozen = False,
     ct_DailyCap = Wide ''100000''\<rparr>"

definition x_keys :: "control_key list" where
  "x_keys = [Key ''SUBJECT'' x_alice, Key ''SUBJECT'' x_bob, Key ''SUBJECT'' x_house,
     Key ''ACCOUNT'' x_wallet_a, Key ''ACCOUNT'' x_wallet_b, Key ''ACCOUNT'' x_fees, Key ''ACCOUNT'' x_pool]"

definition x_policy :: policy where
  "x_policy = \<lparr>po_ID = x_policy_id, po_Fee = Amount 5, po_FeeAccountID = x_fees, po_PoolID = x_pool,
     po_ProviderAccountID = x_pool, po_CapabilityID = x_quote, po_MaxHoldSeconds = 3600\<rparr>"

definition x_grant :: grant where
  "x_grant = \<lparr>gr_ID = x_grant_id, gr_Issuer = ''iss'', gr_BookID = x_book_id, gr_PaymentID = x_payment,
     gr_SubjectID = x_alice, gr_SourceID = x_wallet_a, gr_BeneficiaryID = x_wallet_b,
     gr_Principal = Amount 100, gr_Fee = Amount 5, gr_PolicyID = x_policy_id, gr_QuoteID = x_quote,
     gr_Currency = ''KES'', gr_SubjectEpoch = 2, gr_AccountEpoch = 2,
     gr_NotBefore = x_time 1000, gr_ExpiresAt = x_time 9000\<rparr>"

definition x_terms :: terms where
  "x_terms = \<lparr>tm_PaymentID = x_payment, tm_SourceID = x_wallet_a, tm_BeneficiaryID = x_wallet_b,
     tm_Principal = Amount 100, tm_Fee = Amount 5, tm_Currency = ''KES'', tm_PolicyID = x_policy_id,
     tm_QuoteID = x_quote, tm_Grant = \<lparr>sg_Claims = x_grant, sg_Signature = ''AAAA''\<rparr>\<rparr>"

definition x_trust :: trust where
  "x_trust = \<lparr>ts_GrantKeys = [''iss'' \<mapsto> replicate 32 0], ts_EvidenceKeys = [''iss'' \<mapsto> replicate 32 0]\<rparr>"

definition x_caller :: caller where
  "x_caller = \<lparr>cl_Identity = ''svc'', cl_Books = [(x_book_id, True)],
     cl_Permissions = [(''spend'', True), (''resolve'', True), (''provision'', True), (''control'', True), (''read'', True)],
     cl_Subjects = []\<rparr>"

definition x_command :: "kind \<Rightarrow> command" where
  "x_command k = \<lparr>cm_BookID = x_book_id, cm_OperationID = x_op, cm_Kind = k, cm_Create = None, cm_Transfer = None,
     cm_Reserve = None, cm_Expose = None, cm_Capture = None, cm_Release = None, cm_Control = None\<rparr>"

definition x_transfer :: command where
  "x_transfer = (x_command TransferInternal)\<lparr>cm_Transfer := Some \<lparr>tr_Terms = x_terms\<rparr>\<rparr>"

definition x_reserve_body :: reserve where
  "x_reserve_body = \<lparr>rs_Terms = x_terms, rs_HoldID = x_hold_id, rs_AttemptID = x_attempt, rs_PoolID = x_pool,
     rs_ExpiresAt = x_time 3000\<rparr>"

definition x_reserve :: command where
  "x_reserve = (x_command ReservePayout)\<lparr>cm_Reserve := Some x_reserve_body\<rparr>"

definition x_evidence :: "string \<Rightarrow> signed_evidence" where
  "x_evidence outcome = \<lparr>se_Claims = \<lparr>ev_ID = x_quote, ev_Issuer = ''iss'', ev_BookID = x_book_id,
     ev_PaymentID = x_payment, ev_HoldID = x_hold_id, ev_AttemptID = x_attempt, ev_ProviderAccountID = x_pool,
     ev_BeneficiaryID = x_wallet_b, ev_Principal = Amount 100, ev_Currency = ''KES'', ev_CapabilityID = x_quote,
     ev_FinalState = outcome, ev_SubmissionFenced = True, ev_ObservedAt = x_time 1500,
     ev_SourceDigest = replicate 64 (CHR ''0'')\<rparr>, se_Signature = ''AAAA''\<rparr>"

definition x_ref :: "int64 \<Rightarrow> hold_ref" where
  "x_ref v = \<lparr>rf_PaymentID = x_payment, rf_HoldID = x_hold_id, rf_AttemptID = x_attempt, rf_ExpectedVersion = v\<rparr>"

definition x_capture :: command where
  "x_capture = (x_command CapturePayout)\<lparr>cm_Capture :=
     Some \<lparr>cp_Ref = x_ref 2, cp_Evidence = x_evidence ''FINAL_SUCCESS''\<rparr>\<rparr>"

definition x_hold :: hold where
  "x_hold = (new_hold x_reserve_body x_terms (x_account x_wallet_a x_alice Wallet) x_policy ''1970-01-01'')
     \<lparr>hd_State := \<lparr>hs_State = Exposed, hs_Version = 2, hs_ExpiresAt = x_time 3000\<rparr>\<rparr>"

definition x_claim :: claim where
  "x_claim = \<lparr>cc_PaymentID = x_payment, cc_AdmissionOperationID = x_op, cc_AdmissionOutcome = ''APPLIED'',
     cc_MaterialHash = [], cc_State = Exposed, cc_HoldID = x_hold_id, cc_ResultOperationID = x_op\<rparr>"

text \<open>The state before any payment, and with an exposed hold of 100 plus the fee.\<close>

definition x_state :: state where
  "x_state = \<lparr>st_Book = x_book, st_Accounts = map_of x_accounts, st_Balances = map_of (x_balances [] []),
     st_Controls = map_of (map (\<lambda>k. (k, x_control k)) x_keys), st_Policy = Some x_policy, st_Claim = None,
     st_Hold = None, st_Usage = None\<rparr>"

definition x_held_state :: state where
  "x_held_state = x_state\<lparr>st_Balances := map_of (x_balances ''105'' ''100''), st_Claim := Some x_claim,
     st_Hold := Some x_hold, st_Usage := Some \<lparr>ug_OwnerID = x_alice, ug_Bucket = ''1970-01-01'',
       ug_Values = \<lparr>uv_Reserved = Wide ''100'', uv_Consumed = Wide []\<rparr>, ug_Version = 1\<rparr>\<rparr>"

definition x_receipt :: receipt where
  "x_receipt = \<lparr>rc_CallerIdentity = ''svc'', rc_SchemaVersion = ''1'', rc_BookID = x_book_id, rc_OperationID = x_op,
     rc_Kind = [], rc_RequestHash = [], rc_Outcome = ''APPLIED'', rc_Reason = [], rc_PaymentID = [],
     rc_SubjectIDs = [], rc_JournalID = [], rc_HoldID = [], rc_HoldVersion = 0, rc_ControlVersions = Map.empty,
     rc_AccountVersions = Map.empty, rc_PolicyID = [], rc_EvidenceID = [], rc_LimitChange = None,
     rc_RecordedAt = x_time 2000, rc_EventID = []\<rparr>"

definition x_plan :: "command \<Rightarrow> plan" where
  "x_plan cmd = \<lparr>pl_Command = cmd, pl_Canonical = [], pl_Receipt = x_receipt, pl_NewAccount = None, pl_Journal = None,
     pl_Balances = [], pl_Controls = [], pl_Hold = None, pl_Usage = None, pl_Claim = None, pl_Evidence = None\<rparr>"

abbreviation x_evaluate :: "command \<Rightarrow> state \<Rightarrow> verdict" where
  "x_evaluate cmd st \<equiv> evaluate x_env x_trust x_caller cmd st (x_time 2000) (x_plan cmd)"

text \<open>The balance changes of a verdict, as changes of debits, credits and held funds.\<close>

definition verdict_deltas :: "verdict \<Rightarrow> (string \<times> (int \<times> int \<times> int) list) result" where
  "verdict_deltas v = map_sum id (\<lambda>(reason, q). (reason,
     map (\<lambda>ch. (change_by debits ch, change_by credits ch, change_by held ch)) (pl_Balances q))) v"

lemma x_transfer_runs: "verdict_deltas (x_evaluate x_transfer x_state) = Inr ([], [(105, 0, 0), (0, 100, 0), (0, 5, 0)])"
  by code_simp

lemma x_reserve_runs: "verdict_deltas (x_evaluate x_reserve x_state) = Inr ([], [(0, 0, 105), (0, 0, 100)])"
  by code_simp

lemma x_capture_runs:
  "verdict_deltas (x_evaluate x_capture x_held_state) = Inr ([], [(105, 0, - 105), (0, 100, - 100), (0, 5, 0)])"
  by code_simp

lemma verdict_deltasE:
  assumes "verdict_deltas v = Inr ([], ds)"
  obtains q where "v = applied q"
    "map (\<lambda>ch. (change_by debits ch, change_by credits ch, change_by held ch)) (pl_Balances q) = ds"
  using assms by (cases v) (auto simp: verdict_deltas_def)

lemma x_id_eq [simp]: "x_id c = x_id d \<longleftrightarrow> c = d"
  by (simp add: x_id_def)

lemma x_balances_ok:
  "balance_ok Wallet (x_balance x_wallet_a [] ''1000'' [])" "balance_ok Wallet (x_balance x_wallet_b [] [] [])"
  "balance_ok FeeIncome (x_balance x_fees [] [] [])" "balance_ok ProviderPool (x_balance x_pool ''1000'' [] [])"
  "balance_ok Wallet (x_balance x_wallet_a [] ''1000'' ''105'')" "balance_ok ProviderPool (x_balance x_pool ''1000'' [] ''100'')"
  by code_simp+

lemma x_terms_ok: "terms_ok x_terms"
  by code_simp

lemma x_state_ok: "state_ok x_state"
  using x_balances_ok
  by (auto simp: state_ok_def x_state_def x_accounts_def x_balances_def x_account_def x_balance_def split: if_splits)

lemma x_hold_ok: "hold_ok (map_of x_accounts) x_hold"
  by code_simp

lemma x_held_state_ok: "state_ok x_held_state"
  using x_balances_ok x_hold_ok
  by (auto simp: state_ok_def x_held_state_def x_state_def x_accounts_def x_balances_def x_account_def x_balance_def
      usage_ok_def split: if_splits) code_simp+

lemma x_plan_fresh: "fresh_plan (x_plan cmd)"
  by (simp add: fresh_plan_def x_plan_def)

lemma x_commands_ok: "command_ok x_transfer" "command_ok x_reserve" "command_ok x_capture"
  using x_terms_ok
  by (simp_all add: command_ok_def x_transfer_def x_reserve_def x_capture_def x_command_def x_reserve_body_def)

end
