(* ===== verification/Payments.thy ===== *)
theory Payments
  imports Scenario
begin

text \<open>
  Properties of the decision of \<open>evaluate.go\<close>: conservation of money, authority to spend, control
  over holds, revocation and freezing, and the guarantee that a proven payout can be settled.
\<close>

section \<open>Conservation\<close>

lemma lines_delta_sum:
  assumes "finite A" and "(ac_ID \<circ> ln_Account) ` set ls \<subseteq> A"
  shows "(\<Sum>i\<in>A. lines_delta sd i ls) = side_sum sd ls"
proof -
  have "lines_delta sd i ls =
      (\<Sum>l\<leftarrow>ls. if (ac_ID \<circ> ln_Account) l = i then if ln_Side l = sd then amount_val (ln_Amount l) else 0 else 0)" for i
    unfolding lines_delta_def by (intro arg_cong [where f = sum_list] map_cong) auto
  then show ?thesis
    using sum_list_by_key [OF assms, of "\<lambda>l. if ln_Side l = sd then amount_val (ln_Amount l) else 0"]
    by (simp add: side_sum_def)
qed

lemma balance_delta_sum:
  assumes "finite A" and "(bl_AccountID \<circ> ch_After) ` set chs \<subseteq> A"
  shows "(\<Sum>i\<in>A. balance_delta f i chs) = (\<Sum>ch\<leftarrow>chs. change_by f ch)"
  using sum_list_by_key [OF assms, of "change_by f"] by (simp add: balance_delta_def)

lemma plan_effect_totals:
  assumes "plan_effect st p"
  shows "(\<Sum>ch\<leftarrow>pl_Balances p. change_by debits ch) = (\<Sum>ch\<leftarrow>pl_Balances p. change_by credits ch)"
proof -
  define A where "A = (bl_AccountID \<circ> ch_After) ` set (pl_Balances p) \<union>
    (case pl_Journal p of None \<Rightarrow> {} | Some j \<Rightarrow> (ac_ID \<circ> ln_Account) ` set (jr_lines j))"
  have A: "finite A" "(bl_AccountID \<circ> ch_After) ` set (pl_Balances p) \<subseteq> A"
    by (auto simp: A_def split: option.split)
  have "(\<Sum>i\<in>A. journal_delta Debit i p) = (\<Sum>i\<in>A. journal_delta Credit i p)"
  proof (cases "pl_Journal p")
    case (Some j)
    then have "(ac_ID \<circ> ln_Account) ` set (jr_lines j) \<subseteq> A" by (simp add: A_def)
    with Some assms show ?thesis
      by (simp add: journal_delta_def lines_delta_sum [OF A(1)] plan_effect_def journal_valid_def)
  qed (simp add: journal_delta_def)
  then show ?thesis
    using assms by (simp add: plan_effect_def flip: balance_delta_sum [OF A])
qed

text \<open>
  C1. Conservation of money: whatever command is applied to a well-formed state, each account is
  changed at most once, from its loaded balance and one version up, to a solvent balance; debits
  and credits move exactly by the balanced journal of the plan, so over all accounts they move
  by the same sum; held funds move exactly by what the hold reserves or gives back.
\<close>

theorem applied_plan_conserves_money:
  assumes "evaluate E t c cmd st now p = applied q" and "state_ok st" and "command_ok cmd" and "fresh_plan p"
  shows "plan_effect st q \<and>
    (\<Sum>ch\<leftarrow>pl_Balances q. change_by debits ch) = (\<Sum>ch\<leftarrow>pl_Balances q. change_by credits ch)"
  using evaluate_effect [OF assms] plan_effect_totals by blast

theorem applied_plan_conserves_money_witness:
  "\<exists>q. x_evaluate x_transfer x_state = applied q \<and> plan_effect x_state q
    \<and> (\<Sum>ch\<leftarrow>pl_Balances q. change_by debits ch) = 105 \<and> (\<Sum>ch\<leftarrow>pl_Balances q. change_by credits ch) = 105"
proof -
  obtain q where q: "x_evaluate x_transfer x_state = applied q"
    and d: "map (\<lambda>ch. (change_by debits ch, change_by credits ch, change_by held ch)) (pl_Balances q) =
      [(105, 0, 0), (0, 100, 0), (0, 5, 0)]"
    using x_transfer_runs by (rule verdict_deltasE)
  have "(\<Sum>ch\<leftarrow>pl_Balances q. change_by debits ch) = 105" using d by (auto simp: map_eq_Cons_conv)
  then show ?thesis
    using applied_plan_conserves_money [OF q x_state_ok x_commands_ok(1) x_plan_fresh] q by auto
qed

text \<open>
  C6. The limit reservation follows the hold: an applied command changes the reserved usage of the
  owner's day by exactly the principal its hold reserves or resolves, on the usage record of that
  owner and day, and the usage stays well-formed.
\<close>

theorem applied_plan_tracks_limit:
  assumes "evaluate E t c cmd st now p = applied q" and "state_ok st" and "command_ok cmd" and "fresh_plan p"
  shows "usage_effect q"
  using evaluate_effect [OF assms] by blast

theorem applied_plan_tracks_limit_witness:
  "\<exists>q. x_evaluate x_capture x_held_state = applied q \<and> usage_effect q"
proof -
  obtain q where q: "x_evaluate x_capture x_held_state = applied q"
    using x_capture_runs by (rule verdict_deltasE)
  then show ?thesis
    using applied_plan_tracks_limit [OF q x_held_state_ok x_commands_ok(3) x_plan_fresh] by blast
qed

section \<open>Authority to spend\<close>

lemma kind_admit:
  "cm_Kind cmd = TransferInternal \<or> cm_Kind cmd = ReservePayout \<Longrightarrow> evaluate E t c cmd st now p = admit E t c cmd st now p"
  by (auto simp: evaluate_def)

lemma kind_resolve:
  "cm_Kind cmd = MarkHoldExposed \<or> cm_Kind cmd = CapturePayout \<or> cm_Kind cmd = ReleasePayout \<Longrightarrow>
   evaluate E t c cmd st now p = resolve E t c cmd st now p"
  by (auto simp: evaluate_def)







text \<open>The commands that spend from a wallet under a grant: transfers, reservations and exposures.\<close>

definition spends_under :: "command \<Rightarrow> state \<Rightarrow> account \<Rightarrow> grant \<Rightarrow> bool" where
  "spends_under cmd st a g =
     ((cm_Kind cmd = TransferInternal \<or> cm_Kind cmd = ReservePayout) \<and>
        (\<exists>terms. admit_terms cmd = Inr terms \<and> st_Accounts st (tm_SourceID terms) = Some a
           \<and> sg_Claims (tm_Grant terms) = g)
      \<or> cm_Kind cmd = MarkHoldExposed \<and>
        (\<exists>h. st_Hold st = Some h \<and> st_Accounts st (tm_SourceID (hd_Terms h)) = Some a
           \<and> sg_Claims (tm_Grant (hd_Terms h)) = g))"

text \<open>
  C5. Revocation and freezing stop spending: while the owner or the wallet is frozen for debits,
  or its control stands at another epoch than the grant was issued for, no transfer, no payout
  reservation and no exposure of a hold of that wallet is applied, whoever asks.
\<close>

theorem blocked_wallet_never_spends:
  assumes "controlsFor st a = Inr (sub, acct)"
    and "ct_DebitFrozen sub \<or> ct_DebitFrozen acct \<or> gr_SubjectEpoch g \<noteq> ct_Epoch sub \<or> gr_AccountEpoch g \<noteq> ct_Epoch acct"
    and "spends_under cmd st a g"
  shows "evaluate E t c cmd st now p \<noteq> applied q"
proof
  assume run: "evaluate E t c cmd st now p = applied q"
  show False
  proof (cases "cm_Kind cmd = MarkHoldExposed")
    case False
    then have "admit E t c cmd st now p = applied q" using run assms(3) kind_admit by (auto simp: spends_under_def)
    then obtain terms' a' sub' acct' policy' where "admitted E t c cmd st now terms' a' sub' acct' policy'"
      by (rule admit_applied)
    then show False using assms False by (auto simp: admitted_def spends_under_def)
  next
    case True
    then have res: "resolve E t c cmd st now p = applied q" using run kind_resolve by metis
    obtain h where h: "st_Hold st = Some h" "st_Accounts st (tm_SourceID (hd_Terms h)) = Some a"
      "sg_Claims (tm_Grant (hd_Terms h)) = g" using assms(3) True by (auto simp: spends_under_def)
    have "\<exists>x p1 s. resolve_expose t x st h now p1 = Inr ([], p1, s)"
      using res h(1) True
      by (auto simp: resolve_def resolve_state_def Let_def split: if_split_asm option.split_asm dest: resolve_expose_moved)
    then obtain x p1 s where "resolve_expose t x st h now p1 = Inr ([], p1, s)" by blast
    then show False
      using h assms(1,2) by (auto simp: resolve_expose_def Let_def split: if_split_asm option.split_asm)
  qed
qed

theorem blocked_wallet_never_spends_witness:
  "let st = x_state\<lparr>st_Controls := (\<lambda>k. Some ((x_control k)\<lparr>ct_DebitFrozen := True\<rparr>))\<rparr>
   in spends_under x_transfer st (x_account x_wallet_a x_alice Wallet) x_grant
      \<and> (\<forall>q. x_evaluate x_transfer st \<noteq> applied q)"
proof -
  let ?st = "x_state\<lparr>st_Controls := (\<lambda>k. Some ((x_control k)\<lparr>ct_DebitFrozen := True\<rparr>))\<rparr>"
  let ?a = "x_account x_wallet_a x_alice Wallet"
  have ctl: "controlsFor ?st ?a = Inr ((x_control (Key ''SUBJECT'' x_alice))\<lparr>ct_DebitFrozen := True\<rparr>,
      (x_control (Key ''ACCOUNT'' x_wallet_a))\<lparr>ct_DebitFrozen := True\<rparr>)"
    by (simp add: controlsFor_def x_account_def)
  have sp: "spends_under x_transfer ?st ?a x_grant"
    by (simp add: spends_under_def x_transfer_def x_command_def admit_terms_def deref_def x_terms_def
        x_state_def x_accounts_def)
  from blocked_wallet_never_spends [OF ctl _ sp] sp show ?thesis by (simp add: Let_def)
qed

section \<open>Control over holds\<close>

lemma settle_entries_keeps:
  "settle_entries st capture es p = Inr q \<Longrightarrow>
   pl_Hold q = pl_Hold p \<and> pl_Claim q = pl_Claim p \<and> pl_Evidence q = pl_Evidence p"
  by (induction st capture es p rule: settle_entries.induct) (auto split: option.split_asm sum.split_asm)

lemma case_error_eq_Inr:
  "(case r of Inl _ \<Rightarrow> Inl e | Inr x \<Rightarrow> f x) = Inr y \<longleftrightarrow> (\<exists>x. r = Inr x \<and> f x = Inr y)"
  by (cases r) auto

lemma capture_journal_keeps:
  assumes "capture_journal E st h tot p = Inr q"
  shows "pl_Hold q = pl_Hold p \<and> pl_Claim q = pl_Claim p \<and> pl_Evidence q = pl_Evidence p"
proof -
  obtain f p' j where f: "capture_fee st f (tm_Fee (hd_Terms h)) p = Inr p'" and q: "q = p'\<lparr>pl_Journal := Some j\<rparr>"
    using assms by (auto simp: capture_journal_def Let_def case_error_eq_Inr)
  have "\<exists>bs. p' = p\<lparr>pl_Balances := bs\<rparr>"
    using f by (cases p) (auto simp: capture_fee_def split: if_split_asm option.split_asm sum.split_asm)
  then show ?thesis using q by auto
qed

lemma resolve_money_Inr:
  assumes "resolve_money E cmd st h p = Inr q"
  obtains tot es p1 p2 where "settle_entries st (cm_Kind cmd = CapturePayout) es p = Inr p1"
    "settle_usage st h (cm_Kind cmd = CapturePayout) p1 = Inr p2"
    "(if cm_Kind cmd = CapturePayout then capture_journal E st h tot p2 else Inr p2) = Inr q"
  using assms unfolding resolve_money_def Let_def
  by (cases "Amount_Add (tm_Principal (hd_Terms h)) (tm_Fee (hd_Terms h))")
     (simp_all del: settle_entries.simps, blast)

lemma resolve_money_keeps:
  assumes "resolve_money E cmd st h p = Inr q"
  shows "pl_Hold q = pl_Hold p \<and> pl_Claim q = pl_Claim p \<and> pl_Evidence q = pl_Evidence p"
proof -
  obtain tot es p1 p2 where p1: "settle_entries st (cm_Kind cmd = CapturePayout) es p = Inr p1"
    and p2: "settle_usage st h (cm_Kind cmd = CapturePayout) p1 = Inr p2"
    and q: "(if cm_Kind cmd = CapturePayout then capture_journal E st h tot p2 else Inr p2) = Inr q"
    using assms by (rule resolve_money_Inr)
  obtain u where "p2 = p1\<lparr>pl_Usage := u\<rparr>" using p2 by (rule settle_usage_Inr)
  then show ?thesis
    using settle_entries_keeps [OF p1] q by (cases "cm_Kind cmd = CapturePayout") (auto dest: capture_journal_keeps)
qed

text \<open>
  C3. A hold moves only when someone vouches for it: an applied expose, capture or release is for the
  loaded hold and the caller may act for its owner; an exposure happens before expiry of the hold
  and of the grant; a capture has verified evidence of success for exactly this hold; a release
  frees either a hold that was never exposed or one with verified, fenced evidence of failure. The
  claim of the payment takes the new state of the hold.
\<close>

theorem hold_moves_are_vouched:
  assumes "evaluate E t c cmd st now p = applied q" and "fresh_plan p"
    and "cm_Kind cmd = MarkHoldExposed \<or> cm_Kind cmd = CapturePayout \<or> cm_Kind cmd = ReleasePayout"
  shows "\<exists>h claim s. st_Hold st = Some h \<and> AllowsSubject c (hd_OwnerID h)
    \<and> st_Claim st = Some claim \<and> cc_HoldID claim = hd_ID h
    \<and> hold_step (hd_State h) s \<and> move_allowed E t cmd st h now s (pl_Evidence q)
    \<and> pl_Hold q = Some \<lparr>ch_Before = Some h, ch_After = h\<lparr>hd_State := s\<rparr>\<rparr>
    \<and> pl_Claim q = Some \<lparr>ch_Before = Some claim,
         ch_After = claim\<lparr>cc_State := hs_State s, cc_ResultOperationID := cm_OperationID cmd\<rparr>\<rparr>"
proof -
  have res: "resolve E t c cmd st now p = applied q" using assms(1,3) kind_resolve by metis
  have ev: "pl_Evidence p = None" using assms(2) by (simp add: fresh_plan_def)
  obtain h claim s ev p1 where h: "st_Hold st = Some h" "AllowsSubject c (hd_OwnerID h)"
    "st_Claim st = Some claim" "cc_HoldID claim = hd_ID h"
    "hold_step (hd_State h) s" "move_allowed E t cmd st h now s ev"
    and p1: "p1 = (with_subjects p [hd_OwnerID h])\<lparr>pl_Evidence := ev,
       pl_Hold := Some \<lparr>ch_Before = Some h, ch_After = h\<lparr>hd_State := s\<rparr>\<rparr>,
       pl_Claim := Some \<lparr>ch_Before = Some claim, ch_After = resolve_claim cmd claim (h\<lparr>hd_State := s\<rparr>)\<rparr>\<rparr>"
    and rest: "(if cm_Kind cmd = MarkHoldExposed then Inr p1 else resolve_money E cmd st h p1) = Inr q"
    using res ev by (rule resolve_applied)
  have "pl_Hold q = pl_Hold p1 \<and> pl_Claim q = pl_Claim p1 \<and> pl_Evidence q = pl_Evidence p1"
    using rest resolve_money_keeps by (auto split: if_split_asm)
  then show ?thesis using h p1 by (auto simp: resolve_claim_def)
qed

theorem hold_moves_are_vouched_witness:
  "\<exists>q h s. x_evaluate x_capture x_held_state = applied q \<and> st_Hold x_held_state = Some h
    \<and> move_allowed x_env x_trust x_capture x_held_state h (x_time 2000) s (pl_Evidence q) \<and> hs_State s = Captured"
proof -
  obtain q where q: "x_evaluate x_capture x_held_state = applied q"
    using x_capture_runs by (rule verdict_deltasE)
  have k: "cm_Kind x_capture = CapturePayout" by (simp add: x_capture_def x_command_def)
  from hold_moves_are_vouched [OF q x_plan_fresh] k obtain h s where "st_Hold x_held_state = Some h"
    "move_allowed x_env x_trust x_capture x_held_state h (x_time 2000) s (pl_Evidence q)" by auto
  moreover from this(2) k have "hs_State s = Captured" by (simp add: move_allowed_def)
  ultimately show ?thesis using q by blast
qed

section \<open>A proven payout can be settled\<close>

definition version_room :: "int64 \<Rightarrow> bool" where
  "version_room v = (0 \<le> sint v \<and> v \<noteq> MaxInt64)"

text \<open>
  The loaded state agrees with the hold: the wallet and the pool hold at least its amounts, the
  usage of its day still reserves its principal, the claim points at it, and counters and totals
  are not at their limits.
\<close>

definition settleable :: "state \<Rightarrow> hold \<Rightarrow> claim \<Rightarrow> usage \<Rightarrow> balance \<Rightarrow> balance \<Rightarrow> balance \<Rightarrow> bool" where
  "settleable st h claim u bs bp bf =
     (state_ok st \<and> is_ok (Book_Validate (bo_Book (st_Book st)))
      \<and> (\<forall>a i. st_Accounts st i = Some a \<longrightarrow> is_ok (Account_Validate a) \<and> ac_Book a = bo_Book (st_Book st))
      \<and> st_Hold st = Some h \<and> st_Claim st = Some claim \<and> cc_HoldID claim = hd_ID h
      \<and> st_Usage st = Some u \<and> ug_OwnerID u = hd_OwnerID h \<and> ug_Bucket u = hd_Bucket h
      \<and> amount_val (tm_Principal (hd_Terms h)) \<le> wide_val (uv_Reserved (ug_Values u))
      \<and> wide_val (uv_Consumed (ug_Values u)) + amount_val (tm_Principal (hd_Terms h)) \<le> wide_max
      \<and> st_Balances st (tm_SourceID (hd_Terms h)) = Some bs \<and> st_Balances st (hd_PoolID h) = Some bp
      \<and> st_Balances st (hd_FeeAccountID h) = Some bf
      \<and> hold_total h \<le> held bs \<and> amount_val (tm_Principal (hd_Terms h)) \<le> held bp
      \<and> debits bs + hold_total h \<le> wide_max \<and> credits bp + amount_val (tm_Principal (hd_Terms h)) \<le> wide_max
      \<and> credits bf + amount_val (tm_Fee (hd_Terms h)) \<le> wide_max
      \<and> version_room (bl_Version bs) \<and> version_room (bl_Version bp) \<and> version_room (bl_Version bf)
      \<and> version_room (ug_Version u) \<and> version_room (hs_Version (hd_State h)))"

lemma version_room_next: "version_room v \<Longrightarrow> NextVersion v = Inr (v + 1)"
  by (auto simp: version_room_def NextVersion_def)

lemma map_sum_Inr: "map_sum id f r = Inr y \<Longrightarrow> \<exists>x. r = Inr x \<and> f x = y"
  by (cases r) auto

lemma settle_entry_succeeds:
  assumes "balance_ok p b" and "amount_ok a" and "amount_val a \<le> held b"
    and "p = Wallet \<and> side = Debit \<and> debits b + amount_val a \<le> wide_max \<or>
         p = ProviderPool \<and> side = Credit \<and> credits b + amount_val a \<le> wide_max"
  shows "\<exists>f u. Totals_Release (bl_Totals b) a = Inr f \<and> Post f p side a = Inr u"
proof -
  obtain d c h where t: "tally_of (bl_Totals b) = (d, c, h)" by (metis prod_cases3)
  have ok: "totals_ok (bl_Totals b)" and sol: "solvent p (d, c, h)" using assms(1) t by (simp_all add: balance_ok_def)
  have "map_sum id tally_of (Totals_Release (bl_Totals b) a) = Inr (d, c, h - amount_val a)"
    using assms(3) t by (simp add: Release_refines [OF ok assms(2)] spec_release_def)
  then obtain f where f: "Totals_Release (bl_Totals b) a = Inr f" "tally_of f = (d, c, h - amount_val a)"
    by (auto dest: map_sum_Inr)
  have fok: "totals_ok f" using ok assms(2) f(1) by (rule Release_ok)
  have n: "0 \<le> amount_val a" using amount_val_range [OF assms(2)] by simp
  have "\<exists>v. spec_post p side (amount_val a) (d, c, h - amount_val a) = Inr v"
    using assms(4)
  proof
    assume "p = Wallet \<and> side = Debit \<and> debits b + amount_val a \<le> wide_max"
    then show ?thesis using sol t n assms(3)
      by (simp add: spec_post_def settle_def known_purpose_def solvent_def spec_posted_def spec_available_def)
  next
    assume "p = ProviderPool \<and> side = Credit \<and> credits b + amount_val a \<le> wide_max"
    then show ?thesis using sol t n assms(3)
      by (simp add: spec_post_def settle_def known_purpose_def solvent_def spec_posted_def spec_available_def)
  qed
  then have "\<exists>v. map_sum id tally_of (Post f p side a) = Inr v"
    by (simp add: Post_refines [OF fok assms(2)] f(2))
  then show ?thesis using f(1) by (auto dest: map_sum_Inr)
qed

lemma fee_post_succeeds:
  assumes "balance_ok FeeIncome b" and "amount_ok a" and "credits b + amount_val a \<le> wide_max"
  shows "\<exists>u. Post (bl_Totals b) FeeIncome Credit a = Inr u"
proof -
  obtain d c h where t: "tally_of (bl_Totals b) = (d, c, h)" by (metis prod_cases3)
  have ok: "totals_ok (bl_Totals b)" and sol: "solvent FeeIncome (d, c, h)" using assms(1) t by (simp_all add: balance_ok_def)
  have "\<exists>v. map_sum id tally_of (Post (bl_Totals b) FeeIncome Credit a) = Inr v"
    using assms(3) sol t amount_val_range [OF assms(2)]
    by (auto simp: Post_refines [OF ok assms(2)] spec_post_def settle_def known_purpose_def solvent_def
        spec_posted_def spec_available_def)
  then show ?thesis by (auto dest: map_sum_Inr)
qed

lemma usage_resolve_succeeds:
  assumes "usage_ok u" and "amount_ok a" and "amount_val a \<le> wide_val (uv_Reserved u)"
    and "wide_val (uv_Consumed u) + amount_val a \<le> wide_max"
  shows "\<exists>v. Usage_Resolve u a capture = Inr v"
proof -
  have "\<exists>v. map_sum id usage_of (Usage_Resolve u a capture) = Inr v"
    using assms(3,4) by (auto simp: Usage_Resolve_refines [OF assms(1,2)] spec_resolve_def usage_of_def)
  then show ?thesis by (auto dest: map_sum_Inr)
qed

lemma settle_entries_succeed:
  assumes "state_ok st" and "\<forall>(i, n, side)\<in>set es. \<exists>a b. st_Accounts st i = Some a \<and> st_Balances st i = Some b
    \<and> version_room (bl_Version b)
    \<and> (\<exists>f u. Totals_Release (bl_Totals b) n = Inr f \<and> Post f (ac_Purpose a) side n = Inr u)"
  shows "\<exists>q. settle_entries st True es p = Inr q"
  using assms(2)
proof (induction es arbitrary: p)
  case (Cons e es)
  obtain i n side where e: "e = (i, n, side)" by (cases e) auto
  obtain a b f u where "st_Accounts st i = Some a" "st_Balances st i = Some b" "version_room (bl_Version b)"
    "Totals_Release (bl_Totals b) n = Inr f" "Post f (ac_Purpose a) side n = Inr u"
    using Cons.prems by (auto simp: e)
  then show ?case using Cons.IH Cons.prems by (simp add: e version_room_next)
qed simp

lemma settled_journal:
  assumes "settleable st h claim u bs bp bf" and "hold_ok (st_Accounts st) h"
    and "Amount_Add (tm_Principal (hd_Terms h)) (tm_Fee (hd_Terms h)) = Inr tot"
  shows "\<exists>q. capture_journal E st h tot p = Inr q"
proof -
  have st: "state_ok st" using assms(1) by (simp add: settleable_def)
  obtain src pool fee where acc: "st_Accounts st (tm_SourceID (hd_Terms h)) = Some src"
    "ac_ID src = tm_SourceID (hd_Terms h)" "ac_Purpose src = Wallet" "ac_Owner src = hd_OwnerID h"
    "st_Accounts st (hd_PoolID h) = Some pool" "ac_ID pool = hd_PoolID h" "ac_Purpose pool = ProviderPool"
    "st_Accounts st (hd_FeeAccountID h) = Some fee" "ac_ID fee = hd_FeeAccountID h" "ac_Purpose fee = FeeIncome"
    using assms(2) st by (rule hold_ok_accounts)
  have am: "amount_ok (tm_Principal (hd_Terms h))" "amount_ok (tm_Fee (hd_Terms h))" "0 < amount_val (tm_Principal (hd_Terms h))"
    using assms(2) by (simp_all add: hold_ok_def terms_ok_def amount_pos_ok)
  note tot = amt.add_Inr [OF am(1,2) assms(3)]
  have valid: "is_ok (Account_Validate a) \<and> ac_Book a = bo_Book (st_Book st)" if "st_Accounts st i = Some a" for a i
    using assms(1) that by (auto simp: settleable_def)
  have ids: "tm_SourceID (hd_Terms h) \<noteq> hd_PoolID h" "tm_SourceID (hd_Terms h) \<noteq> hd_FeeAccountID h"
    "hd_PoolID h \<noteq> hd_FeeAccountID h" using acc by auto
  have "journal_valid (bo_Book (st_Book st)) (transfer_lines src pool fee tot (hd_Terms h))"
    using acc ids valid [OF acc(1)] valid [OF acc(5)] valid [OF acc(8)] am tot assms(1) amount_val_range [OF am(2)]
    by (auto simp: journal_valid_def transfer_lines_def line_ok_def settleable_def Amount_IsZero_val)
  then obtain j where j: "NewJournal (en_sha256 E) (bo_Book (st_Book st)) (transfer_lines src pool fee tot (hd_Terms h)) = Inr j"
    using NewJournal_complete by (metis is_ok_iff)
  have bf: "st_Balances st (hd_FeeAccountID h) = Some bf" "version_room (bl_Version bf)"
    "credits bf + amount_val (tm_Fee (hd_Terms h)) \<le> wide_max" using assms(1) by (simp_all add: settleable_def)
  then have "balance_ok FeeIncome bf" using acc(8,10) by (auto elim: state_ok_balance [OF st])
  then obtain t where "Post (bl_Totals bf) FeeIncome Credit (tm_Fee (hd_Terms h)) = Inr t"
    using fee_post_succeeds am(2) bf(3) by blast
  then have "\<exists>p'. capture_fee st fee (tm_Fee (hd_Terms h)) p = Inr p'"
    using acc bf by (simp add: capture_fee_def version_room_next)
  then show ?thesis using acc j by (auto simp: capture_journal_def Let_def)
qed

lemma resolve_money_succeeds:
  assumes "settleable st h claim u bs bp bf" and "hold_ok (st_Accounts st) h" and "cm_Kind cmd = CapturePayout"
  shows "\<exists>q. resolve_money E cmd st h p = Inr q"
proof -
  have st: "state_ok st" using assms(1) by (simp add: settleable_def)
  obtain src pool fee where acc: "st_Accounts st (tm_SourceID (hd_Terms h)) = Some src"
    "ac_ID src = tm_SourceID (hd_Terms h)" "ac_Purpose src = Wallet" "ac_Owner src = hd_OwnerID h"
    "st_Accounts st (hd_PoolID h) = Some pool" "ac_ID pool = hd_PoolID h" "ac_Purpose pool = ProviderPool"
    "st_Accounts st (hd_FeeAccountID h) = Some fee" "ac_ID fee = hd_FeeAccountID h" "ac_Purpose fee = FeeIncome"
    using assms(2) st by (rule hold_ok_accounts)
  obtain tot where tot: "Amount_Add (tm_Principal (hd_Terms h)) (tm_Fee (hd_Terms h)) = Inr tot" "amount_ok tot"
    "amount_val tot = hold_total h" "amount_ok (tm_Principal (hd_Terms h))" "amount_ok (tm_Fee (hd_Terms h))"
    using assms(2) by (rule hold_ok_total)
  have b: "st_Balances st (tm_SourceID (hd_Terms h)) = Some bs" "st_Balances st (hd_PoolID h) = Some bp"
    "version_room (bl_Version bs)" "version_room (bl_Version bp)" "hold_total h \<le> held bs"
    "amount_val (tm_Principal (hd_Terms h)) \<le> held bp" "debits bs + hold_total h \<le> wide_max"
    "credits bp + amount_val (tm_Principal (hd_Terms h)) \<le> wide_max"
    and u: "st_Usage st = Some u" "ug_OwnerID u = hd_OwnerID h" "ug_Bucket u = hd_Bucket h" "version_room (ug_Version u)"
      "amount_val (tm_Principal (hd_Terms h)) \<le> wide_val (uv_Reserved (ug_Values u))"
      "wide_val (uv_Consumed (ug_Values u)) + amount_val (tm_Principal (hd_Terms h)) \<le> wide_max"
    using assms(1) by (simp_all add: settleable_def)
  have bok: "balance_ok Wallet bs" "balance_ok ProviderPool bp"
    using b(1,2) acc by (auto elim: state_ok_balance [OF st])
  have "\<exists>f u. Totals_Release (bl_Totals bs) tot = Inr f \<and> Post f (ac_Purpose src) Debit tot = Inr u"
    using settle_entry_succeeds [OF bok(1) tot(2), of Debit] b acc tot by simp
  moreover have "\<exists>f u. Totals_Release (bl_Totals bp) (tm_Principal (hd_Terms h)) = Inr f
      \<and> Post f (ac_Purpose pool) Credit (tm_Principal (hd_Terms h)) = Inr u"
    using settle_entry_succeeds [OF bok(2) tot(4), of Credit] b acc by simp
  ultimately obtain p1 where p1: "settle_entries st True
      [(tm_SourceID (hd_Terms h), tot, Debit), (hd_PoolID h, tm_Principal (hd_Terms h), Credit)] p = Inr p1"
    using settle_entries_succeed [OF st, of "[(tm_SourceID (hd_Terms h), tot, Debit),
        (hd_PoolID h, tm_Principal (hd_Terms h), Credit)]" p] acc(1,5) b(1-4) by auto
  have "usage_ok (ug_Values u)" using st u(1) by (simp add: state_ok_def)
  then obtain v where "Usage_Resolve (ug_Values u) (tm_Principal (hd_Terms h)) True = Inr v"
    using usage_resolve_succeeds tot(4) u(5,6) by blast
  then obtain p2 where p2: "settle_usage st h True p1 = Inr p2"
    using u by (auto simp: settle_usage_def next_usage_def version_room_next)
  show ?thesis
    using p1 p2 tot(1) assms(3) settled_journal [OF assms(1,2) tot(1)]
    by (simp add: resolve_money_def Let_def del: settle_entries.simps)
qed

text \<open>
  C4. A proven payout can always be settled: for an exposed hold that the books agree with, a capture
  command with the current version and verified evidence of success is applied, whether or not
  the wallet or the pool has been frozen or the grant revoked or expired since the exposure.
\<close>

theorem proven_payout_settles:
  assumes "settleable st h claim u bs bp bf" and "hs_State (hd_State h) = Exposed"
    and "cm_Kind cmd = CapturePayout" and "cm_Capture cmd = Some x" and "AllowsSubject c (hd_OwnerID h)"
    and "rf_PaymentID (cp_Ref x) = tm_PaymentID (hd_Terms h)" and "rf_AttemptID (cp_Ref x) = hd_AttemptID h"
    and "rf_ExpectedVersion (cp_Ref x) = hs_Version (hd_State h)"
    and "trust_evidence E t (cm_BookID cmd) h (cp_Evidence x) now"
    and "ev_FinalState (se_Claims (cp_Evidence x)) = ''FINAL_SUCCESS''"
  shows "\<exists>q. evaluate E t c cmd st now p = applied q"
proof -
  have st: "st_Hold st = Some h" "st_Claim st = Some claim" "cc_HoldID claim = hd_ID h"
    "hold_ok (st_Accounts st) h" "version_room (hs_Version (hd_State h))"
    using assms(1) by (auto simp: settleable_def state_ok_def)
  have "Hold_Capture (hd_State h) (rf_ExpectedVersion (cp_Ref x)) True =
      Inr ((hd_State h)\<lparr>hs_State := Captured, hs_Version := hs_Version (hd_State h) + 1\<rparr>)"
    using assms(2,8) st(5) by (simp add: Hold_Capture_def version_room_next)
  then show ?thesis
    using assms st resolve_money_succeeds [OF assms(1) st(4) assms(3)]
    by (simp add: evaluate_def resolve_def resolve_ref_def resolve_state_def resolve_capture_def deref_def Let_def)
qed

lemma x_accounts_valid:
  "map_of x_accounts i = Some a \<Longrightarrow> is_ok (Account_Validate a) \<and> ac_Book a = x_dbook"
proof -
  assume "map_of x_accounts i = Some a"
  then have "a \<in> snd ` set x_accounts" by (force dest: map_of_SomeD)
  moreover have "list_all (\<lambda>(i, a). is_ok (Account_Validate a) \<and> ac_Book a = x_dbook) x_accounts" by code_simp
  ultimately show ?thesis by (auto simp: list_all_iff)
qed

theorem proven_payout_settles_witness:
  "\<exists>q u. st_Usage x_held_state = Some u \<and> settleable x_held_state x_hold x_claim u
      (x_balance x_wallet_a [] ''1000'' ''105'') (x_balance x_pool ''1000'' [] ''100'') (x_balance x_fees [] [] [])
    \<and> x_evaluate x_capture x_held_state = applied q"
proof -
  let ?bs = "x_balance x_wallet_a [] ''1000'' ''105''" and ?bp = "x_balance x_pool ''1000'' [] ''100''"
    and ?bf = "x_balance x_fees [] [] []"
  define u where "u = \<lparr>ug_OwnerID = x_alice, ug_Bucket = ''1970-01-01'',
       ug_Values = \<lparr>uv_Reserved = Wide ''100'', uv_Consumed = Wide []\<rparr>, ug_Version = 1\<rparr>"
  let ?x = "\<lparr>cp_Ref = x_ref 2, cp_Evidence = x_evidence ''FINAL_SUCCESS''\<rparr>"
  have us: "st_Usage x_held_state = Some u" by (simp add: x_held_state_def u_def)
  have book: "is_ok (Book_Validate x_dbook)" by code_simp
  have load: "bo_Book (st_Book x_held_state) = x_dbook" "st_Accounts x_held_state = map_of x_accounts"
    "st_Hold x_held_state = Some x_hold" "st_Claim x_held_state = Some x_claim"
    by (simp_all add: x_held_state_def x_state_def x_book_def)
  have hold: "cc_HoldID x_claim = hd_ID x_hold" "hd_OwnerID x_hold = x_alice" "hd_Bucket x_hold = ''1970-01-01''"
    "tm_SourceID (hd_Terms x_hold) = x_wallet_a" "hd_PoolID x_hold = x_pool" "hd_FeeAccountID x_hold = x_fees"
    "amount_val (tm_Principal (hd_Terms x_hold)) = 100" "amount_val (tm_Fee (hd_Terms x_hold)) = 5"
    "hs_Version (hd_State x_hold) = 2" "hs_State (hd_State x_hold) = Exposed"
    by (simp_all add: x_claim_def x_hold_def new_hold_def x_account_def x_terms_def x_policy_def x_reserve_body_def amount_val_def)
  have num: "tally_of (bl_Totals ?bs) = (0, 1000, 105)" "tally_of (bl_Totals ?bp) = (1000, 0, 100)"
    "tally_of (bl_Totals ?bf) = (0, 0, 0)" "wide_val (Wide ''100'') = 100" "wide_val (Wide []) = 0"
    "version_room 1" "version_room 2" "version_room 4" by code_simp+
  have bal: "st_Balances x_held_state x_wallet_a = Some ?bs" "st_Balances x_held_state x_pool = Some ?bp"
    "st_Balances x_held_state x_fees = Some ?bf" "bl_Version ?bs = 4" "bl_Version ?bp = 4" "bl_Version ?bf = 4"
    by (simp_all add: x_held_state_def x_balances_def x_balance_def)
  have s: "settleable x_held_state x_hold x_claim u ?bs ?bp ?bf"
    unfolding settleable_def
    using x_held_state_ok book load hold num bal us x_accounts_valid
    by (simp add: hold_total_def wide_max_def u_def)
  have ev: "trust_evidence x_env x_trust (cm_BookID x_capture) x_hold (cp_Evidence ?x) (x_time 2000)" by code_simp
  have cmd: "cm_Kind x_capture = CapturePayout" "cm_Capture x_capture = Some ?x"
    "AllowsSubject x_caller (hd_OwnerID x_hold)" "rf_PaymentID (cp_Ref ?x) = tm_PaymentID (hd_Terms x_hold)"
    "rf_AttemptID (cp_Ref ?x) = hd_AttemptID x_hold" "rf_ExpectedVersion (cp_Ref ?x) = hs_Version (hd_State x_hold)"
    "ev_FinalState (se_Claims (cp_Evidence ?x)) = ''FINAL_SUCCESS''"
    by (simp_all add: x_capture_def x_command_def x_caller_def AllowsSubject_def x_ref_def x_hold_def new_hold_def
        x_terms_def x_reserve_body_def x_evidence_def)
  from proven_payout_settles [OF s hold(10) cmd(1-6) ev cmd(7)] s us show ?thesis by blast
qed

end
