(* ===== verification/Service.thy ===== *)
theory Service
  imports Payments
begin

text \<open>
  \<open>Service\<close> in \<open>application/service.go\<close>: the idempotent execution of a command inside a transaction, and
  the read operations. A transaction is the record of its three operations on a database state;
  the locale \<open>receipt_store\<close> states what the service relies on of them.
\<close>

section \<open>Transactions\<close>

record 'db transaction =
  tx_Operation :: "'db \<Rightarrow> ID \<Rightarrow> ID \<Rightarrow> operation option result"
  tx_Load :: "'db \<Rightarrow> command \<Rightarrow> time \<Rightarrow> state result"
  tx_Save :: "'db \<Rightarrow> plan \<Rightarrow> 'db result"

text \<open>
  The body of a transaction takes the clock reading of the attempt; \<open>Transact\<close> of the store runs it
  against the database and commits or rolls back.
\<close>

type_synonym 'db body = "time \<Rightarrow> 'db \<Rightarrow> (receipt \<times> 'db) result"
type_synonym 'db transactor = "'db body \<Rightarrow> 'db \<Rightarrow> receipt result \<times> 'db"

definition receiptAccess :: "caller \<Rightarrow> receipt \<Rightarrow> bool" where
  "receiptAccess c r = list_all (AllowsSubject c) (rc_SubjectIDs r)"

definition versionString :: "int64 \<Rightarrow> string" where
  "versionString v = format_int64 v"

section \<open>From a verdict to the plan that is saved\<close>

text \<open>
  The control versions of a receipt are keyed by the text of the control key. The kinds of loaded
  controls have no colon, so the text determines the key.
\<close>

definition split_key :: "string \<Rightarrow> control_key" where
  "split_key s = Key (takeWhile (\<lambda>c. c \<noteq> CHR '':'') s) (tl (dropWhile (\<lambda>c. c \<noteq> CHR '':'') s))"

definition control_versions :: "(control_key \<rightharpoonup> control) \<Rightarrow> string \<rightharpoonup> string" where
  "control_versions m s =
     (if ControlKey_String (split_key s) = s
      then map_option (\<lambda>c. versionString (ct_Version c)) (m (split_key s)) else None)"

definition base_receipt ::
  "env \<Rightarrow> caller \<Rightarrow> command \<Rightarrow> string \<Rightarrow> state \<Rightarrow> time \<Rightarrow> ID \<Rightarrow> ID \<Rightarrow> ID \<Rightarrow> receipt" where
  "base_receipt E c cmd canonical st now eventID payment holdID =
     \<lparr>rc_CallerIdentity = cl_Identity c, rc_SchemaVersion = ''1'', rc_BookID = cm_BookID cmd,
      rc_OperationID = cm_OperationID cmd, rc_Kind = cm_Kind cmd, rc_RequestHash = hash E canonical,
      rc_Outcome = ''APPLIED'', rc_Reason = [], rc_PaymentID = payment, rc_SubjectIDs = [], rc_JournalID = [],
      rc_HoldID = holdID, rc_HoldVersion = 0, rc_ControlVersions = control_versions (st_Controls st),
      rc_AccountVersions = Map.empty, rc_PolicyID = [], rc_EvidenceID = [], rc_LimitChange = None,
      rc_RecordedAt = now, rc_EventID = eventID\<rparr>"

definition new_plan :: "command \<Rightarrow> string \<Rightarrow> receipt \<Rightarrow> plan" where
  "new_plan cmd canonical r =
     \<lparr>pl_Command = cmd, pl_Canonical = canonical, pl_Receipt = r, pl_NewAccount = None, pl_Journal = None,
      pl_Balances = [], pl_Controls = [], pl_Hold = None, pl_Usage = None, pl_Claim = None, pl_Evidence = None\<rparr>"

text \<open>A rejection keeps nothing of the plan but the verified evidence and the subjects.\<close>

definition rejection_plan :: "command \<Rightarrow> string \<Rightarrow> receipt \<Rightarrow> string \<Rightarrow> plan \<Rightarrow> plan" where
  "rejection_plan cmd canonical base reason p =
     (new_plan cmd canonical (base\<lparr>rc_Outcome := ''REJECTED'', rc_Reason := reason,
        rc_SubjectIDs := rc_SubjectIDs (pl_Receipt p)\<rparr>))\<lparr>pl_Evidence := pl_Evidence p\<rparr>"

definition add_claim :: "env \<Rightarrow> command \<Rightarrow> string \<Rightarrow> state \<Rightarrow> ID \<Rightarrow> plan \<Rightarrow> plan result" where
  "add_claim E cmd canonical st payment p =
     (if (cm_Kind cmd = TransferInternal \<or> cm_Kind cmd = ReservePayout) \<and> st_Claim st = None then
        let outcome = rc_Outcome (pl_Receipt p);
            claim = \<lparr>cc_PaymentID = payment, cc_AdmissionOperationID = cm_OperationID cmd,
              cc_AdmissionOutcome = outcome, cc_MaterialHash = hash E canonical, cc_State = outcome,
              cc_HoldID = [], cc_ResultOperationID = cm_OperationID cmd\<rparr>
        in res_bind
             (if outcome = ''APPLIED'' \<and> cm_Kind cmd = ReservePayout
              then res_bind (deref (cm_Reserve cmd) rs_HoldID) (\<lambda>h.
                     Inr (claim\<lparr>cc_State := Reserved, cc_HoldID := h\<rparr>))
              else Inr claim)
             (\<lambda>c. Inr (p\<lparr>pl_Claim := Some \<lparr>ch_Before = None, ch_After = c\<rparr>\<rparr>))
      else Inr p)"

definition complete_receipt :: "ID \<Rightarrow> state \<Rightarrow> plan \<Rightarrow> receipt" where
  "complete_receipt journalID st p =
     (let r = pl_Receipt p
      in r\<lparr>rc_JournalID := (if pl_Journal p \<noteq> None then journalID else rc_JournalID r),
           rc_AccountVersions := foldl (\<lambda>m b. m(bl_AccountID (ch_After b) \<mapsto> versionString (bl_Version (ch_After b))))
             (rc_AccountVersions r) (pl_Balances p),
           rc_ControlVersions := foldl (\<lambda>m c. m(ControlKey_String (ct_Key (ch_After c)) \<mapsto> versionString (ct_Version (ch_After c))))
             (rc_ControlVersions r) (pl_Controls p),
           rc_HoldVersion := (case pl_Hold p of None \<Rightarrow> rc_HoldVersion r | Some h \<Rightarrow> hs_Version (hd_State (ch_After h))),
           rc_LimitChange := pl_Usage p,
           rc_PolicyID := (case st_Policy st of Some policy \<Rightarrow> po_ID policy
             | None \<Rightarrow> (case st_Hold st of Some h \<Rightarrow> tm_PolicyID (hd_Terms h) | None \<Rightarrow> rc_PolicyID r)),
           rc_EvidenceID := (case pl_Evidence p of None \<Rightarrow> rc_EvidenceID r | Some e \<Rightarrow> ev_ID e),
           rc_SubjectIDs := sort (rc_SubjectIDs r)\<rparr>)"

text \<open>The plan a command leads to on a loaded state, ready to be saved.\<close>

definition execute_plan ::
  "env \<Rightarrow> trust \<Rightarrow> caller \<Rightarrow> command \<Rightarrow> string \<Rightarrow> ID \<Rightarrow> ID \<Rightarrow> time \<Rightarrow> state \<Rightarrow> plan result" where
  "execute_plan E t c cmd canonical journalID eventID now st =
     (if \<not> bo_Synthetic (st_Book st) \<or> \<not> is_ok (Book_Validate (bo_Book (st_Book st))) then Inl ErrInvalid
      else res_bind (PaymentID cmd) (\<lambda>payment. res_bind (HoldID cmd) (\<lambda>holdID.
        let base = base_receipt E c cmd canonical st now eventID payment holdID
        in res_bind (evaluate E t c cmd st now (new_plan cmd canonical base)) (\<lambda>(reason, p).
             res_bind (add_claim E cmd canonical st payment
                 (if reason \<noteq> [] then rejection_plan cmd canonical base reason p else p)) (\<lambda>q.
               Inr (q\<lparr>pl_Receipt := complete_receipt journalID st q\<rparr>))))))"

section \<open>Execution\<close>

definition execute_tx ::
  "'db transaction \<Rightarrow> env \<Rightarrow> trust \<Rightarrow> caller \<Rightarrow> command \<Rightarrow> string \<Rightarrow> ID \<Rightarrow> ID \<Rightarrow> 'db body" where
  "execute_tx tx E t c cmd canonical journalID eventID clock db =
     res_bind (tx_Operation tx db (cm_BookID cmd) (cm_OperationID cmd)) (\<lambda>existing.
       case existing of
         Some op \<Rightarrow>
           if \<not> receiptAccess c (op_Receipt op) then Inl ErrPermission
           else if op_Canonical op \<noteq> canonical then Inl ErrConflict
           else Inr (op_Receipt op, db)
       | None \<Rightarrow>
           (let now = Time_UTC clock
            in res_bind (tx_Load tx db cmd now) (\<lambda>st.
               res_bind (execute_plan E t c cmd canonical journalID eventID now st) (\<lambda>p.
               res_bind (tx_Save tx db p) (\<lambda>db'. Inr (pl_Receipt p, db'))))))"

text \<open>The random bytes of the journal and the event identity are arguments.\<close>

definition Execute ::
  "'db transaction \<Rightarrow> 'db transactor \<Rightarrow> env \<Rightarrow> trust \<Rightarrow> bytes \<Rightarrow> bytes \<Rightarrow> caller \<Rightarrow> command \<Rightarrow> 'db \<Rightarrow> receipt result \<times> 'db" where
  "Execute tx transact E t journal_bytes event_bytes c cmd db =
     (case Command_Validate cmd of
        Inl e \<Rightarrow> (Inl e, db)
      | Inr _ \<Rightarrow>
          if \<not> Allows c (cm_BookID cmd) (Permission cmd) then (Inl ErrPermission, db)
          else (case Material E cmd of
                  Inl e \<Rightarrow> (Inl e, db)
                | Inr canonical \<Rightarrow>
                    transact (execute_tx tx E t c cmd canonical (NewID journal_bytes) (NewID event_bytes)) db))"

section \<open>Reads\<close>

definition GetOperation ::
  "('db \<Rightarrow> ID \<Rightarrow> ID \<Rightarrow> operation option result) \<Rightarrow> caller \<Rightarrow> ID \<Rightarrow> ID \<Rightarrow> 'db \<Rightarrow> receipt result" where
  "GetOperation store_Operation c book i db =
     (if \<not> ID_Valid book \<or> \<not> ID_Valid i then Inl ErrInvalid
      else if \<not> Allows c book ''read'' then Inl ErrPermission
      else res_bind (store_Operation db book i) (\<lambda>op.
        case op of None \<Rightarrow> Inl ErrNotFound
        | Some x \<Rightarrow> if \<not> receiptAccess c (op_Receipt x) then Inl ErrPermission else Inr (op_Receipt x)))"

definition GetBalance ::
  "('db \<Rightarrow> ID \<Rightarrow> ID \<Rightarrow> (account \<times> balance) result) \<Rightarrow> caller \<Rightarrow> ID \<Rightarrow> ID \<Rightarrow> 'db \<Rightarrow> (account \<times> balance) result" where
  "GetBalance store_Balance c book i db =
     (if \<not> ID_Valid book \<or> \<not> ID_Valid i then Inl ErrInvalid
      else if \<not> Allows c book ''read'' then Inl ErrPermission
      else res_bind (store_Balance db book i) (\<lambda>(a, b).
        if \<not> AllowsSubject c (ac_Owner a) then Inl ErrPermission else Inr (a, b)))"

definition Export :: "('db \<Rightarrow> ID \<Rightarrow> 'snapshot result) \<Rightarrow> caller \<Rightarrow> ID \<Rightarrow> 'db \<Rightarrow> 'snapshot result" where
  "Export store_Snapshot c book db =
     (if \<not> ID_Valid book then Inl ErrInvalid
      else if \<not> Allows c book ''verify'' \<or> length (cl_Subjects c) > 0 then Inl ErrPermission
      else store_Snapshot db book)"

section \<open>Evaluation leaves the identity of the receipt alone\<close>

definition keeps_identity :: "plan \<Rightarrow> plan \<Rightarrow> bool" where
  "keeps_identity p q = (pl_Canonical q = pl_Canonical p \<and> pl_Command q = pl_Command p
     \<and> (\<exists>ids. pl_Receipt q = (pl_Receipt p)\<lparr>rc_SubjectIDs := ids\<rparr>))"

lemma keeps_identity_refl [simp]: "keeps_identity p p"
  by (simp add: keeps_identity_def) (metis receipt.surjective receipt.update_convs(10))

lemma keeps_identity_trans: "keeps_identity p q \<Longrightarrow> keeps_identity q r \<Longrightarrow> keeps_identity p r"
  by (auto simp: keeps_identity_def)

lemma keeps_identity_subjects: "keeps_identity (with_subjects p ids) q \<Longrightarrow> keeps_identity p q"
  by (auto simp: keeps_identity_def with_subjects_def)

lemma keeps_identity_with_subjects [simp]: "keeps_identity p (with_subjects p ids)"
  by (auto simp: keeps_identity_def with_subjects_def)

lemma keeps_identity_upd [simp]:
  "keeps_identity (p\<lparr>pl_Balances := bs\<rparr>) q = keeps_identity p q" "keeps_identity (p\<lparr>pl_Journal := j\<rparr>) q = keeps_identity p q"
  "keeps_identity (p\<lparr>pl_Usage := u\<rparr>) q = keeps_identity p q" "keeps_identity (p\<lparr>pl_Hold := h\<rparr>) q = keeps_identity p q"
  "keeps_identity (p\<lparr>pl_Claim := c\<rparr>) q = keeps_identity p q" "keeps_identity (p\<lparr>pl_Evidence := e\<rparr>) q = keeps_identity p q"
  "keeps_identity p (q\<lparr>pl_Journal := j\<rparr>) = keeps_identity p q" "keeps_identity p (q\<lparr>pl_Usage := u\<rparr>) = keeps_identity p q"
  "keeps_identity p (q\<lparr>pl_Hold := h\<rparr>) = keeps_identity p q" "keeps_identity p (q\<lparr>pl_Balances := bs\<rparr>) = keeps_identity p q"
  "keeps_identity p (q\<lparr>pl_Controls := cs\<rparr>) = keeps_identity p q"
  "keeps_identity p (q\<lparr>pl_NewAccount := a\<rparr>) = keeps_identity p q"
  by (simp_all add: keeps_identity_def)

lemma post_lines_identity: "post_lines st ls p = applied q \<Longrightarrow> keeps_identity p q"
  by (induction ls arbitrary: p) (fastforce split: option.split_asm sum.split_asm)+

lemma reserve_entries_identity: "reserve_entries st es p = applied q \<Longrightarrow> keeps_identity p q"
  by (induction st es p rule: reserve_entries.induct) (auto split: option.split_asm sum.split_asm if_split_asm)

lemma settle_entries_identity: "settle_entries st capture es p = Inr q \<Longrightarrow> keeps_identity p q"
  by (induction st capture es p rule: settle_entries.induct) (auto split: option.split_asm sum.split_asm)

lemma capture_journal_identity:
  assumes "capture_journal E st h tot p = Inr q"
  shows "keeps_identity p q"
proof -
  obtain f p' j where f: "capture_fee st f (tm_Fee (hd_Terms h)) p = Inr p'" and q: "q = p'\<lparr>pl_Journal := Some j\<rparr>"
    using assms by (auto simp: capture_journal_def Let_def case_error_eq_Inr)
  have "keeps_identity p p'"
    using f by (auto simp: capture_fee_def split: if_split_asm option.split_asm sum.split_asm)
  then show ?thesis using q by simp
qed

lemma resolve_money_identity:
  assumes "resolve_money E cmd st h p = Inr q"
  shows "keeps_identity p q"
proof -
  obtain tot es p1 p2 where p1: "settle_entries st (cm_Kind cmd = CapturePayout) es p = Inr p1"
    and p2: "settle_usage st h (cm_Kind cmd = CapturePayout) p1 = Inr p2"
    and q: "(if cm_Kind cmd = CapturePayout then capture_journal E st h tot p2 else Inr p2) = Inr q"
    using assms by (rule resolve_money_Inr)
  obtain u where "p2 = p1\<lparr>pl_Usage := u\<rparr>" using p2 by (rule settle_usage_Inr)
  then show ?thesis
    using settle_entries_identity [OF p1] q
    by (cases "cm_Kind cmd = CapturePayout") (auto dest!: capture_journal_identity intro: keeps_identity_trans)
qed

lemma evaluate_identity:
  assumes "evaluate E t c cmd st now p = applied q" and "fresh_plan p"
  shows "keeps_identity p q"
proof -
  consider "create c cmd st p = applied q" | "setControl c cmd st p = applied q"
    | "admit E t c cmd st now p = applied q" | "resolve E t c cmd st now p = applied q"
    using assms(1) by (auto simp: evaluate_def split: if_split_asm)
  then show ?thesis
  proof cases
    case 1
    then show ?thesis by (rule create_applied) (simp del: missing_controls.simps)
  next
    case 2
    then show ?thesis by (rule setControl_applied) simp
  next
    case 3
    obtain terms a sub policy where "admit_funds E cmd st now terms a sub policy (with_subjects p [ac_Owner a]) = applied q"
      using 3 by (rule admit_applied)
    then have "keeps_identity (with_subjects p [ac_Owner a]) q"
    proof (cases rule: admit_funds_applied)
      case (transfer feeAccount tot uv n)
      then show ?thesis by (auto elim!: admit_transfer_applied dest!: post_lines_identity)
    next
      case (reserve feeAccount tot uv n r)
      from reserve(4) show ?thesis
        by (rule admit_reserve_applied) (simp del: reserve_entries.simps, drule reserve_entries_identity, simp)
    qed
    then show ?thesis by (rule keeps_identity_subjects)
  next
    case 4
    have ev: "pl_Evidence p = None" using assms(2) by (simp add: fresh_plan_def)
    obtain h claim s ev p1 where p1: "p1 = (with_subjects p [hd_OwnerID h])\<lparr>pl_Evidence := ev,
         pl_Hold := Some \<lparr>ch_Before = Some h, ch_After = h\<lparr>hd_State := s\<rparr>\<rparr>,
         pl_Claim := Some \<lparr>ch_Before = Some claim, ch_After = resolve_claim cmd claim (h\<lparr>hd_State := s\<rparr>)\<rparr>\<rparr>"
      and rest: "(if cm_Kind cmd = MarkHoldExposed then Inr p1 else resolve_money E cmd st h p1) = Inr q"
      using 4 ev by (rule resolve_applied)
    have "keeps_identity p1 q" using rest by (auto split: if_split_asm dest: resolve_money_identity)
    then show ?thesis using p1 by (simp add: keeps_identity_subjects)
  qed
qed

lemma new_plan_fresh [simp]: "fresh_plan (new_plan cmd canonical r)"
  by (simp add: fresh_plan_def new_plan_def)

text \<open>The cases of \<open>execute_plan\<close>: an applied plan or a rejection, with the claim and the completed receipt.\<close>

lemma execute_plan_cases:
  assumes "execute_plan E t c cmd canonical j e now st = Inr p"
  obtains payment holdID reason q q' base where "PaymentID cmd = Inr payment" "HoldID cmd = Inr holdID"
    "base = base_receipt E c cmd canonical st now e payment holdID"
    "bo_Synthetic (st_Book st)" "is_ok (Book_Validate (bo_Book (st_Book st)))"
    "evaluate E t c cmd st now (new_plan cmd canonical base) = Inr (reason, q)"
    "add_claim E cmd canonical st payment (if reason \<noteq> [] then rejection_plan cmd canonical base reason q else q) = Inr q'"
    "p = q'\<lparr>pl_Receipt := complete_receipt j st q'\<rparr>"
  using assms unfolding execute_plan_def Let_def by (auto split: if_split_asm)

lemma add_claim_Inr:
  assumes "add_claim E cmd canonical st payment p = Inr q"
  obtains cl where "q = p\<lparr>pl_Claim := cl\<rparr>"
proof -
  have "q = p\<lparr>pl_Claim := pl_Claim q\<rparr>"
    using assms by (auto simp: add_claim_def Let_def split: if_split_asm)
  then show thesis by (rule that)
qed

lemma execute_plan_identity:
  assumes "execute_plan E t c cmd canonical j e now st = Inr p"
  shows "rc_BookID (pl_Receipt p) = cm_BookID cmd" and "rc_OperationID (pl_Receipt p) = cm_OperationID cmd"
    and "pl_Canonical p = canonical" and "pl_Command p = cmd" and "rc_EventID (pl_Receipt p) = e"
proof -
  obtain payment holdID reason q q' base where base: "base = base_receipt E c cmd canonical st now e payment holdID"
    and ev: "evaluate E t c cmd st now (new_plan cmd canonical base) = Inr (reason, q)"
    and cl: "add_claim E cmd canonical st payment (if reason \<noteq> [] then rejection_plan cmd canonical base reason q else q) = Inr q'"
    and p: "p = q'\<lparr>pl_Receipt := complete_receipt j st q'\<rparr>"
    using assms by (rule execute_plan_cases)
  let ?r = "if reason \<noteq> [] then rejection_plan cmd canonical base reason q else q"
  have "rc_BookID (pl_Receipt ?r) = cm_BookID cmd \<and> rc_OperationID (pl_Receipt ?r) = cm_OperationID cmd
    \<and> rc_EventID (pl_Receipt ?r) = e \<and> pl_Canonical ?r = canonical \<and> pl_Command ?r = cmd"
  proof (cases "reason = []")
    case True
    then have k: "keeps_identity (new_plan cmd canonical base) q" using ev by (intro evaluate_identity) simp_all
    then obtain ids where "pl_Receipt q = base\<lparr>rc_SubjectIDs := ids\<rparr>"
      by (auto simp: keeps_identity_def new_plan_def)
    then show ?thesis using True k by (simp add: base base_receipt_def keeps_identity_def new_plan_def)
  qed (simp add: base base_receipt_def rejection_plan_def new_plan_def)
  moreover obtain x where "q' = ?r\<lparr>pl_Claim := x\<rparr>" using cl by (rule add_claim_Inr)
  ultimately show "rc_BookID (pl_Receipt p) = cm_BookID cmd" and "rc_OperationID (pl_Receipt p) = cm_OperationID cmd"
    and "pl_Canonical p = canonical" and "pl_Command p = cmd" and "rc_EventID (pl_Receipt p) = e"
    by (simp_all add: p complete_receipt_def Let_def)
qed

section \<open>What the service relies on\<close>

text \<open>
  A saved plan is found under its operation identity with its canonical text and receipt, a save
  succeeds only for an identity that was free, and it leaves every other operation as it was.
\<close>

locale receipt_store =
  fixes tx :: "'db transaction"
  assumes save_recorded: "tx_Save tx db p = Inr db' \<Longrightarrow>
      tx_Operation tx db' (rc_BookID (pl_Receipt p)) (rc_OperationID (pl_Receipt p)) =
        Inr (Some \<lparr>op_Canonical = pl_Canonical p, op_Receipt = pl_Receipt p\<rparr>)"
    and save_fresh: "tx_Save tx db p = Inr db' \<Longrightarrow>
      tx_Operation tx db (rc_BookID (pl_Receipt p)) (rc_OperationID (pl_Receipt p)) = Inr None"
    and save_other: "tx_Save tx db p = Inr db' \<Longrightarrow>
      (b, i) \<noteq> (rc_BookID (pl_Receipt p), rc_OperationID (pl_Receipt p)) \<Longrightarrow>
      tx_Operation tx db' b i = tx_Operation tx db b i"
begin

lemma execute_cases:
  assumes "execute_tx tx E t c cmd canonical j e now db = Inr (r, db')"
  obtains (replay) op where "tx_Operation tx db (cm_BookID cmd) (cm_OperationID cmd) = Inr (Some op)"
      "db' = db" "r = op_Receipt op" "op_Canonical op = canonical" "receiptAccess c r"
  | (fresh) st p where "tx_Operation tx db (cm_BookID cmd) (cm_OperationID cmd) = Inr None"
      "tx_Load tx db cmd (Time_UTC now) = Inr st"
      "execute_plan E t c cmd canonical j e (Time_UTC now) st = Inr p" "tx_Save tx db p = Inr db'" "r = pl_Receipt p"
proof -
  obtain existing where ex: "tx_Operation tx db (cm_BookID cmd) (cm_OperationID cmd) = Inr existing"
    using assms by (auto simp: execute_tx_def)
  show thesis
  proof (cases existing)
    case None
    then show thesis using assms ex by (auto simp: execute_tx_def Let_def intro: fresh)
  next
    case (Some op)
    then show thesis using assms ex by (auto simp: execute_tx_def intro: replay split: if_split_asm)
  qed
qed

text \<open>An executed command is recorded under its identity, with the receipt it returned.\<close>

lemma execute_records:
  assumes "execute_tx tx E t c cmd canonical j e now db = Inr (r, db')"
  shows "tx_Operation tx db' (cm_BookID cmd) (cm_OperationID cmd) =
    Inr (Some \<lparr>op_Canonical = canonical, op_Receipt = r\<rparr>)"
  using assms
proof (cases rule: execute_cases)
  case (replay op)
  then show ?thesis by simp
next
  case (fresh st p)
  then show ?thesis using save_recorded [OF fresh(4)] execute_plan_identity [OF fresh(3)] by simp
qed

text \<open>What is recorded stays recorded, whatever is executed afterwards.\<close>

lemma execute_keeps:
  assumes "execute_tx tx E t c cmd canonical j e now db = Inr (r, db')" and "tx_Operation tx db b i = Inr (Some op)"
  shows "tx_Operation tx db' b i = Inr (Some op)"
  using assms(1)
proof (cases rule: execute_cases)
  case (replay op')
  then show ?thesis using assms(2) by simp
next
  case (fresh st p)
  have "(b, i) \<noteq> (rc_BookID (pl_Receipt p), rc_OperationID (pl_Receipt p))"
    using save_fresh [OF fresh(4)] assms(2) by auto
  then show ?thesis using save_other [OF fresh(4)] assms(2) by simp
qed

lemma execute_replays:
  assumes "tx_Operation tx db (cm_BookID cmd) (cm_OperationID cmd) = Inr (Some op)" and "receiptAccess c (op_Receipt op)"
  shows "execute_tx tx E t c cmd canonical j e now db =
    (if op_Canonical op = canonical then Inr (op_Receipt op, db) else Inl ErrConflict)"
  using assms by (simp add: execute_tx_def)

end

end
