(* ===== verification/Tables.thy ===== *)
theory Tables
  imports Service "HOL-Library.AList"
begin

text \<open>
  SQL tables as association lists from primary key to row, with the statements the store uses:
  INSERT with its constraints, and UPDATE of the row with a key under a WHERE condition. The
  errors are the SQLSTATE codes; \<open>write\<close> of \<open>save.go\<close> turns an UPDATE of no row into 40001.
\<close>

type_synonym ('k, 'v) table = "('k \<times> 'v) list"

abbreviation unique_violation :: error where "unique_violation \<equiv> PgError ''23505''"
abbreviation check_violation :: error where "check_violation \<equiv> PgError ''23514''"
abbreviation foreign_key_violation :: error where "foreign_key_violation \<equiv> PgError ''23503''"
abbreviation serialization_failure :: error where "serialization_failure \<equiv> PgError ''40001''"
abbreviation invalid_text :: error where "invalid_text \<equiv> PgError ''22P02''"

definition insert_row ::
  "bool \<Rightarrow> bool \<Rightarrow> bool \<Rightarrow> 'k \<Rightarrow> 'v \<Rightarrow> ('k, 'v) table \<Rightarrow> ('k, 'v) table result" where
  "insert_row checks unique references k v t =
     (if \<not> checks then Inl check_violation
      else if map_of t k \<noteq> None \<or> \<not> unique then Inl unique_violation
      else if \<not> references then Inl foreign_key_violation
      else Inr (AList.update k v t))"

definition update_row ::
  "('v \<Rightarrow> bool) \<Rightarrow> ('v \<Rightarrow> bool) \<Rightarrow> 'k \<Rightarrow> ('v \<Rightarrow> 'v) \<Rightarrow> ('k, 'v) table \<Rightarrow> ('k, 'v) table result" where
  "update_row matches checks k f t =
     (case map_of t k of
        None \<Rightarrow> Inl serialization_failure
      | Some v \<Rightarrow>
          if \<not> matches v then Inl serialization_failure
          else if \<not> checks (f v) then Inl check_violation
          else Inr (AList.update k (f v) t))"

text \<open>A decimal column: \<open>$n::DECIMAL\<close> of a text, and \<open>::STRING\<close> of the column.\<close>

definition sql_decimal :: "string \<Rightarrow> int result" where
  "sql_decimal s = (case parse_int s of None \<Rightarrow> Inl invalid_text | Some n \<Rightarrow> Inr n)"

definition sql_string :: "int \<Rightarrow> string" where
  "sql_string n = format_int n"

section \<open>Facts\<close>

definition table_ok :: "('k, 'v) table \<Rightarrow> bool" where
  "table_ok t = distinct (map fst t)"

definition table_sum :: "('k \<Rightarrow> 'v \<Rightarrow> int) \<Rightarrow> ('k, 'v) table \<Rightarrow> int" where
  "table_sum g t = (\<Sum>(k, v)\<leftarrow>t. g k v)"

lemma insert_row_Inr:
  "insert_row checks unique references k v t = Inr u \<longleftrightarrow>
     checks \<and> map_of t k = None \<and> unique \<and> references \<and> u = AList.update k v t"
  by (auto simp: insert_row_def)

lemma update_row_Inr:
  "update_row matches checks k f t = Inr u \<longleftrightarrow>
     (\<exists>v. map_of t k = Some v \<and> matches v \<and> checks (f v) \<and> u = AList.update k (f v) t)"
  by (auto simp: update_row_def split: option.split)

lemma table_ok_Nil [simp]: "table_ok []"
  by (simp add: table_ok_def)

lemma table_ok_update [simp]: "table_ok t \<Longrightarrow> table_ok (AList.update k v t)"
  by (simp add: table_ok_def distinct_update)

lemma table_sum_Nil [simp]: "table_sum g [] = 0"
  by (simp add: table_sum_def)

lemma table_sum_Cons [simp]: "table_sum g ((k, v) # t) = g k v + table_sum g t"
  by (simp add: table_sum_def)

text \<open>A sum over a table changes by the new row less the old one.\<close>

lemma table_sum_update:
  assumes "table_ok t"
  shows "table_sum g (AList.update k v t) = table_sum g t + g k v - (case map_of t k of None \<Rightarrow> 0 | Some w \<Rightarrow> g k w)"
  using assms
proof (induction t)
  case (Cons x t)
  obtain k' w where x: "x = (k', w)" by fastforce
  have rest: "map_of t k = None" if "k' = k"
    using Cons.prems that by (auto simp: x table_ok_def map_of_eq_None_iff)
  show ?case using Cons rest by (auto simp: x table_ok_def)
qed simp

lemma table_sum_0: "(\<And>k v. map_of t k = Some v \<Longrightarrow> g k v = 0) \<Longrightarrow> table_ok t \<Longrightarrow> table_sum g t = 0"
proof (induction t)
  case (Cons x t)
  obtain k w where x: "x = (k, w)" by fastforce
  have "g k w = 0" using Cons.prems(1) [of k w] by (simp add: x)
  moreover have "table_sum g t = 0"
  proof (rule Cons.IH)
    show "table_ok t" using Cons.prems(2) by (simp add: table_ok_def)
    fix l v assume l: "map_of t l = Some v"
    then have "l \<noteq> k" using Cons.prems(2) by (force simp: x table_ok_def dest: map_of_SomeD)
    then show "g l v = 0" using Cons.prems(1) [of l v] l by (simp add: x)
  qed
  ultimately show ?case by (simp add: x)
qed simp

lemma sql_decimal_wide [simp]: "wide_ok w \<Longrightarrow> sql_decimal (Wide_String w) = Inr (wide_val w)"
  by (simp add: sql_decimal_def)

lemma ParseWide_sql [simp]: "0 \<le> n \<Longrightarrow> n \<le> wide_max \<Longrightarrow> ParseWide (sql_string n) = Inr (wide_of n)"
  using ParseWide_dec [of "nat n"] by (simp add: sql_string_def format_int_nonneg)

end
