(* ===== verification/Store.thy ===== *)
theory Store
  imports Tables "HOL-Library.Product_Lexorder"
begin

text \<open>
  The CockroachDB store: the tables of \<open>migrations/001_initial.sql\<close> and \<open>002_outbox_route.sql\<close>, the reads of
  \<open>read.go\<close> and the writes of \<open>save.go\<close>. A JSON column holds the value it encodes. Identities are
  canonical UUID texts, so a UUID column is the text. A failing driver call is not here: it
  aborts the attempt, which is what \<open>Transact\<close> models.
\<close>

section \<open>Tables\<close>

record book_row =
  bkr_currency :: string
  bkr_scale :: int
  bkr_synthetic :: bool
  bkr_default_cap :: int

record account_row =
  acr_owner :: ID
  acr_purpose :: purpose

record policy_row =
  por_fee :: int64
  por_fee_account :: ID
  por_pool :: ID
  por_provider :: ID
  por_capability :: ID
  por_max_hold_seconds :: int64

record balance_row =
  blr_purpose :: purpose
  blr_debits :: int
  blr_credits :: int
  blr_held :: int
  blr_version :: int64

record control_row =
  ctr_version :: int64
  ctr_epoch :: int64
  ctr_debit_frozen :: bool
  ctr_credit_frozen :: bool
  ctr_daily_cap :: int

record claim_row =
  clr_admission :: ID
  clr_outcome :: string
  clr_material :: string
  clr_state :: string
  clr_hold :: "ID option"
  clr_result :: ID

text \<open>The JSON of a hold has no state; reading it fills the state from the columns.\<close>

record hold_row =
  hdr_payment :: ID
  hdr_attempt :: ID
  hdr_terms :: hold
  hdr_expires :: time
  hdr_state :: hold_state
  hdr_version :: int64

record usage_row =
  usr_reserved :: int
  usr_consumed :: int
  usr_version :: int64

record journal_row =
  jrr_operation :: ID
  jrr_template :: string
  jrr_recorded :: time
  jrr_line_count :: int
  jrr_digest :: string

record line_row =
  lnr_account :: ID
  lnr_side :: side
  lnr_units :: int64

record operation_row =
  opr_canonical :: string
  opr_request_hash :: string
  opr_outcome :: string
  opr_receipt :: receipt

record fact_row =
  far_operation :: ID
  far_type :: string
  far_body :: receipt

record delivery_row =
  der_delivered :: bool
  der_lease_token :: "ID option"
  der_lease_until :: "time option"
  der_attempts :: int64

record db =
  db_books :: "(ID, book_row) table"
  db_accounts :: "(ID \<times> ID, account_row) table"
  db_policies :: "(ID \<times> ID, policy_row) table"
  db_balances :: "(ID \<times> ID, balance_row) table"
  db_controls :: "(ID \<times> control_key, control_row) table"
  db_claims :: "(ID \<times> ID, claim_row) table"
  db_holds :: "(ID \<times> ID, hold_row) table"
  db_usage :: "(ID \<times> ID \<times> string, usage_row) table"
  db_journals :: "(ID \<times> ID, journal_row) table"
  db_lines :: "(ID \<times> ID \<times> nat, line_row) table"
  db_account_events :: "(ID \<times> ID \<times> int64, ID \<times> balance change) table"
  db_control_events :: "(ID \<times> control_key \<times> int64, ID \<times> control change) table"
  db_hold_events :: "(ID \<times> ID \<times> int64, ID \<times> hold change) table"
  db_limit_events :: "(ID \<times> ID \<times> string \<times> int64, ID \<times> usage change) table"
  db_evidence :: "(ID \<times> ID, string \<times> evidence) table"
  db_operations :: "(ID \<times> ID, operation_row) table"
  db_facts :: "(ID \<times> ID, fact_row) table"
  db_delivery :: "(ID \<times> ID, delivery_row) table"
  db_routes :: "(ID, string) table"

section \<open>Reads\<close>

definition readBook :: "db \<Rightarrow> ID \<Rightarrow> app_book result" where
  "readBook db i =
     (case map_of (db_books db) i of
        None \<Rightarrow> Inl ErrNotFound
      | Some r \<Rightarrow>
          (case ParseWide (sql_string (bkr_default_cap r)) of
             Inl _ \<Rightarrow> Inl ErrIntegrity
           | Inr cap \<Rightarrow>
               let b = \<lparr>bk_ID = i, bk_Currency = bkr_currency r, bk_Scale = bkr_scale r\<rparr>
               in if \<not> is_ok (Book_Validate b) then Inl ErrIntegrity
                  else Inr \<lparr>bo_Book = b, bo_DefaultCap = cap, bo_Synthetic = bkr_synthetic r\<rparr>))"

definition readAccount :: "db \<Rightarrow> book \<Rightarrow> ID \<Rightarrow> account option result" where
  "readAccount db b i =
     (case map_of (db_accounts db) (bk_ID b, i) of
        None \<Rightarrow> Inr None
      | Some r \<Rightarrow>
          let a = \<lparr>ac_ID = i, ac_Book = b, ac_Owner = acr_owner r, ac_Purpose = acr_purpose r\<rparr>
          in if \<not> is_ok (Account_Validate a) then Inl ErrIntegrity else Inr (Some a))"

definition read_totals :: "balance_row \<Rightarrow> totals result" where
  "read_totals r =
     res_bind (ParseWide (sql_string (blr_debits r))) (\<lambda>d.
     res_bind (ParseWide (sql_string (blr_credits r))) (\<lambda>c.
     res_bind (ParseWide (sql_string (blr_held r))) (\<lambda>h.
       Inr \<lparr>tt_Debits = d, tt_Credits = c, tt_Held = h\<rparr>)))"

definition readBalance :: "db \<Rightarrow> ID \<Rightarrow> ID \<Rightarrow> balance option result" where
  "readBalance db book i =
     (case map_of (db_balances db) (book, i) of
        None \<Rightarrow> Inr None
      | Some r \<Rightarrow>
          (case read_totals r of
             Inl _ \<Rightarrow> Inl ErrIntegrity
           | Inr t \<Rightarrow> Inr (Some \<lparr>bl_AccountID = i, bl_Totals = t, bl_Version = blr_version r\<rparr>)))"

definition hold_of_row :: "hold_row \<Rightarrow> hold" where
  "hold_of_row r = (hdr_terms r)\<lparr>hd_State :=
     \<lparr>hs_State = hdr_state r, hs_Version = hdr_version r, hs_ExpiresAt = hdr_expires r\<rparr>\<rparr>"

text \<open>
  The discovery read of a reservation also finds a hold with the same attempt, the one with the
  smallest identity first.
\<close>

definition hold_candidates :: "db \<Rightarrow> ID \<Rightarrow> ID \<Rightarrow> ID \<Rightarrow> (ID \<times> hold_row) list" where
  "hold_candidates db book holdID attempt =
     sort_key fst (map (\<lambda>((b, i), r). (i, r))
       (filter (\<lambda>((b, i), r). b = book \<and> (i = holdID \<or> hdr_attempt r = attempt)) (db_holds db)))"

definition find_hold :: "db \<Rightarrow> command \<Rightarrow> ID \<Rightarrow> bool \<Rightarrow> (ID \<times> hold_row) option result" where
  "find_hold db cmd holdID lock =
     (if cm_Kind cmd = ReservePayout \<and> \<not> lock
      then res_bind (deref (cm_Reserve cmd) rs_AttemptID) (\<lambda>attempt.
             Inr (case hold_candidates db (cm_BookID cmd) holdID attempt of [] \<Rightarrow> None | x # _ \<Rightarrow> Some x))
      else Inr (map_option (Pair holdID) (map_of (db_holds db) (cm_BookID cmd, holdID))))"

definition readHold :: "db \<Rightarrow> command \<Rightarrow> bool \<Rightarrow> hold option result" where
  "readHold db cmd lock =
     res_bind (HoldID cmd) (\<lambda>holdID.
       if holdID = [] then Inr None
       else res_bind (find_hold db cmd holdID lock) (\<lambda>found.
         case found of
           None \<Rightarrow> Inr None
         | Some (i, r) \<Rightarrow> if hd_ID (hdr_terms r) \<noteq> i then Inl ErrIntegrity else Inr (Some (hold_of_row r))))"

definition readClaim :: "db \<Rightarrow> ID \<Rightarrow> ID \<Rightarrow> claim option" where
  "readClaim db book payment =
     map_option (\<lambda>r. \<lparr>cc_PaymentID = payment, cc_AdmissionOperationID = clr_admission r,
       cc_AdmissionOutcome = clr_outcome r, cc_MaterialHash = clr_material r, cc_State = clr_state r,
       cc_HoldID = (case clr_hold r of None \<Rightarrow> [] | Some h \<Rightarrow> h), cc_ResultOperationID = clr_result r\<rparr>)
       (map_of (db_claims db) (book, payment))"

text \<open>The accounts, controls, source and policy a command needs, before its policy is known.\<close>

definition load_scope :: "command \<Rightarrow> hold option \<Rightarrow> (ID list \<times> control_key list \<times> ID \<times> ID) result" where
  "load_scope cmd hold =
     (if cm_Kind cmd = CreateAccount then
        deref (cm_Create cmd) (\<lambda>r. ([cr_AccountID r],
          [Key ''SUBJECT'' (cr_OwnerID r), Key ''ACCOUNT'' (cr_AccountID r)], [], []))
      else if cm_Kind cmd = SetAccountControl then
        deref (cm_Control cmd) (\<lambda>r. (if ck_Kind (sc_Key r) = ''ACCOUNT'' then [ck_ID (sc_Key r)] else [],
          [sc_Key r], [], []))
      else if cm_Kind cmd = TransferInternal then
        deref (cm_Transfer cmd) (\<lambda>r. ([tm_SourceID (tr_Terms r), tm_BeneficiaryID (tr_Terms r)], [],
          tm_SourceID (tr_Terms r), tm_PolicyID (tr_Terms r)))
      else if cm_Kind cmd = ReservePayout then
        deref (cm_Reserve cmd) (\<lambda>r. ([tm_SourceID (rs_Terms r)], [], tm_SourceID (rs_Terms r), tm_PolicyID (rs_Terms r)))
      else Inr (case hold of None \<Rightarrow> ([], [], [], [])
        | Some h \<Rightarrow> ([tm_SourceID (hd_Terms h), hd_PoolID h, hd_FeeAccountID h], [], tm_SourceID (hd_Terms h), [])))"

definition readPolicy :: "db \<Rightarrow> command \<Rightarrow> ID \<Rightarrow> (policy option \<times> ID list) result" where
  "readPolicy db cmd policyID =
     (if policyID = [] then Inr (None, [])
      else case map_of (db_policies db) (cm_BookID cmd, policyID) of
        None \<Rightarrow> Inr (None, [])
      | Some r \<Rightarrow>
          (case NewAmount (por_fee r) of
             Inl _ \<Rightarrow> Inl ErrIntegrity
           | Inr amount \<Rightarrow>
               Inr (Some \<lparr>po_ID = policyID, po_Fee = amount, po_FeeAccountID = por_fee_account r, po_PoolID = por_pool r,
                      po_ProviderAccountID = por_provider r, po_CapabilityID = por_capability r,
                      po_MaxHoldSeconds = por_max_hold_seconds r\<rparr>,
                    por_fee_account r # (if cm_Kind cmd = ReservePayout then [por_pool r] else []))))"

fun readAccounts :: "db \<Rightarrow> book \<Rightarrow> ID list \<Rightarrow> (ID \<times> account) list result" where
  "readAccounts db b [] = Inr []"
| "readAccounts db b (i # is) =
     res_bind (readAccount db b i) (\<lambda>a. res_bind (readAccounts db b is) (\<lambda>rest.
       Inr (case a of None \<Rightarrow> rest | Some x \<Rightarrow> (i, x) # rest)))"

definition account_keys :: "command \<Rightarrow> (ID \<times> account) list \<Rightarrow> control_key list" where
  "account_keys cmd accounts =
     concat (map (\<lambda>(i, a). if cm_Kind cmd \<noteq> SetAccountControl \<and> ac_Purpose a \<noteq> FeeIncome
       then [Key ''SUBJECT'' (ac_Owner a), Key ''ACCOUNT'' (ac_ID a)] else []) accounts)"

definition sort_keys :: "control_key list \<Rightarrow> control_key list" where
  "sort_keys ks = sort_key (\<lambda>k. (ck_Kind k \<noteq> ''SUBJECT'', ck_ID k)) (remdups ks)"

fun readControls :: "db \<Rightarrow> ID \<Rightarrow> control_key list \<Rightarrow> (control_key \<times> control) list result" where
  "readControls db book [] = Inr []"
| "readControls db book (k # ks) =
     (case map_of (db_controls db) (book, k) of
        None \<Rightarrow> readControls db book ks
      | Some r \<Rightarrow>
          (case ParseWide (sql_string (ctr_daily_cap r)) of
             Inl _ \<Rightarrow> Inl ErrIntegrity
           | Inr cap \<Rightarrow> res_bind (readControls db book ks) (\<lambda>rest.
               Inr ((k, \<lparr>ct_Key = k, ct_Version = ctr_version r, ct_Epoch = ctr_epoch r,
                 ct_DebitFrozen = ctr_debit_frozen r, ct_CreditFrozen = ctr_credit_frozen r, ct_DailyCap = cap\<rparr>) # rest))))"

definition readUsage :: "db \<Rightarrow> ID \<Rightarrow> ID \<Rightarrow> string \<Rightarrow> usage option result" where
  "readUsage db book owner bucket =
     (case map_of (db_usage db) (book, owner, bucket) of
        None \<Rightarrow> Inr None
      | Some r \<Rightarrow>
          (case res_bind (ParseWide (sql_string (usr_reserved r))) (\<lambda>x.
                res_bind (ParseWide (sql_string (usr_consumed r))) (\<lambda>y.
                  Inr \<lparr>uv_Reserved = x, uv_Consumed = y\<rparr>)) of
             Inl _ \<Rightarrow> Inl ErrIntegrity
           | Inr v \<Rightarrow> Inr (Some \<lparr>ug_OwnerID = owner, ug_Bucket = bucket, ug_Values = v, ug_Version = usr_version r\<rparr>)))"

definition usage_bucket :: "env \<Rightarrow> command \<Rightarrow> time \<Rightarrow> hold option \<Rightarrow> string" where
  "usage_bucket E cmd now hold =
     (if cm_Kind cmd \<noteq> TransferInternal \<and> cm_Kind cmd \<noteq> ReservePayout
      then (case hold of Some h \<Rightarrow> hd_Bucket h | None \<Rightarrow> Bucket E now) else Bucket E now)"

fun readBalances :: "db \<Rightarrow> ID \<Rightarrow> ID list \<Rightarrow> (ID \<times> balance) list result" where
  "readBalances db book [] = Inr []"
| "readBalances db book (i # is) =
     res_bind (readBalance db book i) (\<lambda>b. res_bind (readBalances db book is) (\<lambda>rest.
       Inr (case b of None \<Rightarrow> rest | Some x \<Rightarrow> (i, x) # rest)))"

definition Load :: "env \<Rightarrow> db \<Rightarrow> command \<Rightarrow> time \<Rightarrow> state result" where
  "Load E db cmd now =
     res_bind (readBook db (cm_BookID cmd)) (\<lambda>book.
     res_bind (PaymentID cmd) (\<lambda>payment.
     res_bind (readHold db cmd False) (\<lambda>hold0.
     res_bind (load_scope cmd hold0) (\<lambda>(ids0, keys0, source, policyID).
     res_bind (readPolicy db cmd policyID) (\<lambda>(policy, ids1).
       let ids = sort (remdups (ids0 @ ids1))
       in res_bind (readAccounts db (bo_Book book) ids) (\<lambda>accounts.
          res_bind (readControls db (cm_BookID cmd) (sort_keys (keys0 @ account_keys cmd accounts))) (\<lambda>controls.
          res_bind (if hold0 \<noteq> None \<and> cm_Kind cmd \<noteq> ReservePayout then readHold db cmd True else Inr hold0) (\<lambda>hold.
          res_bind
            (case map_of accounts source of
               Some a \<Rightarrow> if cm_Kind cmd \<noteq> MarkHoldExposed
                 then readUsage db (cm_BookID cmd) (ac_Owner a) (usage_bucket E cmd now hold) else Inr None
             | None \<Rightarrow> Inr None) (\<lambda>usage.
          res_bind (readBalances db (cm_BookID cmd) ids) (\<lambda>balances.
            Inr \<lparr>st_Book = book, st_Accounts = map_of accounts, st_Balances = map_of balances,
              st_Controls = map_of controls, st_Policy = policy,
              st_Claim = (if payment = [] then None else readClaim db (cm_BookID cmd) payment),
              st_Hold = hold, st_Usage = usage\<rparr>))))))))))"

definition operation_at :: "db \<Rightarrow> ID \<Rightarrow> ID \<Rightarrow> operation option result" where
  "operation_at db book i =
     Inr (map_option (\<lambda>r. \<lparr>op_Canonical = opr_canonical r, op_Receipt = opr_receipt r\<rparr>)
       (map_of (db_operations db) (book, i)))"

text \<open>\<open>Store.Balance\<close>: every error of the account or balance read is reported as unavailable.\<close>

definition Store_Balance :: "db \<Rightarrow> ID \<Rightarrow> ID \<Rightarrow> (account \<times> balance) result" where
  "Store_Balance db book i =
     res_bind (readBook db book) (\<lambda>b.
       case readAccount db (bo_Book b) i of
         Inl _ \<Rightarrow> Inl ErrUnavailable
       | Inr None \<Rightarrow> Inl ErrNotFound
       | Inr (Some a) \<Rightarrow>
           (case readBalance db book i of
              Inl _ \<Rightarrow> Inl ErrUnavailable
            | Inr None \<Rightarrow> Inl ErrIntegrity
            | Inr (Some x) \<Rightarrow> Inr (a, x)))"

end
