(* ===== verification/Save.thy ===== *)
theory Save
  imports Store
begin

text \<open>
  \<open>save.go\<close>: the statements that persist a plan, in the order of the code. A statement that fails
  ends the transaction, so the result is an error or the database with every effect of the plan.
\<close>

section \<open>Constraints of the schema\<close>

definition amount_column :: "int \<Rightarrow> bool" where
  "amount_column n = (0 \<le> n \<and> n \<le> 99999999999999999999999999999999999999)"

definition positive :: "int64 \<Rightarrow> bool" where
  "positive v = (sint v > 0)"

definition has_book :: "db \<Rightarrow> ID \<Rightarrow> bool" where
  "has_book db book = (map_of (db_books db) book \<noteq> None)"

definition has_account :: "db \<Rightarrow> ID \<Rightarrow> ID \<Rightarrow> bool" where
  "has_account db book i = (map_of (db_accounts db) (book, i) \<noteq> None)"

definition account_checks :: "account_row \<Rightarrow> bool" where
  "account_checks r = (acr_purpose r \<in> {''WALLET'', ''PROVIDER_POOL'', ''FEE_INCOME''})"

definition balance_checks :: "balance_row \<Rightarrow> bool" where
  "balance_checks r =
     (amount_column (blr_debits r) \<and> amount_column (blr_credits r) \<and> amount_column (blr_held r) \<and> positive (blr_version r)
      \<and> (if blr_purpose r = ''PROVIDER_POOL'' then blr_debits r - blr_credits r \<ge> blr_held r
         else blr_credits r - blr_debits r \<ge> blr_held r)
      \<and> (blr_purpose r \<noteq> ''FEE_INCOME'' \<or> blr_held r = 0))"

definition control_checks :: "control_key \<Rightarrow> control_row \<Rightarrow> bool" where
  "control_checks k r =
     (ck_Kind k \<in> {''SUBJECT'', ''ACCOUNT''} \<and> positive (ctr_version r) \<and> positive (ctr_epoch r)
      \<and> amount_column (ctr_daily_cap r) \<and> (ck_Kind k \<noteq> ''ACCOUNT'' \<or> ctr_daily_cap r = 0))"

definition claim_checks :: "claim_row \<Rightarrow> bool" where
  "claim_checks r = (clr_outcome r \<in> {''APPLIED'', ''REJECTED''}
     \<and> clr_state r \<in> {''APPLIED'', ''REJECTED'', ''RESERVED'', ''EXPOSED'', ''CAPTURED'', ''RELEASED''})"

definition hold_checks :: "hold_row \<Rightarrow> bool" where
  "hold_checks r = (hdr_state r \<in> {''RESERVED'', ''EXPOSED'', ''CAPTURED'', ''RELEASED''} \<and> positive (hdr_version r))"

definition usage_checks :: "usage_row \<Rightarrow> bool" where
  "usage_checks r = (amount_column (usr_reserved r) \<and> amount_column (usr_consumed r) \<and> positive (usr_version r))"

definition line_checks :: "nat \<Rightarrow> line_row \<Rightarrow> bool" where
  "line_checks ordinal r = (ordinal \<le> 7 \<and> lnr_side r \<in> {''DEBIT'', ''CREDIT''} \<and> positive (lnr_units r))"

section \<open>Statements\<close>

definition nullableID :: "ID \<Rightarrow> ID option" where
  "nullableID i = (if i = [] then None else Some i)"

definition save_account :: "ID \<Rightarrow> account option \<Rightarrow> db \<Rightarrow> db result" where
  "save_account book new db =
     (case new of
        None \<Rightarrow> Inr db
      | Some a \<Rightarrow>
          let r = \<lparr>acr_owner = ac_Owner a, acr_purpose = ac_Purpose a\<rparr>
          in res_bind (insert_row (account_checks r) True (has_book db book) (book, ac_ID a) r (db_accounts db)) (\<lambda>t.
               Inr (db\<lparr>db_accounts := t\<rparr>)))"

definition save_control :: "ID \<Rightarrow> ID \<Rightarrow> control change \<Rightarrow> db \<Rightarrow> db result" where
  "save_control book op ch db =
     (let a = ch_After ch; k = ct_Key a
      in res_bind (sql_decimal (Wide_String (ct_DailyCap a))) (\<lambda>cap.
         let r = \<lparr>ctr_version = ct_Version a, ctr_epoch = ct_Epoch a, ctr_debit_frozen = ct_DebitFrozen a,
                  ctr_credit_frozen = ct_CreditFrozen a, ctr_daily_cap = cap\<rparr>
         in res_bind
              (case ch_Before ch of
                 None \<Rightarrow> insert_row (control_checks k r) True (has_book db book) (book, k) r (db_controls db)
               | Some b \<Rightarrow> update_row (\<lambda>old. ctr_version old = ct_Version b) (control_checks k) (book, k) (\<lambda>_. r) (db_controls db))
              (\<lambda>t. res_bind
                 (insert_row (positive (ct_Version a)) True (has_book db book) (book, k, ct_Version a) (op, ch) (db_control_events db))
                 (\<lambda>e. Inr (db\<lparr>db_controls := t, db_control_events := e\<rparr>)))))"

definition save_line :: "ID \<Rightarrow> ID \<Rightarrow> nat \<times> line \<Rightarrow> db \<Rightarrow> db result" where
  "save_line book journalID = (\<lambda>(ordinal, l) db.
     let r = \<lparr>lnr_account = ac_ID (ln_Account l), lnr_side = ln_Side l, lnr_units = units (ln_Amount l)\<rparr>
     in res_bind
          (insert_row (line_checks ordinal r)
             (\<not> list_ex (\<lambda>((b, j, n), x). b = book \<and> j = journalID \<and> lnr_account x = lnr_account r) (db_lines db))
             (map_of (db_journals db) (book, journalID) \<noteq> None \<and> has_account db book (lnr_account r))
             (book, journalID, ordinal) r (db_lines db))
          (\<lambda>t. Inr (db\<lparr>db_lines := t\<rparr>)))"

definition save_balance :: "ID \<Rightarrow> ID \<Rightarrow> balance change \<Rightarrow> db \<Rightarrow> db result" where
  "save_balance book op ch db =
     (let a = ch_After ch; i = bl_AccountID a; t = bl_Totals a
      in res_bind (sql_decimal (Wide_String (tt_Debits t))) (\<lambda>d.
         res_bind (sql_decimal (Wide_String (tt_Credits t))) (\<lambda>c.
         res_bind (sql_decimal (Wide_String (tt_Held t))) (\<lambda>h.
         res_bind
           (case ch_Before ch of
              None \<Rightarrow>
                (case map_of (db_accounts db) (book, i) of
                   None \<Rightarrow> Inl serialization_failure
                 | Some acc \<Rightarrow>
                     let r = \<lparr>blr_purpose = acr_purpose acc, blr_debits = d, blr_credits = c, blr_held = h,
                              blr_version = bl_Version a\<rparr>
                     in insert_row (balance_checks r) True True (book, i) r (db_balances db))
            | Some b \<Rightarrow> update_row (\<lambda>old. blr_version old = bl_Version b) balance_checks (book, i)
                (\<lambda>old. old\<lparr>blr_debits := d, blr_credits := c, blr_held := h, blr_version := bl_Version a\<rparr>) (db_balances db))
           (\<lambda>u. res_bind
              (insert_row (positive (bl_Version a)) True (has_account db book i) (book, i, bl_Version a) (op, ch) (db_account_events db))
              (\<lambda>e. Inr (db\<lparr>db_balances := u, db_account_events := e\<rparr>)))))))"

text \<open>A loop of statements stops at the first error.\<close>

fun save_each :: "('x \<Rightarrow> db \<Rightarrow> db result) \<Rightarrow> 'x list \<Rightarrow> db \<Rightarrow> db result" where
  "save_each f [] db = Inr db"
| "save_each f (x # xs) db = res_bind (f x db) (save_each f xs)"

definition save_journal :: "env \<Rightarrow> receipt \<Rightarrow> journal option \<Rightarrow> db \<Rightarrow> db result" where
  "save_journal E rc journal db =
     (case journal of
        None \<Rightarrow> Inr db
      | Some j \<Rightarrow>
          let book = rc_BookID rc; ls = jr_lines j;
              r = \<lparr>jrr_operation = rc_OperationID rc, jrr_template = rc_Kind rc @ ''/v1'',
                   jrr_recorded = en_timestamptz E (rc_RecordedAt rc), jrr_line_count = int (length ls),
                   jrr_digest = jr_digest j\<rparr>
          in res_bind
               (insert_row (2 \<le> jrr_line_count r \<and> jrr_line_count r \<le> 8)
                  (\<not> list_ex (\<lambda>((b, i), x). b = book \<and> jrr_operation x = jrr_operation r) (db_journals db))
                  (has_book db book) (book, rc_JournalID rc) r (db_journals db))
               (\<lambda>t. save_each (save_line book (rc_JournalID rc)) (enumerate 0 ls) (db\<lparr>db_journals := t\<rparr>)))"

definition save_hold :: "env \<Rightarrow> ID \<Rightarrow> ID \<Rightarrow> hold change option \<Rightarrow> db \<Rightarrow> db result" where
  "save_hold E book op change db =
     (case change of
        None \<Rightarrow> Inr db
      | Some ch \<Rightarrow>
          let h = ch_After ch; s = hd_State h
          in res_bind
               (case ch_Before ch of
                  None \<Rightarrow>
                    let r = \<lparr>hdr_payment = tm_PaymentID (hd_Terms h), hdr_attempt = hd_AttemptID h, hdr_terms = h,
                             hdr_expires = en_timestamptz E (hs_ExpiresAt s), hdr_state = hs_State s, hdr_version = hs_Version s\<rparr>
                    in insert_row (hold_checks r)
                         (\<not> list_ex (\<lambda>((b, i), x). b = book \<and>
                            (hdr_attempt x = hdr_attempt r \<or> hdr_payment x = hdr_payment r)) (db_holds db))
                         (has_book db book) (book, hd_ID h) r (db_holds db)
                | Some b \<Rightarrow> update_row
                    (\<lambda>old. hdr_version old = hs_Version (hd_State b) \<and> hdr_state old = hs_State (hd_State b)) hold_checks
                    (book, hd_ID h) (\<lambda>old. old\<lparr>hdr_state := hs_State s, hdr_version := hs_Version s\<rparr>) (db_holds db))
               (\<lambda>t. res_bind
                  (insert_row (positive (hs_Version s)) True (map_of t (book, hd_ID h) \<noteq> None)
                     (book, hd_ID h, hs_Version s) (op, ch) (db_hold_events db))
                  (\<lambda>e. Inr (db\<lparr>db_holds := t, db_hold_events := e\<rparr>))))"

definition save_usage :: "ID \<Rightarrow> ID \<Rightarrow> usage change option \<Rightarrow> db \<Rightarrow> db result" where
  "save_usage book op change db =
     (case change of
        None \<Rightarrow> Inr db
      | Some ch \<Rightarrow>
          let u = ch_After ch; k = (book, ug_OwnerID u, ug_Bucket u)
          in res_bind (sql_decimal (Wide_String (uv_Reserved (ug_Values u)))) (\<lambda>x.
             res_bind (sql_decimal (Wide_String (uv_Consumed (ug_Values u)))) (\<lambda>y.
             let r = \<lparr>usr_reserved = x, usr_consumed = y, usr_version = ug_Version u\<rparr>
             in res_bind
               (case ch_Before ch of
                  None \<Rightarrow> insert_row (usage_checks r) True (has_book db book) k r (db_usage db)
                | Some b \<Rightarrow> update_row (\<lambda>old. usr_version old = ug_Version b) usage_checks k (\<lambda>_. r) (db_usage db))
               (\<lambda>t. res_bind
                  (insert_row (positive (ug_Version u)) True (has_book db book)
                     (book, ug_OwnerID u, ug_Bucket u, ug_Version u) (op, ch) (db_limit_events db))
                  (\<lambda>e. Inr (db\<lparr>db_usage := t, db_limit_events := e\<rparr>))))))"

definition save_claim :: "ID \<Rightarrow> claim change option \<Rightarrow> db \<Rightarrow> db result" where
  "save_claim book change db =
     (case change of
        None \<Rightarrow> Inr db
      | Some ch \<Rightarrow>
          let c = ch_After ch
          in res_bind
               (case ch_Before ch of
                  None \<Rightarrow>
                    let r = \<lparr>clr_admission = cc_AdmissionOperationID c, clr_outcome = cc_AdmissionOutcome c,
                             clr_material = cc_MaterialHash c, clr_state = cc_State c, clr_hold = nullableID (cc_HoldID c),
                             clr_result = cc_ResultOperationID c\<rparr>
                    in insert_row (claim_checks r) True (has_book db book) (book, cc_PaymentID c) r (db_claims db)
                | Some b \<Rightarrow> update_row
                    (\<lambda>old. clr_state old = cc_State b \<and> clr_admission old = cc_AdmissionOperationID b) claim_checks
                    (book, cc_PaymentID c) (\<lambda>old. old\<lparr>clr_state := cc_State c, clr_result := cc_ResultOperationID c\<rparr>)
                    (db_claims db))
               (\<lambda>t. Inr (db\<lparr>db_claims := t\<rparr>)))"

text \<open>The same evidence may be saved again; another body under its identity is a conflict.\<close>

definition save_evidence :: "env \<Rightarrow> ID \<Rightarrow> evidence option \<Rightarrow> db \<Rightarrow> db result" where
  "save_evidence E book evidence db =
     (case evidence of
        None \<Rightarrow> Inr db
      | Some e \<Rightarrow>
          res_bind (en_Canonical E (evidence_json e)) (\<lambda>body.
            let digest = hash E body
            in case map_of (db_evidence db) (book, ev_ID e) of
                 None \<Rightarrow> if has_book db book
                   then Inr (db\<lparr>db_evidence := AList.update (book, ev_ID e) (digest, e) (db_evidence db)\<rparr>)
                   else Inl foreign_key_violation
               | Some (old, _) \<Rightarrow> if old \<noteq> digest then Inl ErrConflict else Inr db))"

definition save_operation :: "string \<Rightarrow> receipt \<Rightarrow> db \<Rightarrow> db result" where
  "save_operation canonical rc db =
     (let book = rc_BookID rc; op = rc_OperationID rc
      in res_bind
           (insert_row (rc_Outcome rc \<in> {''APPLIED'', ''REJECTED''}) True (has_book db book) (book, op)
              \<lparr>opr_canonical = canonical, opr_request_hash = rc_RequestHash rc, opr_outcome = rc_Outcome rc, opr_receipt = rc\<rparr>
              (db_operations db)) (\<lambda>ops.
         res_bind
           (insert_row True (\<not> list_ex (\<lambda>((b, i), x). b = book \<and> far_operation x = op) (db_facts db)) True (book, rc_EventID rc)
              \<lparr>far_operation = op, far_type = ''LedgerOperationResolved'', far_body = rc\<rparr> (db_facts db)) (\<lambda>facts.
         res_bind
           (insert_row True True True (book, rc_EventID rc)
              \<lparr>der_delivered = False, der_lease_token = None, der_lease_until = None, der_attempts = 0\<rparr> (db_delivery db))
           (\<lambda>del. Inr (db\<lparr>db_operations := ops, db_facts := facts, db_delivery := del\<rparr>)))))"

definition Save :: "env \<Rightarrow> db \<Rightarrow> plan \<Rightarrow> db result" where
  "Save E db p =
     (let rc = pl_Receipt p; book = rc_BookID rc; op = rc_OperationID rc
      in res_bind (save_account book (pl_NewAccount p) db) (\<lambda>db.
         res_bind (save_each (save_control book op) (pl_Controls p) db) (\<lambda>db.
         res_bind (save_journal E rc (pl_Journal p) db) (\<lambda>db.
         res_bind (save_each (save_balance book op) (pl_Balances p) db) (\<lambda>db.
         res_bind (save_hold E book op (pl_Hold p) db) (\<lambda>db.
         res_bind (save_usage book op (pl_Usage p) db) (\<lambda>db.
         res_bind (save_claim book (pl_Claim p) db) (\<lambda>db.
         res_bind (save_evidence E book (pl_Evidence p) db) (\<lambda>db.
           save_operation (pl_Canonical p) rc db)))))))))"

text \<open>The transaction the store hands to the service.\<close>

definition cockroach_tx :: "env \<Rightarrow> db transaction" where
  "cockroach_tx E = \<lparr>tx_Operation = operation_at, tx_Load = Load E, tx_Save = Save E\<rparr>"

end
