(* ===== verification/Transact.thy ===== *)
theory Transact
  imports Save
begin

text \<open>
  \<open>Transact\<close> of \<open>store.go\<close>: at most eight attempts at a serializable transaction. What the attempts meet
  is an argument: whether a connection and a transaction are obtained, what other transactions
  have committed in between, an error of the driver inside the body, the outcome of COMMIT, and
  whether the pause between two attempts is cut short by the context.
\<close>

section \<open>Frames: which tables a statement changes\<close>

lemma save_account_frame: "save_account book new db = Inr db' \<Longrightarrow> \<exists>t. db' = db\<lparr>db_accounts := t\<rparr>"
  by (cases db; auto simp: save_account_def Let_def split: option.split_asm)

lemma save_control_frame:
  "save_control book op ch db = Inr db' \<Longrightarrow> \<exists>t e. db' = db\<lparr>db_controls := t, db_control_events := e\<rparr>"
  by (auto simp: save_control_def Let_def)

lemma save_line_frame: "save_line book j x db = Inr db' \<Longrightarrow> \<exists>t. db' = db\<lparr>db_lines := t\<rparr>"
  by (auto simp: save_line_def Let_def split: prod.split_asm)

lemma save_balance_frame:
  "save_balance book op ch db = Inr db' \<Longrightarrow> \<exists>t e. db' = db\<lparr>db_balances := t, db_account_events := e\<rparr>"
  by (auto simp: save_balance_def Let_def)

text \<open>Updating tables to what they hold changes nothing.\<close>

lemma db_self [simp]:
  "\<exists>t e. db = db\<lparr>db_controls := t, db_control_events := e\<rparr>" "\<exists>t. db = db\<lparr>db_lines := t\<rparr>"
  "\<exists>t e. db = db\<lparr>db_balances := t, db_account_events := e\<rparr>" "\<exists>t u. db = db\<lparr>db_journals := t, db_lines := u\<rparr>"
  "\<exists>t e. db = db\<lparr>db_holds := t, db_hold_events := e\<rparr>" "\<exists>t e. db = db\<lparr>db_usage := t, db_limit_events := e\<rparr>"
  "\<exists>t. db = db\<lparr>db_claims := t\<rparr>" "\<exists>t. db = db\<lparr>db_evidence := t\<rparr>"
  by (rule exI [of _ "db_controls db"], rule exI [of _ "db_control_events db"], simp,
      rule exI [of _ "db_lines db"], simp,
      rule exI [of _ "db_balances db"], rule exI [of _ "db_account_events db"], simp,
      rule exI [of _ "db_journals db"], rule exI [of _ "db_lines db"], simp,
      rule exI [of _ "db_holds db"], rule exI [of _ "db_hold_events db"], simp,
      rule exI [of _ "db_usage db"], rule exI [of _ "db_limit_events db"], simp,
      rule exI [of _ "db_claims db"], simp, rule exI [of _ "db_evidence db"], simp)

lemma save_each_rel:
  assumes "save_each f xs db = Inr db'" and "\<And>a. R a a" and "\<And>a b c. R a b \<Longrightarrow> R b c \<Longrightarrow> R a c"
    and "\<And>x a b. f x a = Inr b \<Longrightarrow> R a b"
  shows "R db db'"
  using assms(1)
proof (induction xs arbitrary: db)
  case Nil
  then show ?case using assms(2) by simp
next
  case (Cons x xs)
  then obtain b where "f x db = Inr b" "save_each f xs b = Inr db'" by auto
  then show ?case using Cons.IH assms(3,4) by blast
qed

lemma save_controls_frame:
  "save_each (save_control book op) chs db = Inr db' \<Longrightarrow> \<exists>t e. db' = db\<lparr>db_controls := t, db_control_events := e\<rparr>"
  by (erule save_each_rel [where R = "\<lambda>a b. \<exists>t e. b = a\<lparr>db_controls := t, db_control_events := e\<rparr>"])
     (simp, (elim exE, simp, blast), rule save_control_frame)

lemma save_lines_frame:
  "save_each (save_line book j) xs db = Inr db' \<Longrightarrow> \<exists>t. db' = db\<lparr>db_lines := t\<rparr>"
  by (erule save_each_rel [where R = "\<lambda>a b. \<exists>t. b = a\<lparr>db_lines := t\<rparr>"])
     (simp, (elim exE, simp, blast), rule save_line_frame)

lemma save_balances_frame:
  "save_each (save_balance book op) chs db = Inr db' \<Longrightarrow> \<exists>t e. db' = db\<lparr>db_balances := t, db_account_events := e\<rparr>"
  by (erule save_each_rel [where R = "\<lambda>a b. \<exists>t e. b = a\<lparr>db_balances := t, db_account_events := e\<rparr>"])
     (simp, (elim exE, simp, blast), rule save_balance_frame)

lemma save_journal_frame:
  assumes "save_journal E rc j db = Inr db'"
  shows "\<exists>t u. db' = db\<lparr>db_journals := t, db_lines := u\<rparr>"
proof (cases j)
  case None
  then show ?thesis using assms by (simp add: save_journal_def)
next
  case (Some x)
  then obtain t where "save_each (save_line (rc_BookID rc) (rc_JournalID rc)) (enumerate 0 (jr_lines x))
      (db\<lparr>db_journals := t\<rparr>) = Inr db'"
    using assms by (auto simp: save_journal_def Let_def)
  then obtain u where "db' = db\<lparr>db_journals := t\<rparr>\<lparr>db_lines := u\<rparr>" using save_lines_frame by blast
  then show ?thesis by blast
qed

lemma save_hold_frame: "save_hold E book op h db = Inr db' \<Longrightarrow> \<exists>t e. db' = db\<lparr>db_holds := t, db_hold_events := e\<rparr>"
  by (cases h) (auto simp: save_hold_def Let_def)

lemma save_usage_frame: "save_usage book op u db = Inr db' \<Longrightarrow> \<exists>t e. db' = db\<lparr>db_usage := t, db_limit_events := e\<rparr>"
  by (cases u) (auto simp: save_usage_def Let_def)

lemma save_claim_frame: "save_claim book c db = Inr db' \<Longrightarrow> \<exists>t. db' = db\<lparr>db_claims := t\<rparr>"
  by (cases c) (auto simp: save_claim_def Let_def)

lemma save_evidence_frame: "save_evidence E book e db = Inr db' \<Longrightarrow> \<exists>t. db' = db\<lparr>db_evidence := t\<rparr>"
proof (cases e)
  case (Some x)
  assume "save_evidence E book e db = Inr db'"
  with Some show ?thesis
    by (cases "map_of (db_evidence db) (book, ev_ID x)") (auto simp: save_evidence_def Let_def split: if_split_asm)
qed (simp add: save_evidence_def)

lemma save_operation_frame:
  "save_operation canonical rc db = Inr db' \<Longrightarrow>
   \<exists>t u v. db' = db\<lparr>db_operations := t, db_facts := u, db_delivery := v\<rparr>"
  by (auto simp: save_operation_def Let_def)

text \<open>The stages of a successful save, each with the tables it may have changed.\<close>

lemma Save_stages:
  assumes "Save E db p = Inr db'"
  obtains acc ctl cev jr ln bal aev hol hev us lev cl ev where
    "save_account (rc_BookID (pl_Receipt p)) (pl_NewAccount p) db = Inr (db\<lparr>db_accounts := acc\<rparr>)"
    "save_each (save_control (rc_BookID (pl_Receipt p)) (rc_OperationID (pl_Receipt p))) (pl_Controls p)
       (db\<lparr>db_accounts := acc\<rparr>) = Inr (db\<lparr>db_accounts := acc, db_controls := ctl, db_control_events := cev\<rparr>)"
    "save_journal E (pl_Receipt p) (pl_Journal p) (db\<lparr>db_accounts := acc, db_controls := ctl, db_control_events := cev\<rparr>) =
       Inr (db\<lparr>db_accounts := acc, db_controls := ctl, db_control_events := cev, db_journals := jr, db_lines := ln\<rparr>)"
    "save_each (save_balance (rc_BookID (pl_Receipt p)) (rc_OperationID (pl_Receipt p))) (pl_Balances p)
       (db\<lparr>db_accounts := acc, db_controls := ctl, db_control_events := cev, db_journals := jr, db_lines := ln\<rparr>) =
       Inr (db\<lparr>db_accounts := acc, db_controls := ctl, db_control_events := cev, db_journals := jr, db_lines := ln,
         db_balances := bal, db_account_events := aev\<rparr>)"
    "save_hold E (rc_BookID (pl_Receipt p)) (rc_OperationID (pl_Receipt p)) (pl_Hold p)
       (db\<lparr>db_accounts := acc, db_controls := ctl, db_control_events := cev, db_journals := jr, db_lines := ln,
         db_balances := bal, db_account_events := aev\<rparr>) =
       Inr (db\<lparr>db_accounts := acc, db_controls := ctl, db_control_events := cev, db_journals := jr, db_lines := ln,
         db_balances := bal, db_account_events := aev, db_holds := hol, db_hold_events := hev\<rparr>)"
    "save_usage (rc_BookID (pl_Receipt p)) (rc_OperationID (pl_Receipt p)) (pl_Usage p)
       (db\<lparr>db_accounts := acc, db_controls := ctl, db_control_events := cev, db_journals := jr, db_lines := ln,
         db_balances := bal, db_account_events := aev, db_holds := hol, db_hold_events := hev\<rparr>) =
       Inr (db\<lparr>db_accounts := acc, db_controls := ctl, db_control_events := cev, db_journals := jr, db_lines := ln,
         db_balances := bal, db_account_events := aev, db_holds := hol, db_hold_events := hev, db_usage := us,
         db_limit_events := lev\<rparr>)"
    "save_claim (rc_BookID (pl_Receipt p)) (pl_Claim p)
       (db\<lparr>db_accounts := acc, db_controls := ctl, db_control_events := cev, db_journals := jr, db_lines := ln,
         db_balances := bal, db_account_events := aev, db_holds := hol, db_hold_events := hev, db_usage := us,
         db_limit_events := lev\<rparr>) =
       Inr (db\<lparr>db_accounts := acc, db_controls := ctl, db_control_events := cev, db_journals := jr, db_lines := ln,
         db_balances := bal, db_account_events := aev, db_holds := hol, db_hold_events := hev, db_usage := us,
         db_limit_events := lev, db_claims := cl\<rparr>)"
    "save_operation (pl_Canonical p) (pl_Receipt p)
       (db\<lparr>db_accounts := acc, db_controls := ctl, db_control_events := cev, db_journals := jr, db_lines := ln,
         db_balances := bal, db_account_events := aev, db_holds := hol, db_hold_events := hev, db_usage := us,
         db_limit_events := lev, db_claims := cl, db_evidence := ev\<rparr>) = Inr db'"
  using assms unfolding Save_def Let_def res_bind_eq_Inr
  by (elim exE conjE)
     (frule save_account_frame, elim exE, hypsubst_thin, frule save_controls_frame, elim exE, hypsubst_thin,
      frule save_journal_frame, elim exE, hypsubst_thin, frule save_balances_frame, elim exE, hypsubst_thin,
      frule save_hold_frame, elim exE, hypsubst_thin, frule save_usage_frame, elim exE, hypsubst_thin,
      frule save_claim_frame, elim exE, hypsubst_thin, frule save_evidence_frame, elim exE, hypsubst_thin, blast)

section \<open>The store keeps receipts\<close>

lemma Save_operations:
  assumes "Save E db p = Inr db'"
  defines "k \<equiv> (rc_BookID (pl_Receipt p), rc_OperationID (pl_Receipt p))"
  shows "map_of (db_operations db) k = None"
    and "db_operations db' = AList.update k \<lparr>opr_canonical = pl_Canonical p, opr_request_hash = rc_RequestHash (pl_Receipt p),
      opr_outcome = rc_Outcome (pl_Receipt p), opr_receipt = pl_Receipt p\<rparr> (db_operations db)"
proof -
  have "map_of (db_operations db) k = None \<and>
    db_operations db' = AList.update k \<lparr>opr_canonical = pl_Canonical p, opr_request_hash = rc_RequestHash (pl_Receipt p),
      opr_outcome = rc_Outcome (pl_Receipt p), opr_receipt = pl_Receipt p\<rparr> (db_operations db)"
    using assms(1) by (rule Save_stages) (auto simp: save_operation_def Let_def k_def insert_row_Inr)
  then show "map_of (db_operations db) k = None"
    and "db_operations db' = AList.update k \<lparr>opr_canonical = pl_Canonical p, opr_request_hash = rc_RequestHash (pl_Receipt p),
      opr_outcome = rc_Outcome (pl_Receipt p), opr_receipt = pl_Receipt p\<rparr> (db_operations db)" by blast+
qed

interpretation ck: receipt_store "cockroach_tx E" for E
proof
  fix db :: db and p db'
  assume "tx_Save (cockroach_tx E) db p = Inr db'"
  then have save: "Save E db p = Inr db'" by (simp add: cockroach_tx_def)
  note ops = Save_operations [OF save]
  show "tx_Operation (cockroach_tx E) db' (rc_BookID (pl_Receipt p)) (rc_OperationID (pl_Receipt p)) =
      Inr (Some \<lparr>op_Canonical = pl_Canonical p, op_Receipt = pl_Receipt p\<rparr>)"
    using ops(2) by (simp add: cockroach_tx_def operation_at_def update_conv')
  show "tx_Operation (cockroach_tx E) db (rc_BookID (pl_Receipt p)) (rc_OperationID (pl_Receipt p)) = Inr None"
    using ops(1) by (simp add: cockroach_tx_def operation_at_def)
  show "tx_Operation (cockroach_tx E) db' b i = tx_Operation (cockroach_tx E) db b i"
    if "(b, i) \<noteq> (rc_BookID (pl_Receipt p), rc_OperationID (pl_Receipt p))" for b i
    using ops(2) that by (auto simp: cockroach_tx_def operation_at_def update_conv')
qed

section \<open>Attempts\<close>

record 'db attempt =
  at_begin :: bool
  at_clock :: time
  at_others :: "'db \<Rightarrow> 'db"
  at_fault :: "error option"
  at_commit :: "(error \<times> bool) option"
  at_pause :: bool

definition sqlCode :: "error \<Rightarrow> string" where
  "sqlCode e = (case e of PgError code \<Rightarrow> code | _ \<Rightarrow> [])"

definition retryable :: "error \<Rightarrow> bool" where
  "retryable e = (sqlCode e = ''40001'' \<or> sqlCode e = ''23505'')"

text \<open>
  One call of \<open>Transact\<close> with the given number of attempts left. A failed COMMIT carries whether the
  server had applied the transaction; a serialization failure or a rollback report says it had not.
  What the body returns is the receipt, or what it leaves in the variables it captures.
\<close>

fun transact_loop :: "nat \<Rightarrow> (nat \<Rightarrow> 'db attempt) \<Rightarrow> nat \<Rightarrow> (time \<Rightarrow> 'db \<Rightarrow> ('r \<times> 'db) result) \<Rightarrow> 'db \<Rightarrow> 'r result \<times> 'db" where
  "transact_loop 0 env k body db = (Inl ErrUnavailable, db)"
| "transact_loop (Suc n) env k body db =
     (let a = env k; db1 = at_others a db
      in if \<not> at_begin a then (Inl ErrUnavailable, db)
         else case (case at_fault a of Some e \<Rightarrow> Inl e | None \<Rightarrow> body (at_clock a) db1) of
           Inl e \<Rightarrow>
             if retryable e then (if at_pause a then transact_loop n env (Suc k) body db1 else (Inl ErrUnavailable, db1))
             else if sqlCode e = ''40003'' then (Inl ErrUnknown, db1)
             else if sqlCode e \<noteq> [] then (Inl ErrIntegrity, db1)
             else (Inl e, db1)
         | Inr (r, db2) \<Rightarrow>
             (case at_commit a of
                None \<Rightarrow> (Inr r, db2)
              | Some (e, reached) \<Rightarrow>
                  if sqlCode e = ''40001'' then (if at_pause a then transact_loop n env (Suc k) body db1 else (Inl ErrUnavailable, db1))
                  else if e = ErrTxCommitRollback then (Inl ErrUnavailable, db1)
                  else (Inl ErrUnknown, if reached then db2 else db1)))"

definition retries :: nat where "retries = 8"

definition Transact :: "(nat \<Rightarrow> 'db attempt) \<Rightarrow> (time \<Rightarrow> 'db \<Rightarrow> ('r \<times> 'db) result) \<Rightarrow> 'db \<Rightarrow> 'r result \<times> 'db" where
  "Transact env = transact_loop retries env 0"

text \<open>The service on this store.\<close>

definition ledger_execute ::
  "env \<Rightarrow> trust \<Rightarrow> (nat \<Rightarrow> db attempt) \<Rightarrow> bytes \<Rightarrow> bytes \<Rightarrow> caller \<Rightarrow> command \<Rightarrow> db \<Rightarrow> receipt result \<times> db" where
  "ledger_execute E t env jb eb c cmd db = Execute (cockroach_tx E) (Transact env) E t jb eb c cmd db"

lemma transact_loop_outcome:
  assumes "transact_loop n env k body db = (res, db')"
    and "\<And>d. R d d" and "\<And>a b c. R a b \<Longrightarrow> R b c \<Longrightarrow> R a c" and "\<And>k d. R d (at_others (env k) d)"
  shows "\<exists>db1. R db db1 \<and> (case res of
      Inr r \<Rightarrow> \<exists>now. body now db1 = Inr (r, db')
    | Inl e \<Rightarrow> db' = db1 \<or> e = ErrUnknown \<and> (\<exists>now r. body now db1 = Inr (r, db')))"
  using assms(1)
proof (induction n arbitrary: k db)
  case 0
  then show ?case using assms(2) by auto
next
  case (Suc n)
  let ?a = "env k" and ?db1 = "at_others (env k) db"
  have step: "R db ?db1" by (rule assms(4))
  have again: ?case if "transact_loop n env (Suc k) body ?db1 = (res, db')"
    using Suc.IH [OF that] assms(3) [OF step] by blast
  show ?case
  proof (cases "case at_fault ?a of Some e \<Rightarrow> Inl e | None \<Rightarrow> body (at_clock ?a) ?db1")
    case (Inl e)
    then show ?thesis
      using Suc.prems assms(2) step again by (auto simp: Let_def split: if_split_asm)
  next
    case (Inr x)
    then have run: "body (at_clock ?a) ?db1 = Inr x" by (simp split: option.split_asm)
    show ?thesis
    proof (cases "at_begin ?a")
      case False
      then show ?thesis using Suc.prems assms(2) by (auto simp: Let_def)
    next
      case True
      obtain r db2 where x: "x = (r, db2)" by fastforce
      show ?thesis
      proof (cases "at_commit ?a")
        case None
        then have "res = Inr r" "db' = db2" using Suc.prems True Inr x by (simp_all add: Let_def)
        then show ?thesis using x run step by auto
      next
        case (Some y)
        obtain e reached where y: "y = (e, reached)" by fastforce
        have "transact_loop n env (Suc k) body ?db1 = (res, db') \<or>
          (\<exists>e. res = Inl e \<and> (db' = ?db1 \<or> e = ErrUnknown \<and> db' = db2))"
          using Suc.prems True Inr x y Some by (auto simp: Let_def split: if_split_asm)
        then show ?thesis using again step run x by fastforce
      qed
    qed
  qed
qed

end
