(* ===== verification/Exactly_Once.thy ===== *)
theory Exactly_Once
  imports Transact
begin

text \<open>
  What a caller may rely on when it repeats a command: the service and the store together execute an
  operation identity at most once, return the same receipt for it for ever after, and leave no
  trace of a failed attempt. What other transactions commit in between is the relation \<open>others\<close>.
\<close>

section \<open>Interference\<close>

definition keeps_receipts :: "(db \<Rightarrow> db \<Rightarrow> bool) \<Rightarrow> bool" where
  "keeps_receipts R = (\<forall>d d' b i op. R d d' \<longrightarrow> operation_at d b i = Inr (Some op) \<longrightarrow> operation_at d' b i = Inr (Some op))"

text \<open>What the attempts of a call meet is what the other transactions may do.\<close>

definition fits :: "(db \<Rightarrow> db \<Rightarrow> bool) \<Rightarrow> (nat \<Rightarrow> db attempt) \<Rightarrow> bool" where
  "fits R attempts = (\<forall>k d. R d (at_others (attempts k) d))"

locale interference =
  fixes others :: "db \<Rightarrow> db \<Rightarrow> bool"
  assumes others_refl: "others d d"
    and others_trans: "others a b \<Longrightarrow> others b c \<Longrightarrow> others a c"
    and others_keep: "keeps_receipts others"
begin

lemma transact_outcome:
  assumes "Transact attempts body db = (res, db')" and "fits others attempts"
  shows "\<exists>db1. others db db1 \<and> (case res of
      Inr r \<Rightarrow> \<exists>now. body now db1 = Inr (r, db')
    | Inl e \<Rightarrow> db' = db1 \<or> e = ErrUnknown \<and> (\<exists>now r. body now db1 = Inr (r, db')))"
proof (rule transact_loop_outcome)
  show "transact_loop retries attempts 0 body db = (res, db')" using assms(1) by (simp add: Transact_def)
qed (use assms(2) others_refl others_trans in \<open>auto simp: fits_def\<close>)

lemma others_recorded: "others d d' \<Longrightarrow> operation_at d b i = Inr (Some op) \<Longrightarrow> operation_at d' b i = Inr (Some op)"
  using others_keep unfolding keeps_receipts_def by blast

lemma execute_outcome:
  assumes "ledger_execute E t attempts jb eb c cmd db = (res, db')" and "fits others attempts"
  shows "\<exists>db1. others db db1 \<and>
    ((\<exists>e. res = Inl e \<and> db' = db1) \<or>
     (\<exists>canonical now r. Material E cmd = Inr canonical \<and> (res = Inr r \<or> res = Inl ErrUnknown) \<and>
        execute_tx (cockroach_tx E) E t c cmd canonical (NewID jb) (NewID eb) now db1 = Inr (r, db')))"
proof -
  consider (early) e where "res = Inl e" "db' = db"
    | (run) canonical where "Material E cmd = Inr canonical"
      "Transact attempts (execute_tx (cockroach_tx E) E t c cmd canonical (NewID jb) (NewID eb)) db = (res, db')"
    using assms(1) by (auto simp: ledger_execute_def Execute_def split: sum.split_asm if_split_asm)
  then show ?thesis
  proof cases
    case early
    then show ?thesis using others_refl by blast
  next
    case run
    show ?thesis using transact_outcome [OF run(2) assms(2)] run(1) by (cases res) fastforce+
  qed
qed

lemma execute_recorded:
  assumes "ledger_execute E t attempts jb eb c cmd db = (Inr r, db')" and "fits others attempts"
  shows "\<exists>canonical. Material E cmd = Inr canonical \<and>
    operation_at db' (cm_BookID cmd) (cm_OperationID cmd) = Inr (Some \<lparr>op_Canonical = canonical, op_Receipt = r\<rparr>)"
proof -
  obtain db1 canonical now where m: "Material E cmd = Inr canonical"
    and x: "execute_tx (cockroach_tx E) E t c cmd canonical (NewID jb) (NewID eb) now db1 = Inr (r, db')"
    using execute_outcome [OF assms] by auto
  from ck.execute_records [OF x] m show ?thesis by (auto simp: cockroach_tx_def)
qed

lemma execute_again:
  assumes "operation_at db (cm_BookID cmd) (cm_OperationID cmd) = Inr (Some op)"
    and "ledger_execute E t attempts jb eb c cmd db = (res, db')" and "fits others attempts"
  shows "others db db'" and "res = Inr r \<Longrightarrow> r = op_Receipt op \<and> Material E cmd = Inr (op_Canonical op)"
proof -
  obtain db1 where o: "others db db1" and cs: "(\<exists>e. res = Inl e \<and> db' = db1) \<or>
     (\<exists>canonical now r. Material E cmd = Inr canonical \<and> (res = Inr r \<or> res = Inl ErrUnknown) \<and>
        execute_tx (cockroach_tx E) E t c cmd canonical (NewID jb) (NewID eb) now db1 = Inr (r, db'))"
    using execute_outcome [OF assms(2,3)] by blast
  have rec: "tx_Operation (cockroach_tx E) db1 (cm_BookID cmd) (cm_OperationID cmd) = Inr (Some op)"
    using others_recorded [OF o assms(1)] by (simp add: cockroach_tx_def)
  have same: "db' = db1 \<and> r = op_Receipt op \<and> canonical = op_Canonical op"
    if "execute_tx (cockroach_tx E) E t c cmd canonical (NewID jb) (NewID eb) now db1 = Inr (r, db')" for canonical now r
    using that rec by (cases rule: ck.execute_cases) auto
  show "others db db'" using cs same o by blast
  show "r = op_Receipt op \<and> Material E cmd = Inr (op_Canonical op)" if "res = Inr r" using cs same that by auto
qed

end

section \<open>The transactions of the service\<close>

text \<open>The committed executions of commands, in any number and order.\<close>

inductive committed :: "env \<Rightarrow> trust \<Rightarrow> db \<Rightarrow> db \<Rightarrow> bool" for E t where
  start: "committed E t db db"
| execution: "committed E t db db1 \<Longrightarrow>
    execute_tx (cockroach_tx E) E t c cmd canonical j e now db1 = Inr (r, db2) \<Longrightarrow> committed E t db db2"

lemma committed_trans: "committed E t b c \<Longrightarrow> committed E t a b \<Longrightarrow> committed E t a c"
  by (induction rule: committed.induct) (auto intro: committed.execution)

lemma committed_keeps:
  "committed E t d d' \<Longrightarrow> operation_at d b i = Inr (Some op) \<Longrightarrow> operation_at d' b i = Inr (Some op)"
proof (induction rule: committed.induct)
  case (execution db db1 c cmd canonical j e now r db2)
  then show ?case using ck.execute_keeps [OF execution.hyps(2), of b i op] by (simp add: cockroach_tx_def)
qed simp

interpretation svc: interference "committed E t" for E t
proof
  show "committed E t d d" for d by (rule committed.start)
  show "committed E t a b \<Longrightarrow> committed E t b c \<Longrightarrow> committed E t a c" for a b c
    by (rule committed_trans)
  show "keeps_receipts (committed E t)" using committed_keeps by (auto simp: keeps_receipts_def)
qed

section \<open>A first execution\<close>

definition x_db :: db where
  "x_db = \<lparr>db_books = [(x_book_id, \<lparr>bkr_currency = ''KES'', bkr_scale = 2, bkr_synthetic = True, bkr_default_cap = 100000\<rparr>)],
     db_accounts = [], db_policies = [], db_balances = [], db_controls = [], db_claims = [], db_holds = [], db_usage = [],
     db_journals = [], db_lines = [], db_account_events = [], db_control_events = [], db_hold_events = [],
     db_limit_events = [], db_evidence = [], db_operations = [], db_facts = [], db_delivery = [], db_routes = []\<rparr>"

definition x_create :: command where
  "x_create = (x_command CreateAccount)\<lparr>cm_Create :=
     Some \<lparr>cr_AccountID = x_wallet_a, cr_OwnerID = x_alice, cr_Purpose = Wallet\<rparr>\<rparr>"

definition x_attempts :: "nat \<Rightarrow> db attempt" where
  "x_attempts k = \<lparr>at_begin = True, at_clock = x_time 2000, at_others = id, at_fault = None, at_commit = None, at_pause = True\<rparr>"

abbreviation x_execute :: "command \<Rightarrow> db \<Rightarrow> receipt result \<times> db" where
  "x_execute \<equiv> ledger_execute x_env x_trust x_attempts (replicate 16 1) (replicate 16 2) x_caller"

lemma x_create_runs:
  "case x_execute x_create x_db of (r, d) \<Rightarrow> is_ok r \<and> map fst (db_balances d) = [(x_book_id, x_wallet_a)]"
  by code_simp

lemma x_create_returns: "\<exists>r d. x_execute x_create x_db = (Inr r, d)"
  using x_create_runs by (cases "x_execute x_create x_db") (auto simp: is_ok_iff)

lemma x_attempts_fit: "fits (=) x_attempts"
  by (simp add: fits_def x_attempts_def)

lemma eq_interference: "interference (=)"
  by unfold_locales (auto simp: keeps_receipts_def)

section \<open>Properties\<close>

text \<open>
  C11. An operation identity is executed at most once. After a call has returned a receipt, every later
  call under the same identity, by any caller, with any clock, after any interference and any
  failed attempts, changes nothing of its own; if it returns a receipt it is the first one, and
  its command is the same financial instruction.
\<close>

theorem operation_executes_once:
  assumes others: "\<And>d. others d d" "\<And>a b c. others a b \<Longrightarrow> others b c \<Longrightarrow> others a c" "keeps_receipts others"
    and first: "ledger_execute E t at1 jb1 eb1 c1 cmd1 db = (Inr r1, db1)" "fits others at1"
    and between: "others db1 db2"
    and second: "ledger_execute E t at2 jb2 eb2 c2 cmd2 db2 = (res, db3)" "fits others at2"
    and same: "cm_BookID cmd2 = cm_BookID cmd1" "cm_OperationID cmd2 = cm_OperationID cmd1"
  shows "others db2 db3 \<and> (\<forall>r2. res = Inr r2 \<longrightarrow> r2 = r1 \<and> Material E cmd2 = Material E cmd1)"
proof -
  have i: "interference others" using others by unfold_locales
  obtain canonical where m: "Material E cmd1 = Inr canonical"
    and "operation_at db1 (cm_BookID cmd1) (cm_OperationID cmd1) = Inr (Some \<lparr>op_Canonical = canonical, op_Receipt = r1\<rparr>)"
    using interference.execute_recorded [OF i first] by blast
  then have "operation_at db2 (cm_BookID cmd2) (cm_OperationID cmd2) = Inr (Some \<lparr>op_Canonical = canonical, op_Receipt = r1\<rparr>)"
    using interference.others_recorded [OF i between] same by simp
  from interference.execute_again [OF i this second] m show ?thesis by simp
qed

theorem operation_executes_once_witness:
  "\<exists>r d. x_execute x_create x_db = (Inr r, d) \<and> x_execute x_create d = (Inr r, d)"
proof -
  obtain r d where first: "x_execute x_create x_db = (Inr r, d)" using x_create_returns by blast
  obtain res d' where second: "x_execute x_create d = (res, d')" by fastforce
  have once: "d = d' \<and> (\<forall>r2. res = Inr r2 \<longrightarrow> r2 = r)"
    using operation_executes_once [OF _ _ _ first x_attempts_fit refl second x_attempts_fit]
    by (simp add: keeps_receipts_def)
  obtain canonical where m: "Material x_env x_create = Inr canonical"
    and op: "operation_at d (cm_BookID x_create) (cm_OperationID x_create) = Inr (Some \<lparr>op_Canonical = canonical, op_Receipt = r\<rparr>)"
    using interference.execute_recorded [OF eq_interference first x_attempts_fit] by blast
  have "receiptAccess x_caller r" by (simp add: receiptAccess_def AllowsSubject_def x_caller_def list_all_iff)
  then have "execute_tx (cockroach_tx x_env) x_env x_trust x_caller x_create canonical j e now d = Inr (r, d)" for j e now
    using op ck.execute_replays [of x_env d x_create "\<lparr>op_Canonical = canonical, op_Receipt = r\<rparr>" x_caller]
    by (simp add: cockroach_tx_def)
  moreover have "Command_Validate x_create = Inr ()" "Allows x_caller (cm_BookID x_create) (Permission x_create)"
    by code_simp+
  ultimately have "x_execute x_create d = (Inr r, d)"
    using m by (simp add: ledger_execute_def Execute_def Transact_def retries_def x_attempts_def eval_nat_numeral)
  with first second once show ?thesis by blast
qed

text \<open>
  C12. Transactions are all or nothing across retries: a call that reports an error has changed nothing
  of its own, with one exception, the unknown outcome of a lost COMMIT, where either nothing or
  the complete effect of one execution is there. A call that returns a receipt has executed its
  command exactly once, on one state of the database.
\<close>

theorem call_is_atomic:
  assumes others: "\<And>d. others d d" "\<And>a b c. others a b \<Longrightarrow> others b c \<Longrightarrow> others a c"
    and run: "Transact attempts body db = (res, db')" "fits others attempts"
  shows "\<exists>db1. others db db1 \<and> (case res of
      Inr r \<Rightarrow> \<exists>now. body now db1 = Inr (r, db')
    | Inl e \<Rightarrow> db' = db1 \<or> e = ErrUnknown \<and> (\<exists>now r. body now db1 = Inr (r, db')))"
  using run unfolding Transact_def fits_def
  by (intro transact_loop_outcome [where n = retries and k = 0 and env = attempts]) (auto intro: others)

theorem call_is_atomic_witness:
  "let attempts = (\<lambda>k. (x_attempts k)\<lparr>at_fault := Some serialization_failure\<rparr>);
       body = execute_tx (cockroach_tx x_env) x_env x_trust x_caller x_create ''c'' ''j'' ''e''
   in Transact attempts body x_db = (Inl ErrUnavailable, x_db) \<and> fits (=) attempts"
proof -
  let ?a = "\<lambda>k. (x_attempts k)\<lparr>at_fault := Some serialization_failure\<rparr>"
  let ?b = "execute_tx (cockroach_tx x_env) x_env x_trust x_caller x_create ''c'' ''j'' ''e''"
  have f: "fits (=) ?a" by (simp add: fits_def x_attempts_def)
  obtain res d where run: "Transact ?a ?b x_db = (res, d)" by fastforce
  then have "res = Inl ErrUnavailable"
    by (simp add: Transact_def retries_def x_attempts_def retryable_def sqlCode_def eval_nat_numeral Let_def)
  with call_is_atomic [of "(=)", OF _ _ run f] run f show ?thesis by simp
qed

end
