(* ===== verification/Inbox.thy ===== *)
theory Inbox
  imports Event Exactly_Once
begin

text \<open>
  \<open>reconciliation/internal/inbox/store.go\<close>, the event handler of \<open>internal/app/events.go\<close> and the sending
  side of \<open>platform/eventtransport\<close>: an event is accepted into two append-only tables, at most once per
  event identity and per operation.
\<close>

section \<open>Tables\<close>

record projection_row =
  prj_event :: ID
  prj_request_hash :: string
  prj_kind :: string
  prj_outcome :: string
  prj_recorded :: time
  prj_receipt :: json

record inbox_db =
  ib_inbox :: "(ID \<times> ID, string) table"
  ib_operations :: "(ID \<times> ID, projection_row) table"

definition projection_checks :: "projection_row \<Rightarrow> bool" where
  "projection_checks r = (length (prj_request_hash r) = 64 \<and> prj_outcome r \<in> {''APPLIED'', ''REJECTED''})"

section \<open>Accepting an event\<close>

definition digest :: "env \<Rightarrow> string \<Rightarrow> string" where
  "digest E data = hex_encode (en_sha256 E data)"

definition persist :: "env \<Rightarrow> event \<Rightarrow> string \<Rightarrow> inbox_db \<Rightarrow> inbox_db result" where
  "persist E e h db =
     (let b = evt_BookID e; i = evt_EventID e; op = evt_OperationID e
      in case map_of (ib_inbox db) (b, i) of
           Some existing \<Rightarrow>
             if existing \<noteq> h then Inl ErrConflict
             else if (case map_of (ib_operations db) (b, op) of None \<Rightarrow> True | Some r \<Rightarrow> prj_event r \<noteq> i) then Inl ErrUnavailable
             else Inr db
         | None \<Rightarrow>
             if map_of (ib_operations db) (b, op) \<noteq> None then Inl ErrConflict
             else res_bind (insert_row (length h = 64) True True (b, i) h (ib_inbox db)) (\<lambda>inbox.
               case Identity e of
                 None \<Rightarrow> Inl ErrInvalid
               | Some r \<Rightarrow>
                   (case Time_Parse (ri_RecordedAt r) of
                      None \<Rightarrow> Inl ErrInvalid
                    | Some when \<Rightarrow>
                        let row = \<lparr>prj_event = i, prj_request_hash = ri_RequestHash r, prj_kind = ri_Kind r, prj_outcome = ri_Outcome r,
                                   prj_recorded = en_timestamptz E when,
                                   prj_receipt = (case evt_Receipt e of None \<Rightarrow> JNull | Some v \<Rightarrow> v)\<rparr>
                        in res_bind
                             (insert_row (projection_checks row)
                                (\<not> list_ex (\<lambda>((b', op'), x). b' = b \<and> prj_event x = i) (ib_operations db))
                                (map_of inbox (b, i) \<noteq> None) (b, op) row (ib_operations db))
                             (\<lambda>ops. Inr \<lparr>ib_inbox = inbox, ib_operations = ops\<rparr>))))"

text \<open>One serializable transaction. A failing COMMIT may have been applied.\<close>

definition acceptOnce :: "env \<Rightarrow> inbox_db attempt \<Rightarrow> event \<Rightarrow> string \<Rightarrow> inbox_db \<Rightarrow> unit result \<times> inbox_db" where
  "acceptOnce E a e h db =
     (let db1 = at_others a db
      in if \<not> at_begin a then (Inl ErrDriver, db1)
         else case (case at_fault a of Some err \<Rightarrow> Inl err | None \<Rightarrow> persist E e h db1) of
           Inl err \<Rightarrow> (Inl err, db1)
         | Inr db2 \<Rightarrow>
             (case at_commit a of None \<Rightarrow> (Inr (), db2) | Some (err, reached) \<Rightarrow> (Inl err, if reached then db2 else db1)))"

fun accept_loop :: "nat \<Rightarrow> env \<Rightarrow> (nat \<Rightarrow> inbox_db attempt) \<Rightarrow> nat \<Rightarrow> event \<Rightarrow> string \<Rightarrow> inbox_db \<Rightarrow> unit result \<times> inbox_db" where
  "accept_loop 0 E env k e h db = (Inl ErrUnavailable, db)"
| "accept_loop (Suc n) E env k e h db =
     (case acceptOnce E (env k) e h db of
        (Inr _, db') \<Rightarrow> (Inr (), db')
      | (Inl err, db') \<Rightarrow>
          if err = ErrConflict then (Inl ErrConflict, db')
          else if sqlCode err \<noteq> ''40001'' \<and> sqlCode err \<noteq> ''23505'' then (Inl ErrUnavailable, db')
          else if at_pause (env k) then accept_loop n E env (Suc k) e h db'
          else (Inl ErrUnavailable, db'))"

definition Accept :: "env \<Rightarrow> codec \<Rightarrow> (nat \<Rightarrow> inbox_db attempt) \<Rightarrow> string \<Rightarrow> inbox_db \<Rightarrow> unit result \<times> inbox_db" where
  "Accept E cd env data db =
     (case Decode cd data of
        None \<Rightarrow> (Inl ErrInvalid, db)
      | Some (e, canonical) \<Rightarrow> accept_loop 8 E env 0 e (digest E canonical) db)"

section \<open>The handler\<close>

record tls_state =
  tls_chains :: nat
  tls_uris :: "string list list"

definition Peer :: "tls_state option \<Rightarrow> string \<Rightarrow> bool" where
  "Peer st identity =
     (case st of
        None \<Rightarrow> False
      | Some s \<Rightarrow> tls_chains s > 0 \<and> (case tls_uris s of [] \<Rightarrow> False | c # _ \<Rightarrow> c = [identity]))"

record http_request =
  hr_TLS :: "tls_state option"
  hr_Path :: string
  hr_Method :: string
  hr_ContentType :: string
  hr_RawQuery :: string
  hr_Body :: "string option"

record event_config =
  ec_ProducerIdentity :: string
  ec_Books :: "string list"

definition EventPath :: string where "EventPath = ''/internal/events/ledger/v1''"

text \<open>The status of the response. A body that cannot be read or is over the limit is an error.\<close>

definition eventHandler ::
  "env \<Rightarrow> codec \<Rightarrow> event_config \<Rightarrow> bool \<Rightarrow> (nat \<Rightarrow> inbox_db attempt) \<Rightarrow> http_request \<Rightarrow> inbox_db \<Rightarrow> nat \<times> inbox_db" where
  "eventHandler E cd config ready env q db =
     (if \<not> Peer (hr_TLS q) (ec_ProducerIdentity config) then (403, db)
      else if hr_Path q = ''/livez'' \<or> hr_Path q = ''/readyz'' \<or> hr_Path q = ''/info'' then
        (if hr_Method q \<noteq> ''GET'' \<and> hr_Method q \<noteq> ''HEAD'' then (405, db)
         else if hr_Path q = ''/readyz'' \<and> \<not> ready then (503, db) else (200, db))
      else if hr_Path q \<noteq> EventPath then (404, db)
      else if hr_Method q \<noteq> ''POST'' then (405, db)
      else if hr_ContentType q \<noteq> ''application/json'' \<or> hr_RawQuery q \<noteq> [] then (400, db)
      else case hr_Body q of
        None \<Rightarrow> (413, db)
      | Some data \<Rightarrow>
          if length data > MaxBytes then (413, db)
          else case Decode cd data of
            None \<Rightarrow> (400, db)
          | Some (e, _) \<Rightarrow>
              if evt_BookID e \<notin> set (ec_Books config) then (403, db)
              else case Accept E cd env data db of
                (Inr _, db') \<Rightarrow> (204, db')
              | (Inl err, db') \<Rightarrow> if err = ErrConflict then (409, db') else (503, db'))"

text \<open>\<open>Client.Send\<close>: the request may not arrive, and the response may not come back.\<close>

record link =
  lk_TLS :: "tls_state option"
  lk_Path :: string
  lk_reaches :: bool
  lk_replies :: bool

definition Send :: "(http_request \<Rightarrow> 'w \<Rightarrow> nat \<times> 'w) \<Rightarrow> link \<Rightarrow> string \<Rightarrow> 'w \<Rightarrow> unit result \<times> 'w" where
  "Send handler l data w =
     (if \<not> lk_reaches l then (Inl ErrDelivery, w)
      else
        let q = \<lparr>hr_TLS = lk_TLS l, hr_Path = lk_Path l, hr_Method = ''POST'', hr_ContentType = ''application/json'',
                 hr_RawQuery = [], hr_Body = Some data\<rparr>;
            (status, w') = handler q w
        in if lk_replies l \<and> status = 204 then (Inr (), w') else (Inl ErrDelivery, w'))"

section \<open>What is in the inbox\<close>

text \<open>The event is recorded with its digest, and its operation is projected under it.\<close>

definition ingested :: "inbox_db \<Rightarrow> event \<Rightarrow> string \<Rightarrow> bool" where
  "ingested db e h =
     (map_of (ib_inbox db) (evt_BookID e, evt_EventID e) = Some h \<and>
      (\<exists>r. map_of (ib_operations db) (evt_BookID e, evt_OperationID e) = Some r \<and> prj_event r = evt_EventID e))"

text \<open>Both tables only grow.\<close>

definition extends :: "inbox_db \<Rightarrow> inbox_db \<Rightarrow> bool" where
  "extends db db' = ((\<forall>k v. map_of (ib_inbox db) k = Some v \<longrightarrow> map_of (ib_inbox db') k = Some v)
     \<and> (\<forall>k v. map_of (ib_operations db) k = Some v \<longrightarrow> map_of (ib_operations db') k = Some v))"

lemma extends_refl [simp]: "extends db db" by (simp add: extends_def)

lemma extends_trans: "extends a b \<Longrightarrow> extends b c \<Longrightarrow> extends a c" by (simp add: extends_def)

lemma extends_ingested: "extends db db' \<Longrightarrow> ingested db e h \<Longrightarrow> ingested db' e h"
  unfolding extends_def ingested_def by blast

text \<open>The row that projects an event: under its identity, the classification and the receipt of the event.\<close>

definition projects :: "event \<Rightarrow> receipt_identity \<Rightarrow> projection_row \<Rightarrow> bool" where
  "projects e r p = (prj_event p = evt_EventID e \<and> prj_request_hash p = ri_RequestHash r \<and> prj_kind p = ri_Kind r
     \<and> prj_outcome p = ri_Outcome r \<and> prj_receipt p = (case evt_Receipt e of None \<Rightarrow> JNull | Some v \<Rightarrow> v))"

lemma persist_new:
  assumes "persist E e h db = Inr db'" and "map_of (ib_inbox db) (evt_BookID e, evt_EventID e) = None"
  obtains r p where "Identity e = Some r" and "projects e r p" and "map_of (ib_operations db) (evt_BookID e, evt_OperationID e) = None"
    and "db' = \<lparr>ib_inbox = AList.update (evt_BookID e, evt_EventID e) h (ib_inbox db),
      ib_operations = AList.update (evt_BookID e, evt_OperationID e) p (ib_operations db)\<rparr>"
proof -
  let ?k = "(evt_BookID e, evt_EventID e)" and ?o = "(evt_BookID e, evt_OperationID e)"
  have free: "map_of (ib_operations db) ?o = None"
    using assms by (auto simp: persist_def Let_def split: if_split_asm)
  obtain r t where r: "Identity e = Some r" "Time_Parse (ri_RecordedAt r) = Some t"
    using assms free by (auto simp: persist_def Let_def split: option.split_asm)
  let ?row = "\<lparr>prj_event = evt_EventID e, prj_request_hash = ri_RequestHash r, prj_kind = ri_Kind r, prj_outcome = ri_Outcome r,
     prj_recorded = en_timestamptz E t, prj_receipt = (case evt_Receipt e of None \<Rightarrow> JNull | Some v \<Rightarrow> v)\<rparr>"
  have "db' = \<lparr>ib_inbox = AList.update ?k h (ib_inbox db), ib_operations = AList.update ?o ?row (ib_operations db)\<rparr>"
    using assms free r by (auto simp: persist_def Let_def insert_row_Inr)
  moreover have "projects e r ?row" by (simp add: projects_def)
  ultimately show thesis using that r(1) free by blast
qed

lemma persist_Inr:
  assumes "persist E e h db = Inr db'"
  shows "extends db db'" and "ingested db' e h"
    and "map_of (ib_inbox db) (evt_BookID e, evt_EventID e) \<noteq> None \<Longrightarrow> db' = db"
proof -
  let ?k = "(evt_BookID e, evt_EventID e)"
  have "extends db db' \<and> ingested db' e h \<and> (map_of (ib_inbox db) ?k \<noteq> None \<longrightarrow> db' = db)"
  proof (cases "map_of (ib_inbox db) ?k")
    case None
    then show ?thesis
      by (rule persist_new [OF assms]) (use None in \<open>auto simp: extends_def ingested_def projects_def update_conv'\<close>)
  next
    case (Some x)
    then show ?thesis
      using assms by (auto simp: persist_def Let_def ingested_def split: if_split_asm option.split_asm)
  qed
  then show "extends db db'" and "ingested db' e h"
    and "map_of (ib_inbox db) ?k \<noteq> None \<Longrightarrow> db' = db" by blast+
qed

text \<open>An attempt leaves the tables as they were, or with the event; it succeeds only with the event there.\<close>

lemma acceptOnce_outcome:
  assumes "acceptOnce E a e h db = (res, db')" and "\<And>d. extends d (at_others a d)"
  shows "extends db db'" and "res = Inr () \<Longrightarrow> ingested db' e h"
proof -
  let ?d = "at_others a db"
  have step: "extends ?d x" if "persist E e h ?d = Inr x" for x using persist_Inr(1) [OF that] .
  have "extends ?d db' \<and> (res = Inr () \<longrightarrow> ingested db' e h)"
    using assms(1) step persist_Inr(2) [of E e h ?d]
    by (auto simp: acceptOnce_def Let_def split: if_split_asm option.split_asm sum.split_asm prod.split_asm)
  then show "extends db db'" and "res = Inr () \<Longrightarrow> ingested db' e h"
    using extends_trans [OF assms(2) [of db]] by blast+
qed

lemma accept_loop_outcome:
  assumes "accept_loop n E env k e h db = (res, db')" and "\<And>k d. extends d (at_others (env k) d)"
  shows "extends db db' \<and> (res = Inr () \<longrightarrow> ingested db' e h)"
  using assms(1)
proof (induction n arbitrary: k db)
  case (Suc n)
  obtain r d where once: "acceptOnce E (env k) e h db = (r, d)" by fastforce
  note out = acceptOnce_outcome [OF once assms(2)]
  show ?case
  proof (cases r)
    case (Inl err)
    consider "accept_loop n E env (Suc k) e h d = (res, db')" | "db' = d" "res \<noteq> Inr ()"
      using Suc.prems once Inl by (auto split: if_split_asm)
    then show ?thesis using Suc.IH [of "Suc k" d] out(1) extends_trans by cases blast+
  next
    case (Inr u)
    then show ?thesis using Suc.prems once out by auto
  qed
qed auto

lemma Accept_outcome:
  assumes "Accept E cd env data db = (res, db')" and "\<And>k d. extends d (at_others (env k) d)"
  shows "extends db db'" and "res = Inr () \<Longrightarrow> \<exists>e canonical. Decode cd data = Some (e, canonical) \<and> ingested db' e (digest E canonical)"
proof -
  have "extends db db' \<and> (res = Inr () \<longrightarrow> (\<exists>e canonical. Decode cd data = Some (e, canonical) \<and> ingested db' e (digest E canonical)))"
  proof (cases "Decode cd data")
    case (Some x)
    obtain e c where x: "x = (e, c)" by fastforce
    have "accept_loop 8 E env 0 e (digest E c) db = (res, db')" using assms(1) Some x by (simp add: Accept_def)
    from accept_loop_outcome [OF this assms(2)] show ?thesis using Some x by blast
  qed (use assms(1) in \<open>auto simp: Accept_def\<close>)
  then show "extends db db'" and "res = Inr () \<Longrightarrow> \<exists>e canonical. Decode cd data = Some (e, canonical) \<and> ingested db' e (digest E canonical)"
    by blast+
qed

text \<open>The handler answers itself and touches nothing, or hands the event to the store.\<close>

lemma handler_cases:
  assumes "eventHandler E cd config ready env q db = (status, db')"
  obtains (refused) "db' = db" and "status \<in> {200, 400, 403, 404, 405, 413, 503}"
  | (stored) data e c r where "hr_Body q = Some data" and "Peer (hr_TLS q) (ec_ProducerIdentity config)" and "Decode cd data = Some (e, c)"
      and "evt_BookID e \<in> set (ec_Books config)" and "Accept E cd env data db = (r, db')"
      and "status = (case r of Inr _ \<Rightarrow> 204 | Inl err \<Rightarrow> if err = ErrConflict then 409 else 503)"
proof (cases "hr_Body q")
  case None
  then show thesis using assms refused by (auto simp: eventHandler_def split: if_split_asm)
next
  case body: (Some data)
  show thesis
  proof (cases "Decode cd data")
    case None
    then show thesis using assms body refused by (auto simp: eventHandler_def split: if_split_asm)
  next
    case (Some x)
    obtain e c where x: "x = (e, c)" by fastforce
    obtain r d where r: "Accept E cd env data db = (r, d)" by fastforce
    have "db' = db \<and> status \<in> {200, 400, 403, 404, 405, 413, 503} \<or>
      Peer (hr_TLS q) (ec_ProducerIdentity config) \<and> evt_BookID e \<in> set (ec_Books config) \<and> db' = d \<and>
      status = (case r of Inr _ \<Rightarrow> 204 | Inl err \<Rightarrow> if err = ErrConflict then 409 else 503)"
      using assms body Some x r by (auto simp: eventHandler_def split: if_split_asm sum.split_asm)
    then show thesis using refused stored body Some x r by blast
  qed
qed

lemma handler_outcome:
  assumes "eventHandler E cd config ready env q db = (status, db')" and "\<And>k d. extends d (at_others (env k) d)"
  shows "extends db db'" and "status = 204 \<Longrightarrow> \<exists>data e c. hr_Body q = Some data \<and> Decode cd data = Some (e, c) \<and> ingested db' e (digest E c)"
  using assms(1)
  by (rule handler_cases, simp, metis Accept_outcome(1) assms(2))
     (rule handler_cases [OF assms(1)], simp, auto split: sum.split_asm if_split_asm dest!: Accept_outcome(2) [OF _ assms(2)])

section \<open>What the rows of the inbox stand for\<close>

text \<open>
  Every row records the digest of a canonical text among those in play, whose event is projected with its own
  classification and receipt.
\<close>

definition projected :: "env \<Rightarrow> codec \<Rightarrow> string set \<Rightarrow> inbox_db \<Rightarrow> bool" where
  "projected E cd T db = (\<forall>b i h. map_of (ib_inbox db) (b, i) = Some h \<longrightarrow>
     (\<exists>data e c r p. Decode cd data = Some (e, c) \<and> c \<in> T \<and> h = digest E c \<and> evt_BookID e = b \<and> evt_EventID e = i \<and> Identity e = Some r
       \<and> map_of (ib_operations db) (b, evt_OperationID e) = Some p \<and> projects e r p))"

lemma projected_row:
  assumes "projected E cd T db" and "map_of (ib_inbox db) (b, i) = Some h"
  obtains data e c r p where "Decode cd data = Some (e, c)" "c \<in> T" "h = digest E c" "evt_BookID e = b" "evt_EventID e = i" "Identity e = Some r"
    "map_of (ib_operations db) (b, evt_OperationID e) = Some p" "projects e r p"
  using assms unfolding projected_def by blast

lemma persist_projected:
  assumes "persist E e (digest E c) db = Inr db'" and "Decode cd data = Some (e, c)" and "c \<in> T" and "projected E cd T db"
  shows "projected E cd T db'"
proof (cases "map_of (ib_inbox db) (evt_BookID e, evt_EventID e)")
  case (Some x)
  then show ?thesis using persist_Inr(3) [OF assms(1)] assms(4) by simp
next
  case None
  let ?k = "(evt_BookID e, evt_EventID e)" and ?o = "(evt_BookID e, evt_OperationID e)"
  obtain r p where r: "Identity e = Some r" "projects e r p" "map_of (ib_operations db) ?o = None"
    and db': "db' = \<lparr>ib_inbox = AList.update ?k (digest E c) (ib_inbox db), ib_operations = AList.update ?o p (ib_operations db)\<rparr>"
    using persist_new [OF assms(1) None] .
  have "\<exists>data e c r p. Decode cd data = Some (e, c) \<and> c \<in> T \<and> h = digest E c \<and> evt_BookID e = b \<and> evt_EventID e = i \<and> Identity e = Some r
       \<and> map_of (ib_operations db') (b, evt_OperationID e) = Some p \<and> projects e r p"
    if row: "map_of (ib_inbox db') (b, i) = Some h" for b i h
  proof (cases "(b, i) = ?k")
    case True
    then have "h = digest E c" "b = evt_BookID e" "i = evt_EventID e" using row by (auto simp: db' update_conv')
    moreover have "map_of (ib_operations db') ?o = Some p" by (simp add: db' update_conv')
    ultimately show ?thesis using assms(2,3) r by blast
  next
    case False
    then have "map_of (ib_inbox db) (b, i) = Some h" using row by (auto simp: db' update_conv')
    then show ?thesis
    proof (rule projected_row [OF assms(4)])
      fix data1 e1 c1 r1 p1
      assume old: "Decode cd data1 = Some (e1, c1)" "c1 \<in> T" "h = digest E c1" "evt_BookID e1 = b" "evt_EventID e1 = i" "Identity e1 = Some r1"
        "map_of (ib_operations db) (b, evt_OperationID e1) = Some p1" "projects e1 r1 p1"
      then have "map_of (ib_operations db') (b, evt_OperationID e1) = Some p1"
        using persist_Inr(1) [OF assms(1)] unfolding extends_def by blast
      then show ?thesis using old by blast
    qed
  qed
  then show ?thesis unfolding projected_def by blast
qed

text \<open>What other writers and a successful \<open>persist\<close> keep, the handler keeps.\<close>

lemma accept_loop_keeps:
  assumes "accept_loop n E env k e h db = (res, db')" and "\<And>k d. Q d \<Longrightarrow> Q (at_others (env k) d)"
    and "\<And>d d'. Q d \<Longrightarrow> persist E e h d = Inr d' \<Longrightarrow> Q d'" and "Q db"
  shows "Q db'"
  using assms(1,4)
proof (induction n arbitrary: k db)
  case (Suc n)
  obtain r d where once: "acceptOnce E (env k) e h db = (r, d)" by fastforce
  have "Q d" using once assms(2) [OF Suc.prems(2)] assms(3)
    by (auto simp: acceptOnce_def Let_def split: if_split_asm option.split_asm sum.split_asm prod.split_asm)
  then show ?case using Suc.prems(1) Suc.IH once by (auto split: sum.split_asm if_split_asm)
qed simp

lemma Accept_projected:
  assumes "Accept E cd env data db = (res, db')" and "\<And>k d. projected E cd T d \<Longrightarrow> projected E cd T (at_others (env k) d)"
    and "\<And>e c. Decode cd data = Some (e, c) \<Longrightarrow> c \<in> T" and "projected E cd T db"
  shows "projected E cd T db'"
proof (cases "Decode cd data")
  case (Some x)
  obtain e c where x: "x = (e, c)" by fastforce
  have run: "accept_loop 8 E env 0 e (digest E c) db = (res, db')" using assms(1) Some x by (simp add: Accept_def)
  show ?thesis
    by (rule accept_loop_keeps [OF run, where Q = "projected E cd T"]) (use Some x assms(2-4) persist_projected in blast)+
qed (use assms in \<open>simp add: Accept_def\<close>)

lemma handler_projected:
  assumes "eventHandler E cd config ready env q db = (status, db')"
    and "\<And>k d. projected E cd T d \<Longrightarrow> projected E cd T (at_others (env k) d)"
    and "\<And>data e c. hr_Body q = Some data \<Longrightarrow> Decode cd data = Some (e, c) \<Longrightarrow> c \<in> T" and "projected E cd T db"
  shows "projected E cd T db'"
  using assms(1)
proof (cases rule: handler_cases)
  case (stored data e c r)
  show ?thesis by (rule Accept_projected [OF stored(5)]) (use assms(2-4) stored(1) in blast)+
qed (use assms(4) in simp)

section \<open>Conflicts\<close>

text \<open>Durable evidence against an event: its identity has another digest, or its operation is projected already.\<close>

definition contradicted :: "inbox_db \<Rightarrow> event \<Rightarrow> string \<Rightarrow> bool" where
  "contradicted db e h =
     ((\<exists>h'. map_of (ib_inbox db) (evt_BookID e, evt_EventID e) = Some h' \<and> h' \<noteq> h) \<or>
      map_of (ib_inbox db) (evt_BookID e, evt_EventID e) = None \<and> map_of (ib_operations db) (evt_BookID e, evt_OperationID e) \<noteq> None)"

text \<open>The driver never reports the error of the store itself.\<close>

definition foreign_faults :: "(nat \<Rightarrow> inbox_db attempt) \<Rightarrow> bool" where
  "foreign_faults env = (\<forall>k. at_fault (env k) \<noteq> Some ErrConflict \<and> (\<forall>r. at_commit (env k) \<noteq> Some (ErrConflict, r)))"

lemma persist_conflict: "persist E e h db = Inl ErrConflict \<Longrightarrow> contradicted db e h"
  by (auto simp: persist_def contradicted_def Let_def insert_row_def res_bind_def
      split: option.split_asm if_split_asm sum.split_asm)

lemma accept_loop_conflict:
  assumes "accept_loop n E env k e h db = (Inl ErrConflict, db')" and "foreign_faults env"
  shows "contradicted db' e h"
  using assms(1)
proof (induction n arbitrary: k db)
  case (Suc n)
  obtain r d where once: "acceptOnce E (env k) e h db = (r, d)" by fastforce
  have here: "contradicted d e h" if "r = Inl ErrConflict"
    using once that assms(2) persist_conflict
    by (auto simp: acceptOnce_def Let_def foreign_faults_def split: if_split_asm option.split_asm sum.split_asm)
  show ?case
  proof (cases r)
    case (Inl err)
    then show ?thesis using Suc once here by (cases "err = ErrConflict") (auto split: if_split_asm)
  next
    case (Inr u)
    then show ?thesis using Suc.prems once by simp
  qed
qed simp

section \<open>Properties\<close>

text \<open>
  C17. The inbox takes one event per identity and one per operation: when an event was accepted and, whatever
  was recorded since, a second one is accepted with the same event identity or the same operation of that book, then it is the
  same event with the same digest, and what was projected for the operation is unchanged.
\<close>

theorem event_accepted_once:
  assumes "Accept E cd env1 data1 db = (Inr (), db1)" and "extends db1 db2" and "Accept E cd env2 data2 db2 = (Inr (), db3)"
    and "\<And>k d. extends d (at_others (env1 k) d)" and "\<And>k d. extends d (at_others (env2 k) d)"
    and "Decode cd data1 = Some (e1, c1)" and "Decode cd data2 = Some (e2, c2)" and "evt_BookID e1 = evt_BookID e2"
    and "evt_EventID e1 = evt_EventID e2 \<or> evt_OperationID e1 = evt_OperationID e2"
  shows "evt_EventID e1 = evt_EventID e2 \<and> digest E c1 = digest E c2
    \<and> map_of (ib_operations db3) (evt_BookID e1, evt_OperationID e1) = map_of (ib_operations db1) (evt_BookID e1, evt_OperationID e1)"
proof -
  have first: "ingested db1 e1 (digest E c1)" using Accept_outcome(2) [OF assms(1,4)] assms(6) by auto
  have second: "ingested db3 e2 (digest E c2)" using Accept_outcome(2) [OF assms(3,5)] assms(7) by auto
  have grown: "extends db1 db3" using extends_trans [OF assms(2) Accept_outcome(1) [OF assms(3,5)]] .
  have still: "ingested db3 e1 (digest E c1)" using extends_ingested [OF grown first] .
  then have "evt_EventID e1 = evt_EventID e2" using second assms(8,9) by (auto simp: ingested_def)
  moreover then have "digest E c1 = digest E c2" using still second assms(8) by (simp add: ingested_def)
  moreover have "map_of (ib_operations db3) (evt_BookID e1, evt_OperationID e1) = map_of (ib_operations db1) (evt_BookID e1, evt_OperationID e1)"
    using first grown by (auto simp: ingested_def extends_def)
  ultimately show ?thesis by blast
qed

text \<open>
  C18. Every answer of the event endpoint means what it says: only an authenticated producer of a configured book
  reaches the store, a refusal (wrong peer, path, method, type, size, content or book) leaves the inbox untouched, 204 is
  answered only with the event recorded, and 409 only with durable evidence against it.
\<close>

theorem event_answers:
  assumes "eventHandler E cd config ready env q db = (status, db')" and "\<And>k d. extends d (at_others (env k) d)" and "foreign_faults env"
  shows "status \<in> {200, 204, 400, 403, 404, 405, 409, 413, 503}
    \<and> (status \<in> {204, 409, 503} \<and> Peer (hr_TLS q) (ec_ProducerIdentity config) \<or> db' = db)
    \<and> (status \<in> {204, 409} \<longrightarrow> (\<exists>data e c. hr_Body q = Some data \<and> Decode cd data = Some (e, c) \<and> evt_BookID e \<in> set (ec_Books config)
      \<and> (if status = 204 then ingested db' e (digest E c) else contradicted db' e (digest E c))))"
  using assms(1)
proof (cases rule: handler_cases)
  case (stored data e c r)
  show ?thesis
  proof (cases "r = Inl ErrConflict")
    case True
    then have "accept_loop 8 E env 0 e (digest E c) db = (Inl ErrConflict, db')" using stored by (simp add: Accept_def)
    from accept_loop_conflict [OF this assms(3)] show ?thesis using stored True by auto
  next
    case False
    then show ?thesis using stored Accept_outcome(2) [OF stored(5) assms(2)] by (cases r) auto
  qed
qed auto

section \<open>A concrete inbox\<close>

definition x_inbox_attempts :: "nat \<Rightarrow> inbox_db attempt" where
  "x_inbox_attempts k = \<lparr>at_begin = True, at_clock = x_time 2000, at_others = id, at_fault = None, at_commit = None, at_pause = True\<rparr>"

definition x_inbox :: inbox_db where "x_inbox = \<lparr>ib_inbox = [], ib_operations = []\<rparr>"

definition x_ingested :: inbox_db where
  "x_ingested = \<lparr>ib_inbox = [((x_uuid (CHR ''a''), x_uuid (CHR ''b'')), digest x_env ''wire'')],
     ib_operations = [((x_uuid (CHR ''a''), x_uuid (CHR ''c'')),
       \<lparr>prj_event = x_uuid (CHR ''b''), prj_request_hash = replicate 64 (CHR ''0''), prj_kind = ''TRANSFER_INTERNAL'', prj_outcome = ''APPLIED'',
        prj_recorded = en_timestamptz x_env (the (Time_Parse ''2026-01-02T03:04:05.5Z'')), prj_receipt = the (evt_Receipt x_envelope)\<rparr>)]\<rparr>"

lemma x_accepted:
  "Accept x_env x_codec x_inbox_attempts ''wire'' x_inbox = (Inr (), x_ingested)"
  "Accept x_env x_codec x_inbox_attempts ''wire'' x_ingested = (Inr (), x_ingested)"
proof -
  have ids: "evt_BookID x_envelope = x_uuid (CHR ''a'')" "evt_EventID x_envelope = x_uuid (CHR ''b'')" "evt_OperationID x_envelope = x_uuid (CHR ''c'')"
    by (simp_all add: x_envelope_def)
  have ri: "ri_RequestHash x_identity = replicate 64 (CHR ''0'')" "ri_Kind x_identity = ''TRANSFER_INTERNAL''" "ri_Outcome x_identity = ''APPLIED''"
    "ri_RecordedAt x_identity = ''2026-01-02T03:04:05.5Z''" by (simp_all add: x_identity_def)
  obtain t where t: "Time_Parse ''2026-01-02T03:04:05.5Z'' = Some t"
    using x_envelope_parts(1) by (auto simp: bind_eq_Some_conv)
  have h: "length (digest x_env ''wire'') = 64" by (simp add: digest_def x_env_def)
  have rc: "evt_Receipt x_envelope = Some (the (evt_Receipt x_envelope))" by (simp add: x_envelope_def)
  have one: "persist x_env x_envelope (digest x_env ''wire'') x_inbox = Inr x_ingested"
    using h t rc by (auto simp: persist_def Let_def ids ri x_envelope_read(2) insert_row_def x_inbox_def x_ingested_def projection_checks_def
        split: option.split)
  have two: "persist x_env x_envelope (digest x_env ''wire'') x_ingested = Inr x_ingested"
    by (simp add: persist_def Let_def ids x_ingested_def)
  show "Accept x_env x_codec x_inbox_attempts ''wire'' x_inbox = (Inr (), x_ingested)"
    and "Accept x_env x_codec x_inbox_attempts ''wire'' x_ingested = (Inr (), x_ingested)"
    by (simp_all add: Accept_def x_decode acceptOnce_def x_inbox_attempts_def one two numeral_eq_Suc)
qed

theorem event_accepted_once_witness:
  "Accept x_env x_codec x_inbox_attempts ''wire'' x_inbox = (Inr (), x_ingested)
   \<and> Accept x_env x_codec x_inbox_attempts ''wire'' x_ingested = (Inr (), x_ingested)
   \<and> evt_EventID x_envelope = evt_EventID x_envelope \<and> digest x_env ''wire'' = digest x_env ''wire''
   \<and> map_of (ib_operations x_ingested) (evt_BookID x_envelope, evt_OperationID x_envelope) =
     map_of (ib_operations x_ingested) (evt_BookID x_envelope, evt_OperationID x_envelope)"
  by (intro conjI x_accepted event_accepted_once [OF x_accepted(1) extends_refl x_accepted(2) _ _ x_decode x_decode refl disjI1 [OF refl],
        THEN conjunct1] event_accepted_once [OF x_accepted(1) extends_refl x_accepted(2) _ _ x_decode x_decode refl disjI1 [OF refl],
        THEN conjunct2, THEN conjunct1] event_accepted_once [OF x_accepted(1) extends_refl x_accepted(2) _ _ x_decode x_decode refl
        disjI1 [OF refl], THEN conjunct2, THEN conjunct2])
     (simp_all add: x_inbox_attempts_def)

definition x_event_config :: event_config where
  "x_event_config = \<lparr>ec_ProducerIdentity = ''spiffe://pesaro/ledger'', ec_Books = [x_uuid (CHR ''a'')]\<rparr>"

definition x_link :: link where
  "x_link = \<lparr>lk_TLS = Some \<lparr>tls_chains = 1, tls_uris = [[''spiffe://pesaro/ledger'']]\<rparr>, lk_Path = EventPath, lk_reaches = True, lk_replies = True\<rparr>"

definition x_request :: http_request where
  "x_request = \<lparr>hr_TLS = lk_TLS x_link, hr_Path = lk_Path x_link, hr_Method = ''POST'', hr_ContentType = ''application/json'',
     hr_RawQuery = [], hr_Body = Some ''wire''\<rparr>"

lemma x_handled: "eventHandler x_env x_codec x_event_config True x_inbox_attempts x_request x_inbox = (204, x_ingested)"
proof -
  have "evt_BookID x_envelope = x_uuid (CHR ''a'')" by (simp add: x_envelope_def)
  then show ?thesis
    by (simp add: eventHandler_def x_request_def x_link_def x_event_config_def Peer_def EventPath_def MaxBytes_def x_decode x_accepted(1))
qed

theorem event_answers_witness:
  "\<exists>e c. Decode x_codec ''wire'' = Some (e, c) \<and> evt_BookID e \<in> set (ec_Books x_event_config) \<and> ingested x_ingested e (digest x_env c)"
proof -
  have "foreign_faults x_inbox_attempts" "\<And>k d. extends d (at_others (x_inbox_attempts k) d)"
    by (simp_all add: foreign_faults_def x_inbox_attempts_def)
  from event_answers [OF x_handled this(2,1)] show ?thesis by (auto simp: x_request_def)
qed

end
