(* ===== verification/Persistence.thy ===== *)
theory Persistence
  imports Exactly_Once
begin

text \<open>
  What the statements of \<open>save.go\<close> do to the quantities the books are kept in: the debits, credits and
  held funds of an account, the funds and limits the open holds reserve, and the journal lines.
\<close>

section \<open>Quantities of the database\<close>

definition column :: "('v \<Rightarrow> int) \<Rightarrow> ('k, 'v) table \<Rightarrow> 'k \<Rightarrow> int" where
  "column f t k = (case map_of t k of None \<Rightarrow> 0 | Some r \<Rightarrow> f r)"

definition held_sum :: "ID \<Rightarrow> ID \<Rightarrow> (ID \<times> ID, hold_row) table \<Rightarrow> int" where
  "held_sum b i t = table_sum (\<lambda>k r. if fst k = b then hold_held i (hold_of_row r) else 0) t"

definition limit_sum :: "ID \<Rightarrow> ID \<Rightarrow> string \<Rightarrow> (ID \<times> ID, hold_row) table \<Rightarrow> int" where
  "limit_sum b owner bucket t = table_sum (\<lambda>k r.
     if fst k = b \<and> hd_OwnerID (hdr_terms r) = owner \<and> hd_Bucket (hdr_terms r) = bucket
     then hold_limit (hold_of_row r) else 0) t"

definition line_sum :: "side \<Rightarrow> ID \<Rightarrow> ID \<Rightarrow> (ID \<times> ID \<times> nat, line_row) table \<Rightarrow> int" where
  "line_sum sd b i t = table_sum (\<lambda>k r.
     if fst k = b \<and> lnr_account r = i \<and> lnr_side r = sd then sint (lnr_units r) else 0) t"

definition journal_sum :: "side \<Rightarrow> ID \<Rightarrow> ID \<Rightarrow> (ID \<times> ID \<times> nat, line_row) table \<Rightarrow> int" where
  "journal_sum sd b j t = table_sum (\<lambda>k r.
     if fst k = b \<and> fst (snd k) = j \<and> lnr_side r = sd then sint (lnr_units r) else 0) t"

definition row_tally :: "balance_row \<Rightarrow> tally" where
  "row_tally r = (blr_debits r, blr_credits r, blr_held r)"

lemma distinct_map_ne: "distinct (map f (x # xs)) \<Longrightarrow> y \<in> set xs \<Longrightarrow> f y \<noteq> f x"
  by (metis distinct.simps(2) image_eqI list.simps(9) set_map)

lemma column_update:
  "column f (AList.update k v t) k' = (if k' = k then f v else column f t k')"
  by (simp add: column_def update_conv')

section \<open>Balances\<close>

text \<open>A change that starts from what the table has: the row before it, or no row.\<close>

definition change_fits :: "ID \<Rightarrow> (ID \<times> ID, balance_row) table \<Rightarrow> balance change \<Rightarrow> bool" where
  "change_fits b t ch =
     (totals_ok (bl_Totals (ch_After ch)) \<and>
      (case ch_Before ch of None \<Rightarrow> True
       | Some x \<Rightarrow> (case map_of t (b, bl_AccountID (ch_After ch)) of None \<Rightarrow> False
           | Some r \<Rightarrow> row_tally r = tally_of (bl_Totals x))))"

lemma save_balance_row:
  assumes "save_balance b op ch db = Inr db'" and "change_fits b (db_balances db) ch"
  obtains r :: balance_row and a :: account_row where "db_balances db' = AList.update (b, bl_AccountID (ch_After ch)) r (db_balances db)"
    "row_tally r = tally_of (bl_Totals (ch_After ch))" "balance_checks r"
    "map_of (db_accounts db) (b, bl_AccountID (ch_After ch)) = Some a"
    "case map_of (db_balances db) (b, bl_AccountID (ch_After ch)) of
       None \<Rightarrow> ch_Before ch = None \<and> blr_purpose r = acr_purpose a
     | Some old \<Rightarrow> ch_Before ch \<noteq> None \<and> blr_purpose r = blr_purpose old"
proof -
  let ?a = "ch_After ch"
  let ?k = "(b, bl_AccountID ?a)"
  have w: "wide_ok (tt_Debits (bl_Totals ?a))" "wide_ok (tt_Credits (bl_Totals ?a))" "wide_ok (tt_Held (bl_Totals ?a))"
    using assms(2) by (simp_all add: change_fits_def totals_ok_def)
  let ?row = "\<lambda>p. \<lparr>blr_purpose = p, blr_debits = wide_val (tt_Debits (bl_Totals ?a)),
    blr_credits = wide_val (tt_Credits (bl_Totals ?a)), blr_held = wide_val (tt_Held (bl_Totals ?a)), blr_version = bl_Version ?a\<rparr>"
  have tally: "row_tally (?row p) = tally_of (bl_Totals ?a)" for p by (simp add: row_tally_def tally_of_def)
  show thesis
  proof (cases "ch_Before ch")
    case None
    obtain acc where acc: "map_of (db_accounts db) ?k = Some acc"
      using assms(1) w None by (cases "map_of (db_accounts db) ?k") (simp_all add: save_balance_def Let_def)
    have "balance_checks (?row (acr_purpose acc)) \<and> map_of (db_balances db) ?k = None
      \<and> db_balances db' = AList.update ?k (?row (acr_purpose acc)) (db_balances db)"
      using assms(1) w None acc by (auto simp: save_balance_def Let_def insert_row_Inr)
    then show thesis using acc None tally by (intro that [of "?row (acr_purpose acc)" acc]) simp_all
  next
    case (Some x)
    have acc: "has_account db b (bl_AccountID ?a)"
      using assms(1) w Some by (auto simp: save_balance_def Let_def insert_row_Inr)
    obtain old where old: "map_of (db_balances db) ?k = Some old"
      using assms(1) w Some by (auto simp: save_balance_def Let_def update_row_Inr)
    have new: "old\<lparr>blr_debits := wide_val (tt_Debits (bl_Totals ?a)), blr_credits := wide_val (tt_Credits (bl_Totals ?a)),
      blr_held := wide_val (tt_Held (bl_Totals ?a)), blr_version := bl_Version ?a\<rparr> = ?row (blr_purpose old)" by simp
    have "balance_checks (?row (blr_purpose old)) \<and> db_balances db' = AList.update ?k (?row (blr_purpose old)) (db_balances db)"
      using assms(1) w Some old new by (auto simp: save_balance_def Let_def update_row_Inr)
    then show thesis using acc old Some tally by (auto simp: has_account_def intro!: that [of "?row (blr_purpose old)"])
  qed
qed

text \<open>A quantity of the rows follows the same quantity of the balances.\<close>

definition row_quantity :: "(balance_row \<Rightarrow> int) \<Rightarrow> (balance \<Rightarrow> int) \<Rightarrow> bool" where
  "row_quantity f g = (\<exists>h. \<forall>r b. f r = h (row_tally r) \<and> g b = h (tally_of (bl_Totals b)))"

lemma row_quantities: "row_quantity blr_debits debits" "row_quantity blr_credits credits" "row_quantity blr_held held"
  unfolding row_quantity_def row_tally_def
  by (rule exI [of _ fst], simp, rule exI [of _ "\<lambda>x. fst (snd x)"], simp, rule exI [of _ "\<lambda>x. snd (snd x)"], simp)

lemma save_balance_column:
  assumes "save_balance b op ch db = Inr db'" and "change_fits b (db_balances db) ch" and "row_quantity f g"
  shows "column f (db_balances db') (b', i) = column f (db_balances db) (b', i)
      + (if b' = b then balance_delta g i [ch] else 0)"
proof -
  obtain h where h: "\<And>r. f r = h (row_tally r)" "\<And>x. g x = h (tally_of (bl_Totals x))"
    using assms(3) unfolding row_quantity_def by blast
  obtain r :: balance_row and a :: account_row where r: "db_balances db' = AList.update (b, bl_AccountID (ch_After ch)) r (db_balances db)"
    "row_tally r = tally_of (bl_Totals (ch_After ch))"
    and old: "case map_of (db_balances db) (b, bl_AccountID (ch_After ch)) of
       None \<Rightarrow> ch_Before ch = None \<and> blr_purpose r = acr_purpose a
     | Some old \<Rightarrow> ch_Before ch \<noteq> None \<and> blr_purpose r = blr_purpose old"
    using assms(1,2) by (rule save_balance_row)
  have "change_by g ch = f r - column f (db_balances db) (b, bl_AccountID (ch_After ch))"
    using old r(2) assms(2)
    by (cases "ch_Before ch"; cases "map_of (db_balances db) (b, bl_AccountID (ch_After ch))")
       (simp_all add: change_by_def column_def h change_fits_def)
  then show ?thesis by (simp add: r(1) column_update balance_delta_def)
qed

text \<open>Each balance row satisfies the constraints of the schema and carries the purpose of its account.\<close>

definition rows_ok :: "db \<Rightarrow> bool" where
  "rows_ok db = (\<forall>k r. map_of (db_balances db) k = Some r \<longrightarrow> balance_checks r \<and>
     (\<exists>a. map_of (db_accounts db) k = Some a \<and> acr_purpose a = blr_purpose r))"

lemma save_balance_rows:
  assumes "save_balance b op ch db = Inr db'" and "change_fits b (db_balances db) ch" and "rows_ok db"
  shows "rows_ok db'"
    and "map_of (db_balances db') k \<noteq> None \<longleftrightarrow> map_of (db_balances db) k \<noteq> None \<or> k = (b, bl_AccountID (ch_After ch))"
proof -
  obtain r :: balance_row and a :: account_row where r: "db_balances db' = AList.update (b, bl_AccountID (ch_After ch)) r (db_balances db)"
    "balance_checks r" "map_of (db_accounts db) (b, bl_AccountID (ch_After ch)) = Some a"
    and old: "case map_of (db_balances db) (b, bl_AccountID (ch_After ch)) of
       None \<Rightarrow> ch_Before ch = None \<and> blr_purpose r = acr_purpose a
     | Some old \<Rightarrow> ch_Before ch \<noteq> None \<and> blr_purpose r = blr_purpose old"
    using assms(1,2) by (rule save_balance_row)
  have "db_accounts db' = db_accounts db" using save_balance_frame [OF assms(1)] by auto
  moreover have "acr_purpose a = blr_purpose r"
    using old r(3) assms(3) [unfolded rows_ok_def, rule_format, of "(b, bl_AccountID (ch_After ch))"]
    by (cases "map_of (db_balances db) (b, bl_AccountID (ch_After ch))") auto
  ultimately show "rows_ok db'" using assms(3) r by (auto simp: rows_ok_def update_conv')
  show "map_of (db_balances db') k \<noteq> None \<longleftrightarrow> map_of (db_balances db) k \<noteq> None \<or> k = (b, bl_AccountID (ch_After ch))"
    by (auto simp: r(1) update_conv')
qed

lemma save_balances_effect:
  assumes "save_each (save_balance b op) chs db = Inr db'" and "distinct (map (bl_AccountID \<circ> ch_After) chs)"
    and "\<forall>ch\<in>set chs. change_fits b (db_balances db) ch" and "rows_ok db"
  shows "rows_ok db'"
    and "map_of (db_balances db') k \<noteq> None \<longleftrightarrow>
      map_of (db_balances db) k \<noteq> None \<or> fst k = b \<and> snd k \<in> (bl_AccountID \<circ> ch_After) ` set chs"
    and "row_quantity f g \<Longrightarrow> column f (db_balances db') (b', i) =
      column f (db_balances db) (b', i) + (if b' = b then balance_delta g i chs else 0)"
proof -
  have "rows_ok db' \<and> (map_of (db_balances db') k \<noteq> None \<longleftrightarrow>
      map_of (db_balances db) k \<noteq> None \<or> fst k = b \<and> snd k \<in> (bl_AccountID \<circ> ch_After) ` set chs)
    \<and> (row_quantity f g \<longrightarrow> column f (db_balances db') (b', i) =
      column f (db_balances db) (b', i) + (if b' = b then balance_delta g i chs else 0))"
    using assms
  proof (induction chs arbitrary: db)
    case Nil
    then show ?case by (simp add: balance_delta_def)
  next
    case (Cons ch chs)
    obtain d where d: "save_balance b op ch db = Inr d" "save_each (save_balance b op) chs d = Inr db'"
      using Cons.prems(1) by auto
    have fit: "change_fits b (db_balances db) ch" using Cons.prems(3) by simp
    obtain r :: balance_row and a :: account_row where r: "db_balances d = AList.update (b, bl_AccountID (ch_After ch)) r (db_balances db)"
      using d(1) fit by (rule save_balance_row)
    have "change_fits b (db_balances d) c" if "c \<in> set chs" for c
    proof -
      have "bl_AccountID (ch_After c) \<noteq> bl_AccountID (ch_After ch)"
        using distinct_map_ne [OF Cons.prems(2) that] by simp
      then have "map_of (db_balances d) (b, bl_AccountID (ch_After c)) = map_of (db_balances db) (b, bl_AccountID (ch_After c))"
        by (simp add: r update_conv')
      moreover have "change_fits b (db_balances db) c" using Cons.prems(3) that by simp
      ultimately show ?thesis by (cases "ch_Before c") (simp_all add: change_fits_def)
    qed
    then have fits: "\<forall>c\<in>set chs. change_fits b (db_balances d) c" by blast
    have dist: "distinct (map (bl_AccountID \<circ> ch_After) chs)" using Cons.prems(2) by (simp add: comp_def)
    note IH = Cons.IH [OF d(2) dist fits save_balance_rows(1) [OF d(1) fit Cons.prems(4)]]
    have "map_of (db_balances db') k \<noteq> None \<longleftrightarrow> (map_of (db_balances db) k \<noteq> None \<or> k = (b, bl_AccountID (ch_After ch)))
        \<or> fst k = b \<and> snd k \<in> (bl_AccountID \<circ> ch_After) ` set chs"
      using IH save_balance_rows(2) [OF d(1) fit Cons.prems(4), of k] by blast
    then have "map_of (db_balances db') k \<noteq> None \<longleftrightarrow>
        map_of (db_balances db) k \<noteq> None \<or> fst k = b \<and> snd k \<in> (bl_AccountID \<circ> ch_After) ` set (ch # chs)"
      by (cases k) (simp, blast)
    moreover have "column f (db_balances db') (b', i) =
        column f (db_balances db) (b', i) + (if b' = b then balance_delta g i (ch # chs) else 0)" if "row_quantity f g"
      using IH that save_balance_column [OF d(1) fit that, of b' i] by (simp add: balance_delta_def)
    ultimately show ?case using IH by blast
  qed
  then show "rows_ok db'"
    and "map_of (db_balances db') k \<noteq> None \<longleftrightarrow>
      map_of (db_balances db) k \<noteq> None \<or> fst k = b \<and> snd k \<in> (bl_AccountID \<circ> ch_After) ` set chs"
    and "row_quantity f g \<Longrightarrow> column f (db_balances db') (b', i) =
      column f (db_balances db) (b', i) + (if b' = b then balance_delta g i chs else 0)" by blast+
qed

section \<open>Journals\<close>

text \<open>Every journal line belongs to a journal, and each journal has equal sums of debits and credits.\<close>

definition lines_ok :: "db \<Rightarrow> bool" where
  "lines_ok db = (table_ok (db_lines db) \<and>
     (\<forall>b j n r. map_of (db_lines db) (b, j, n) = Some r \<longrightarrow> map_of (db_journals db) (b, j) \<noteq> None) \<and>
     (\<forall>b j. journal_sum Debit b j (db_lines db) = journal_sum Credit b j (db_lines db)))"

lemma save_lines_effect:
  assumes "save_each (save_line b j) (enumerate n ls) db = Inr db'" and "table_ok (db_lines db)"
  shows "table_ok (db_lines db')"
    and "line_sum sd b' i (db_lines db') = line_sum sd b' i (db_lines db) + (if b' = b then lines_delta sd i ls else 0)"
    and "journal_sum sd b' j' (db_lines db') = journal_sum sd b' j' (db_lines db) + (if b' = b \<and> j' = j then side_sum sd ls else 0)"
    and "map_of (db_lines db') (b', j', m) \<noteq> None \<Longrightarrow> map_of (db_lines db) (b', j', m) \<noteq> None \<or> (b', j') = (b, j)"
proof -
  have "table_ok (db_lines db')
    \<and> line_sum sd b' i (db_lines db') = line_sum sd b' i (db_lines db) + (if b' = b then lines_delta sd i ls else 0)
    \<and> journal_sum sd b' j' (db_lines db') = journal_sum sd b' j' (db_lines db) + (if b' = b \<and> j' = j then side_sum sd ls else 0)
    \<and> (map_of (db_lines db') (b', j', m) \<noteq> None \<longrightarrow> map_of (db_lines db) (b', j', m) \<noteq> None \<or> (b', j') = (b, j))"
    using assms
  proof (induction ls arbitrary: db n)
    case (Cons l ls)
    let ?r = "\<lparr>lnr_account = ac_ID (ln_Account l), lnr_side = ln_Side l, lnr_units = units (ln_Amount l)\<rparr>"
    obtain d where d: "save_line b j (n, l) db = Inr d" "save_each (save_line b j) (enumerate (Suc n) ls) d = Inr db'"
      using Cons.prems(1) by auto
    have new: "db_lines d = AList.update (b, j, n) ?r (db_lines db)" "map_of (db_lines db) (b, j, n) = None"
      using d(1) by (auto simp: save_line_def Let_def insert_row_Inr)
    have ok: "table_ok (db_lines d)" using Cons.prems(2) by (simp add: new)
    show ?case
      using Cons.IH [OF d(2) ok] new
      by (auto simp: line_sum_def journal_sum_def table_sum_update [OF Cons.prems(2)] lines_delta_def amount_val_def
          update_conv' split: if_split_asm)
  qed (simp add: lines_delta_def)
  then show "table_ok (db_lines db')"
    and "line_sum sd b' i (db_lines db') = line_sum sd b' i (db_lines db) + (if b' = b then lines_delta sd i ls else 0)"
    and "journal_sum sd b' j' (db_lines db') = journal_sum sd b' j' (db_lines db) + (if b' = b \<and> j' = j then side_sum sd ls else 0)"
    and "map_of (db_lines db') (b', j', m) \<noteq> None \<Longrightarrow> map_of (db_lines db) (b', j', m) \<noteq> None \<or> (b', j') = (b, j)"
    by blast+
qed

definition opt_lines :: "journal option \<Rightarrow> line list" where
  "opt_lines j = (case j of None \<Rightarrow> [] | Some x \<Rightarrow> jr_lines x)"

lemma lines_ok_journal: "lines_ok db \<Longrightarrow> map_of (db_lines db) (b, j, n) = Some r \<Longrightarrow> map_of (db_journals db) (b, j) \<noteq> None"
  unfolding lines_ok_def by blast

lemma save_journal_effect:
  assumes "save_journal E rc jo db = Inr db'" and "lines_ok db"
    and "side_sum Debit (opt_lines jo) = side_sum Credit (opt_lines jo)"
  shows "lines_ok db'"
    and "line_sum sd b' i (db_lines db') = line_sum sd b' i (db_lines db) +
      (if b' = rc_BookID rc then lines_delta sd i (opt_lines jo) else 0)"
proof -
  have "lines_ok db' \<and> line_sum sd b' i (db_lines db') = line_sum sd b' i (db_lines db) +
      (if b' = rc_BookID rc then lines_delta sd i (opt_lines jo) else 0)"
  proof (cases jo)
    case None
    then show ?thesis using assms by (simp add: save_journal_def opt_lines_def lines_delta_def)
  next
    case (Some j)
    obtain r where r: "map_of (db_journals db) (rc_BookID rc, rc_JournalID rc) = None"
      and lines: "save_each (save_line (rc_BookID rc) (rc_JournalID rc)) (enumerate 0 (jr_lines j))
        (db\<lparr>db_journals := AList.update (rc_BookID rc, rc_JournalID rc) r (db_journals db)\<rparr>) = Inr db'"
      using assms(1) Some by (auto simp: save_journal_def Let_def insert_row_Inr)
    obtain t where db': "db' = db\<lparr>db_journals := AList.update (rc_BookID rc, rc_JournalID rc) r (db_journals db), db_lines := t\<rparr>"
      using save_lines_frame [OF lines] by auto
    have tok: "table_ok (db_lines db)" using assms(2) by (simp add: lines_ok_def)
    note eff = save_lines_effect [OF lines, simplified, OF tok]
    have "map_of (db_journals db') (b, k) \<noteq> None" if "map_of (db_lines db') (b, k, n) = Some x" for b k n x
      using eff(4) [of b k n] that lines_ok_journal [OF assms(2), of b k n] by (auto simp: db' update_conv')
    moreover have "journal_sum Debit b k (db_lines db') = journal_sum Credit b k (db_lines db')" for b k
      using eff(3) assms(2,3) Some by (simp add: lines_ok_def opt_lines_def)
    ultimately have "lines_ok db'" using eff(1) by (auto simp: lines_ok_def)
    then show ?thesis using eff(2) Some by (simp add: opt_lines_def)
  qed
  then show "lines_ok db'" and "line_sum sd b' i (db_lines db') = line_sum sd b' i (db_lines db) +
      (if b' = rc_BookID rc then lines_delta sd i (opt_lines jo) else 0)" by blast+
qed

section \<open>Holds\<close>

text \<open>A stored hold binds a wallet of its owner, a provider pool and a fee account of its book.\<close>

definition hold_row_ok :: "db \<Rightarrow> ID \<Rightarrow> hold \<Rightarrow> bool" where
  "hold_row_ok db b h =
     (terms_ok (hd_Terms h) \<and> hold_total h < 2 ^ 63
      \<and> (\<exists>a. map_of (db_accounts db) (b, tm_SourceID (hd_Terms h)) = Some a \<and> acr_purpose a = Wallet \<and> acr_owner a = hd_OwnerID h)
      \<and> (\<exists>a. map_of (db_accounts db) (b, hd_PoolID h) = Some a \<and> acr_purpose a = ProviderPool)
      \<and> (\<exists>a. map_of (db_accounts db) (b, hd_FeeAccountID h) = Some a \<and> acr_purpose a = FeeIncome))"

definition holds_ok :: "db \<Rightarrow> bool" where
  "holds_ok db = (table_ok (db_holds db) \<and>
     (\<forall>b i r. map_of (db_holds db) (b, i) = Some r \<longrightarrow> hd_ID (hdr_terms r) = i \<and> hold_row_ok db b (hdr_terms r)))"

definition hold_fits :: "ID \<Rightarrow> (ID \<times> ID, hold_row) table \<Rightarrow> hold change option \<Rightarrow> bool" where
  "hold_fits b t c = (\<forall>ch h. c = Some ch \<longrightarrow> ch_Before ch = Some h \<longrightarrow>
     (\<exists>r s. map_of t (b, hd_ID (ch_After ch)) = Some r \<and> hold_of_row r = h \<and> ch_After ch = h\<lparr>hd_State := s\<rparr>))"

text \<open>The quantities of a hold depend on its terms and on whether it is open.\<close>

lemma hold_of_row_simps [simp]:
  "hd_ID (hold_of_row r) = hd_ID (hdr_terms r)" "hd_Terms (hold_of_row r) = hd_Terms (hdr_terms r)"
  "hd_OwnerID (hold_of_row r) = hd_OwnerID (hdr_terms r)" "hd_Bucket (hold_of_row r) = hd_Bucket (hdr_terms r)"
  "hd_PoolID (hold_of_row r) = hd_PoolID (hdr_terms r)" "hd_FeeAccountID (hold_of_row r) = hd_FeeAccountID (hdr_terms r)"
  "hs_State (hd_State (hold_of_row r)) = hdr_state r" "hs_Version (hd_State (hold_of_row r)) = hdr_version r"
  "hd_AttemptID (hold_of_row r) = hd_AttemptID (hdr_terms r)"
  by (simp_all add: hold_of_row_def)

lemma hold_row_ok_state [simp]:
  "hold_row_ok db b (h\<lparr>hd_State := s\<rparr>) = hold_row_ok db b h" "hold_row_ok db b (hold_of_row r) = hold_row_ok db b (hdr_terms r)"
  by (simp_all add: hold_row_ok_def hold_total_def)

lemma save_hold_row:
  assumes "save_hold E b op (Some ch) db = Inr db'" and "hold_fits b (db_holds db) (Some ch)"
  obtains r where "db_holds db' = AList.update (b, hd_ID (ch_After ch)) r (db_holds db)"
    "hd_ID (hdr_terms r) = hd_ID (ch_After ch)" "hd_Terms (hdr_terms r) = hd_Terms (ch_After ch)"
    "hd_OwnerID (hdr_terms r) = hd_OwnerID (ch_After ch)" "hd_Bucket (hdr_terms r) = hd_Bucket (ch_After ch)"
    "hd_PoolID (hdr_terms r) = hd_PoolID (ch_After ch)" "hd_FeeAccountID (hdr_terms r) = hd_FeeAccountID (ch_After ch)"
    "hdr_state r = hs_State (hd_State (ch_After ch))"
    "map_option hold_of_row (map_of (db_holds db) (b, hd_ID (ch_After ch))) = ch_Before ch"
proof (cases "ch_Before ch")
  case None
  then have d: "map_of (db_holds db) (b, hd_ID (ch_After ch)) = None \<and> db_holds db' = AList.update (b, hd_ID (ch_After ch))
      \<lparr>hdr_payment = tm_PaymentID (hd_Terms (ch_After ch)), hdr_attempt = hd_AttemptID (ch_After ch), hdr_terms = ch_After ch,
       hdr_expires = en_timestamptz E (hs_ExpiresAt (hd_State (ch_After ch))), hdr_state = hs_State (hd_State (ch_After ch)),
       hdr_version = hs_Version (hd_State (ch_After ch))\<rparr> (db_holds db)"
    using assms(1) by (auto simp: save_hold_def Let_def insert_row_Inr)
  show thesis by (rule that [OF conjunct2 [OF d]]) (simp_all add: None d)
next
  case (Some h)
  obtain r s where r: "map_of (db_holds db) (b, hd_ID (ch_After ch)) = Some r" "hold_of_row r = h" "ch_After ch = h\<lparr>hd_State := s\<rparr>"
    using assms(2) Some unfolding hold_fits_def by blast
  have "db_holds db' = AList.update (b, hd_ID (ch_After ch)) (r\<lparr>hdr_state := hs_State s, hdr_version := hs_Version s\<rparr>) (db_holds db)"
    using assms(1) Some r(1,3) by (auto simp: save_hold_def Let_def update_row_Inr)
  then show thesis by (rule that) (simp_all add: r(1) Some, simp_all add: r(3) flip: r(2))
qed

lemma held_sum_update:
  "table_ok t \<Longrightarrow> held_sum b' i (AList.update (b, k) r t) = held_sum b' i t +
     (if b' = b then hold_held i (hold_of_row r) - (case map_of t (b, k) of None \<Rightarrow> 0 | Some x \<Rightarrow> hold_held i (hold_of_row x)) else 0)"
  by (simp add: held_sum_def table_sum_update split: option.split)

lemma limit_sum_update:
  assumes "table_ok t" and "\<And>x. map_of t (b, k) = Some x \<Longrightarrow>
    hd_OwnerID (hdr_terms x) = hd_OwnerID (hdr_terms r) \<and> hd_Bucket (hdr_terms x) = hd_Bucket (hdr_terms r)"
  shows "limit_sum b' owner bucket (AList.update (b, k) r t) = limit_sum b' owner bucket t +
     (if b' = b \<and> hd_OwnerID (hdr_terms r) = owner \<and> hd_Bucket (hdr_terms r) = bucket
      then hold_limit (hold_of_row r) - (case map_of t (b, k) of None \<Rightarrow> 0 | Some x \<Rightarrow> hold_limit (hold_of_row x)) else 0)"
  using assms(2) by (cases "map_of t (b, k)") (auto simp: limit_sum_def table_sum_update [OF assms(1)])

lemma hold_quantities:
  assumes "hd_Terms h = hd_Terms h'" "hs_State (hd_State h) = hs_State (hd_State h')" "hd_PoolID h = hd_PoolID h'"
  shows "hold_held i h = hold_held i h'" and "hold_limit h = hold_limit h'"
  using assms by (simp_all add: hold_held_def hold_limit_def hold_total_def open_hold_def)

lemma save_hold_effect:
  assumes "save_hold E b op c db = Inr db'" and "hold_fits b (db_holds db) c" and "holds_ok db"
    and "\<And>ch. c = Some ch \<Longrightarrow> hold_row_ok db b (ch_After ch)"
  shows "holds_ok db'"
    and "held_sum b' i (db_holds db') = held_sum b' i (db_holds db) + (if b' = b then opt_change (hold_held i) c else 0)"
    and "limit_sum b' owner bucket (db_holds db') = limit_sum b' owner bucket (db_holds db) +
      (case c of None \<Rightarrow> 0 | Some ch \<Rightarrow> if b' = b \<and> hd_OwnerID (ch_After ch) = owner \<and> hd_Bucket (ch_After ch) = bucket
        then opt_change hold_limit c else 0)"
proof -
  have "holds_ok db'
    \<and> held_sum b' i (db_holds db') = held_sum b' i (db_holds db) + (if b' = b then opt_change (hold_held i) c else 0)
    \<and> limit_sum b' owner bucket (db_holds db') = limit_sum b' owner bucket (db_holds db) +
      (case c of None \<Rightarrow> 0 | Some ch \<Rightarrow> if b' = b \<and> hd_OwnerID (ch_After ch) = owner \<and> hd_Bucket (ch_After ch) = bucket
        then opt_change hold_limit c else 0)"
  proof (cases c)
    case None
    then show ?thesis using assms(1,3) by (simp add: save_hold_def opt_change_def)
  next
    case (Some ch)
    let ?k = "(b, hd_ID (ch_After ch))"
    obtain r where new: "db_holds db' = AList.update ?k r (db_holds db)"
      and r: "hd_ID (hdr_terms r) = hd_ID (ch_After ch)" "hd_Terms (hdr_terms r) = hd_Terms (ch_After ch)"
        "hd_OwnerID (hdr_terms r) = hd_OwnerID (ch_After ch)" "hd_Bucket (hdr_terms r) = hd_Bucket (ch_After ch)"
        "hd_PoolID (hdr_terms r) = hd_PoolID (ch_After ch)" "hd_FeeAccountID (hdr_terms r) = hd_FeeAccountID (ch_After ch)"
        "hdr_state r = hs_State (hd_State (ch_After ch))"
      and old: "map_option hold_of_row (map_of (db_holds db) ?k) = ch_Before ch"
      using assms(1,2) unfolding Some by (rule save_hold_row)
    have tok: "table_ok (db_holds db)" using assms(3) by (simp add: holds_ok_def)
    have acc: "db_accounts db' = db_accounts db" using save_hold_frame [OF assms(1)] by auto
    have "hold_row_ok db' b (hdr_terms r)" using assms(4) [OF Some] r acc by (simp add: hold_row_ok_def hold_total_def)
    moreover have "hold_row_ok db' x h = hold_row_ok db x h" for x h using acc by (simp add: hold_row_ok_def)
    ultimately have ok: "holds_ok db'"
      using assms(3) r(1) tok by (auto simp: holds_ok_def new update_conv' split: if_split_asm)
    have q: "hold_held i (hold_of_row r) = hold_held i (ch_After ch)" "hold_limit (hold_of_row r) = hold_limit (ch_After ch)"
      by (rule hold_quantities; simp add: r)+
    have same: "hd_OwnerID (hdr_terms x) = hd_OwnerID (hdr_terms r) \<and> hd_Bucket (hdr_terms x) = hd_Bucket (hdr_terms r)"
      if "map_of (db_holds db) ?k = Some x" for x
    proof -
      have "ch_Before ch = Some (hold_of_row x)" using old that by simp
      then obtain s where "ch_After ch = (hold_of_row x)\<lparr>hd_State := s\<rparr>" using assms(2) Some unfolding hold_fits_def by blast
      then show ?thesis using r(3,4) by simp
    qed
    have "(case map_of (db_holds db) ?k of None \<Rightarrow> 0 | Some x \<Rightarrow> f (hold_of_row x)) = (case ch_Before ch of None \<Rightarrow> 0 | Some x \<Rightarrow> f x)"
      for f :: "hold \<Rightarrow> int" by (simp flip: old add: option.case_eq_if option.map_sel)
    then show ?thesis
      using ok q r(3,4) by (simp add: new held_sum_update [OF tok] limit_sum_update [OF tok same] Some opt_change_def change_by_def)
  qed
  then show "holds_ok db'"
    and "held_sum b' i (db_holds db') = held_sum b' i (db_holds db) + (if b' = b then opt_change (hold_held i) c else 0)"
    and "limit_sum b' owner bucket (db_holds db') = limit_sum b' owner bucket (db_holds db) +
      (case c of None \<Rightarrow> 0 | Some ch \<Rightarrow> if b' = b \<and> hd_OwnerID (ch_After ch) = owner \<and> hd_Bucket (ch_After ch) = bucket
        then opt_change hold_limit c else 0)" by blast+
qed

section \<open>Limits\<close>

definition usage_rows_ok :: "db \<Rightarrow> bool" where
  "usage_rows_ok db = (\<forall>k r. map_of (db_usage db) k = Some r \<longrightarrow> usage_checks r)"

definition usage_fits :: "ID \<Rightarrow> (ID \<times> ID \<times> string, usage_row) table \<Rightarrow> usage change option \<Rightarrow> bool" where
  "usage_fits b t c = (\<forall>ch. c = Some ch \<longrightarrow> usage_ok (ug_Values (ch_After ch)) \<and>
     (\<forall>u. ch_Before ch = Some u \<longrightarrow>
        (\<exists>r. map_of t (b, ug_OwnerID (ch_After ch), ug_Bucket (ch_After ch)) = Some r \<and> usr_reserved r = usage_reserved u)))"

lemma save_usage_row:
  assumes "save_usage b op (Some ch) db = Inr db'" and "usage_fits b (db_usage db) (Some ch)"
  obtains r where "db_usage db' = AList.update (b, ug_OwnerID (ch_After ch), ug_Bucket (ch_After ch)) r (db_usage db)"
    "usage_checks r" "usr_reserved r = usage_reserved (ch_After ch)"
    "column usr_reserved (db_usage db) (b, ug_OwnerID (ch_After ch), ug_Bucket (ch_After ch)) =
       (case ch_Before ch of None \<Rightarrow> 0 | Some u \<Rightarrow> usage_reserved u)"
proof -
  let ?u = "ch_After ch"
  let ?k = "(b, ug_OwnerID ?u, ug_Bucket ?u)"
  let ?r = "\<lparr>usr_reserved = wide_val (uv_Reserved (ug_Values ?u)), usr_consumed = wide_val (uv_Consumed (ug_Values ?u)),
    usr_version = ug_Version ?u\<rparr>"
  have w: "wide_ok (uv_Reserved (ug_Values ?u))" "wide_ok (uv_Consumed (ug_Values ?u))"
    using assms(2) by (simp_all add: usage_fits_def usage_ok_def)
  have "db_usage db' = AList.update ?k ?r (db_usage db) \<and> usage_checks ?r \<and> (ch_Before ch = None \<longrightarrow> map_of (db_usage db) ?k = None)"
    using assms(1) w by (cases "ch_Before ch") (auto simp: save_usage_def Let_def insert_row_Inr update_row_Inr)
  moreover have "\<exists>r. map_of (db_usage db) ?k = Some r \<and> usr_reserved r = usage_reserved u" if "ch_Before ch = Some u" for u
    using assms(2) that unfolding usage_fits_def by blast
  ultimately show thesis
    by (intro that [of ?r]) (auto simp: usage_reserved_def column_def split: option.split)
qed

lemma save_usage_effect:
  assumes "save_usage b op c db = Inr db'" and "usage_fits b (db_usage db) c" and "usage_rows_ok db"
  shows "usage_rows_ok db'"
    and "column usr_reserved (db_usage db') (b', owner, bucket) = column usr_reserved (db_usage db) (b', owner, bucket) +
      (case c of None \<Rightarrow> 0 | Some ch \<Rightarrow> if b' = b \<and> ug_OwnerID (ch_After ch) = owner \<and> ug_Bucket (ch_After ch) = bucket
        then opt_change usage_reserved c else 0)"
proof -
  have "usage_rows_ok db' \<and> column usr_reserved (db_usage db') (b', owner, bucket) = column usr_reserved (db_usage db) (b', owner, bucket) +
      (case c of None \<Rightarrow> 0 | Some ch \<Rightarrow> if b' = b \<and> ug_OwnerID (ch_After ch) = owner \<and> ug_Bucket (ch_After ch) = bucket
        then opt_change usage_reserved c else 0)"
  proof (cases c)
    case None
    then show ?thesis using assms(1,3) by (simp add: save_usage_def)
  next
    case (Some ch)
    obtain r where new: "db_usage db' = AList.update (b, ug_OwnerID (ch_After ch), ug_Bucket (ch_After ch)) r (db_usage db)"
      and r: "usage_checks r" "usr_reserved r = usage_reserved (ch_After ch)"
      and old: "column usr_reserved (db_usage db) (b, ug_OwnerID (ch_After ch), ug_Bucket (ch_After ch)) =
       (case ch_Before ch of None \<Rightarrow> 0 | Some u \<Rightarrow> usage_reserved u)"
      using assms(1,2) unfolding Some by (rule save_usage_row)
    have "usage_rows_ok db'" using assms(3) r(1) by (auto simp: usage_rows_ok_def new update_conv')
    then show ?thesis using old r(2) by (auto simp: new column_update Some opt_change_def change_by_def)
  qed
  then show "usage_rows_ok db'"
    and "column usr_reserved (db_usage db') (b', owner, bucket) = column usr_reserved (db_usage db) (b', owner, bucket) +
      (case c of None \<Rightarrow> 0 | Some ch \<Rightarrow> if b' = b \<and> ug_OwnerID (ch_After ch) = owner \<and> ug_Bucket (ch_After ch) = bucket
        then opt_change usage_reserved c else 0)" by blast+
qed

section \<open>Accounts\<close>

lemma save_account_effect:
  assumes "save_account b new db = Inr db'"
  shows "map_of (db_accounts db) k = Some a \<Longrightarrow> map_of (db_accounts db') k = Some a"
    and "map_of (db_accounts db') k \<noteq> None \<longleftrightarrow>
      map_of (db_accounts db) k \<noteq> None \<or> (\<exists>x. new = Some x \<and> k = (b, ac_ID x))"
proof -
  have "(map_of (db_accounts db) k = Some a \<longrightarrow> map_of (db_accounts db') k = Some a) \<and>
    (map_of (db_accounts db') k \<noteq> None \<longleftrightarrow> map_of (db_accounts db) k \<noteq> None \<or> (\<exists>x. new = Some x \<and> k = (b, ac_ID x)))"
    using assms by (cases new) (auto simp: save_account_def Let_def insert_row_Inr update_conv')
  then show "map_of (db_accounts db) k = Some a \<Longrightarrow> map_of (db_accounts db') k = Some a"
    and "map_of (db_accounts db') k \<noteq> None \<longleftrightarrow>
      map_of (db_accounts db) k \<noteq> None \<or> (\<exists>x. new = Some x \<and> k = (b, ac_ID x))" by blast+
qed

end
