(* ===== verification/Books.thy ===== *)
theory Books
  imports Persistence
begin

text \<open>
  The books as a whole: the invariant that ties balances to journal lines, held funds and reserved
  limits to open holds, and every journal to equal debits and credits; and that saving a plan whose
  changes start from what is stored keeps it.
\<close>

section \<open>The invariant\<close>

text \<open>The accounts of \<open>A\<close> may still be without a balance.\<close>

definition books_open :: "(ID \<times> ID) set \<Rightarrow> db \<Rightarrow> bool" where
  "books_open A db =
     (rows_ok db \<and> lines_ok db \<and> holds_ok db \<and> usage_rows_ok db
      \<and> (\<forall>k. map_of (db_accounts db) k \<noteq> None \<longrightarrow> map_of (db_balances db) k \<noteq> None \<or> k \<in> A)
      \<and> (\<forall>b i. column blr_debits (db_balances db) (b, i) = line_sum Debit b i (db_lines db)
           \<and> column blr_credits (db_balances db) (b, i) = line_sum Credit b i (db_lines db)
           \<and> column blr_held (db_balances db) (b, i) = held_sum b i (db_holds db))
      \<and> (\<forall>b owner bucket. column usr_reserved (db_usage db) (b, owner, bucket) = limit_sum b owner bucket (db_holds db)))"

definition books_ok :: "db \<Rightarrow> bool" where
  "books_ok db = books_open {} db"

text \<open>A plan that starts from the stored rows and whose changes agree with its journal and its hold.\<close>

definition plan_fits :: "db \<Rightarrow> plan \<Rightarrow> bool" where
  "plan_fits db p =
     (let b = rc_BookID (pl_Receipt p)
      in distinct (map (bl_AccountID \<circ> ch_After) (pl_Balances p))
       \<and> (\<forall>ch\<in>set (pl_Balances p). change_fits b (db_balances db) ch)
       \<and> side_sum Debit (opt_lines (pl_Journal p)) = side_sum Credit (opt_lines (pl_Journal p))
       \<and> (\<forall>i. balance_delta debits i (pl_Balances p) = lines_delta Debit i (opt_lines (pl_Journal p))
            \<and> balance_delta credits i (pl_Balances p) = lines_delta Credit i (opt_lines (pl_Journal p))
            \<and> balance_delta held i (pl_Balances p) = opt_change (hold_held i) (pl_Hold p))
       \<and> hold_fits b (db_holds db) (pl_Hold p)
       \<and> (\<forall>ch. pl_Hold p = Some ch \<longrightarrow> hold_row_ok db b (ch_After ch))
       \<and> usage_fits b (db_usage db) (pl_Usage p) \<and> usage_effect p
       \<and> (\<forall>a. pl_NewAccount p = Some a \<longrightarrow> ac_ID a \<in> (bl_AccountID \<circ> ch_After) ` set (pl_Balances p)))"

lemma hold_row_ok_mono:
  assumes "hold_row_ok db b h" and "\<And>k a. map_of (db_accounts db) k = Some a \<Longrightarrow> map_of (db_accounts db') k = Some a"
  shows "hold_row_ok db' b h"
  using assms unfolding hold_row_ok_def by blast

lemma rows_ok_mono:
  assumes "rows_ok db" and "db_balances db' = db_balances db"
    and "\<And>k a. map_of (db_accounts db) k = Some a \<Longrightarrow> map_of (db_accounts db') k = Some a"
  shows "rows_ok db'"
  using assms unfolding rows_ok_def by metis

lemma holds_ok_mono:
  assumes "holds_ok db" and "db_holds db' = db_holds db"
    and "\<And>k a. map_of (db_accounts db) k = Some a \<Longrightarrow> map_of (db_accounts db') k = Some a"
  shows "holds_ok db'"
  using assms(1,2) hold_row_ok_mono [OF _ assms(3)] unfolding holds_ok_def by metis

text \<open>The limit follows the hold, key by key.\<close>

lemma usage_effect_keys:
  assumes "usage_effect p"
  shows "(case pl_Usage p of None \<Rightarrow> 0 | Some ch \<Rightarrow>
        if b' = b \<and> ug_OwnerID (ch_After ch) = owner \<and> ug_Bucket (ch_After ch) = bucket then opt_change usage_reserved (pl_Usage p) else 0)
    = (case pl_Hold p of None \<Rightarrow> 0 | Some ch \<Rightarrow>
        if b' = b \<and> hd_OwnerID (ch_After ch) = owner \<and> hd_Bucket (ch_After ch) = bucket then opt_change hold_limit (pl_Hold p) else 0)"
  using assms by (cases "pl_Usage p"; cases "pl_Hold p") (auto simp: usage_effect_def opt_change_def)

lemma Save_keeps_books:
  assumes save: "Save E db p = Inr db'" and "books_open A db" and "plan_fits db p"
    and "A \<subseteq> {(rc_BookID (pl_Receipt p), i) |i. i \<in> (bl_AccountID \<circ> ch_After) ` set (pl_Balances p)}"
  shows "books_ok db'"
  using save
proof (rule Save_stages)
  fix acc ctl cev jr ln bal aev hol hev us lev cl ev
  let ?b = "rc_BookID (pl_Receipt p)" and ?op = "rc_OperationID (pl_Receipt p)"
  let ?d1 = "db\<lparr>db_accounts := acc\<rparr>"
  let ?d2 = "?d1\<lparr>db_controls := ctl, db_control_events := cev\<rparr>"
  let ?d3 = "?d2\<lparr>db_journals := jr, db_lines := ln\<rparr>"
  let ?d4 = "?d3\<lparr>db_balances := bal, db_account_events := aev\<rparr>"
  let ?d5 = "?d4\<lparr>db_holds := hol, db_hold_events := hev\<rparr>"
  let ?d6 = "?d5\<lparr>db_usage := us, db_limit_events := lev\<rparr>"
  assume s1: "save_account ?b (pl_NewAccount p) db = Inr ?d1"
    and s3: "save_journal E (pl_Receipt p) (pl_Journal p) ?d2 = Inr ?d3"
    and s4: "save_each (save_balance ?b ?op) (pl_Balances p) ?d3 = Inr ?d4"
    and s5: "save_hold E ?b ?op (pl_Hold p) ?d4 = Inr ?d5"
    and s6: "save_usage ?b ?op (pl_Usage p) ?d5 = Inr ?d6"
    and s8: "save_operation (pl_Canonical p) (pl_Receipt p) (?d6\<lparr>db_claims := cl, db_evidence := ev\<rparr>) = Inr db'"
  have fits: "distinct (map (bl_AccountID \<circ> ch_After) (pl_Balances p))"
    "\<forall>ch\<in>set (pl_Balances p). change_fits ?b (db_balances ?d3) ch"
    "side_sum Debit (opt_lines (pl_Journal p)) = side_sum Credit (opt_lines (pl_Journal p))"
    "\<And>i. balance_delta debits i (pl_Balances p) = lines_delta Debit i (opt_lines (pl_Journal p))"
    "\<And>i. balance_delta credits i (pl_Balances p) = lines_delta Credit i (opt_lines (pl_Journal p))"
    "\<And>i. balance_delta held i (pl_Balances p) = opt_change (hold_held i) (pl_Hold p)"
    "hold_fits ?b (db_holds ?d4) (pl_Hold p)" "\<And>ch. pl_Hold p = Some ch \<Longrightarrow> hold_row_ok db ?b (ch_After ch)"
    "usage_fits ?b (db_usage ?d5) (pl_Usage p)" "usage_effect p"
    "\<And>a. pl_NewAccount p = Some a \<Longrightarrow> ac_ID a \<in> (bl_AccountID \<circ> ch_After) ` set (pl_Balances p)"
    using assms(3) by (simp_all add: plan_fits_def Let_def)
  have inv: "rows_ok db" "lines_ok db" "holds_ok db" "usage_rows_ok db"
    "\<And>k. map_of (db_accounts db) k \<noteq> None \<Longrightarrow> map_of (db_balances db) k \<noteq> None \<or> k \<in> A"
    "\<And>b i. column blr_debits (db_balances db) (b, i) = line_sum Debit b i (db_lines db)"
    "\<And>b i. column blr_credits (db_balances db) (b, i) = line_sum Credit b i (db_lines db)"
    "\<And>b i. column blr_held (db_balances db) (b, i) = held_sum b i (db_holds db)"
    "\<And>b owner bucket. column usr_reserved (db_usage db) (b, owner, bucket) = limit_sum b owner bucket (db_holds db)"
    using assms(2) unfolding books_open_def by blast+
  have ext: "map_of (db_accounts db) k = Some a \<Longrightarrow> map_of acc k = Some a" for k a
    using save_account_effect(1) [OF s1] by simp
  have lines2: "lines_ok ?d2" using inv(2) by (simp add: lines_ok_def)
  note j = save_journal_effect [OF s3 lines2 fits(3)]
  have rows3: "rows_ok ?d3" by (rule rows_ok_mono [OF inv(1)]) (use ext in simp_all)
  note bal = save_balances_effect [OF s4 fits(1,2) rows3]
  have holds4: "holds_ok ?d4" by (rule holds_ok_mono [OF inv(3)]) (use ext in simp_all)
  have new: "hold_row_ok ?d4 ?b (ch_After ch)" if "pl_Hold p = Some ch" for ch
    by (rule hold_row_ok_mono [OF fits(8) [OF that]]) (use ext in simp)
  note hold = save_hold_effect [OF s5 fits(7) holds4 new]
  have us5: "usage_rows_ok ?d5" using inv(4) by (simp add: usage_rows_ok_def)
  note use = save_usage_effect [OF s6 fits(9) us5]
  obtain ops fa de where db': "db' = ?d6\<lparr>db_claims := cl, db_evidence := ev, db_operations := ops, db_facts := fa, db_delivery := de\<rparr>"
    using save_operation_frame [OF s8] by blast
  have "rows_ok db'" using bal(1) by (simp add: rows_ok_def db')
  moreover have "lines_ok db'" using j(1) by (simp add: lines_ok_def db')
  moreover have "holds_ok db'" using hold(1) by (simp add: holds_ok_def hold_row_ok_def db')
  moreover have "usage_rows_ok db'" using use(1) by (simp add: usage_rows_ok_def db')
  moreover have "map_of (db_balances db') k \<noteq> None" if "map_of (db_accounts db') k \<noteq> None" for k
  proof -
    have "map_of acc k \<noteq> None" using that by (simp add: db')
    then have "map_of (db_accounts db) k \<noteq> None \<or> (\<exists>x. pl_NewAccount p = Some x \<and> k = (?b, ac_ID x))"
      using save_account_effect(2) [OF s1, of k] by simp
    then have "map_of (db_balances db) k \<noteq> None \<or> fst k = ?b \<and> snd k \<in> (bl_AccountID \<circ> ch_After) ` set (pl_Balances p)"
      using inv(5) [of k] fits(11) assms(4) by (cases k) auto
    then show ?thesis using bal(2) [of k] by (simp add: db')
  qed
  moreover have "column blr_debits (db_balances db') (b, i) = line_sum Debit b i (db_lines db')" for b i
    using bal(3) [OF row_quantities(1), of b i] j(2) [of Debit b i] inv(6) fits(4) by (simp add: db')
  moreover have "column blr_credits (db_balances db') (b, i) = line_sum Credit b i (db_lines db')" for b i
    using bal(3) [OF row_quantities(2), of b i] j(2) [of Credit b i] inv(7) fits(5) by (simp add: db')
  moreover have "column blr_held (db_balances db') (b, i) = held_sum b i (db_holds db')" for b i
    using bal(3) [OF row_quantities(3), of b i] hold(2) [of b i] inv(8) fits(6) by (simp add: db')
  moreover have "column usr_reserved (db_usage db') (b, owner, bucket) = limit_sum b owner bucket (db_holds db')" for b owner bucket
    using use(2) [of b owner bucket] hold(3) [of b owner bucket] inv(9) usage_effect_keys [OF fits(10), of b ?b owner bucket]
    by (simp add: db')
  ultimately show "books_ok db'" by (simp add: books_ok_def books_open_def)
qed

end
