(* ===== verification/Loading.thy ===== *)
theory Loading
  imports Books
begin

text \<open>
  What \<open>Load\<close> returns on books that are in order: a well-formed state whose accounts, balances, hold and
  usage are rows of the database, so that a plan made from it starts from what is stored.
\<close>

section \<open>Rows as values\<close>

definition account_of_row :: "book \<Rightarrow> ID \<Rightarrow> account_row \<Rightarrow> account" where
  "account_of_row b i r = \<lparr>ac_ID = i, ac_Book = b, ac_Owner = acr_owner r, ac_Purpose = acr_purpose r\<rparr>"

definition totals_of_row :: "balance_row \<Rightarrow> totals" where
  "totals_of_row r = \<lparr>tt_Debits = wide_of (blr_debits r), tt_Credits = wide_of (blr_credits r), tt_Held = wide_of (blr_held r)\<rparr>"

definition balance_of_row :: "ID \<Rightarrow> balance_row \<Rightarrow> balance" where
  "balance_of_row i r = \<lparr>bl_AccountID = i, bl_Totals = totals_of_row r, bl_Version = blr_version r\<rparr>"

definition usage_of_row :: "ID \<Rightarrow> string \<Rightarrow> usage_row \<Rightarrow> usage" where
  "usage_of_row owner bucket r = \<lparr>ug_OwnerID = owner, ug_Bucket = bucket,
     ug_Values = \<lparr>uv_Reserved = wide_of (usr_reserved r), uv_Consumed = wide_of (usr_consumed r)\<rparr>, ug_Version = usr_version r\<rparr>"

lemma amount_column_range: "amount_column n \<longleftrightarrow> 0 \<le> n \<and> n \<le> wide_max"
  by (simp add: amount_column_def wide_max_def)

lemma totals_of_row_ok:
  assumes "balance_checks r"
  shows "read_totals r = Inr (totals_of_row r)" and "totals_ok (totals_of_row r)" and "tally_of (totals_of_row r) = row_tally r"
  using assms
  by (simp_all add: balance_checks_def amount_column_range read_totals_def totals_of_row_def totals_ok_def tally_of_def
      row_tally_def wide_of_ok)

lemma balance_checks_solvent:
  assumes "balance_checks r" and "known_purpose (blr_purpose r)"
  shows "solvent (blr_purpose r) (row_tally r)"
  using assms by (simp add: balance_checks_def solvent_def row_tally_def spec_posted_def amount_column_range ProviderPool_def split: if_split_asm)

section \<open>Reading lists of rows\<close>

lemma readAccount_Inr:
  "readAccount db b i = Inr x \<Longrightarrow> x = map_option (account_of_row b i) (map_of (db_accounts db) (bk_ID b, i))
    \<and> (\<forall>a. x = Some a \<longrightarrow> is_ok (Account_Validate a))"
  by (cases "map_of (db_accounts db) (bk_ID b, i)") (auto simp: readAccount_def account_of_row_def Let_def split: if_split_asm)

lemma readAccounts_Inr:
  assumes "readAccounts db b ids = Inr xs"
  shows "map_of xs i = (if i \<in> set ids then map_option (account_of_row b i) (map_of (db_accounts db) (bk_ID b, i)) else None)"
    and "map_of xs i = Some a \<Longrightarrow> is_ok (Account_Validate a)"
proof -
  have "map_of xs i = (if i \<in> set ids then map_option (account_of_row b i) (map_of (db_accounts db) (bk_ID b, i)) else None)
    \<and> (\<forall>a. map_of xs i = Some a \<longrightarrow> is_ok (Account_Validate a))"
    using assms
  proof (induction ids arbitrary: xs)
    case (Cons k ids)
    obtain x rest where x: "readAccount db b k = Inr x" and rest: "readAccounts db b ids = Inr rest"
      and xs: "xs = (case x of None \<Rightarrow> rest | Some a \<Rightarrow> (k, a) # rest)"
      using Cons.prems by auto
    show ?case using Cons.IH [OF rest] readAccount_Inr [OF x] by (auto simp: xs split: option.split)
  qed simp
  then show "map_of xs i = (if i \<in> set ids then map_option (account_of_row b i) (map_of (db_accounts db) (bk_ID b, i)) else None)"
    and "map_of xs i = Some a \<Longrightarrow> is_ok (Account_Validate a)" by blast+
qed

lemma rows_ok_row: "rows_ok db \<Longrightarrow> map_of (db_balances db) k = Some r \<Longrightarrow>
    balance_checks r \<and> (\<exists>a. map_of (db_accounts db) k = Some a \<and> acr_purpose a = blr_purpose r)"
  unfolding rows_ok_def by blast

lemma readBalance_eq:
  "rows_ok db \<Longrightarrow> readBalance db b i = Inr (map_option (balance_of_row i) (map_of (db_balances db) (b, i)))"
  by (cases "map_of (db_balances db) (b, i)")
     (auto simp: readBalance_def balance_of_row_def totals_of_row_ok(1) dest: rows_ok_row)

lemma readBalances_Inr:
  assumes "rows_ok db" and "readBalances db b ids = Inr xs"
  shows "map_of xs i = (if i \<in> set ids then map_option (balance_of_row i) (map_of (db_balances db) (b, i)) else None)"
  using assms(2)
proof (induction ids arbitrary: xs)
  case (Cons k ids)
  then show ?case by (auto simp: readBalance_eq [OF assms(1)] split: option.split)
qed simp

lemma readUsage_Inr:
  assumes "readUsage db b owner bucket = Inr x" and "usage_rows_ok db"
  shows "x = map_option (usage_of_row owner bucket) (map_of (db_usage db) (b, owner, bucket))"
proof (cases "map_of (db_usage db) (b, owner, bucket)")
  case (Some r)
  then have "usage_checks r" using assms(2) by (auto simp: usage_rows_ok_def)
  then show ?thesis
    using assms(1) Some by (simp add: readUsage_def usage_of_row_def usage_checks_def amount_column_range)
qed (use assms(1) in \<open>simp add: readUsage_def\<close>)

lemma usage_of_row_ok: "usage_checks r \<Longrightarrow> usage_ok (ug_Values (usage_of_row owner bucket r))
    \<and> usage_reserved (usage_of_row owner bucket r) = usr_reserved r"
  by (simp add: usage_checks_def usage_of_row_def usage_ok_def amount_column_range wide_of_ok usage_reserved_def)

section \<open>The loaded state\<close>

lemma readBook_Inr: "readBook db i = Inr b \<Longrightarrow> bk_ID (bo_Book b) = i \<and> is_ok (Book_Validate (bo_Book b))"
  by (auto simp: readBook_def Let_def split: option.split_asm sum.split_asm if_split_asm)

lemma readHold_Inr:
  assumes "readHold db cmd lock = Inr (Some h)" and "cm_Kind cmd \<noteq> ReservePayout"
  shows "\<exists>r. map_of (db_holds db) (cm_BookID cmd, hd_ID h) = Some r \<and> h = hold_of_row r"
  using assms by (auto simp: readHold_def find_hold_def split: if_split_asm option.split_asm)

lemma readHold_lock: "cm_Kind cmd \<noteq> ReservePayout \<Longrightarrow> readHold db cmd lock = readHold db cmd False"
  by (simp add: readHold_def find_hold_def cong: if_cong)

lemma Load_Inr:
  assumes "Load E db cmd now = Inr st"
  obtains hold ids0 keys source policyID ids1 ids acc bal where
    "readBook db (cm_BookID cmd) = Inr (st_Book st)" "readHold db cmd False = Inr hold"
    "load_scope cmd hold = Inr (ids0, keys, source, policyID)" "readPolicy db cmd policyID = Inr (st_Policy st, ids1)"
    "set ids = set ids0 \<union> set ids1" "readAccounts db (bo_Book (st_Book st)) ids = Inr acc" "st_Accounts st = map_of acc"
    "readBalances db (cm_BookID cmd) ids = Inr bal" "st_Balances st = map_of bal"
    "st_Hold st = hold" "(case map_of acc source of
               Some a \<Rightarrow> if cm_Kind cmd \<noteq> MarkHoldExposed
                 then readUsage db (cm_BookID cmd) (ac_Owner a) (usage_bucket E cmd now hold) else Inr None
             | None \<Rightarrow> Inr None) = Inr (st_Usage st)"
    "st_Claim st = (case PaymentID cmd of Inl _ \<Rightarrow> None | Inr payment \<Rightarrow> if payment = [] then None else readClaim db (cm_BookID cmd) payment)"
proof -
  obtain payment hold0 ids0 keys0 source policyID policy ids1 accounts controls hold where
    steps: "readBook db (cm_BookID cmd) = Inr (st_Book st)" "PaymentID cmd = Inr payment" "readHold db cmd False = Inr hold0"
      "load_scope cmd hold0 = Inr (ids0, keys0, source, policyID)" "readPolicy db cmd policyID = Inr (policy, ids1)"
      "readAccounts db (bo_Book (st_Book st)) (sort (remdups (ids0 @ ids1))) = Inr accounts"
      "(if hold0 \<noteq> None \<and> cm_Kind cmd \<noteq> ReservePayout then readHold db cmd True else Inr hold0) = Inr hold"
    and rest: "res_bind (case map_of accounts source of
               Some a \<Rightarrow> if cm_Kind cmd \<noteq> MarkHoldExposed
                 then readUsage db (cm_BookID cmd) (ac_Owner a) (usage_bucket E cmd now hold) else Inr None
             | None \<Rightarrow> Inr None) (\<lambda>usage.
          res_bind (readBalances db (cm_BookID cmd) (sort (remdups (ids0 @ ids1)))) (\<lambda>balances.
            Inr \<lparr>st_Book = st_Book st, st_Accounts = map_of accounts, st_Balances = map_of balances,
              st_Controls = map_of controls, st_Policy = policy,
              st_Claim = (if payment = [] then None else readClaim db (cm_BookID cmd) payment),
              st_Hold = hold, st_Usage = usage\<rparr>)) = Inr st"
    using assms by (auto simp: Load_def Let_def split: prod.split_asm)
  then obtain usage balances where u: "(case map_of accounts source of
               Some a \<Rightarrow> if cm_Kind cmd \<noteq> MarkHoldExposed
                 then readUsage db (cm_BookID cmd) (ac_Owner a) (usage_bucket E cmd now hold) else Inr None
             | None \<Rightarrow> Inr None) = Inr usage" "readBalances db (cm_BookID cmd) (sort (remdups (ids0 @ ids1))) = Inr balances"
    and st: "st = \<lparr>st_Book = st_Book st, st_Accounts = map_of accounts, st_Balances = map_of balances,
              st_Controls = map_of controls, st_Policy = policy,
              st_Claim = (if payment = [] then None else readClaim db (cm_BookID cmd) payment),
              st_Hold = hold, st_Usage = usage\<rparr>" by auto
  have hold: "hold = hold0" using steps(3,7) readHold_lock [of cmd db True] by (auto split: if_split_asm)
  have fields: "st_Accounts st = map_of accounts" "st_Balances st = map_of balances" "st_Policy st = policy"
    "st_Hold st = hold0" "st_Usage st = usage" "st_Claim st = (if payment = [] then None else readClaim db (cm_BookID cmd) payment)"
    by (subst st, simp add: hold)+
  show thesis
    by (rule that [of hold0 ids0 keys0 source policyID ids1 "sort (remdups (ids0 @ ids1))" accounts balances])
       (use steps u [unfolded hold] fields in \<open>simp_all\<close>)
qed

end
