(* ===== verification/Plans.thy ===== *)
theory Plans
  imports Loading
begin

text \<open>
  Where the changes of an applied plan come from: its hold and its usage are the loaded ones or new,
  a new account comes with its balance, and a new hold binds loaded accounts. With the loaded state
  this makes every plan of the service fit the database it was made from.
\<close>

section \<open>The posting loops touch balances only\<close>

lemma balances_self: "\<exists>bs. (p :: plan) = p\<lparr>pl_Balances := bs\<rparr>"
  by (rule exI [of _ "pl_Balances p"]) simp

lemma post_lines_only: "post_lines st ls p = applied q \<Longrightarrow> \<exists>bs. q = p\<lparr>pl_Balances := bs\<rparr>"
  by (induction st ls p rule: post_lines.induct) (auto simp: balances_self split: option.split_asm sum.split_asm)

lemma reserve_entries_only: "reserve_entries st es p = applied q \<Longrightarrow> \<exists>bs. q = p\<lparr>pl_Balances := bs\<rparr>"
  by (induction st es p rule: reserve_entries.induct)
     (auto simp: balances_self map_get_def split: option.split_asm sum.split_asm if_split_asm)

lemma settle_entries_only: "settle_entries st capture es p = Inr q \<Longrightarrow> \<exists>bs. q = p\<lparr>pl_Balances := bs\<rparr>"
  by (induction st capture es p rule: settle_entries.induct) (auto simp: balances_self split: option.split_asm sum.split_asm)

lemma capture_journal_only:
  assumes "capture_journal E st h tot p = Inr q"
  shows "\<exists>bs j. q = p\<lparr>pl_Balances := bs, pl_Journal := j\<rparr>"
proof -
  obtain f p' j where f: "capture_fee st f (tm_Fee (hd_Terms h)) p = Inr p'" and q: "q = p'\<lparr>pl_Journal := Some j\<rparr>"
    using assms by (auto simp: capture_journal_def Let_def case_error_eq_Inr)
  have "\<exists>bs. p' = p\<lparr>pl_Balances := bs\<rparr>"
    using f balances_self [of p] by (auto simp: capture_fee_def split: if_split_asm option.split_asm sum.split_asm)
  then show ?thesis using q by blast
qed

section \<open>Origins\<close>

text \<open>The usage, hold and account of an applied plan, by what was loaded.\<close>

definition usage_origin :: "state \<Rightarrow> plan \<Rightarrow> bool" where
  "usage_origin st q = (\<forall>ch. pl_Usage q = Some ch \<longrightarrow> ch_Before ch = st_Usage st \<and>
     (\<forall>u. st_Usage st = Some u \<longrightarrow> ug_OwnerID (ch_After ch) = ug_OwnerID u \<and> ug_Bucket (ch_After ch) = ug_Bucket u))"

definition hold_origin :: "state \<Rightarrow> plan \<Rightarrow> bool" where
  "hold_origin st q = (\<forall>ch. pl_Hold q = Some ch \<longrightarrow>
     (\<exists>h s. st_Hold st = Some h \<and> hold_step (hd_State h) s \<and> ch = \<lparr>ch_Before = Some h, ch_After = h\<lparr>hd_State := s\<rparr>\<rparr>)
     \<or> ch_Before ch = None \<and> st_Hold st = None \<and> hold_ok (st_Accounts st) (ch_After ch)
       \<and> hd_State (ch_After ch) = new_hold_state (hs_ExpiresAt (hd_State (ch_After ch))))"

definition account_origin :: "plan \<Rightarrow> bool" where
  "account_origin q = (\<forall>a. pl_NewAccount q = Some a \<longrightarrow> ac_ID a \<in> (bl_AccountID \<circ> ch_After) ` set (pl_Balances q))"

lemma create_origin:
  assumes "Evaluate.create c cmd st p = applied q" and "fresh_plan p"
  shows "usage_origin st q \<and> hold_origin st q \<and> account_origin q"
proof -
  obtain ids a b cs where "q = (with_subjects p ids)\<lparr>pl_NewAccount := Some a,
       pl_Balances := [\<lparr>ch_Before = None, ch_After = \<lparr>bl_AccountID = ac_ID a, bl_Totals = zero_totals, bl_Version = 1\<rparr>\<rparr>],
       pl_Controls := cs\<rparr>"
    using assms(1) by (rule create_applied)
  then show ?thesis using assms(2) by (simp add: usage_origin_def hold_origin_def account_origin_def fresh_plan_def)
qed

lemma setControl_origin:
  assumes "setControl c cmd st p = applied q" and "fresh_plan p"
  shows "usage_origin st q \<and> hold_origin st q \<and> account_origin q"
proof -
  obtain ids ch where "q = (with_subjects p ids)\<lparr>pl_Controls := [ch]\<rparr>" using assms(1) by (rule setControl_applied)
  then show ?thesis using assms(2) by (simp add: usage_origin_def hold_origin_def account_origin_def fresh_plan_def)
qed

lemma current_usage_origin:
  "usage_origin st (q\<lparr>pl_Usage := Some (usage_change E st a now uv n)\<rparr>)"
  by (simp add: usage_origin_def current_usage_def)

lemma new_hold_ok:
  assumes "funded E cmd st now terms a sub policy fee tot uv n" and "terms_ok terms" and "state_ok st"
    and "st_Accounts st (tm_SourceID terms) = Some a" and "ac_Purpose a = Wallet"
    and "st_Accounts st (rs_PoolID r) = Some pool" and "ac_Purpose pool = ProviderPool"
  shows "hold_ok (st_Accounts st) (new_hold r terms a policy bucket)"
proof -
  have "amount_val (tm_Principal terms) + amount_val (tm_Fee terms) < 2 ^ 63"
    using funded_total [OF assms(1,2)] amount_val_range [of tot] by simp
  then show ?thesis using assms by (simp add: hold_ok_def new_hold_def funded_def terms_ok_def)
qed

lemma admit_origin:
  assumes "admit E t c cmd st now p = applied q" and "state_ok st" and "command_ok cmd" and "fresh_plan p"
    and "cm_Kind cmd = TransferInternal \<or> cm_Kind cmd = ReservePayout"
  shows "usage_origin st q \<and> hold_origin st q \<and> account_origin q"
proof -
  obtain terms a sub acct policy where adm: "admitted E t c cmd st now terms a sub acct policy"
    and funds: "admit_funds E cmd st now terms a sub policy (with_subjects p [ac_Owner a]) = applied q"
    using assms(1) by (rule admit_applied)
  have terms: "terms_ok terms"
    using adm assms(3,5) by (auto simp: admitted_def admit_terms_def deref_def command_ok_def split: option.splits if_splits)
  from funds show ?thesis
  proof (cases rule: admit_funds_applied)
    case (transfer feeAccount tot uv n)
    obtain r j where "post_lines st (transfer_lines a r feeAccount tot terms)
        ((with_subjects p [ac_Owner a])\<lparr>pl_Usage := Some (usage_change E st a now uv n), pl_Journal := Some j\<rparr>) = applied q"
      using transfer(3) by (rule admit_transfer_applied)
    then obtain bs where "q = (with_subjects p [ac_Owner a])\<lparr>pl_Usage := Some (usage_change E st a now uv n),
        pl_Journal := Some j, pl_Balances := bs\<rparr>" using post_lines_only by blast
    then show ?thesis
      using assms(4) by (simp add: usage_origin_def current_usage_def hold_origin_def account_origin_def fresh_plan_def)
  next
    case (reserve feeAccount tot uv n r)
    obtain pool :: account and q' where none: "st_Hold st = None"
      and pool: "st_Accounts st (rs_PoolID r) = Some pool" "ac_Purpose pool = ProviderPool"
      and es: "reserve_entries st [(ac_ID a, tot), (ac_ID pool, tm_Principal terms)]
        ((with_subjects p [ac_Owner a])\<lparr>pl_Usage := Some (usage_change E st a now uv n)\<rparr>) = applied q'"
      and q: "q = q'\<lparr>pl_Hold := Some \<lparr>ch_Before = None, ch_After = new_hold r terms a policy (Bucket E now)\<rparr>\<rparr>"
      by (rule admit_reserve_applied [OF reserve(4)]) blast
    obtain bs where q': "q' = (with_subjects p [ac_Owner a])\<lparr>pl_Usage := Some (usage_change E st a now uv n), pl_Balances := bs\<rparr>"
      using reserve_entries_only [OF es] by blast
    have "hold_ok (st_Accounts st) (new_hold r terms a policy (Bucket E now))"
      using new_hold_ok [OF reserve(1) terms assms(2) _ _ pool] adm by (simp add: admitted_def)
    moreover have "hd_State (new_hold r terms a policy (Bucket E now)) =
        new_hold_state (hs_ExpiresAt (hd_State (new_hold r terms a policy (Bucket E now))))"
      by (simp add: new_hold_def new_hold_state_def)
    ultimately show ?thesis
      using none assms(4) by (simp add: q q' usage_origin_def current_usage_def hold_origin_def account_origin_def fresh_plan_def)
  qed
qed

lemma resolve_origin:
  assumes "resolve E t c cmd st now p = applied q" and "fresh_plan p"
  shows "usage_origin st q \<and> hold_origin st q \<and> account_origin q"
proof -
  obtain h claim s ev p1 where h: "st_Hold st = Some h" "hold_step (hd_State h) s"
    and p1: "p1 = (with_subjects p [hd_OwnerID h])\<lparr>pl_Evidence := ev,
       pl_Hold := Some \<lparr>ch_Before = Some h, ch_After = h\<lparr>hd_State := s\<rparr>\<rparr>,
       pl_Claim := Some \<lparr>ch_Before = Some claim, ch_After = resolve_claim cmd claim (h\<lparr>hd_State := s\<rparr>)\<rparr>\<rparr>"
    and rest: "(if cm_Kind cmd = MarkHoldExposed then Inr p1 else resolve_money E cmd st h p1) = Inr q"
    using assms by (auto simp: fresh_plan_def elim: resolve_applied)
  have base: "usage_origin st p1 \<and> hold_origin st p1 \<and> account_origin p1"
    using h assms(2) by (auto simp: p1 usage_origin_def hold_origin_def account_origin_def fresh_plan_def)
  show ?thesis
  proof (cases "cm_Kind cmd = MarkHoldExposed")
    case True
    then show ?thesis using rest base by simp
  next
    case False
    then have money: "resolve_money E cmd st h p1 = Inr q" using rest by simp
    obtain tot es p2 p3 where p2: "settle_entries st (cm_Kind cmd = CapturePayout) es p1 = Inr p2"
      and p3: "settle_usage st h (cm_Kind cmd = CapturePayout) p2 = Inr p3"
      and q: "(if cm_Kind cmd = CapturePayout then capture_journal E st h tot p3 else Inr p3) = Inr q"
      using money by (rule resolve_money_Inr)
    obtain bs where "p2 = p1\<lparr>pl_Balances := bs\<rparr>" using settle_entries_only [OF p2] by blast
    moreover obtain u v n where u: "st_Usage st = Some u"
      "p3 = p2\<lparr>pl_Usage := Some \<lparr>ch_Before = Some u, ch_After = u\<lparr>ug_Values := v, ug_Version := n\<rparr>\<rparr>\<rparr>"
      using p3 by (rule settle_usage_Inr)
    moreover obtain bs' j where "q = p3\<lparr>pl_Balances := bs', pl_Journal := j\<rparr>"
    proof (cases "cm_Kind cmd = CapturePayout")
      case True
      then show thesis using q capture_journal_only that by (metis (full_types))
    next
      case False
      then have "q = p3\<lparr>pl_Balances := pl_Balances p3, pl_Journal := pl_Journal p3\<rparr>" using q by simp
      then show thesis by (rule that)
    qed
    ultimately show ?thesis
      using base assms(2) by (simp add: usage_origin_def hold_origin_def account_origin_def p1 fresh_plan_def)
  qed
qed

lemma evaluate_origin:
  assumes "evaluate E t c cmd st now p = applied q" and "state_ok st" and "command_ok cmd" and "fresh_plan p"
  shows "usage_origin st q \<and> hold_origin st q \<and> account_origin q"
  using assms create_origin setControl_origin admit_origin resolve_origin
  unfolding evaluate_def by (meson Inl_Inr_False)

end
