(* ===== verification/Integrity.thy ===== *)
theory Integrity
  imports Plans
begin

text \<open>
  The service keeps the books in order: every committed execution of a valid command, applied or
  rejected, leads from books that satisfy the invariant to books that satisfy it.
\<close>

section \<open>The loaded state is well formed\<close>

lemma books_okD:
  assumes "books_ok db"
  shows "rows_ok db" "lines_ok db" "holds_ok db" "usage_rows_ok db"
    "map_of (db_accounts db) k \<noteq> None \<Longrightarrow> map_of (db_balances db) k \<noteq> None"
    "column blr_debits (db_balances db) (b, i) = line_sum Debit b i (db_lines db)"
    "column blr_credits (db_balances db) (b, i) = line_sum Credit b i (db_lines db)"
    "column blr_held (db_balances db) (b, i) = held_sum b i (db_holds db)"
    "column usr_reserved (db_usage db) (b, owner, bucket) = limit_sum b owner bucket (db_holds db)"
  using assms unfolding books_ok_def books_open_def by blast+

lemma Load_account:
  assumes "Load E db cmd now = Inr st" and "st_Accounts st i = Some a"
  shows "\<exists>r. map_of (db_accounts db) (cm_BookID cmd, i) = Some r \<and> a = account_of_row (bo_Book (st_Book st)) i r
    \<and> is_ok (Account_Validate a)"
  using assms(1)
proof (rule Load_Inr)
  fix ids acc
  assume b: "readBook db (cm_BookID cmd) = Inr (st_Book st)" and acc: "readAccounts db (bo_Book (st_Book st)) ids = Inr acc"
    "st_Accounts st = map_of acc"
  show ?thesis
    using assms(2) acc(2) readAccounts_Inr [OF acc(1), of i] readBook_Inr [OF b] by (auto split: if_split_asm)
qed

lemma Load_balance:
  assumes "Load E db cmd now = Inr st" and "rows_ok db" and "st_Balances st i = Some x"
  shows "\<exists>r. map_of (db_balances db) (cm_BookID cmd, i) = Some r \<and> x = balance_of_row i r"
  using assms(1)
proof (rule Load_Inr)
  fix ids bal
  assume bal: "readBalances db (cm_BookID cmd) ids = Inr bal" "st_Balances st = map_of bal"
  show ?thesis using assms(3) bal(2) readBalances_Inr [OF assms(2) bal(1), of i] by (auto split: if_split_asm)
qed

text \<open>Accounts and balances are loaded together.\<close>

lemma Load_together:
  assumes "Load E db cmd now = Inr st" and "books_ok db"
  shows "st_Accounts st i = None \<longleftrightarrow> st_Balances st i = None"
  using assms(1)
proof (rule Load_Inr)
  fix ids acc bal
  assume b: "readBook db (cm_BookID cmd) = Inr (st_Book st)"
    and acc: "readAccounts db (bo_Book (st_Book st)) ids = Inr acc" "st_Accounts st = map_of acc"
    and bal: "readBalances db (cm_BookID cmd) ids = Inr bal" "st_Balances st = map_of bal"
  have "map_of (db_accounts db) (cm_BookID cmd, i) = None \<longleftrightarrow> map_of (db_balances db) (cm_BookID cmd, i) = None"
    using books_okD(5) [OF assms(2), of "(cm_BookID cmd, i)"] rows_ok_row [OF books_okD(1) [OF assms(2)], of "(cm_BookID cmd, i)"]
    by fastforce
  then show ?thesis
    using readAccounts_Inr(1) [OF acc(1), of i] readBalances_Inr [OF books_okD(1) [OF assms(2)] bal(1), of i] readBook_Inr [OF b]
    by (simp add: acc(2) bal(2))
qed

lemma Load_usage:
  assumes "Load E db cmd now = Inr st" and "usage_rows_ok db" and "st_Usage st = Some u"
  shows "\<exists>r. map_of (db_usage db) (cm_BookID cmd, ug_OwnerID u, ug_Bucket u) = Some r \<and> u = usage_of_row (ug_OwnerID u) (ug_Bucket u) r
    \<and> usage_checks r"
  using assms(1)
proof (rule Load_Inr)
  fix acc source and hold :: "hold option"
  assume "(case map_of acc source of
               Some a \<Rightarrow> if cm_Kind cmd \<noteq> MarkHoldExposed
                 then readUsage db (cm_BookID cmd) (ac_Owner (a :: account)) (usage_bucket E cmd now hold) else Inr None
             | None \<Rightarrow> Inr None) = Inr (st_Usage st)"
  then obtain owner bucket where "readUsage db (cm_BookID cmd) owner bucket = Inr (Some u)"
    using assms(3) by (auto split: option.split_asm if_split_asm)
  from readUsage_Inr [OF this assms(2), symmetric] obtain r where r: "map_of (db_usage db) (cm_BookID cmd, owner, bucket) = Some r"
    "u = usage_of_row owner bucket r" by auto
  then have "ug_OwnerID u = owner" "ug_Bucket u = bucket" "usage_checks r"
    using assms(2) by (auto simp: usage_of_row_def usage_rows_ok_def)
  then show ?thesis using r by blast
qed

lemma readHold_kind:
  "readHold db cmd lock = Inr (Some h) \<Longrightarrow> cm_Kind cmd \<noteq> CreateAccount \<and> cm_Kind cmd \<noteq> SetAccountControl \<and> cm_Kind cmd \<noteq> TransferInternal"
  by (intro conjI notI) (simp_all add: readHold_def HoldID_def)

text \<open>The three accounts of a stored hold, once they are loaded.\<close>

lemma hold_row_ok_loaded:
  assumes "hold_row_ok db b h"
    and "\<And>i. i \<in> {tm_SourceID (hd_Terms h), hd_PoolID h, hd_FeeAccountID h} \<Longrightarrow>
      acc i = map_option (account_of_row bk i) (map_of (db_accounts db) (b, i))"
  shows "hold_ok acc h"
proof -
  have "acc (tm_SourceID (hd_Terms h)) = map_option (account_of_row bk (tm_SourceID (hd_Terms h))) (map_of (db_accounts db) (b, tm_SourceID (hd_Terms h)))"
    "acc (hd_PoolID h) = map_option (account_of_row bk (hd_PoolID h)) (map_of (db_accounts db) (b, hd_PoolID h))"
    "acc (hd_FeeAccountID h) = map_option (account_of_row bk (hd_FeeAccountID h)) (map_of (db_accounts db) (b, hd_FeeAccountID h))"
    using assms(2) by simp_all
  then show ?thesis
    using assms(1) unfolding hold_row_ok_def hold_ok_def hold_total_def by (elim conjE exE) (simp add: account_of_row_def)
qed

lemma Load_hold:
  assumes "Load E db cmd now = Inr st" and "books_ok db" and "st_Hold st = Some h" and "cm_Kind cmd \<noteq> ReservePayout"
  shows "\<exists>r. map_of (db_holds db) (cm_BookID cmd, hd_ID h) = Some r \<and> h = hold_of_row r" and "hold_ok (st_Accounts st) h"
proof -
  have "(\<exists>r. map_of (db_holds db) (cm_BookID cmd, hd_ID h) = Some r \<and> h = hold_of_row r) \<and> hold_ok (st_Accounts st) h"
    using assms(1)
  proof (rule Load_Inr)
    fix hold ids0 keys source policyID ids1 ids acc
    assume b: "readBook db (cm_BookID cmd) = Inr (st_Book st)" and hold: "readHold db cmd False = Inr hold" "st_Hold st = hold"
      and scope: "load_scope cmd hold = Inr (ids0, keys, source, policyID)" "set ids = set ids0 \<union> set ids1"
      and acc: "readAccounts db (bo_Book (st_Book st)) ids = Inr acc" "st_Accounts st = map_of acc"
    obtain r where r: "map_of (db_holds db) (cm_BookID cmd, hd_ID h) = Some r" "h = hold_of_row r"
      using readHold_Inr [of db cmd False h] hold assms(3,4) by (metis (full_types))
    have "cm_Kind cmd \<noteq> CreateAccount" "cm_Kind cmd \<noteq> SetAccountControl" "cm_Kind cmd \<noteq> TransferInternal"
      using readHold_kind [of db cmd False h] hold assms(3) by simp_all
    then have "map_sum id fst (load_scope cmd hold) = Inr [tm_SourceID (hd_Terms h), hd_PoolID h, hd_FeeAccountID h]"
      using assms(3,4) hold(2) by (simp add: load_scope_def)
    then have "ids0 = [tm_SourceID (hd_Terms h), hd_PoolID h, hd_FeeAccountID h]"
      unfolding scope(1) by simp
    then have ids: "tm_SourceID (hd_Terms h) \<in> set ids" "hd_PoolID h \<in> set ids" "hd_FeeAccountID h \<in> set ids"
      using scope(2) by auto
    have row: "hold_row_ok db (cm_BookID cmd) h" using books_okD(3) [OF assms(2)] r(1) unfolding r(2) holds_ok_def hold_row_ok_state by blast
    have "st_Accounts st i = map_option (account_of_row (bo_Book (st_Book st)) i) (map_of (db_accounts db) (cm_BookID cmd, i))"
      if "i \<in> set ids" for i
      using readAccounts_Inr(1) [OF acc(1), of i] that readBook_Inr [OF b] by (simp add: acc(2))
    then have "hold_ok (st_Accounts st) h" using ids by (intro hold_row_ok_loaded [OF row]) auto
    then show ?thesis using r by blast
  qed
  then show "\<exists>r. map_of (db_holds db) (cm_BookID cmd, hd_ID h) = Some r \<and> h = hold_of_row r" and "hold_ok (st_Accounts st) h"
    by blast+
qed

lemma Account_Validate_purpose: "is_ok (Account_Validate a) \<Longrightarrow> known_purpose (ac_Purpose a)"
  by (auto simp: Account_Validate_def known_purpose_def split: if_split_asm)

lemma Load_state_ok:
  assumes "Load E db cmd now = Inr st" and "books_ok db" and "cm_Kind cmd = ReservePayout \<Longrightarrow> st_Hold st = None"
  shows "state_ok st"
proof -
  have "ac_ID a = i \<and> (\<exists>b. st_Balances st i = Some b)" if "st_Accounts st i = Some a" for i a
    using Load_account [OF assms(1) that] Load_together [OF assms(1,2), of i] that
    by (cases "st_Balances st i") (auto simp: account_of_row_def)
  moreover have "bl_AccountID x = i \<and> (\<exists>a. st_Accounts st i = Some a \<and> balance_ok (ac_Purpose a) x)"
    if x: "st_Balances st i = Some x" for i x
  proof -
    obtain r where r: "map_of (db_balances db) (cm_BookID cmd, i) = Some r" "x = balance_of_row i r"
      using Load_balance [OF assms(1) books_okD(1) [OF assms(2)] x] by blast
    obtain a where a: "st_Accounts st i = Some a" using Load_together [OF assms(1,2), of i] x by auto
    note row = rows_ok_row [OF books_okD(1) [OF assms(2)] r(1)] and acc = Load_account [OF assms(1) a]
    have "ac_Purpose a = blr_purpose r" "is_ok (Account_Validate a)" using row acc by (auto simp: account_of_row_def)
    then have "solvent (ac_Purpose a) (row_tally r)"
      using row balance_checks_solvent Account_Validate_purpose [of a] by simp
    then show ?thesis using a row r by (simp add: balance_ok_def balance_of_row_def totals_of_row_ok)
  qed
  moreover have "usage_ok (ug_Values u)" if "st_Usage st = Some u" for u
    using Load_usage [OF assms(1) books_okD(4) [OF assms(2)] that] usage_of_row_ok by metis
  moreover have "hold_ok (st_Accounts st) h" if "st_Hold st = Some h" for h
    using Load_hold(2) [OF assms(1,2) that] assms(3) that by fastforce
  ultimately show ?thesis by (simp add: state_ok_def)
qed

section \<open>Plans of the service fit the database\<close>

lemma change_fits_loaded:
  assumes "balance_change_ok st p ch" and "Load E db cmd now = Inr st" and "books_ok db"
  shows "change_fits (cm_BookID cmd) (db_balances db) ch"
proof (cases "ch_Before ch")
  case None
  then have "bl_Totals (ch_After ch) = zero_totals" using assms(1) by (auto simp: balance_change_ok_def Let_def split: option.split_asm)
  then show ?thesis using None by (simp add: change_fits_def totals_ok_def)
next
  case (Some x)
  then obtain a :: account where a: "st_Balances st (bl_AccountID (ch_After ch)) = Some x" "balance_ok (ac_Purpose a) (ch_After ch)"
    using assms(1) by (auto simp: balance_change_ok_def Let_def split: option.split_asm)
  obtain r where r: "map_of (db_balances db) (cm_BookID cmd, bl_AccountID (ch_After ch)) = Some r"
    "x = balance_of_row (bl_AccountID (ch_After ch)) r"
    using Load_balance [OF assms(2) books_okD(1) [OF assms(3)] a(1)] by blast
  have "balance_checks r" using rows_ok_row [OF books_okD(1) [OF assms(3)] r(1)] by blast
  then have "row_tally r = tally_of (bl_Totals x)" using r(2) totals_of_row_ok(3) by (simp add: balance_of_row_def)
  then show ?thesis using Some r(1) a(2) by (simp add: change_fits_def balance_ok_def)
qed

lemma hold_ok_rows:
  assumes "hold_ok (st_Accounts st) h" and "Load E db cmd now = Inr st"
  shows "hold_row_ok db (cm_BookID cmd) h"
proof -
  obtain x y z where "st_Accounts st (tm_SourceID (hd_Terms h)) = Some x" "ac_Purpose x = Wallet" "ac_Owner x = hd_OwnerID h"
    "st_Accounts st (hd_PoolID h) = Some y" "ac_Purpose y = ProviderPool"
    "st_Accounts st (hd_FeeAccountID h) = Some z" "ac_Purpose z = FeeIncome"
    and t: "terms_ok (hd_Terms h)" "hold_total h < 2 ^ 63"
    using assms(1) by (auto simp: hold_ok_def hold_total_def split: option.split_asm)
  then show ?thesis
    using Load_account [OF assms(2), of "tm_SourceID (hd_Terms h)" x] Load_account [OF assms(2), of "hd_PoolID h" y]
      Load_account [OF assms(2), of "hd_FeeAccountID h" z]
    by (auto simp: hold_row_ok_def account_of_row_def)
qed

lemma hold_originE:
  assumes "hold_origin st q" and "pl_Hold q = Some ch"
  obtains (old) h s where "st_Hold st = Some h" "hold_step (hd_State h) s" "ch = \<lparr>ch_Before = Some h, ch_After = h\<lparr>hd_State := s\<rparr>\<rparr>"
    | (new) "ch_Before ch = None" "st_Hold st = None" "hold_ok (st_Accounts st) (ch_After ch)"
  using assms unfolding hold_origin_def by (elim allE [of _ ch] impE) auto

lemma applied_plan_fits:
  assumes ev: "evaluate E t c cmd st now p = applied q" and "command_ok cmd" and "fresh_plan p"
    and load: "Load E db cmd now = Inr st" and books: "books_ok db"
    and book: "rc_BookID (pl_Receipt q) = cm_BookID cmd"
  shows "plan_fits db q"
proof -
  have none: "st_Hold st = None" if "cm_Kind cmd = ReservePayout"
  proof -
    have "admit E t c cmd st now p = applied q" using ev that kind_admit by metis
    then obtain terms a sub acct policy where adm: "admitted E t c cmd st now terms a sub acct policy"
      and "admit_funds E cmd st now terms a sub policy (with_subjects p [ac_Owner a]) = applied q" by (rule admit_applied)
    then show ?thesis
      using that by (auto elim!: admit_funds_applied elim: admit_reserve_applied)
  qed
  have st: "state_ok st" using Load_state_ok [OF load books none] .
  note eff = evaluate_effect [OF ev st assms(2,3)] and org = evaluate_origin [OF ev st assms(2,3)]
  have hold: "hold_fits (cm_BookID cmd) (db_holds db) (pl_Hold q) \<and>
    (\<forall>ch. pl_Hold q = Some ch \<longrightarrow> hold_row_ok db (cm_BookID cmd) (ch_After ch))"
  proof (cases "pl_Hold q")
    case (Some ch)
    have "hold_origin st q" using org by blast
    from this Some show ?thesis
    proof (cases rule: hold_originE)
      case (old h s)
      then have "cm_Kind cmd \<noteq> ReservePayout" using none by auto
      note h = Load_hold [OF load books old(1) this]
      then show ?thesis using old(3) Some hold_ok_rows [OF h(2) load] by (auto simp: hold_fits_def)
    next
      case new
      then show ?thesis using Some hold_ok_rows [OF new(3) load] by (simp add: hold_fits_def)
    qed
  qed (simp add: hold_fits_def)
  have usage: "usage_fits (cm_BookID cmd) (db_usage db) (pl_Usage q)"
  proof (cases "pl_Usage q")
    case (Some ch)
    have ok: "usage_ok (ug_Values (ch_After ch))" using eff Some by (simp add: usage_effect_def)
    have "\<exists>r. map_of (db_usage db) (cm_BookID cmd, ug_OwnerID (ch_After ch), ug_Bucket (ch_After ch)) = Some r
        \<and> usr_reserved r = usage_reserved u" if "ch_Before ch = Some u" for u
    proof -
      have u: "st_Usage st = Some u" "ug_OwnerID (ch_After ch) = ug_OwnerID u" "ug_Bucket (ch_After ch) = ug_Bucket u"
        using org Some that by (auto simp: usage_origin_def)
      obtain r where "map_of (db_usage db) (cm_BookID cmd, ug_OwnerID u, ug_Bucket u) = Some r"
        "u = usage_of_row (ug_OwnerID u) (ug_Bucket u) r" "usage_checks r"
        using Load_usage [OF load books_okD(4) [OF books] u(1)] by blast
      then show ?thesis using usage_of_row_ok u(2,3) by metis
    qed
    then show ?thesis using ok Some by (simp add: usage_fits_def)
  qed (simp add: usage_fits_def)
  have "side_sum Debit (opt_lines (pl_Journal q)) = side_sum Credit (opt_lines (pl_Journal q))"
    using eff by (cases "pl_Journal q") (auto simp: opt_lines_def plan_effect_def journal_valid_def)
  moreover have "journal_delta sd i q = lines_delta sd i (opt_lines (pl_Journal q))" for sd i
    by (cases "pl_Journal q") (simp_all add: journal_delta_def opt_lines_def lines_delta_def)
  moreover have "\<forall>ch\<in>set (pl_Balances q). change_fits (cm_BookID cmd) (db_balances db) ch"
    using eff change_fits_loaded [OF _ load books] by (auto simp: plan_effect_def)
  ultimately show ?thesis
    using eff org hold usage book
    by (simp add: plan_fits_def Let_def plan_effect_def account_origin_def)
qed

lemma plan_fits_upd [simp]:
  "rc_BookID r = rc_BookID (pl_Receipt p) \<Longrightarrow> plan_fits db (p\<lparr>pl_Claim := cl, pl_Receipt := r\<rparr>) = plan_fits db p"
  by (simp add: plan_fits_def usage_effect_def)

lemma rejection_plan_fits: "plan_fits db (rejection_plan cmd canonical base reason q)"
  by (simp add: plan_fits_def rejection_plan_def new_plan_def opt_lines_def lines_delta_def balance_delta_def opt_change_def
      hold_fits_def usage_fits_def usage_effect_def)

section \<open>Executions keep the books\<close>

lemma execute_plan_fits:
  assumes "execute_plan E t c cmd canonical j e now st = Inr p" and "Load E db cmd now = Inr st" and "books_ok db" and "command_ok cmd"
  shows "plan_fits db p"
proof -
  obtain payment holdID reason q q' base where
    ev: "evaluate E t c cmd st now (new_plan cmd canonical base) = Inr (reason, q)"
    and cl: "add_claim E cmd canonical st payment (if reason \<noteq> [] then rejection_plan cmd canonical base reason q else q) = Inr q'"
    and p: "p = q'\<lparr>pl_Receipt := complete_receipt j st q'\<rparr>"
    using assms(1) by (rule execute_plan_cases)
  obtain x where x: "q' = (if reason \<noteq> [] then rejection_plan cmd canonical base reason q else q)\<lparr>pl_Claim := x\<rparr>"
    using cl by (rule add_claim_Inr)
  have rc: "rc_BookID (complete_receipt j st q') = rc_BookID (pl_Receipt q')" by (simp add: complete_receipt_def Let_def)
  show ?thesis
  proof (cases "reason = []")
    case True
    have "rc_BookID (pl_Receipt p) = cm_BookID cmd" using assms(1) by (rule execute_plan_identity)
    then have "rc_BookID (pl_Receipt q) = cm_BookID cmd" using rc True by (simp add: p x)
    with ev True assms(2-4) have "plan_fits db q" by (intro applied_plan_fits [where p = "new_plan cmd canonical base"]) simp_all
    then show ?thesis using True rc by (simp add: p x)
  next
    case False
    then show ?thesis using rc rejection_plan_fits by (simp add: p x)
  qed
qed

lemma execute_keeps_books:
  assumes "execute_tx (cockroach_tx E) E t c cmd canonical j e now db = Inr (r, db')" and "books_ok db" and "command_ok cmd"
  shows "books_ok db'"
  using assms(1)
proof (cases rule: ck.execute_cases)
  case replay
  then show ?thesis using assms(2) by simp
next
  case (fresh st p)
  then have "Load E db cmd (Time_UTC now) = Inr st" "Save E db p = Inr db'" by (simp_all add: cockroach_tx_def)
  then show ?thesis
    using Save_keeps_books [of E db p db' "{}"] execute_plan_fits [OF fresh(3)] assms(2,3) by (simp add: books_ok_def)
qed

text \<open>Amounts are never negative: \<open>Amount\<close> is built by \<open>NewAmount\<close> and \<open>ParseAmount\<close> only.\<close>

definition fees_ok :: "command \<Rightarrow> bool" where
  "fees_ok cmd = ((\<forall>x. cm_Transfer cmd = Some x \<longrightarrow> amount_ok (tm_Fee (tr_Terms x)))
     \<and> (\<forall>x. cm_Reserve cmd = Some x \<longrightarrow> amount_ok (tm_Fee (rs_Terms x))))"

end
