(* ===== verification/Fixture.thy ===== *)
theory Fixture
  imports Integrity
begin

text \<open>
  \<open>fixture.go\<close>: the synthetic bootstrap of a book, with two wallets, a provider pool, a fee account, four
  posting policies and one funding journal. The random bytes of the identities are an argument.
\<close>

section \<open>Data\<close>

record fixture =
  fx_BookID :: ID
  fx_WalletA :: ID
  fx_WalletB :: ID
  fx_Pool :: ID
  fx_FeeAccount :: ID
  fx_OwnerA :: ID
  fx_OwnerB :: ID
  fx_SystemOwner :: ID
  fx_Policy100 :: ID
  fx_Policy200 :: ID
  fx_Policy1000 :: ID
  fx_PolicyZero :: ID
  fx_ProviderAccount :: ID
  fx_Capability :: ID
  fx_OperationID :: ID

definition new_fixture :: "(nat \<Rightarrow> bytes) \<Rightarrow> fixture" where
  "new_fixture rnd =
     \<lparr>fx_BookID = NewID (rnd 0), fx_WalletA = NewID (rnd 1), fx_WalletB = NewID (rnd 2), fx_Pool = NewID (rnd 3),
      fx_FeeAccount = NewID (rnd 4), fx_OwnerA = NewID (rnd 5), fx_OwnerB = NewID (rnd 6), fx_SystemOwner = NewID (rnd 7),
      fx_Policy100 = NewID (rnd 8), fx_Policy200 = NewID (rnd 9), fx_Policy1000 = NewID (rnd 10),
      fx_PolicyZero = NewID (rnd 11), fx_ProviderAccount = NewID (rnd 12), fx_Capability = NewID (rnd 13),
      fx_OperationID = NewID (rnd 14)\<rparr>"

definition book_checks :: "book_row \<Rightarrow> bool" where
  "book_checks r = (bkr_currency r = ''KES'' \<and> bkr_scale r = 2 \<and> bkr_synthetic r \<and> amount_column (bkr_default_cap r))"

definition policy_checks :: "policy_row \<Rightarrow> bool" where
  "policy_checks r = (0 \<le> sint (por_fee r) \<and> 0 < sint (por_max_hold_seconds r) \<and> sint (por_max_hold_seconds r) \<le> 900)"

definition fixture_cap :: wide where
  "fixture_cap = (case ParseWide ''200000'' of Inl _ \<Rightarrow> zero_wide | Inr w \<Rightarrow> w)"

definition fixture_funding :: amount where
  "fixture_funding = (case ParseAmount ''100000'' of Inl _ \<Rightarrow> Amount 0 | Inr a \<Rightarrow> a)"

definition fixture_book :: "fixture \<Rightarrow> book" where
  "fixture_book f = \<lparr>bk_ID = fx_BookID f, bk_Currency = ''KES'', bk_Scale = 2\<rparr>"

definition fixture_account :: "fixture \<Rightarrow> ID \<Rightarrow> ID \<Rightarrow> purpose \<Rightarrow> account" where
  "fixture_account f i owner p = \<lparr>ac_ID = i, ac_Book = fixture_book f, ac_Owner = owner, ac_Purpose = p\<rparr>"

definition fixture_accounts :: "fixture \<Rightarrow> account list" where
  "fixture_accounts f =
     [fixture_account f (fx_WalletA f) (fx_OwnerA f) Wallet, fixture_account f (fx_WalletB f) (fx_OwnerB f) Wallet,
      fixture_account f (fx_Pool f) (fx_SystemOwner f) ProviderPool, fixture_account f (fx_FeeAccount f) (fx_SystemOwner f) FeeIncome]"

definition fixture_policies :: "fixture \<Rightarrow> (ID \<times> int64) list" where
  "fixture_policies f = [(fx_Policy100 f, 100), (fx_Policy200 f, 200), (fx_Policy1000 f, 1000), (fx_PolicyZero f, 0)]"

definition fixture_balance :: "fixture \<Rightarrow> account \<Rightarrow> balance" where
  "fixture_balance f a =
     (let t = zero_totals;
          t = (if ac_ID a = fx_WalletA f then t\<lparr>tt_Credits := WideAmount fixture_funding\<rparr> else t);
          t = (if ac_ID a = fx_Pool f then t\<lparr>tt_Debits := WideAmount fixture_funding\<rparr> else t)
      in \<lparr>bl_AccountID = ac_ID a, bl_Totals = t, bl_Version = 1\<rparr>)"

section \<open>The transaction\<close>

text \<open>The controls of one account, each key once: subjects get the cap.\<close>

fun fixture_controls :: "control_key list \<Rightarrow> control_key list \<Rightarrow> plan \<Rightarrow> control_key list \<times> plan" where
  "fixture_controls seen [] p = (seen, p)"
| "fixture_controls seen (k # ks) p =
     (if k \<in> set seen then fixture_controls seen ks p
      else
        let c = \<lparr>ct_Key = k, ct_Version = 1, ct_Epoch = 1, ct_DebitFrozen = False, ct_CreditFrozen = False,
                 ct_DailyCap = (if ck_Kind k = ''SUBJECT'' then fixture_cap else zero_wide)\<rparr>;
            r = pl_Receipt p
        in fixture_controls (k # seen) ks
             (p\<lparr>pl_Controls := pl_Controls p @ [\<lparr>ch_Before = None, ch_After = c\<rparr>],
                pl_Receipt := r\<lparr>rc_ControlVersions := (rc_ControlVersions r)(ControlKey_String k \<mapsto> ''1'')\<rparr>\<rparr>))"

fun fixture_loop :: "fixture \<Rightarrow> account list \<Rightarrow> control_key list \<Rightarrow> plan \<Rightarrow> db \<Rightarrow> (plan \<times> db) result" where
  "fixture_loop f [] seen p db = Inr (p, db)"
| "fixture_loop f (a # as) seen p db =
     (let row = \<lparr>acr_owner = ac_Owner a, acr_purpose = ac_Purpose a\<rparr>; r = pl_Receipt p
      in res_bind (insert_row (account_checks row) True (has_book db (fx_BookID f)) (fx_BookID f, ac_ID a) row (db_accounts db)) (\<lambda>t.
           let q = p\<lparr>pl_Balances := pl_Balances p @ [\<lparr>ch_Before = None, ch_After = fixture_balance f a\<rparr>],
                     pl_Receipt := r\<lparr>rc_AccountVersions := (rc_AccountVersions r)(ac_ID a \<mapsto> ''1'')\<rparr>\<rparr>;
               (seen', q') = fixture_controls seen [Key ''SUBJECT'' (ac_Owner a), Key ''ACCOUNT'' (ac_ID a)] q
           in fixture_loop f as seen' q' (db\<lparr>db_accounts := t\<rparr>)))"

definition save_policy :: "fixture \<Rightarrow> ID \<times> int64 \<Rightarrow> db \<Rightarrow> db result" where
  "save_policy f = (\<lambda>(i, fee) db.
     let r = \<lparr>por_fee = fee, por_fee_account = fx_FeeAccount f, por_pool = fx_Pool f, por_provider = fx_ProviderAccount f,
              por_capability = fx_Capability f, por_max_hold_seconds = 900\<rparr>
     in res_bind
          (insert_row (policy_checks r) True
             (has_book db (fx_BookID f) \<and> has_account db (fx_BookID f) (por_fee_account r) \<and> has_account db (fx_BookID f) (por_pool r))
             (fx_BookID f, i) r (db_policies db))
          (\<lambda>t. Inr (db\<lparr>db_policies := t\<rparr>)))"

definition fixture_json :: "fixture \<Rightarrow> json" where
  "fixture_json f = JObj [(''book_id'', JStr (fx_BookID f)), (''kind'', JStr ''FIXTURE_FUND''),
     (''schema_version'', JStr ''1''), (''units'', JStr ''100000'')]"

definition fixture_receipt :: "env \<Rightarrow> fixture \<Rightarrow> string \<Rightarrow> ID \<Rightarrow> ID \<Rightarrow> time \<Rightarrow> receipt" where
  "fixture_receipt E f canonical journalID eventID now =
     \<lparr>rc_CallerIdentity = [], rc_SchemaVersion = ''1'', rc_BookID = fx_BookID f, rc_OperationID = fx_OperationID f,
      rc_Kind = ''FIXTURE_FUND'', rc_RequestHash = hash E canonical, rc_Outcome = ''APPLIED'', rc_Reason = [], rc_PaymentID = [],
      rc_SubjectIDs = [fx_OwnerA f, fx_SystemOwner f], rc_JournalID = journalID, rc_HoldID = [], rc_HoldVersion = 0,
      rc_ControlVersions = Map.empty, rc_AccountVersions = Map.empty, rc_PolicyID = [], rc_EvidenceID = [],
      rc_LimitChange = None, rc_RecordedAt = now, rc_EventID = eventID\<rparr>"

text \<open>The plan of the bootstrap carries no command.\<close>

definition zero_command :: command where
  "zero_command = \<lparr>cm_BookID = [], cm_OperationID = [], cm_Kind = [], cm_Create = None, cm_Transfer = None, cm_Reserve = None,
     cm_Expose = None, cm_Capture = None, cm_Release = None, cm_Control = None\<rparr>"

definition fixture_plan :: "env \<Rightarrow> fixture \<Rightarrow> string \<Rightarrow> ID \<Rightarrow> ID \<Rightarrow> time \<Rightarrow> plan" where
  "fixture_plan E f canonical journalID eventID now =
     new_plan zero_command canonical (fixture_receipt E f canonical journalID eventID now)"

definition fixture_lines :: "fixture \<Rightarrow> line list" where
  "fixture_lines f =
     [\<lparr>ln_Account = fixture_account f (fx_Pool f) (fx_SystemOwner f) ProviderPool, ln_Side = Debit, ln_Amount = fixture_funding\<rparr>,
      \<lparr>ln_Account = fixture_account f (fx_WalletA f) (fx_OwnerA f) Wallet, ln_Side = Credit, ln_Amount = fixture_funding\<rparr>]"

definition bootstrap_tx :: "env \<Rightarrow> fixture \<Rightarrow> ID \<Rightarrow> ID \<Rightarrow> db body" where
  "bootstrap_tx E f journalID eventID clock db =
     res_bind (sql_decimal (Wide_String fixture_cap)) (\<lambda>cap.
     let row = \<lparr>bkr_currency = ''KES'', bkr_scale = 2, bkr_synthetic = True, bkr_default_cap = cap\<rparr>
     in res_bind (insert_row (book_checks row) True True (fx_BookID f) row (db_books db)) (\<lambda>books.
        res_bind (en_Canonical E (fixture_json f)) (\<lambda>canonical.
        res_bind (fixture_loop f (fixture_accounts f) [] (fixture_plan E f canonical journalID eventID (Time_UTC clock))
          (db\<lparr>db_books := books\<rparr>)) (\<lambda>(p, db1).
        res_bind (save_each (save_policy f) (fixture_policies f) db1) (\<lambda>db2.
        res_bind (NewJournal (en_sha256 E) (fixture_book f) (fixture_lines f)) (\<lambda>j.
        let q = p\<lparr>pl_Journal := Some j\<rparr>
        in res_bind (Save E db2 q) (\<lambda>db3. Inr (pl_Receipt q, db3))))))))"

text \<open>The fixture is returned with the error, if any; the receipt is dropped.\<close>

definition BootstrapSynthetic ::
  "env \<Rightarrow> (nat \<Rightarrow> db attempt) \<Rightarrow> (nat \<Rightarrow> bytes) \<Rightarrow> db \<Rightarrow> (fixture \<times> error option) \<times> db" where
  "BootstrapSynthetic E attempts rnd db =
     (let f = new_fixture rnd
      in case Transact attempts (bootstrap_tx E f (NewID (rnd 15)) (NewID (rnd 16))) db of
           (Inl e, db') \<Rightarrow> ((f, Some e), db')
         | (Inr _, db') \<Rightarrow> ((f, None), db'))"

section \<open>The bootstrap keeps the books\<close>

lemma fixture_funding_val: "amount_val fixture_funding = 100000" "amount_ok fixture_funding"
  by code_simp+

lemma fixture_controls_only:
  "\<exists>seen' cs r. fixture_controls seen ks p = (seen', p\<lparr>pl_Controls := cs, pl_Receipt := (pl_Receipt p)\<lparr>rc_ControlVersions := r\<rparr>\<rparr>)"
proof (induction ks arbitrary: seen p)
  case Nil
  show ?case by (intro exI [of _ seen] exI [of _ "pl_Controls p"] exI [of _ "rc_ControlVersions (pl_Receipt p)"]) simp
next
  case (Cons k ks)
  show ?case
  proof (cases "k \<in> set seen")
    case True
    then show ?thesis using Cons.IH [of seen p] by simp
  next
    case False
    let ?c = "\<lparr>ct_Key = k, ct_Version = 1, ct_Epoch = 1, ct_DebitFrozen = False, ct_CreditFrozen = False,
       ct_DailyCap = (if ck_Kind k = ''SUBJECT'' then fixture_cap else zero_wide)\<rparr>"
    let ?q = "p\<lparr>pl_Controls := pl_Controls p @ [\<lparr>ch_Before = None, ch_After = ?c\<rparr>],
       pl_Receipt := (pl_Receipt p)\<lparr>rc_ControlVersions := (rc_ControlVersions (pl_Receipt p))(ControlKey_String k \<mapsto> ''1'')\<rparr>\<rparr>"
    have step: "fixture_controls seen (k # ks) p = fixture_controls (k # seen) ks ?q" using False by (simp add: Let_def)
    obtain seen' cs r where "fixture_controls (k # seen) ks ?q =
        (seen', ?q\<lparr>pl_Controls := cs, pl_Receipt := (pl_Receipt ?q)\<lparr>rc_ControlVersions := r\<rparr>\<rparr>)" using Cons.IH by blast
    then have "fixture_controls (k # seen) ks ?q = (seen', p\<lparr>pl_Controls := cs, pl_Receipt := (pl_Receipt p)\<lparr>rc_ControlVersions := r\<rparr>\<rparr>)"
      by simp
    then show ?thesis unfolding step by blast
  qed
qed

lemma fixture_loop_Inr:
  assumes "fixture_loop f as seen p db = Inr (q, db')"
  shows "pl_Balances q = pl_Balances p @ map (\<lambda>a. \<lparr>ch_Before = None, ch_After = fixture_balance f a\<rparr>) as"
    and "pl_NewAccount q = pl_NewAccount p" and "pl_Hold q = pl_Hold p" and "pl_Usage q = pl_Usage p"
    and "rc_BookID (pl_Receipt q) = rc_BookID (pl_Receipt p)"
    and "distinct (map ac_ID as)" and "\<forall>a\<in>set as. map_of (db_accounts db) (fx_BookID f, ac_ID a) = None"
    and "\<exists>t. db' = db\<lparr>db_accounts := t\<rparr> \<and> (\<forall>k x. map_of (db_accounts db) k = Some x \<longrightarrow> map_of t k = Some x)
      \<and> (\<forall>k. map_of t k \<noteq> None \<longrightarrow> map_of (db_accounts db) k \<noteq> None \<or> k \<in> {fx_BookID f} \<times> ac_ID ` set as)"
proof -
  have "pl_Balances q = pl_Balances p @ map (\<lambda>a. \<lparr>ch_Before = None, ch_After = fixture_balance f a\<rparr>) as
    \<and> pl_NewAccount q = pl_NewAccount p \<and> pl_Hold q = pl_Hold p \<and> pl_Usage q = pl_Usage p
    \<and> rc_BookID (pl_Receipt q) = rc_BookID (pl_Receipt p) \<and> distinct (map ac_ID as)
    \<and> (\<forall>a\<in>set as. map_of (db_accounts db) (fx_BookID f, ac_ID a) = None)
    \<and> (\<exists>t. db' = db\<lparr>db_accounts := t\<rparr> \<and> (\<forall>k x. map_of (db_accounts db) k = Some x \<longrightarrow> map_of t k = Some x)
      \<and> (\<forall>k. map_of t k \<noteq> None \<longrightarrow> map_of (db_accounts db) k \<noteq> None \<or> k \<in> {fx_BookID f} \<times> ac_ID ` set as))"
    using assms
  proof (induction as arbitrary: seen p db)
    case Nil
    then show ?case by (auto intro!: exI [of _ "db_accounts db"])
  next
    case (Cons a as)
    let ?row = "\<lparr>acr_owner = ac_Owner a, acr_purpose = ac_Purpose a\<rparr>"
    let ?t = "AList.update (fx_BookID f, ac_ID a) ?row (db_accounts db)"
    let ?p = "p\<lparr>pl_Balances := pl_Balances p @ [\<lparr>ch_Before = None, ch_After = fixture_balance f a\<rparr>],
      pl_Receipt := (pl_Receipt p)\<lparr>rc_AccountVersions := (rc_AccountVersions (pl_Receipt p))(ac_ID a \<mapsto> ''1'')\<rparr>\<rparr>"
    obtain seen' cs r where c: "fixture_controls seen [Key ''SUBJECT'' (ac_Owner a), Key ''ACCOUNT'' (ac_ID a)] ?p =
        (seen', ?p\<lparr>pl_Controls := cs, pl_Receipt := (pl_Receipt ?p)\<lparr>rc_ControlVersions := r\<rparr>\<rparr>)"
      using fixture_controls_only by blast
    have none: "map_of (db_accounts db) (fx_BookID f, ac_ID a) = None"
      and rest: "fixture_loop f as seen' (?p\<lparr>pl_Controls := cs, pl_Receipt := (pl_Receipt ?p)\<lparr>rc_ControlVersions := r\<rparr>\<rparr>)
        (db\<lparr>db_accounts := ?t\<rparr>) = Inr (q, db')"
      using Cons.prems c by (auto simp: Let_def insert_row_Inr simp del: fixture_controls.simps)
    note IH = Cons.IH [OF rest]
    have free: "map_of ?t (fx_BookID f, ac_ID x) = None" if "x \<in> set as" for x using IH that by simp
    have new: "map_of ?t (fx_BookID f, ac_ID a) \<noteq> None" by (simp add: update_conv')
    have dist: "ac_ID a \<notin> ac_ID ` set as" using free new by force
    have frees: "map_of (db_accounts db) (fx_BookID f, ac_ID x) = None" if "x \<in> set as" for x
      using free [OF that] by (simp add: update_conv' split: if_split_asm)
    obtain u where u: "db' = db\<lparr>db_accounts := u\<rparr>" "\<And>k x. map_of ?t k = Some x \<Longrightarrow> map_of u k = Some x"
      "\<And>k. map_of u k \<noteq> None \<Longrightarrow> map_of ?t k \<noteq> None \<or> k \<in> {fx_BookID f} \<times> ac_ID ` set as"
      using IH by auto
    have ext: "map_of u k = Some x" if "map_of (db_accounts db) k = Some x" for k x
    proof (rule u(2))
      show "map_of ?t k = Some x" using that none by (auto simp: update_conv')
    qed
    have only: "map_of (db_accounts db) k \<noteq> None \<or> k \<in> {fx_BookID f} \<times> ac_ID ` set (a # as)" if "map_of u k \<noteq> None" for k
      using u(3) [OF that] by (auto simp: update_conv' split: if_split_asm)
    have "\<exists>t. db' = db\<lparr>db_accounts := t\<rparr> \<and> (\<forall>k x. map_of (db_accounts db) k = Some x \<longrightarrow> map_of t k = Some x)
      \<and> (\<forall>k. map_of t k \<noteq> None \<longrightarrow> map_of (db_accounts db) k \<noteq> None \<or> k \<in> {fx_BookID f} \<times> ac_ID ` set (a # as))"
      using u(1) ext only by blast
    moreover have "distinct (map ac_ID (a # as))" "\<forall>x\<in>set (a # as). map_of (db_accounts db) (fx_BookID f, ac_ID x) = None"
      using IH dist none frees by simp_all
    ultimately show ?case using IH by (intro conjI) simp_all
  qed
  then show "pl_Balances q = pl_Balances p @ map (\<lambda>a. \<lparr>ch_Before = None, ch_After = fixture_balance f a\<rparr>) as"
    and "pl_NewAccount q = pl_NewAccount p" and "pl_Hold q = pl_Hold p" and "pl_Usage q = pl_Usage p"
    and "rc_BookID (pl_Receipt q) = rc_BookID (pl_Receipt p)"
    and "distinct (map ac_ID as)" and "\<forall>a\<in>set as. map_of (db_accounts db) (fx_BookID f, ac_ID a) = None"
    and "\<exists>t. db' = db\<lparr>db_accounts := t\<rparr> \<and> (\<forall>k x. map_of (db_accounts db) k = Some x \<longrightarrow> map_of t k = Some x)
      \<and> (\<forall>k. map_of t k \<noteq> None \<longrightarrow> map_of (db_accounts db) k \<noteq> None \<or> k \<in> {fx_BookID f} \<times> ac_ID ` set as)"
    by blast+
qed

lemma save_policies_frame: "save_each (save_policy f) ps db = Inr db' \<Longrightarrow> \<exists>t. db' = db\<lparr>db_policies := t\<rparr>"
proof (erule save_each_rel [where R = "\<lambda>a b. \<exists>t. b = a\<lparr>db_policies := t\<rparr>"])
  show "\<exists>t. a = a\<lparr>db_policies := t\<rparr>" for a :: db by (rule exI [of _ "db_policies a"]) simp
  show "\<exists>t. b = a\<lparr>db_policies := t\<rparr> \<Longrightarrow> \<exists>t. c = b\<lparr>db_policies := t\<rparr> \<Longrightarrow> \<exists>t. c = a\<lparr>db_policies := t\<rparr>" for a b c :: db
    by auto
  show "save_policy f x a = Inr b \<Longrightarrow> \<exists>t. b = a\<lparr>db_policies := t\<rparr>" for x a b
    by (auto simp: save_policy_def Let_def split: prod.split_asm)
qed

lemma fixture_balance_ok:
  "totals_ok (bl_Totals (fixture_balance f a))" "bl_AccountID (fixture_balance f a) = ac_ID a"
  "fx_WalletA f \<noteq> fx_Pool f \<Longrightarrow> tally_of (bl_Totals (fixture_balance f a)) =
     (if ac_ID a = fx_Pool f then 100000 else 0, if ac_ID a = fx_WalletA f then 100000 else 0, 0)"
  using fixture_funding_val by (simp_all add: fixture_balance_def Let_def totals_ok_def tally_of_def)

lemma fixture_deltas:
  assumes "distinct (map ac_ID (fixture_accounts f))"
  defines "chs \<equiv> map (\<lambda>a. \<lparr>ch_Before = None, ch_After = fixture_balance f a\<rparr>) (fixture_accounts f)"
  shows "balance_delta debits i chs = lines_delta Debit i (fixture_lines f)"
    and "balance_delta credits i chs = lines_delta Credit i (fixture_lines f)" and "balance_delta held i chs = 0"
proof -
  have ids: "fx_WalletA f \<noteq> fx_WalletB f" "fx_WalletA f \<noteq> fx_Pool f" "fx_WalletA f \<noteq> fx_FeeAccount f"
    "fx_WalletB f \<noteq> fx_Pool f" "fx_WalletB f \<noteq> fx_FeeAccount f" "fx_Pool f \<noteq> fx_FeeAccount f"
    using assms(1) by (auto simp: fixture_accounts_def fixture_account_def)
  note sums = chs_def fixture_accounts_def balance_delta_def change_by_def fixture_balance_ok(2)
    fixture_balance_ok(3) [OF ids(2)] lines_delta_def fixture_lines_def fixture_account_def fixture_funding_val
  show "balance_delta debits i chs = lines_delta Debit i (fixture_lines f)" using ids by (simp add: sums)
  show "balance_delta credits i chs = lines_delta Credit i (fixture_lines f)" using ids by (simp add: sums)
  show "balance_delta held i chs = 0" using ids by (simp add: sums)
qed

lemma bootstrap_keeps_books:
  assumes "bootstrap_tx E f j e clock db = Inr (r, db')" and "books_ok db"
  shows "books_ok db'"
proof -
  obtain books canonical p db1 db2 jr where
    loop: "fixture_loop f (fixture_accounts f) [] (fixture_plan E f canonical j e (Time_UTC clock)) (db\<lparr>db_books := books\<rparr>) = Inr (p, db1)"
    and pol: "save_each (save_policy f) (fixture_policies f) db1 = Inr db2"
    and jr: "NewJournal (en_sha256 E) (fixture_book f) (fixture_lines f) = Inr jr"
    and save: "Save E db2 (p\<lparr>pl_Journal := Some jr\<rparr>) = Inr db'"
    using assms(1) by (auto simp: bootstrap_tx_def Let_def)
  let ?ids = "{fx_BookID f} \<times> ac_ID ` set (fixture_accounts f)"
  note l = fixture_loop_Inr [OF loop]
  have new: "pl_Balances p = map (\<lambda>a. \<lparr>ch_Before = None, ch_After = fixture_balance f a\<rparr>) (fixture_accounts f)"
    "pl_NewAccount p = None" "pl_Hold p = None" "pl_Usage p = None" "rc_BookID (pl_Receipt p) = fx_BookID f"
    using l(1-5) by (simp_all add: fixture_plan_def new_plan_def fixture_receipt_def)
  obtain t pt where db2: "db2 = db\<lparr>db_books := books, db_accounts := t, db_policies := pt\<rparr>"
    and ext: "\<And>k x. map_of (db_accounts db) k = Some x \<Longrightarrow> map_of t k = Some x"
    and only: "\<And>k. map_of t k \<noteq> None \<Longrightarrow> map_of (db_accounts db) k \<noteq> None \<or> k \<in> ?ids"
    using l(8) save_policies_frame [OF pol] by auto
  have "rows_ok db2" by (rule rows_ok_mono [OF books_okD(1) [OF assms(2)]]) (simp_all add: db2 ext)
  moreover have "holds_ok db2" by (rule holds_ok_mono [OF books_okD(3) [OF assms(2)]]) (simp_all add: db2 ext)
  moreover have "map_of (db_balances db2) k \<noteq> None \<or> k \<in> ?ids" if "map_of (db_accounts db2) k \<noteq> None" for k
    using only [of k] books_okD(5) [OF assms(2), of k] that by (auto simp: db2)
  ultimately have opened: "books_open ?ids db2"
    using books_okD [OF assms(2)] by (simp add: books_open_def db2 lines_ok_def usage_rows_ok_def)
  have lines: "jr_lines jr = fixture_lines f" using NewJournal_sound [OF jr] by simp
  have accounts: "map (bl_AccountID \<circ> ch_After) (pl_Balances p) = map ac_ID (fixture_accounts f)"
    by (simp add: new(1) fixture_balance_ok)
  have "distinct (map (bl_AccountID \<circ> ch_After) (pl_Balances p))" unfolding accounts by (rule l(6))
  moreover have "\<forall>ch\<in>set (pl_Balances p). change_fits (fx_BookID f) (db_balances db2) ch"
    by (auto simp: new(1) change_fits_def fixture_balance_ok)
  ultimately have "plan_fits db2 (p\<lparr>pl_Journal := Some jr\<rparr>)"
    unfolding plan_fits_def Let_def
    using fixture_deltas [OF l(6), folded new(1)] NewJournal_sound [OF jr]
    by (simp add: new(2-5) lines opt_lines_def opt_change_def hold_fits_def usage_fits_def usage_effect_def journal_valid_def)
  moreover have "?ids \<subseteq> {(rc_BookID (pl_Receipt p), i) |i. i \<in> (bl_AccountID \<circ> ch_After) ` set (pl_Balances p)}"
    using arg_cong [OF accounts, of set] by (auto simp: new(5))
  ultimately show ?thesis using Save_keeps_books [OF save opened] by simp
qed

end
