(* ===== verification/Outbox.thy ===== *)
theory Outbox
  imports Fixture
begin

text \<open>
  \<open>outbox.go\<close>: the route of a book to its consumer, leases on undelivered facts, acknowledgement, and the
  publishing loop. The database clock \<open>now()\<close> is the time of the attempt; what a consumer does is a
  function on its own state.
\<close>

section \<open>Routes\<close>

definition zero_receipt :: receipt where
  "zero_receipt = \<lparr>rc_CallerIdentity = [], rc_SchemaVersion = [], rc_BookID = [], rc_OperationID = [], rc_Kind = [],
     rc_RequestHash = [], rc_Outcome = [], rc_Reason = [], rc_PaymentID = [], rc_SubjectIDs = [], rc_JournalID = [],
     rc_HoldID = [], rc_HoldVersion = 0, rc_ControlVersions = Map.empty, rc_AccountVersions = Map.empty, rc_PolicyID = [],
     rc_EvidenceID = [], rc_LimitChange = None, rc_RecordedAt = \<lparr>t_ns = 0, t_offset = 0\<rparr>, rc_EventID = []\<rparr>"

definition outbox_used :: "db \<Rightarrow> ID \<Rightarrow> bool" where
  "outbox_used db book = list_ex (\<lambda>((b, i), r). b = book \<and> (der_delivered r \<or> sint (der_attempts r) > 0)) (db_delivery db)"

definition bind_tx :: "ID \<Rightarrow> string \<Rightarrow> db body" where
  "bind_tx book consumer now db =
     (case map_of (db_routes db) book of
        Some existing \<Rightarrow> if existing \<noteq> consumer then Inl ErrConflict else Inr (zero_receipt, db)
      | None \<Rightarrow>
          if outbox_used db book then Inl ErrConflict
          else res_bind (insert_row True True (has_book db book) book consumer (db_routes db)) (\<lambda>t.
                 Inr (zero_receipt, db\<lparr>db_routes := t\<rparr>)))"

definition BindOutboxConsumer :: "(nat \<Rightarrow> db attempt) \<Rightarrow> ID \<Rightarrow> string \<Rightarrow> db \<Rightarrow> unit result \<times> db" where
  "BindOutboxConsumer attempts book consumer db =
     (if \<not> ID_Valid book \<or> length consumer = 0 \<or> length consumer > 256 then (Inl ErrInvalid, db)
      else case Transact attempts (bind_tx book consumer) db of
             (Inl e, db') \<Rightarrow> (Inl e, db') | (Inr _, db') \<Rightarrow> (Inr (), db'))"

section \<open>Leases\<close>

record leased_fact =
  lf_BookID :: ID
  lf_EventID :: ID
  lf_OperationID :: ID
  lf_LeaseToken :: ID
  lf_Type :: string
  lf_Body :: receipt

definition claimable :: "time \<Rightarrow> delivery_row \<Rightarrow> bool" where
  "claimable now r = (\<not> der_delivered r \<and> (case der_lease_until r of None \<Rightarrow> True | Some u \<Rightarrow> t_ns u \<le> t_ns now))"

definition claim_ids :: "ID \<Rightarrow> nat \<Rightarrow> time \<Rightarrow> db \<Rightarrow> ID list" where
  "claim_ids book limit now db =
     take limit (sort (map (\<lambda>((b, i), r). i) (filter (\<lambda>((b, i), r). b = book \<and> claimable now r) (db_delivery db))))"

text \<open>\<open>now() + n milliseconds\<close>, the lease rounded down to milliseconds.\<close>

definition lease_end :: "time \<Rightarrow> int64 \<Rightarrow> time" where
  "lease_end now lease = now\<lparr>t_ns := t_ns now + (sint lease div 1000000) * 1000000\<rparr>"

fun claim_each :: "ID \<Rightarrow> ID \<Rightarrow> int64 \<Rightarrow> time \<Rightarrow> ID list \<Rightarrow> db \<Rightarrow> (leased_fact list \<times> db) result" where
  "claim_each book token lease now [] db = Inr ([], db)"
| "claim_each book token lease now (i # is) db =
     res_bind
       (update_row (claimable now) (\<lambda>r. 0 \<le> sint (der_attempts r)) (book, i)
          (\<lambda>r. r\<lparr>der_lease_token := Some token, der_lease_until := Some (lease_end now lease), der_attempts := der_attempts r + 1\<rparr>)
          (db_delivery db)) (\<lambda>t.
       case map_of (db_facts db) (book, i) of
         None \<Rightarrow> Inl ErrDriver
       | Some f \<Rightarrow>
           res_bind (claim_each book token lease now is (db\<lparr>db_delivery := t\<rparr>)) (\<lambda>(facts, db').
             Inr (\<lparr>lf_BookID = book, lf_EventID = i, lf_OperationID = far_operation f, lf_LeaseToken = token,
                   lf_Type = far_type f, lf_Body = far_body f\<rparr> # facts, db')))"

definition claim_tx :: "ID \<Rightarrow> ID \<Rightarrow> nat \<Rightarrow> int64 \<Rightarrow> time \<Rightarrow> db \<Rightarrow> (leased_fact list \<times> db) result" where
  "claim_tx book token limit lease now db = claim_each book token lease now (claim_ids book limit now db) db"

definition ClaimOutbox ::
  "(nat \<Rightarrow> db attempt) \<Rightarrow> bytes \<Rightarrow> ID \<Rightarrow> int \<Rightarrow> int64 \<Rightarrow> db \<Rightarrow> leased_fact list result \<times> db" where
  "ClaimOutbox attempts token_bytes book limit lease db =
     (if \<not> ID_Valid book \<or> limit < 1 \<or> limit > 100 \<or> sint lease < sint Second \<or> sint lease > sint Minute
      then (Inl ErrInvalid, db)
      else Transact attempts (claim_tx book (NewID token_bytes) (nat limit) lease) db)"

text \<open>One UPDATE outside a transaction. A failing driver call may have been applied or not.\<close>

definition ack_row :: "time \<Rightarrow> ID \<Rightarrow> delivery_row \<Rightarrow> bool" where
  "ack_row now token r = (der_lease_token r = Some token \<and>
     (case der_lease_until r of None \<Rightarrow> False | Some u \<Rightarrow> t_ns now < t_ns u))"

definition ack_update :: "time \<Rightarrow> leased_fact \<Rightarrow> db \<Rightarrow> db option" where
  "ack_update now lf db =
     (case map_of (db_delivery db) (lf_BookID lf, lf_EventID lf) of
        None \<Rightarrow> None
      | Some r \<Rightarrow>
          if ack_row now (lf_LeaseToken lf) r
          then Some (db\<lparr>db_delivery := AList.update (lf_BookID lf, lf_EventID lf) (r\<lparr>der_delivered := True\<rparr>) (db_delivery db)\<rparr>)
          else None)"

record exec_env =
  xe_clock :: time
  xe_fault :: "bool option"

definition AcknowledgeOutbox :: "exec_env \<Rightarrow> leased_fact \<Rightarrow> db \<Rightarrow> unit result \<times> db" where
  "AcknowledgeOutbox x lf db =
     (if \<not> ID_Valid (lf_BookID lf) \<or> \<not> ID_Valid (lf_EventID lf) \<or> \<not> ID_Valid (lf_LeaseToken lf) then (Inl ErrInvalid, db)
      else
        let u = ack_update (xe_clock x) lf db
        in case xe_fault x of
             Some reached \<Rightarrow> (Inl ErrUnavailable, if reached then (case u of None \<Rightarrow> db | Some db' \<Rightarrow> db') else db)
           | None \<Rightarrow> (case u of None \<Rightarrow> (Inl ErrConflict, db) | Some db' \<Rightarrow> (Inr (), db')))"

text \<open>
  \<open>PublishOutbox\<close>: each leased fact is delivered and then acknowledged, up to the first error. What other
  transactions commit while a delivery runs is \<open>others\<close>.
\<close>

fun publish_each ::
  "(nat \<Rightarrow> exec_env) \<Rightarrow> (nat \<Rightarrow> db \<Rightarrow> db) \<Rightarrow> (leased_fact \<Rightarrow> 'w \<Rightarrow> unit result \<times> 'w) \<Rightarrow> nat \<Rightarrow> leased_fact list \<Rightarrow> db \<Rightarrow> 'w \<Rightarrow>
   (nat \<times> error option) \<times> db \<times> 'w" where
  "publish_each xs others deliver n [] db w = ((n, None), db, w)"
| "publish_each xs others deliver n (f # fs) db w =
     (case deliver f w of
        (Inl e, w') \<Rightarrow> ((n, Some e), others n db, w')
      | (Inr _, w') \<Rightarrow>
          (case AcknowledgeOutbox (xs n) f (others n db) of
             (Inl e, db') \<Rightarrow> ((n, Some e), db', w')
           | (Inr _, db') \<Rightarrow> publish_each xs others deliver (Suc n) fs db' w'))"

definition PublishOutbox ::
  "(nat \<Rightarrow> db attempt) \<Rightarrow> bytes \<Rightarrow> (nat \<Rightarrow> exec_env) \<Rightarrow> (nat \<Rightarrow> db \<Rightarrow> db) \<Rightarrow> ID \<Rightarrow> int \<Rightarrow>
   (leased_fact \<Rightarrow> 'w \<Rightarrow> unit result \<times> 'w) option \<Rightarrow> db \<Rightarrow> 'w \<Rightarrow> (nat \<times> error option) \<times> db \<times> 'w" where
  "PublishOutbox attempts token_bytes xs others book limit deliver db w =
     (case deliver of
        None \<Rightarrow> ((0, Some ErrInvalid), db, w)
      | Some d \<Rightarrow>
          (case ClaimOutbox attempts token_bytes book limit Minute db of
             (Inl e, db') \<Rightarrow> ((0, Some e), db', w)
           | (Inr facts, db') \<Rightarrow> publish_each xs others d 0 facts db' w))"

section \<open>What a claim does\<close>

lemma claim_each_Inr [rule_format]:
  assumes "claim_each book token lease now ids db = Inr (fs, db')"
  shows "map lf_EventID fs = ids" and "\<exists>t. db' = db\<lparr>db_delivery := t\<rparr>"
    and "\<forall>lf\<in>set fs. lf_BookID lf = book \<and> lf_LeaseToken lf = token \<and>
      (\<exists>f. map_of (db_facts db) (book, lf_EventID lf) = Some f \<and> lf_OperationID lf = far_operation f
        \<and> lf_Type lf = far_type f \<and> lf_Body lf = far_body f)"
    and "\<forall>i\<in>set ids. \<exists>r. map_of (db_delivery db) (book, i) = Some r \<and> claimable now r"
    and "\<forall>i\<in>set ids. \<exists>r. map_of (db_delivery db') (book, i) = Some r \<and> der_lease_token r = Some token
      \<and> der_lease_until r = Some (lease_end now lease) \<and> \<not> der_delivered r"
    and "\<forall>k. k \<notin> {book} \<times> set ids \<longrightarrow> map_of (db_delivery db') k = map_of (db_delivery db) k"
    and "\<forall>k. map_of (db_delivery db') k = None \<longleftrightarrow> map_of (db_delivery db) k = None"
proof -
  have "map lf_EventID fs = ids \<and> (\<exists>t. db' = db\<lparr>db_delivery := t\<rparr>)
    \<and> (\<forall>lf\<in>set fs. lf_BookID lf = book \<and> lf_LeaseToken lf = token \<and>
      (\<exists>f. map_of (db_facts db) (book, lf_EventID lf) = Some f \<and> lf_OperationID lf = far_operation f
        \<and> lf_Type lf = far_type f \<and> lf_Body lf = far_body f))
    \<and> (\<forall>i\<in>set ids. \<exists>r. map_of (db_delivery db) (book, i) = Some r \<and> claimable now r)
    \<and> (\<forall>i\<in>set ids. \<exists>r. map_of (db_delivery db') (book, i) = Some r \<and> der_lease_token r = Some token
      \<and> der_lease_until r = Some (lease_end now lease) \<and> \<not> der_delivered r)
    \<and> (\<forall>k. k \<notin> {book} \<times> set ids \<longrightarrow> map_of (db_delivery db') k = map_of (db_delivery db) k)
    \<and> (\<forall>k. map_of (db_delivery db') k = None \<longleftrightarrow> map_of (db_delivery db) k = None)"
    using assms
  proof (induction ids arbitrary: fs db)
    case Nil
    then show ?case by (auto intro!: exI [of _ "db_delivery db"])
  next
    case (Cons i ids)
    let ?up = "\<lambda>r. r\<lparr>der_lease_token := Some token, der_lease_until := Some (lease_end now lease), der_attempts := der_attempts r + 1\<rparr>"
    obtain r f gs where r: "map_of (db_delivery db) (book, i) = Some r" "claimable now r"
      and f: "map_of (db_facts db) (book, i) = Some f"
      and rest: "claim_each book token lease now ids (db\<lparr>db_delivery := AList.update (book, i) (?up r) (db_delivery db)\<rparr>) = Inr (gs, db')"
      and fs: "fs = \<lparr>lf_BookID = book, lf_EventID = i, lf_OperationID = far_operation f, lf_LeaseToken = token,
                   lf_Type = far_type f, lf_Body = far_body f\<rparr> # gs"
      using Cons.prems by (auto simp: update_row_Inr split: option.split_asm)
    let ?t = "AList.update (book, i) (?up r) (db_delivery db)"
    have sel: "db_delivery (db\<lparr>db_delivery := ?t\<rparr>) = ?t" "db_facts (db\<lparr>db_delivery := ?t\<rparr>) = db_facts db"
      "db\<lparr>db_delivery := ?t\<rparr>\<lparr>db_delivery := x\<rparr> = db\<lparr>db_delivery := x\<rparr>" for x by simp_all
    have ih: "map lf_EventID gs = ids" "\<exists>t. db' = db\<lparr>db_delivery := t\<rparr>"
      "\<forall>lf\<in>set gs. lf_BookID lf = book \<and> lf_LeaseToken lf = token \<and>
        (\<exists>f. map_of (db_facts db) (book, lf_EventID lf) = Some f \<and> lf_OperationID lf = far_operation f
          \<and> lf_Type lf = far_type f \<and> lf_Body lf = far_body f)"
      "\<forall>i\<in>set ids. \<exists>r. map_of ?t (book, i) = Some r \<and> claimable now r"
      "\<forall>i\<in>set ids. \<exists>r. map_of (db_delivery db') (book, i) = Some r \<and> der_lease_token r = Some token
        \<and> der_lease_until r = Some (lease_end now lease) \<and> \<not> der_delivered r"
      "\<forall>k. k \<notin> {book} \<times> set ids \<longrightarrow> map_of (db_delivery db') k = map_of ?t k"
      "\<forall>k. map_of (db_delivery db') k = None \<longleftrightarrow> map_of ?t k = None"
      by (insert Cons.IH [OF rest, unfolded sel], (elim conjE, assumption)+)
    have ids: "map lf_EventID fs = i # ids" using ih(1) by (simp add: fs)
    have heads: "\<forall>lf\<in>set fs. lf_BookID lf = book \<and> lf_LeaseToken lf = token \<and>
      (\<exists>f. map_of (db_facts db) (book, lf_EventID lf) = Some f \<and> lf_OperationID lf = far_operation f
        \<and> lf_Type lf = far_type f \<and> lf_Body lf = far_body f)" using f ih(3) by (simp add: fs)
    have claims: "\<exists>r. map_of (db_delivery db) (book, x) = Some r \<and> claimable now r" if "x \<in> set (i # ids)" for x
    proof (cases "x = i")
      case False
      then have "\<exists>r. map_of ?t (book, x) = Some r \<and> claimable now r" using ih(4) that by simp
      then show ?thesis using False by (simp add: update_conv')
    qed (use r in simp)
    have first: "\<exists>r. map_of (db_delivery db') (book, i) = Some r \<and> der_lease_token r = Some token
      \<and> der_lease_until r = Some (lease_end now lease) \<and> \<not> der_delivered r" if "i \<notin> set ids"
    proof -
      have "map_of (db_delivery db') (book, i) = map_of ?t (book, i)" using ih(6) that by simp
      then show ?thesis using r(2) by (simp add: update_conv' claimable_def)
    qed
    have all: "\<forall>x\<in>set (i # ids). \<exists>r. map_of (db_delivery db') (book, x) = Some r \<and> der_lease_token r = Some token
      \<and> der_lease_until r = Some (lease_end now lease) \<and> \<not> der_delivered r" using first ih(5) by (cases "i \<in> set ids") auto
    have keep: "map_of (db_delivery db') k = map_of (db_delivery db) k" if "k \<notin> {book} \<times> set (i # ids)" for k
    proof -
      have "k \<notin> {book} \<times> set ids" "k \<noteq> (book, i)" using that by auto
      then have "map_of (db_delivery db') k = map_of ?t k" using ih(6) by blast
      then show ?thesis using \<open>k \<noteq> (book, i)\<close> by (simp add: update_conv')
    qed
    have dom: "map_of (db_delivery db') k = None \<longleftrightarrow> map_of (db_delivery db) k = None" for k
      using spec [OF ih(7), of k] r(1) by (simp add: update_conv' split: if_split_asm)
    show ?case by (intro conjI ids ih(2) heads all ballI allI impI claims keep dom)
  qed
  note all = this
  show "map lf_EventID fs = ids" and "\<exists>t. db' = db\<lparr>db_delivery := t\<rparr>"
    and "\<forall>lf\<in>set fs. lf_BookID lf = book \<and> lf_LeaseToken lf = token \<and>
      (\<exists>f. map_of (db_facts db) (book, lf_EventID lf) = Some f \<and> lf_OperationID lf = far_operation f
        \<and> lf_Type lf = far_type f \<and> lf_Body lf = far_body f)"
    and "\<forall>i\<in>set ids. \<exists>r. map_of (db_delivery db) (book, i) = Some r \<and> claimable now r"
    and "\<forall>i\<in>set ids. \<exists>r. map_of (db_delivery db') (book, i) = Some r \<and> der_lease_token r = Some token
      \<and> der_lease_until r = Some (lease_end now lease) \<and> \<not> der_delivered r"
    and "\<forall>k. k \<notin> {book} \<times> set ids \<longrightarrow> map_of (db_delivery db') k = map_of (db_delivery db) k"
    and "\<forall>k. map_of (db_delivery db') k = None \<longleftrightarrow> map_of (db_delivery db) k = None"
    by (insert all, (elim conjE, assumption)+)
qed

section \<open>Steps on the outbox\<close>

text \<open>What can happen to the delivery rows: a claim, an acknowledgement, or a transaction that adds a new fact.\<close>

datatype outbox_event = Claimed time "leased_fact list" | Acked time leased_fact | Added

inductive outbox_step :: "db \<Rightarrow> outbox_event \<Rightarrow> db \<Rightarrow> bool" where
  claim: "claim_tx book token limit lease now db = Inr (fs, db') \<Longrightarrow> outbox_step db (Claimed now fs) db'"
| ack: "ack_update now lf db = Some db' \<Longrightarrow> outbox_step db (Acked now lf) db'"
| save: "Save E db p = Inr db' \<Longrightarrow> outbox_step db Added db'"

inductive outbox_run :: "db \<Rightarrow> outbox_event list \<Rightarrow> db \<Rightarrow> bool" where
  none: "outbox_run db [] db"
| more: "outbox_run db es db1 \<Longrightarrow> outbox_step db1 e db2 \<Longrightarrow> outbox_run db (es @ [e]) db2"

inductive_cases outbox_stepE: "outbox_step db e db'"

fun before_time :: "time \<Rightarrow> outbox_event \<Rightarrow> bool" where
  "before_time u (Claimed now fs) = (t_ns now < t_ns u)"
| "before_time u (Acked now lf) = (t_ns now < t_ns u)"
| "before_time u Added = True"

fun claims_key :: "ID \<times> ID \<Rightarrow> outbox_event \<Rightarrow> bool" where
  "claims_key k (Claimed now fs) = list_ex (\<lambda>lf. (lf_BookID lf, lf_EventID lf) = k) fs"
| "claims_key k _ = False"

fun acks_key :: "ID \<times> ID \<Rightarrow> ID \<Rightarrow> outbox_event \<Rightarrow> bool" where
  "acks_key k token (Acked now lf) = ((lf_BookID lf, lf_EventID lf) = k \<and> lf_LeaseToken lf = token)"
| "acks_key k token _ = False"

definition leased :: "db \<Rightarrow> ID \<times> ID \<Rightarrow> ID \<Rightarrow> time \<Rightarrow> delivery_row \<Rightarrow> bool" where
  "leased db k token u r = (map_of (db_delivery db) k = Some r \<and> der_lease_token r = Some token \<and> der_lease_until r = Some u)"

lemma Save_delivery:
  assumes "Save E db p = Inr db'"
  shows "map_of (db_delivery db) k = Some r \<Longrightarrow> map_of (db_delivery db') k = Some r"
proof -
  let ?k = "(rc_BookID (pl_Receipt p), rc_EventID (pl_Receipt p))"
  have "map_of (db_delivery db) ?k = None \<and> (\<exists>x. db_delivery db' = AList.update ?k x (db_delivery db))"
    using assms by (rule Save_stages) (auto simp: save_operation_def Let_def insert_row_Inr)
  then show "map_of (db_delivery db) k = Some r \<Longrightarrow> map_of (db_delivery db') k = Some r" by (auto simp: update_conv')
qed

lemma leased_step:
  assumes "outbox_step db e db'" and "leased db k token u r" and "before_time u e"
  shows "\<not> claims_key k e" and "\<exists>r'. leased db' k token u r' \<and> (der_delivered r' \<longrightarrow> der_delivered r \<or> acks_key k token e)"
    and "\<And>t. acks_key k t e \<Longrightarrow> t = token"
proof -
  have row: "map_of (db_delivery db) k = Some r" "der_lease_token r = Some token" "der_lease_until r = Some u"
    using assms(2) by (simp_all add: leased_def)
  have "\<not> claims_key k e \<and> (\<exists>r'. leased db' k token u r' \<and> (der_delivered r' \<longrightarrow> der_delivered r \<or> acks_key k token e))
    \<and> (\<forall>t. acks_key k t e \<longrightarrow> t = token)"
    using assms(1)
  proof (cases rule: outbox_step.cases)
    case (claim book tok limit lease now fs)
    let ?ids = "claim_ids book limit now db"
    note c = claim_each_Inr [OF claim(2) [unfolded claim_tx_def]]
    have "\<not> claimable now r" using row(3) assms(3) claim(1) by (simp add: claimable_def)
    then have out: "k \<notin> {book} \<times> set ?ids" using c(4) row(1) by fastforce
    have "(lf_BookID lf, lf_EventID lf) \<noteq> k" if "lf \<in> set fs" for lf
    proof -
      have "lf_EventID lf \<in> set ?ids" using that by (simp flip: c(1))
      then show ?thesis using out c(3) [OF that] by auto
    qed
    then show ?thesis using c(6) [OF out] row claim(1) by (auto simp: leased_def list_ex_iff)
  next
    case (ack now lf)
    obtain x where x: "map_of (db_delivery db) (lf_BookID lf, lf_EventID lf) = Some x" "ack_row now (lf_LeaseToken lf) x"
      and db': "db' = db\<lparr>db_delivery := AList.update (lf_BookID lf, lf_EventID lf) (x\<lparr>der_delivered := True\<rparr>) (db_delivery db)\<rparr>"
      using ack(2) by (auto simp: ack_update_def split: option.split_asm if_split_asm)
    show ?thesis
    proof (cases "k = (lf_BookID lf, lf_EventID lf)")
      case True
      then have "x = r" "lf_LeaseToken lf = token" using x row by (auto simp: ack_row_def)
      then show ?thesis using True row ack(1) by (simp add: leased_def db' update_conv')
    next
      case False
      then show ?thesis using row ack(1) by (auto simp: leased_def db' update_conv')
    qed
  next
    case (save E p)
    then show ?thesis using row Save_delivery [OF save(2) row(1)] by (simp add: leased_def)
  qed
  then show "\<not> claims_key k e" and "\<exists>r'. leased db' k token u r' \<and> (der_delivered r' \<longrightarrow> der_delivered r \<or> acks_key k token e)"
    and "\<And>t. acks_key k t e \<Longrightarrow> t = token" by blast+
qed

lemma leased_run:
  assumes "outbox_run db es db'" and "leased db k token u r" and "\<forall>e\<in>set es. before_time u e"
  shows "(\<forall>e\<in>set es. \<not> claims_key k e) \<and> (\<forall>e\<in>set es. \<forall>t. acks_key k t e \<longrightarrow> t = token)
    \<and> (\<exists>r'. leased db' k token u r' \<and> (der_delivered r' \<longrightarrow> der_delivered r \<or> (\<exists>e\<in>set es. acks_key k token e)))"
  using assms
proof (induction rule: outbox_run.induct)
  case (more db es db1 e db2)
  then obtain r' where r': "leased db1 k token u r'" "der_delivered r' \<longrightarrow> der_delivered r \<or> (\<exists>e\<in>set es. acks_key k token e)"
    by auto
  show ?case using leased_step [OF more.hyps(2) r'(1)] r'(2) more by auto
qed auto

section \<open>A claim finds every undelivered fact\<close>

text \<open>Each delivery row has its fact, and no attempt counter is at its maximum.\<close>

definition outbox_ok :: "db \<Rightarrow> bool" where
  "outbox_ok db = (table_ok (db_delivery db) \<and>
     (\<forall>k r. map_of (db_delivery db) k = Some r \<longrightarrow> map_of (db_facts db) k \<noteq> None
        \<and> 0 \<le> sint (der_attempts r) \<and> sint (der_attempts r) < 2 ^ 63 - 1))"

lemma claim_ids_facts:
  assumes "table_ok (db_delivery db)"
  shows "distinct (claim_ids book limit now db)"
    and "i \<in> set (claim_ids book limit now db) \<Longrightarrow> \<exists>r. map_of (db_delivery db) (book, i) = Some r \<and> claimable now r"
    and "map_of (db_delivery db) (book, i) = Some r \<Longrightarrow> claimable now r \<Longrightarrow>
      length (filter (\<lambda>((b, i), r). b = book \<and> claimable now r) (db_delivery db)) \<le> limit \<Longrightarrow> i \<in> set (claim_ids book limit now db)"
proof -
  let ?l = "filter (\<lambda>((b, i), r). b = book \<and> claimable now r) (db_delivery db)"
  let ?m = "map (\<lambda>((b, i), r). i) ?l"
  have d: "distinct (map fst ?l)" using assms by (simp add: table_ok_def distinct_map_filter)
  have "map fst ?l = map (Pair book) ?m" by (auto simp: filter_empty_conv intro!: map_cong)
  then have "distinct ?m" using d by (metis distinct_map)
  then show "distinct (claim_ids book limit now db)" by (simp add: claim_ids_def)
  show "\<exists>r. map_of (db_delivery db) (book, i) = Some r \<and> claimable now r" if "i \<in> set (claim_ids book limit now db)"
  proof -
    have "i \<in> set ?m" using in_set_takeD [OF that [unfolded claim_ids_def]] by simp
    then obtain r where "((book, i), r) \<in> set (db_delivery db)" "claimable now r" by auto
    then show ?thesis using assms by (auto simp: table_ok_def intro: map_of_is_SomeI)
  qed
  show "i \<in> set (claim_ids book limit now db)"
    if "map_of (db_delivery db) (book, i) = Some r" "claimable now r" "length ?l \<le> limit"
  proof -
    have "((book, i), r) \<in> set ?l" using that(1,2) by (auto dest: map_of_SomeD)
    then have "i \<in> set ?m" by force
    then show ?thesis using that(3) by (simp add: claim_ids_def)
  qed
qed

lemma claim_each_succeeds:
  assumes "outbox_ok db" and "distinct ids" and "\<forall>i\<in>set ids. \<exists>r. map_of (db_delivery db) (book, i) = Some r \<and> claimable now r"
  shows "\<exists>fs db'. claim_each book token lease now ids db = Inr (fs, db')"
proof -
  have "\<exists>fs db'. claim_each book token lease now ids d = Inr (fs, db')"
    if "db_facts d = db_facts db" "\<forall>i\<in>set ids. map_of (db_delivery d) (book, i) = map_of (db_delivery db) (book, i)" for d
    using assms(2,3) that
  proof (induction ids arbitrary: d)
    case (Cons i ids)
    obtain r where r: "map_of (db_delivery db) (book, i) = Some r" "claimable now r" using Cons.prems(2) by auto
    then obtain f where f: "map_of (db_facts db) (book, i) = Some f" and a: "0 \<le> sint (der_attempts r)" "sint (der_attempts r) < 2 ^ 63 - 1"
      using assms(1) unfolding outbox_ok_def by blast
    have up: "0 \<le> sint (der_attempts r + 1)" using a by (subst sint64_add) simp_all
    let ?t = "AList.update (book, i) (r\<lparr>der_lease_token := Some token, der_lease_until := Some (lease_end now lease),
        der_attempts := der_attempts r + 1\<rparr>) (db_delivery d)"
    have "\<forall>x\<in>set ids. map_of ?t (book, x) = map_of (db_delivery db) (book, x)"
      using Cons.prems(1,4) by (auto simp: update_conv')
    then obtain fs db' where "claim_each book token lease now ids (d\<lparr>db_delivery := ?t\<rparr>) = Inr (fs, db')"
      using Cons.IH [of "d\<lparr>db_delivery := ?t\<rparr>"] Cons.prems by auto
    then show ?case using r f up Cons.prems(3,4) by (simp add: update_row_def)
  qed simp
  from this [of db] show ?thesis by simp
qed

end
