(* ===== verification/Ledger.thy ===== *)
theory Ledger
  imports Outbox
begin

text \<open>
  The ledger as a system: the databases that any sequence of bootstraps, executed commands, bound
  consumers, claims and acknowledgements can lead to, and what holds in all of them.
\<close>

section \<open>Reachable databases\<close>

definition empty_db :: db where
  "empty_db = \<lparr>db_books = [], db_accounts = [], db_policies = [], db_balances = [], db_controls = [], db_claims = [],
     db_holds = [], db_usage = [], db_journals = [], db_lines = [], db_account_events = [], db_control_events = [],
     db_hold_events = [], db_limit_events = [], db_evidence = [], db_operations = [], db_facts = [], db_delivery = [],
     db_routes = []\<rparr>"

text \<open>
  The schema starts empty but for the books and policies an administrator has inserted: the runtime
  credentials cannot write those two tables.
\<close>

inductive ledger :: "env \<Rightarrow> trust \<Rightarrow> db \<Rightarrow> bool" for E t where
  migrated: "ledger E t (empty_db\<lparr>db_books := bs, db_policies := ps\<rparr>)"
| bootstrap: "ledger E t db \<Longrightarrow> bootstrap_tx E f j e clock db = Inr (r, db') \<Longrightarrow> ledger E t db'"
| execute: "ledger E t db \<Longrightarrow> Command_Validate cmd = Inr () \<Longrightarrow> fees_ok cmd \<Longrightarrow>
    execute_tx (cockroach_tx E) E t c cmd canonical j e now db = Inr (r, db') \<Longrightarrow> ledger E t db'"
| bind_consumer: "ledger E t db \<Longrightarrow> bind_tx book consumer now db = Inr (r, db') \<Longrightarrow> ledger E t db'"
| claim: "ledger E t db \<Longrightarrow> claim_tx book token limit lease now db = Inr (fs, db') \<Longrightarrow> ledger E t db'"
| acknowledge: "ledger E t db \<Longrightarrow> ack_update now lf db = Some db' \<Longrightarrow> ledger E t db'"

lemma valid_command_ok:
  assumes "Command_Validate cmd = Inr ()" and "fees_ok cmd"
  shows "command_ok cmd"
proof -
  have count: "payload_count cmd = 1" and valid: "valid_payload cmd"
    using assms(1) by (auto simp: Command_Validate_def split: if_split_asm)
  have pos: "0 < amount_val a" if "is_ok (Principal a)" for a
    using that by (auto simp: Principal_def amount_val_def split: if_split_asm)
  have "terms_ok (tr_Terms x)" if "cm_Transfer cmd = Some x" for x
    using count valid that assms(2) pos
    by (auto simp: payload_count_def valid_payload_def fees_ok_def terms_ok_def validTerms_def Let_def
        split: if_split_asm option.split_asm)
  moreover have "terms_ok (rs_Terms x)" if "cm_Reserve cmd = Some x" for x
    using count valid that assms(2) pos
    by (auto simp: payload_count_def valid_payload_def fees_ok_def terms_ok_def validTerms_def Let_def
        split: if_split_asm option.split_asm)
  moreover have "cr_Purpose x = Wallet" if "cm_Create cmd = Some x" for x
    using count valid that
    by (auto simp: payload_count_def valid_payload_def split: if_split_asm option.split_asm)
  ultimately show ?thesis by (simp add: command_ok_def)
qed

section \<open>The books\<close>

text \<open>The invariant of the books does not look at the delivery rows and the routes.\<close>

lemma books_ok_frame [simp]:
  "books_ok (db\<lparr>db_delivery := t\<rparr>) = books_ok db" "books_ok (db\<lparr>db_routes := rt\<rparr>) = books_ok db"
  by (simp_all add: books_ok_def books_open_def rows_ok_def lines_ok_def holds_ok_def hold_row_ok_def usage_rows_ok_def)

lemma empty_books: "books_ok (empty_db\<lparr>db_books := bs, db_policies := ps\<rparr>)"
  by (simp add: books_ok_def books_open_def rows_ok_def lines_ok_def holds_ok_def usage_rows_ok_def empty_db_def column_def
      line_sum_def journal_sum_def held_sum_def limit_sum_def)

lemma bind_frame: "bind_tx book consumer now db = Inr (r, db') \<Longrightarrow> \<exists>t. db' = db\<lparr>db_routes := t\<rparr>"
  by (cases db) (auto simp: bind_tx_def split: option.split_asm if_split_asm)

lemma claim_frame: "claim_tx book token limit lease now db = Inr (fs, db') \<Longrightarrow> \<exists>t. db' = db\<lparr>db_delivery := t\<rparr>"
  unfolding claim_tx_def by (rule claim_each_Inr(2))

lemma ack_frame: "ack_update now lf db = Some db' \<Longrightarrow> \<exists>t. db' = db\<lparr>db_delivery := t\<rparr>"
  by (auto simp: ack_update_def split: option.split_asm if_split_asm)

lemma ledger_books_ok: "ledger E t db \<Longrightarrow> books_ok db"
proof (induction rule: ledger.induct)
  case migrated
  show ?case by (rule empty_books)
next
  case (bootstrap db f j e clock r db')
  then show ?case by (auto intro: bootstrap_keeps_books)
next
  case (execute db cmd c canonical j e now r db')
  then show ?case using execute_keeps_books valid_command_ok by blast
next
  case (bind_consumer db book consumer now r db')
  then show ?case using bind_frame by fastforce
next
  case (claim db book token limit lease now fs db')
  then show ?case using claim_frame by fastforce
next
  case (acknowledge db now lf db')
  then show ?case using ack_frame by fastforce
qed

section \<open>Operations and their facts\<close>

text \<open>Every operation has exactly one fact, with its receipt, and every fact has a delivery row.\<close>

definition fact_of :: "ID \<Rightarrow> receipt \<Rightarrow> fact_row" where
  "fact_of op r = \<lparr>far_operation = op, far_type = ''LedgerOperationResolved'', far_body = r\<rparr>"

definition facts_ok :: "db \<Rightarrow> bool" where
  "facts_ok db =
     (table_ok (db_delivery db)
      \<and> (\<forall>b i x. map_of (db_operations db) (b, i) = Some x \<longrightarrow>
           rc_BookID (opr_receipt x) = b \<and> rc_OperationID (opr_receipt x) = i
           \<and> map_of (db_facts db) (b, rc_EventID (opr_receipt x)) = Some (fact_of i (opr_receipt x)))
      \<and> (\<forall>b e f. map_of (db_facts db) (b, e) = Some f \<longrightarrow>
           (\<exists>x. map_of (db_operations db) (b, far_operation f) = Some x \<and> opr_receipt x = far_body f \<and> rc_EventID (far_body f) = e))
      \<and> (\<forall>k. map_of (db_facts db) k = None \<longleftrightarrow> map_of (db_delivery db) k = None))"

definition new_delivery :: delivery_row where
  "new_delivery = \<lparr>der_delivered = False, der_lease_token = None, der_lease_until = None, der_attempts = 0\<rparr>"

definition operation_of :: "string \<Rightarrow> receipt \<Rightarrow> operation_row" where
  "operation_of canonical r =
     \<lparr>opr_canonical = canonical, opr_request_hash = rc_RequestHash r, opr_outcome = rc_Outcome r, opr_receipt = r\<rparr>"

lemma save_operation_Inr:
  assumes "save_operation canonical r db = Inr db'"
  defines "op \<equiv> (rc_BookID r, rc_OperationID r)" and "ev \<equiv> (rc_BookID r, rc_EventID r)"
  shows "db_operations db' = AList.update op (operation_of canonical r) (db_operations db) \<and> map_of (db_operations db) op = None
    \<and> db_facts db' = AList.update ev (fact_of (rc_OperationID r) r) (db_facts db) \<and> map_of (db_facts db) ev = None
    \<and> db_delivery db' = AList.update ev new_delivery (db_delivery db)"
  using assms(1)
  by (auto simp: save_operation_def Let_def insert_row_Inr op_def ev_def fact_of_def new_delivery_def operation_of_def)

lemma Save_records:
  assumes "Save E db p = Inr db'"
  defines "r \<equiv> pl_Receipt p"
  defines "op \<equiv> (rc_BookID r, rc_OperationID r)" and "ev \<equiv> (rc_BookID r, rc_EventID r)"
  shows "db_operations db' = AList.update op (operation_of (pl_Canonical p) r) (db_operations db)" "map_of (db_operations db) op = None"
    "db_facts db' = AList.update ev (fact_of (rc_OperationID r) r) (db_facts db)" "map_of (db_facts db) ev = None"
    "db_delivery db' = AList.update ev new_delivery (db_delivery db)"
proof -
  have "db_operations db' = AList.update op (operation_of (pl_Canonical p) r) (db_operations db) \<and> map_of (db_operations db) op = None
    \<and> db_facts db' = AList.update ev (fact_of (rc_OperationID r) r) (db_facts db) \<and> map_of (db_facts db) ev = None
    \<and> db_delivery db' = AList.update ev new_delivery (db_delivery db)"
    using assms(1)
  proof (rule Save_stages)
    fix acc ctl cev jr ln bal aev hol hev us lev cl evi
    assume "save_operation (pl_Canonical p) (pl_Receipt p)
       (db\<lparr>db_accounts := acc, db_controls := ctl, db_control_events := cev, db_journals := jr, db_lines := ln,
         db_balances := bal, db_account_events := aev, db_holds := hol, db_hold_events := hev, db_usage := us,
         db_limit_events := lev, db_claims := cl, db_evidence := evi\<rparr>) = Inr db'"
    from save_operation_Inr [OF this] show ?thesis by (simp add: op_def ev_def r_def)
  qed
  then show "db_operations db' = AList.update op (operation_of (pl_Canonical p) r) (db_operations db)" "map_of (db_operations db) op = None"
    "db_facts db' = AList.update ev (fact_of (rc_OperationID r) r) (db_facts db)" "map_of (db_facts db) ev = None"
    "db_delivery db' = AList.update ev new_delivery (db_delivery db)" by blast+
qed

lemma Save_facts_ok:
  assumes "Save E db p = Inr db'" and "facts_ok db"
  shows "facts_ok db'"
proof -
  let ?r = "pl_Receipt p"
  let ?b = "rc_BookID ?r" and ?i = "rc_OperationID ?r" and ?e = "rc_EventID ?r"
  let ?x = "operation_of (pl_Canonical p) ?r"
  note ops = Save_records(1,2) [OF assms(1)] and facts = Save_records(3,4) [OF assms(1)] and del = Save_records(5) [OF assms(1)]
  have rec: "opr_receipt ?x = ?r" by (simp add: operation_of_def)
  have inv: "table_ok (db_delivery db)"
    "\<And>b i x. map_of (db_operations db) (b, i) = Some x \<Longrightarrow> rc_BookID (opr_receipt x) = b \<and> rc_OperationID (opr_receipt x) = i
       \<and> map_of (db_facts db) (b, rc_EventID (opr_receipt x)) = Some (fact_of i (opr_receipt x))"
    "\<And>b e f. map_of (db_facts db) (b, e) = Some f \<Longrightarrow>
       \<exists>x. map_of (db_operations db) (b, far_operation f) = Some x \<and> opr_receipt x = far_body f \<and> rc_EventID (far_body f) = e"
    "\<And>k. map_of (db_facts db) k = None \<longleftrightarrow> map_of (db_delivery db) k = None"
    using assms(2) unfolding facts_ok_def by blast+
  have "rc_BookID (opr_receipt z) = b \<and> rc_OperationID (opr_receipt z) = i
      \<and> map_of (db_facts db') (b, rc_EventID (opr_receipt z)) = Some (fact_of i (opr_receipt z))"
    if "map_of (db_operations db') (b, i) = Some z" for b i z
  proof (cases "(b, i) = (?b, ?i)")
    case True
    then have "z = ?x" using that by (simp add: ops(1) update_conv')
    then show ?thesis using True rec by (simp add: facts(1) update_conv')
  next
    case False
    then have old: "map_of (db_operations db) (b, i) = Some z" using that by (simp add: ops(1) update_conv' split: if_split_asm)
    from inv(2) [OF old] show ?thesis using facts(2) by (auto simp: facts(1) update_conv')
  qed
  moreover have "\<exists>z. map_of (db_operations db') (b, far_operation f) = Some z \<and> opr_receipt z = far_body f \<and> rc_EventID (far_body f) = e"
    if "map_of (db_facts db') (b, e) = Some f" for b e f
  proof (cases "(b, e) = (?b, ?e)")
    case True
    then have "f = fact_of ?i ?r" using that by (simp add: facts(1) update_conv')
    then show ?thesis using True rec by (simp add: ops(1) update_conv' fact_of_def)
  next
    case False
    then have old: "map_of (db_facts db) (b, e) = Some f" using that by (simp add: facts(1) update_conv' split: if_split_asm)
    from inv(3) [OF old] show ?thesis using ops(2) by (auto simp: ops(1) update_conv')
  qed
  moreover have "map_of (db_facts db') k = None \<longleftrightarrow> map_of (db_delivery db') k = None" for k
    using inv(4) [of k] by (simp add: facts(1) del update_conv')
  moreover have "table_ok (db_delivery db')" using inv(1) by (simp add: del)
  ultimately show ?thesis by (simp add: facts_ok_def)
qed

lemma facts_ok_frame:
  "facts_ok db \<Longrightarrow> db_operations db' = db_operations db \<Longrightarrow> db_facts db' = db_facts db \<Longrightarrow> table_ok (db_delivery db') \<Longrightarrow>
   (\<And>k. map_of (db_delivery db') k = None \<longleftrightarrow> map_of (db_delivery db) k = None) \<Longrightarrow> facts_ok db'"
  by (simp add: facts_ok_def)

lemma claim_each_table:
  "claim_each book token lease now ids db = Inr (fs, db') \<Longrightarrow> table_ok (db_delivery db) \<Longrightarrow> table_ok (db_delivery db')"
  by (induction ids arbitrary: fs db) (fastforce simp: update_row_Inr split: option.split_asm)+

lemma bootstrap_save:
  assumes "bootstrap_tx E f j e clock db = Inr (r, db')"
  obtains d p where "Save E d p = Inr db'" "\<exists>bk ac po. d = db\<lparr>db_books := bk, db_accounts := ac, db_policies := po\<rparr>"
proof -
  obtain books p q db1 db2 jr where
    loop: "fixture_loop f (fixture_accounts f) [] q (db\<lparr>db_books := books\<rparr>) = Inr (p, db1)"
    and pol: "save_each (save_policy f) (fixture_policies f) db1 = Inr db2"
    and save: "Save E db2 (p\<lparr>pl_Journal := Some jr\<rparr>) = Inr db'"
    using assms by (auto simp: bootstrap_tx_def Let_def)
  obtain ac where "db1 = db\<lparr>db_books := books, db_accounts := ac\<rparr>" using fixture_loop_Inr(8) [OF loop] by auto
  moreover obtain po where "db2 = db1\<lparr>db_policies := po\<rparr>" using save_policies_frame [OF pol] by blast
  ultimately show thesis using that [OF save] by blast
qed

lemma ledger_facts_ok: "ledger E t db \<Longrightarrow> facts_ok db"
proof (induction rule: ledger.induct)
  case migrated
  show ?case by (simp add: facts_ok_def empty_db_def)
next
  case (bootstrap db f j e clock r db')
  obtain d p where "Save E d p = Inr db'" "\<exists>bk ac po. d = db\<lparr>db_books := bk, db_accounts := ac, db_policies := po\<rparr>"
    using bootstrap.hyps(2) by (rule bootstrap_save)
  moreover from this have "facts_ok d" using bootstrap.IH by (auto simp: facts_ok_def)
  ultimately show ?case by (auto intro: Save_facts_ok)
next
  case (execute db cmd c canonical j e now r db')
  from execute.hyps(4) show ?case
  proof (cases rule: ck.execute_cases)
    case replay
    then show ?thesis using execute.IH by simp
  next
    case (fresh st p)
    then show ?thesis using execute.IH Save_facts_ok by (simp add: cockroach_tx_def)
  qed
next
  case (bind_consumer db book consumer now r db')
  then show ?case using bind_frame [OF bind_consumer.hyps(2)] by (auto simp: facts_ok_def)
next
  case (claim db book token limit lease now fs db')
  note c = claim.hyps(2) [unfolded claim_tx_def]
  have "table_ok (db_delivery db')" using claim_each_table [OF c] claim.IH by (simp add: facts_ok_def)
  then show ?case
    using claim_each_Inr(2,7) [OF c] by (intro facts_ok_frame [OF claim.IH]) auto
next
  case (acknowledge db now lf db')
  obtain x where x: "map_of (db_delivery db) (lf_BookID lf, lf_EventID lf) = Some x"
    and db': "db' = db\<lparr>db_delivery := AList.update (lf_BookID lf, lf_EventID lf) (x\<lparr>der_delivered := True\<rparr>) (db_delivery db)\<rparr>"
    using acknowledge.hyps(2) by (auto simp: ack_update_def split: option.split_asm if_split_asm)
  have "table_ok (db_delivery db)" using acknowledge.IH by (simp add: facts_ok_def)
  then show ?case using x by (intro facts_ok_frame [OF acknowledge.IH]) (auto simp: db' update_conv')
qed

section \<open>Calls\<close>

lemma ledger_call:
  assumes "ledger E t db" and "fees_ok cmd" and "fits (\<lambda>a b. ledger E t a \<longrightarrow> ledger E t b) attempts"
    and "ledger_execute E t attempts jb eb c cmd db = (res, db')"
  shows "ledger E t db'"
proof (cases "Command_Validate cmd")
  case (Inl e)
  then show ?thesis using assms(1,4) by (simp add: ledger_execute_def Execute_def)
next
  case (Inr u)
  consider (early) "db' = db"
    | (run) canonical where "Transact attempts (execute_tx (cockroach_tx E) E t c cmd canonical (NewID jb) (NewID eb)) db = (res, db')"
    using assms(4) by (auto simp: ledger_execute_def Execute_def split: sum.split_asm if_split_asm)
  then show ?thesis
  proof cases
    case early
    then show ?thesis using assms(1) by simp
  next
    case run
    have "\<exists>db1. (ledger E t db \<longrightarrow> ledger E t db1) \<and> (case res of
        Inr r \<Rightarrow> \<exists>now. execute_tx (cockroach_tx E) E t c cmd canonical (NewID jb) (NewID eb) now db1 = Inr (r, db')
      | Inl e \<Rightarrow> db' = db1 \<or> e = ErrUnknown \<and>
          (\<exists>now r. execute_tx (cockroach_tx E) E t c cmd canonical (NewID jb) (NewID eb) now db1 = Inr (r, db')))"
      by (rule transact_loop_outcome [OF run [unfolded Transact_def], where R = "\<lambda>a b. ledger E t a \<longrightarrow> ledger E t b"])
         (use assms(3) in \<open>auto simp: fits_def\<close>)
    then obtain db1 where "ledger E t db1" "db' = db1 \<or>
        (\<exists>now r. execute_tx (cockroach_tx E) E t c cmd canonical (NewID jb) (NewID eb) now db1 = Inr (r, db'))"
      using assms(1) by (cases res) auto
    then show ?thesis using Inr assms(2) by (auto intro: ledger.execute)
  qed
qed

section \<open>Sums over the open holds\<close>

lemma table_sum_nonneg: "(\<And>k v. (k, v) \<in> set t \<Longrightarrow> 0 \<le> g k v) \<Longrightarrow> 0 \<le> table_sum g t"
  by (induction t) (auto simp: table_sum_def split_beta intro!: add_nonneg_nonneg)

lemma table_sum_ge:
  assumes "map_of t k = Some v" and "\<And>k v. (k, v) \<in> set t \<Longrightarrow> 0 \<le> g k v"
  shows "g k v \<le> table_sum g t"
  using assms
proof (induction t)
  case (Cons x t)
  obtain k' w where x: "x = (k', w)" by fastforce
  have pos: "0 \<le> table_sum g t" "0 \<le> g k' w" using Cons.prems(2) by (auto simp: x intro: table_sum_nonneg)
  show ?case
  proof (cases "k = k'")
    case True
    then show ?thesis using Cons.prems(1) pos(1) by (simp add: x)
  next
    case False
    then have "g k v \<le> table_sum g t" using Cons by (simp add: x)
    then show ?thesis using pos(2) by (simp add: x)
  qed
qed simp

lemma hold_quantities_nonneg:
  assumes "terms_ok (hd_Terms h)"
  shows "0 \<le> hold_held i h" and "0 \<le> hold_limit h" and "0 \<le> hold_total h"
  using assms amount_val_range [of "tm_Fee (hd_Terms h)"]
  by (auto simp: hold_held_def hold_limit_def hold_total_def terms_ok_def)

lemma open_hold_backed:
  assumes "holds_ok db" and "map_of (db_holds db) (b, i) = Some r" and "open_hold (hd_State (hold_of_row r))"
  shows "hold_total (hdr_terms r) \<le> held_sum b (tm_SourceID (hd_Terms (hdr_terms r))) (db_holds db)"
    and "amount_val (tm_Principal (hd_Terms (hdr_terms r))) \<le> held_sum b (hd_PoolID (hdr_terms r)) (db_holds db)"
    and "amount_val (tm_Principal (hd_Terms (hdr_terms r))) \<le>
      limit_sum b (hd_OwnerID (hdr_terms r)) (hd_Bucket (hdr_terms r)) (db_holds db)"
proof -
  have rows: "terms_ok (hd_Terms (hdr_terms x))" if "((b', j), x) \<in> set (db_holds db)" for b' j x
  proof -
    have "map_of (db_holds db) (b', j) = Some x" using that assms(1) by (auto simp: holds_ok_def table_ok_def intro: map_of_is_SomeI)
    then show ?thesis using assms(1) by (auto simp: holds_ok_def hold_row_ok_def)
  qed
  note nonneg = hold_quantities_nonneg [of "hold_of_row x" for x, simplified]
  have held: "hold_held a (hold_of_row r) \<le> held_sum b a (db_holds db)" for a
    unfolding held_sum_def using table_sum_ge [OF assms(2), of "\<lambda>k x. if fst k = b then hold_held a (hold_of_row x) else 0"]
      nonneg(1) rows by fastforce
  have own: "terms_ok (hd_Terms (hdr_terms r))" using assms(1,2) by (auto simp: holds_ok_def hold_row_ok_def)
  have pos: "0 < amount_val (tm_Principal (hd_Terms (hdr_terms r)))" "0 \<le> hold_total (hdr_terms r)"
    using own hold_quantities_nonneg(3) [OF own] by (simp_all add: terms_ok_def)
  have tot: "hold_total (hold_of_row r) = hold_total (hdr_terms r)" by (simp add: hold_total_def)
  show "hold_total (hdr_terms r) \<le> held_sum b (tm_SourceID (hd_Terms (hdr_terms r))) (db_holds db)"
    using held [of "tm_SourceID (hd_Terms (hdr_terms r))"] assms(3) pos by (auto simp: hold_held_def tot split: if_split_asm)
  show "amount_val (tm_Principal (hd_Terms (hdr_terms r))) \<le> held_sum b (hd_PoolID (hdr_terms r)) (db_holds db)"
    using held [of "hd_PoolID (hdr_terms r)"] assms(3) pos by (auto simp: hold_held_def tot split: if_split_asm)
  have "hold_limit (hold_of_row r) \<le> limit_sum b (hd_OwnerID (hdr_terms r)) (hd_Bucket (hdr_terms r)) (db_holds db)"
    unfolding limit_sum_def
    using table_sum_ge [OF assms(2), of "\<lambda>k x. if fst k = b \<and> hd_OwnerID (hdr_terms x) = hd_OwnerID (hdr_terms r) \<and>
        hd_Bucket (hdr_terms x) = hd_Bucket (hdr_terms r) then hold_limit (hold_of_row x) else 0"] nonneg(2) rows by fastforce
  then show "amount_val (tm_Principal (hd_Terms (hdr_terms r))) \<le>
      limit_sum b (hd_OwnerID (hdr_terms r)) (hd_Bucket (hdr_terms r)) (db_holds db)"
    using assms(3) by (simp add: hold_limit_def)
qed

section \<open>A ledger with one account\<close>

definition x_created :: db where
  "x_created = snd (x_execute x_create x_db)"

lemma x_created_ledger: "ledger x_env x_trust x_created"
proof -
  have "x_db = empty_db\<lparr>db_books := db_books x_db, db_policies := []\<rparr>" by (simp add: x_db_def empty_db_def)
  then have start: "ledger x_env x_trust x_db" using ledger.migrated by metis
  obtain res d where run: "x_execute x_create x_db = (res, d)" by fastforce
  have "fees_ok x_create" by (simp add: fees_ok_def x_create_def x_command_def)
  then show ?thesis
    using ledger_call [OF start _ _ run] run by (simp add: x_created_def fits_def x_attempts_def)
qed

definition x_rows_ok :: "db \<Rightarrow> bool" where
  "x_rows_ok d = (map fst (db_balances d) = [(x_book_id, x_wallet_a)] \<and> map fst (db_delivery d) = map fst (db_facts d)
     \<and> length (db_facts d) = 1 \<and> list_all (\<lambda>((b, i), r). claimable (x_time 3000) r \<and> der_attempts r = 0 \<and> b = x_book_id) (db_delivery d))"

lemma x_created_runs: "case x_execute x_create x_db of (r, d) \<Rightarrow> x_rows_ok d"
  by code_simp

lemma x_created_rows: "x_rows_ok x_created"
  using x_created_runs by (simp add: x_created_def split_beta)

text \<open>Its one event, and a claim of it followed by the acknowledgement.\<close>

lemma x_event:
  obtains e r where "db_delivery x_created = [((x_book_id, e), r)]" "claimable (x_time 3000) r" "outbox_ok x_created"
proof -
  have fk: "facts_ok x_created" by (rule ledger_facts_ok [OF x_created_ledger])
  have "length (db_delivery x_created) = 1" using x_created_rows by (metis length_map x_rows_ok_def)
  then obtain b e r where d0: "db_delivery x_created = [((b, e), r)]" by (cases "db_delivery x_created") auto
  moreover have "list_all (\<lambda>((b, i), r). claimable (x_time 3000) r \<and> der_attempts r = 0 \<and> b = x_book_id) (db_delivery x_created)"
    using x_created_rows unfolding x_rows_ok_def by blast
  ultimately have d: "db_delivery x_created = [((x_book_id, e), r)]" "claimable (x_time 3000) r" "der_attempts r = 0" by simp_all
  have dom: "map_of (db_facts x_created) k = None \<longleftrightarrow> map_of (db_delivery x_created) k = None" for k
    using fk unfolding facts_ok_def by blast
  have "map_of (db_facts x_created) (x_book_id, e) \<noteq> None" using dom [of "(x_book_id, e)"] by (simp add: d(1))
  then have "outbox_ok x_created" unfolding outbox_ok_def table_ok_def d(1) using d(3) by simp
  with d(1,2) show thesis by (rule that)
qed

section \<open>Properties\<close>

text \<open>
  C7. Double entry over the whole database: in every ledger that bootstraps, executed commands and
  deliveries can lead to, each journal has equal sums of debits and credits, and the debits and
  credits of every account are exactly the sums of its journal lines; its held funds are covered
  by what is posted to it.
\<close>

theorem ledger_double_entry:
  assumes "ledger E t db"
  shows "journal_sum Debit b j (db_lines db) = journal_sum Credit b j (db_lines db)
    \<and> (\<forall>i r. map_of (db_balances db) (b, i) = Some r \<longrightarrow>
        blr_debits r = line_sum Debit b i (db_lines db) \<and> blr_credits r = line_sum Credit b i (db_lines db)
        \<and> 0 \<le> blr_held r \<and> blr_held r \<le> spec_posted (blr_purpose r) (row_tally r))"
proof -
  note books = books_okD [OF ledger_books_ok [OF assms]]
  have "blr_debits r = line_sum Debit b i (db_lines db) \<and> blr_credits r = line_sum Credit b i (db_lines db)
        \<and> 0 \<le> blr_held r \<and> blr_held r \<le> spec_posted (blr_purpose r) (row_tally r)"
    if r: "map_of (db_balances db) (b, i) = Some r" for i r
  proof -
    have "balance_checks r" using rows_ok_row [OF books(1) r] by blast
    then have "0 \<le> blr_held r \<and> blr_held r \<le> spec_posted (blr_purpose r) (row_tally r)"
      by (simp add: balance_checks_def amount_column_def spec_posted_def row_tally_def ProviderPool_def split: if_split_asm)
    then show ?thesis using books(6,7) [of b i] r by (simp add: column_def)
  qed
  then show ?thesis using books(2) by (simp add: lines_ok_def)
qed

theorem ledger_double_entry_witness:
  "ledger x_env x_trust x_created \<and> (\<exists>r. map_of (db_balances x_created) (x_book_id, x_wallet_a) = Some r
     \<and> blr_debits r = line_sum Debit x_book_id x_wallet_a (db_lines x_created))"
proof -
  obtain r where "map_of (db_balances x_created) (x_book_id, x_wallet_a) = Some r"
    using x_created_rows by (cases "db_balances x_created") (auto simp: x_rows_ok_def)
  then show ?thesis using ledger_double_entry [OF x_created_ledger, of x_book_id] x_created_ledger by blast
qed

text \<open>
  C8. Reserved money is real: in every reachable ledger the held funds of an account are exactly what its
  open holds reserve, the reserved limit of an owner and day exactly the principals of the open
  holds of that day, and every open hold is covered by the held funds of its wallet and its pool
  and by the reserved limit of its owner.
\<close>

theorem ledger_holds_backed:
  assumes "ledger E t db"
  shows "(\<forall>i r. map_of (db_balances db) (b, i) = Some r \<longrightarrow> blr_held r = held_sum b i (db_holds db))
    \<and> (\<forall>owner bucket r. map_of (db_usage db) (b, owner, bucket) = Some r \<longrightarrow> usr_reserved r = limit_sum b owner bucket (db_holds db))
    \<and> (\<forall>i h. map_of (db_holds db) (b, i) = Some h \<and> open_hold (hd_State (hold_of_row h)) \<longrightarrow>
        (\<exists>w p u. map_of (db_balances db) (b, tm_SourceID (hd_Terms (hdr_terms h))) = Some w \<and> hold_total (hdr_terms h) \<le> blr_held w
          \<and> map_of (db_balances db) (b, hd_PoolID (hdr_terms h)) = Some p
          \<and> amount_val (tm_Principal (hd_Terms (hdr_terms h))) \<le> blr_held p
          \<and> map_of (db_usage db) (b, hd_OwnerID (hdr_terms h), hd_Bucket (hdr_terms h)) = Some u
          \<and> amount_val (tm_Principal (hd_Terms (hdr_terms h))) \<le> usr_reserved u))"
proof -
  note books = books_okD [OF ledger_books_ok [OF assms]]
  have held: "blr_held r = held_sum b i (db_holds db)" if "map_of (db_balances db) (b, i) = Some r" for i r
    using books(8) [of b i] that by (simp add: column_def)
  have lim: "usr_reserved r = limit_sum b owner bucket (db_holds db)" if "map_of (db_usage db) (b, owner, bucket) = Some r" for owner bucket r
    using books(9) [of b owner bucket] that by (simp add: column_def)
  have "\<exists>w p u. map_of (db_balances db) (b, tm_SourceID (hd_Terms (hdr_terms h))) = Some w \<and> hold_total (hdr_terms h) \<le> blr_held w
      \<and> map_of (db_balances db) (b, hd_PoolID (hdr_terms h)) = Some p
      \<and> amount_val (tm_Principal (hd_Terms (hdr_terms h))) \<le> blr_held p
      \<and> map_of (db_usage db) (b, hd_OwnerID (hdr_terms h), hd_Bucket (hdr_terms h)) = Some u
      \<and> amount_val (tm_Principal (hd_Terms (hdr_terms h))) \<le> usr_reserved u"
    if h: "map_of (db_holds db) (b, i) = Some h" "open_hold (hd_State (hold_of_row h))" for i h
  proof -
    have row: "hold_row_ok db b (hdr_terms h)" using books(3) h(1) by (simp add: holds_ok_def)
    note sums = open_hold_backed [OF books(3) h]
    obtain w where w: "map_of (db_balances db) (b, tm_SourceID (hd_Terms (hdr_terms h))) = Some w"
      using row books(5) [of "(b, tm_SourceID (hd_Terms (hdr_terms h)))"] by (auto simp: hold_row_ok_def)
    obtain p where p: "map_of (db_balances db) (b, hd_PoolID (hdr_terms h)) = Some p"
      using row books(5) [of "(b, hd_PoolID (hdr_terms h))"] by (auto simp: hold_row_ok_def)
    have "0 < amount_val (tm_Principal (hd_Terms (hdr_terms h)))" using row by (simp add: hold_row_ok_def terms_ok_def)
    then have "column usr_reserved (db_usage db) (b, hd_OwnerID (hdr_terms h), hd_Bucket (hdr_terms h)) \<noteq> 0"
      using sums(3) books(9) by auto
    then obtain u where u: "map_of (db_usage db) (b, hd_OwnerID (hdr_terms h), hd_Bucket (hdr_terms h)) = Some u"
      by (auto simp: column_def split: option.split_asm)
    show ?thesis using w p u sums held lim by auto
  qed
  then show ?thesis using held lim by blast
qed

theorem ledger_holds_backed_witness:
  "ledger x_env x_trust x_created \<and> (\<exists>r. map_of (db_balances x_created) (x_book_id, x_wallet_a) = Some r
     \<and> blr_held r = held_sum x_book_id x_wallet_a (db_holds x_created))"
proof -
  obtain r where "map_of (db_balances x_created) (x_book_id, x_wallet_a) = Some r"
    using x_created_rows by (cases "db_balances x_created") (auto simp: x_rows_ok_def)
  then show ?thesis using ledger_holds_backed [OF x_created_ledger, of x_book_id] x_created_ledger by blast
qed

text \<open>
  C13. Nothing is settled silently: in every reachable ledger each operation has a fact in the outbox, under the
  event identity of its receipt and with that receipt as its body; no other fact names the
  operation; and a fact has a delivery row, so it stays queued until it is acknowledged.
\<close>

theorem operation_is_published:
  assumes "ledger E t db" and "map_of (db_operations db) (b, i) = Some x"
  shows "map_of (db_facts db) (b, rc_EventID (opr_receipt x)) = Some (fact_of i (opr_receipt x))
    \<and> (\<forall>e f. map_of (db_facts db) (b, e) = Some f \<and> far_operation f = i \<longrightarrow> e = rc_EventID (opr_receipt x))
    \<and> (\<exists>d. map_of (db_delivery db) (b, rc_EventID (opr_receipt x)) = Some d)"
proof -
  have ok: "facts_ok db" using assms(1) by (rule ledger_facts_ok)
  have f: "map_of (db_facts db) (b, rc_EventID (opr_receipt x)) = Some (fact_of i (opr_receipt x))"
    using ok assms(2) unfolding facts_ok_def by blast
  have "map_of (db_facts db) k = None \<longleftrightarrow> map_of (db_delivery db) k = None" for k using ok unfolding facts_ok_def by blast
  from this [of "(b, rc_EventID (opr_receipt x))"] f
  have "\<exists>d. map_of (db_delivery db) (b, rc_EventID (opr_receipt x)) = Some d" by auto
  moreover have "e = rc_EventID (opr_receipt x)" if g: "map_of (db_facts db) (b, e) = Some g" "far_operation g = i" for e g
  proof -
    obtain z where "map_of (db_operations db) (b, far_operation g) = Some z" "opr_receipt z = far_body g" "rc_EventID (far_body g) = e"
      using ok g(1) unfolding facts_ok_def by blast
    then show ?thesis using assms(2) g(2) by simp
  qed
  ultimately show ?thesis using f by blast
qed

theorem operation_is_published_witness:
  "\<exists>x d. map_of (db_operations x_created) (x_book_id, cm_OperationID x_create) = Some x
     \<and> map_of (db_delivery x_created) (x_book_id, rc_EventID (opr_receipt x)) = Some d"
proof -
  obtain r d where run: "x_execute x_create x_db = (Inr r, d)" using x_create_returns by blast
  obtain canonical where "operation_at d (cm_BookID x_create) (cm_OperationID x_create) =
      Inr (Some \<lparr>op_Canonical = canonical, op_Receipt = r\<rparr>)"
    using interference.execute_recorded [OF eq_interference run x_attempts_fit] by blast
  moreover have "x_created = d" "cm_BookID x_create = x_book_id" using run by (simp_all add: x_created_def x_create_def x_command_def)
  ultimately obtain x where x: "map_of (db_operations x_created) (x_book_id, cm_OperationID x_create) = Some x"
    by (auto simp: operation_at_def)
  from operation_is_published [OF x_created_ledger x] x show ?thesis by blast
qed

text \<open>
  C14. Leases are exclusive: from a claim on, as long as every claim and acknowledgement happens before
  the lease ends, whatever is committed in between, no other claim returns the event, only the
  token of the lease acknowledges it, and it is marked delivered only by such an acknowledgement.
\<close>

theorem lease_is_exclusive:
  assumes "claim_tx book token limit lease now db = Inr (fs, db1)" and "lf \<in> set fs"
    and "outbox_run db1 es db2" and "\<forall>e\<in>set es. before_time (lease_end now lease) e"
  shows "(\<forall>e\<in>set es. \<not> claims_key (book, lf_EventID lf) e)
    \<and> (\<forall>e\<in>set es. \<forall>tok. acks_key (book, lf_EventID lf) tok e \<longrightarrow> tok = token)
    \<and> (\<exists>r. leased db2 (book, lf_EventID lf) token (lease_end now lease) r
        \<and> (der_delivered r \<longrightarrow> (\<exists>e\<in>set es. acks_key (book, lf_EventID lf) token e)))"
proof -
  note c = claim_each_Inr [OF assms(1) [unfolded claim_tx_def]]
  have "lf_EventID lf \<in> set (claim_ids book limit now db)" using assms(2) by (simp flip: c(1))
  from c(5) [OF this] obtain r where "leased db1 (book, lf_EventID lf) token (lease_end now lease) r" "\<not> der_delivered r"
    by (auto simp: leased_def)
  from leased_run [OF assms(3) this(1) assms(4)] this(2) show ?thesis by blast
qed

text \<open>
  C15. No fact is lost: whenever an event is undelivered and no lease on it is running, a claim with room for
  all such events of the book succeeds and returns it, with the operation and the receipt of its fact.
\<close>

theorem undelivered_fact_is_claimed:
  assumes "outbox_ok db" and "map_of (db_delivery db) (book, i) = Some r" and "claimable now r"
    and "length (filter (\<lambda>((b, i), r). b = book \<and> claimable now r) (db_delivery db)) \<le> limit"
  shows "\<exists>fs db' lf f. claim_tx book token limit lease now db = Inr (fs, db') \<and> lf \<in> set fs \<and> lf_EventID lf = i
    \<and> map_of (db_facts db) (book, i) = Some f \<and> lf_OperationID lf = far_operation f \<and> lf_Body lf = far_body f"
proof -
  have tok: "table_ok (db_delivery db)" using assms(1) by (simp add: outbox_ok_def)
  note ids = claim_ids_facts [OF tok]
  have claims: "\<forall>x\<in>set (claim_ids book limit now db). \<exists>r. map_of (db_delivery db) (book, x) = Some r \<and> claimable now r"
    using ids(2) by blast
  obtain fs db' where run: "claim_each book token lease now (claim_ids book limit now db) db = Inr (fs, db')"
    using claim_each_succeeds [OF assms(1) ids(1) claims] by blast
  have "i \<in> lf_EventID ` set fs" using ids(3) [OF assms(2-4)] claim_each_Inr(1) [OF run] by (metis set_map)
  then obtain lf where lf: "lf \<in> set fs" "lf_EventID lf = i" by blast
  from claim_each_Inr(3) [OF run lf(1)] lf run show ?thesis unfolding claim_tx_def by blast
qed

theorem undelivered_fact_is_claimed_witness:
  "\<exists>fs d lf. claim_tx x_book_id ''token'' 10 Minute (x_time 3000) x_created = Inr (fs, d) \<and> lf \<in> set fs"
proof -
  obtain e r where "db_delivery x_created = [((x_book_id, e), r)]" "claimable (x_time 3000) r" "outbox_ok x_created"
    by (rule x_event)
  with undelivered_fact_is_claimed [of x_created x_book_id e r "x_time 3000" 10 "''token''" Minute] show ?thesis by auto
qed

theorem lease_is_exclusive_witness:
  "\<exists>fs d d' lf r. claim_tx x_book_id ''token'' 10 Minute (x_time 3000) x_created = Inr (fs, d) \<and> lf \<in> set fs
     \<and> outbox_run d [Acked (x_time 3001) lf] d' \<and> leased d' (x_book_id, lf_EventID lf) ''token'' (lease_end (x_time 3000) Minute) r
     \<and> der_delivered r"
proof -
  obtain e r where x: "db_delivery x_created = [((x_book_id, e), r)]" "claimable (x_time 3000) r" "outbox_ok x_created"
    by (rule x_event)
  have "\<exists>fs d. claim_each x_book_id ''token'' Minute (x_time 3000) [e] x_created = Inr (fs, d)"
    by (rule claim_each_succeeds [OF x(3)]) (use x in simp_all)
  then obtain fs d where "claim_each x_book_id ''token'' Minute (x_time 3000) [e] x_created = Inr (fs, d)" by blast
  moreover have "claim_ids x_book_id 10 (x_time 3000) x_created = [e]" using x by (simp add: claim_ids_def)
  ultimately have run: "claim_tx x_book_id ''token'' 10 Minute (x_time 3000) x_created = Inr (fs, d)"
    and c: "claim_each x_book_id ''token'' Minute (x_time 3000) [e] x_created = Inr (fs, d)" by (simp_all add: claim_tx_def)
  obtain lf where lf: "lf \<in> set fs" "lf_EventID lf = e" using claim_each_Inr(1) [OF c] by (cases fs) auto
  have key: "lf_BookID lf = x_book_id" "lf_LeaseToken lf = ''token''" using claim_each_Inr(3) [OF c lf(1)] by blast+
  obtain y where y: "map_of (db_delivery d) (x_book_id, e) = Some y" "der_lease_token y = Some ''token''"
    "der_lease_until y = Some (lease_end (x_time 3000) Minute)" using claim_each_Inr(5) [OF c, of e] by auto
  have t: "t_ns (x_time 3001) < t_ns (lease_end (x_time 3000) Minute)" by code_simp
  then have ack: "ack_update (x_time 3001) lf d =
      Some (d\<lparr>db_delivery := AList.update (x_book_id, e) (y\<lparr>der_delivered := True\<rparr>) (db_delivery d)\<rparr>)"
    using y lf key by (simp add: ack_update_def ack_row_def)
  have steps: "outbox_run d [Acked (x_time 3001) lf] (d\<lparr>db_delivery := AList.update (x_book_id, e) (y\<lparr>der_delivered := True\<rparr>) (db_delivery d)\<rparr>)"
    using outbox_run.more [OF outbox_run.none outbox_step.ack [OF ack]] by simp
  from lease_is_exclusive [OF run lf(1) steps] t lf(2) obtain z where
    z: "leased (d\<lparr>db_delivery := AList.update (x_book_id, e) (y\<lparr>der_delivered := True\<rparr>) (db_delivery d)\<rparr>) (x_book_id, e) ''token''
      (lease_end (x_time 3000) Minute) z" by auto
  then have "der_delivered z" by (auto simp: leased_def update_conv')
  with run lf steps z show ?thesis by blast
qed

end
