(* ===== verification/Publisher.thy ===== *)
theory Publisher
  imports Inbox Ledger
begin

text \<open>
  \<open>ledger/internal/publisher/worker.go\<close>: the loop that drains the outbox of every book to a consumer. What
  the consumer promises is the locale \<open>event_sink\<close>, and that its contents stay sound its extension \<open>sound_sink\<close>; the
  inbox behind its HTTP handler is an instance of both. The context is a function from the checks of it, in order, to whether it is done by then.
\<close>

section \<open>Options\<close>

record options =
  opt_PollMS :: int64
  opt_LeaseMS :: int64
  opt_TimeoutMS :: int64

definition Options_Defaults :: "options \<Rightarrow> options result" where
  "Options_Defaults opts =
     (let o1 = (if opt_PollMS opts = 0 then opts\<lparr>opt_PollMS := 250\<rparr> else opts);
          o2 = (if opt_LeaseMS o1 = 0 then o1\<lparr>opt_LeaseMS := 30000\<rparr> else o1);
          o3 = (if opt_TimeoutMS o2 = 0 then o2\<lparr>opt_TimeoutMS := 3000\<rparr> else o2);
          poll = sint (opt_PollMS o3); lease = sint (opt_LeaseMS o3); timeout = sint (opt_TimeoutMS o3)
      in if poll < 50 \<or> poll > 5000 \<or> timeout < 100 \<or> timeout > 5000 \<or> lease < 1000 \<or> lease > 60000
            \<or> lease < sint (2 * opt_TimeoutMS o3)
         then Inl ErrInvalid else Inr o3)"

definition Millisecond :: int64 where "Millisecond = 1000000"

section \<open>The event of a fact\<close>

text \<open>The JSON of a receipt. The outbox column holds the value, its text has the same members.\<close>

definition versions_json :: "(string \<rightharpoonup> string) \<Rightarrow> json" where
  "versions_json m = JObj (map (\<lambda>k. (k, JStr (the (m k)))) (sorted_list_of_set (dom m)))"

definition usage_json :: "usage \<Rightarrow> json" where
  "usage_json u = JObj
     [(''owner_id'', JStr (ug_OwnerID u)), (''bucket'', JStr (ug_Bucket u)),
      (''values'', JObj [(''Reserved'', JStr (Wide_String (uv_Reserved (ug_Values u)))), (''Consumed'', JStr (Wide_String (uv_Consumed (ug_Values u))))]),
      (''version'', JStr (format_int (sint (ug_Version u))))]"

definition limit_json :: "usage change \<Rightarrow> json" where
  "limit_json c = JObj [(''Before'', option_json usage_json (ch_Before c)), (''After'', usage_json (ch_After c))]"

definition receipt_json :: "receipt \<Rightarrow> json" where
  "receipt_json r = JObj
     [(''caller_identity'', JStr (rc_CallerIdentity r)), (''schema_version'', JStr (rc_SchemaVersion r)),
      (''book_id'', JStr (rc_BookID r)), (''operation_id'', JStr (rc_OperationID r)), (''kind'', JStr (rc_Kind r)),
      (''request_hash'', JStr (rc_RequestHash r)), (''outcome'', JStr (rc_Outcome r)), (''reason'', JStr (rc_Reason r)),
      (''payment_id'', JStr (rc_PaymentID r)), (''subject_ids'', JArr (map JStr (rc_SubjectIDs r))),
      (''journal_id'', JStr (rc_JournalID r)), (''hold_id'', JStr (rc_HoldID r)),
      (''hold_version'', JStr (format_int (sint (rc_HoldVersion r)))),
      (''control_versions'', versions_json (rc_ControlVersions r)), (''account_versions'', versions_json (rc_AccountVersions r)),
      (''policy_id'', JStr (rc_PolicyID r)), (''evidence_id'', JStr (rc_EvidenceID r)),
      (''limit_change'', option_json limit_json (rc_LimitChange r)), (''recorded_at'', JStr (Time_Format (rc_RecordedAt r))),
      (''event_id'', JStr (rc_EventID r))]"

definition wire :: "codec \<Rightarrow> leased_fact \<Rightarrow> string result" where
  "wire cd f =
     (case New cd (lf_BookID f) (lf_EventID f) (lf_OperationID f) (receipt_json (lf_Body f)) of
        None \<Rightarrow> Inl ErrInvalid
      | Some e \<Rightarrow>
          if lf_Type f \<noteq> ''LedgerOperationResolved'' then Inl ErrInvalid
          else case Encode cd e of None \<Rightarrow> Inl ErrInvalid | Some data \<Rightarrow> Inr data)"

section \<open>The worker\<close>

text \<open>
  What one iteration meets: the attempts of the claim, the random bytes of its token, what other
  transactions commit while the event is on the wire, the delivery, the acknowledgement, and
  whether the context is still alive when a failure is reported.
\<close>

record 'x worker_env =
  we_attempts :: "nat \<Rightarrow> db attempt"
  we_token :: bytes
  we_send :: 'x
  we_others :: "db \<Rightarrow> db"
  we_ack :: exec_env
  we_alive :: bool

datatype verdict = Drained | Sent | Broke error

definition publish_once ::
  "codec \<Rightarrow> options \<Rightarrow> ('x \<Rightarrow> string \<Rightarrow> 'w \<Rightarrow> unit result \<times> 'w) \<Rightarrow> 'x worker_env \<Rightarrow> ID \<Rightarrow> db \<times> 'w \<Rightarrow> verdict \<times> db \<times> 'w" where
  "publish_once cd opts send x book s =
     (let (db, w) = s
      in case ClaimOutbox (we_attempts x) (we_token x) book 1 (opt_LeaseMS opts * Millisecond) db of
           (Inl e, db1) \<Rightarrow> (Broke e, db1, w)
         | (Inr [], db1) \<Rightarrow> (Drained, db1, w)
         | (Inr (f # _), db1) \<Rightarrow>
             (case wire cd f of
                Inl e \<Rightarrow> (Broke e, db1, w)
              | Inr data \<Rightarrow>
                  (case send (we_send x) data w of
                     (Inl e, w1) \<Rightarrow> (Broke e, we_others x db1, w1)
                   | (Inr _, w1) \<Rightarrow>
                       (case AcknowledgeOutbox (we_ack x) f (we_others x db1) of
                          (Inl e, db2) \<Rightarrow> (Broke e, db2, w1)
                        | (Inr _, db2) \<Rightarrow> (Sent, db2, w1)))))"

text \<open>The state of the loop: databases, how often the context was looked at, and the reported failures.\<close>

record 'w worker =
  wk_world :: "db \<times> 'w"
  wk_checks :: nat
  wk_failed :: "error list"

definition burst_limit :: nat where "burst_limit = 16"

text \<open>A burst on one book; the flag says that the context ended.\<close>

fun burst ::
  "nat \<Rightarrow> codec \<Rightarrow> options \<Rightarrow> ('x \<Rightarrow> string \<Rightarrow> 'w \<Rightarrow> unit result \<times> 'w) \<Rightarrow> (nat \<Rightarrow> bool) \<Rightarrow> (nat \<Rightarrow> 'x worker_env) \<Rightarrow> ID \<Rightarrow>
   'w worker \<Rightarrow> bool \<times> 'w worker" where
  "burst 0 cd opts send ended envs book s = (False, s)"
| "burst (Suc n) cd opts send ended envs book s =
     (let k = wk_checks s; s1 = s\<lparr>wk_checks := Suc k\<rparr>
      in if ended k then (True, s1)
         else case publish_once cd opts send (envs k) book (wk_world s) of
           (Drained, w) \<Rightarrow> (False, s1\<lparr>wk_world := w\<rparr>)
         | (Sent, w) \<Rightarrow> burst n cd opts send ended envs book (s1\<lparr>wk_world := w\<rparr>)
         | (Broke e, w) \<Rightarrow>
             (False, s1\<lparr>wk_world := w, wk_failed := (if we_alive (envs k) then wk_failed s @ [e] else wk_failed s)\<rparr>))"

fun each_book ::
  "codec \<Rightarrow> options \<Rightarrow> ('x \<Rightarrow> string \<Rightarrow> 'w \<Rightarrow> unit result \<times> 'w) \<Rightarrow> (nat \<Rightarrow> bool) \<Rightarrow> (nat \<Rightarrow> 'x worker_env) \<Rightarrow> ID list \<Rightarrow>
   'w worker \<Rightarrow> bool \<times> 'w worker" where
  "each_book cd opts send ended envs [] s = (False, s)"
| "each_book cd opts send ended envs (book # books) s =
     (case burst burst_limit cd opts send ended envs book s of
        (True, s1) \<Rightarrow> (True, s1)
      | (False, s1) \<Rightarrow> each_book cd opts send ended envs books s1)"

text \<open>The rounds end when the context does; \<open>None\<close> is a loop that is still running after so many rounds.\<close>

fun rounds ::
  "nat \<Rightarrow> codec \<Rightarrow> options \<Rightarrow> ('x \<Rightarrow> string \<Rightarrow> 'w \<Rightarrow> unit result \<times> 'w) \<Rightarrow> (nat \<Rightarrow> bool) \<Rightarrow> (nat \<Rightarrow> 'x worker_env) \<Rightarrow> ID list \<Rightarrow>
   'w worker \<Rightarrow> 'w worker option" where
  "rounds 0 cd opts send ended envs books s = None"
| "rounds (Suc n) cd opts send ended envs books s =
     (case each_book cd opts send ended envs books s of
        (True, s1) \<Rightarrow> Some s1
      | (False, s1) \<Rightarrow>
          let k = wk_checks s1; s2 = s1\<lparr>wk_checks := Suc k\<rparr>
          in if ended k then Some s2 else rounds n cd opts send ended envs books s2)"

definition Publisher_Run ::
  "nat \<Rightarrow> codec \<Rightarrow> (nat \<Rightarrow> bool) \<Rightarrow> (nat \<Rightarrow> 'x worker_env) \<Rightarrow> ID list \<Rightarrow> options \<Rightarrow>
   ('x \<Rightarrow> string \<Rightarrow> 'w \<Rightarrow> unit result \<times> 'w) option \<Rightarrow> db \<times> 'w \<Rightarrow> (unit result \<times> 'w worker) option" where
  "Publisher_Run fuel cd ended envs books opts send w =
     (let s = \<lparr>wk_world = w, wk_checks = 0, wk_failed = []\<rparr>
      in case (Options_Defaults opts, send) of
           (Inr opts', Some f) \<Rightarrow>
             if books = [] then Some (Inl ErrInvalid, s)
             else map_option (Pair (Inr ())) (rounds fuel cd opts' f ended envs books s)
         | _ \<Rightarrow> Some (Inl ErrInvalid, s))"

section \<open>The loop ends with the context\<close>

lemma burst_checks: "wk_checks s \<le> wk_checks (snd (burst n cd opts send ended envs book s))"
proof (induction n arbitrary: s)
  case (Suc n)
  let ?s = "s\<lparr>wk_checks := Suc (wk_checks s)\<rparr>"
  have "wk_checks s \<le> wk_checks (snd (burst n cd opts send ended envs book (?s\<lparr>wk_world := w\<rparr>)))" for w
    using Suc.IH [of "?s\<lparr>wk_world := w\<rparr>"] by simp
  then show ?case by (simp add: Let_def split: prod.split verdict.split)
qed simp

lemma each_book_checks: "wk_checks s \<le> wk_checks (snd (each_book cd opts send ended envs books s))"
proof (induction books arbitrary: s)
  case (Cons b bs)
  obtain f s1 where b: "burst burst_limit cd opts send ended envs b s = (f, s1)" by fastforce
  have "wk_checks s \<le> wk_checks s1" using burst_checks [of s burst_limit cd opts send ended envs b] by (simp add: b)
  then show ?case using Cons.IH [of s1] by (cases f) (simp_all add: b)
qed simp

lemma rounds_end:
  assumes "\<And>k. k \<ge> K \<Longrightarrow> ended k" and "0 < n" and "K < n + wk_checks s"
  shows "\<exists>s'. rounds n cd opts send ended envs books s = Some s'"
  using assms(2,3)
proof (induction n arbitrary: s)
  case (Suc n)
  obtain f s1 where b: "each_book cd opts send ended envs books s = (f, s1)" by fastforce
  let ?s = "s1\<lparr>wk_checks := Suc (wk_checks s1)\<rparr>"
  have le: "wk_checks s \<le> wk_checks s1" using each_book_checks [of s cd opts send ended envs books] by (simp add: b)
  show ?case
  proof (cases "f \<or> ended (wk_checks s1)")
    case False
    then have "wk_checks s1 < K" using assms(1) by (meson not_le)
    then have "\<exists>s'. rounds n cd opts send ended envs books ?s = Some s'" using Suc.IH [of ?s] Suc.prems le by simp
    then show ?thesis using False by (simp add: b Let_def)
  qed (cases f; simp add: b Let_def)
qed simp

section \<open>What every publication keeps\<close>

text \<open>A reflexive and transitive relation that every iteration keeps holds between the start and the end of a run.\<close>

lemma burst_related:
  assumes "\<And>k book w v w'. publish_once cd opts send (envs k) book w = (v, w') \<Longrightarrow> R w w'"
    and "\<And>w. R w w" and "\<And>a b c. R a b \<Longrightarrow> R b c \<Longrightarrow> R a c"
  shows "R (wk_world s) (wk_world (snd (burst n cd opts send ended envs book s)))"
proof (induction n arbitrary: s)
  case (Suc n)
  obtain v w where once: "publish_once cd opts send (envs (wk_checks s)) book (wk_world s) = (v, w)" by (meson surj_pair)
  have "R (wk_world s) w" using assms(1) once .
  then show ?case
    using assms(2,3) once Suc.IH [of "s\<lparr>wk_checks := Suc (wk_checks s), wk_world := w\<rparr>"]
    by (cases v) (auto simp: Let_def)
qed (simp add: assms(2))

lemma each_book_related:
  assumes "\<And>k book w v w'. publish_once cd opts send (envs k) book w = (v, w') \<Longrightarrow> R w w'"
    and "\<And>w. R w w" and "\<And>a b c. R a b \<Longrightarrow> R b c \<Longrightarrow> R a c"
  shows "R (wk_world s) (wk_world (snd (each_book cd opts send ended envs books s)))"
proof (induction books arbitrary: s)
  case (Cons b bs)
  obtain f s1 where b: "burst burst_limit cd opts send ended envs b s = (f, s1)" by fastforce
  have "R (wk_world s) (wk_world (snd (burst burst_limit cd opts send ended envs b s)))"
    by (rule burst_related) (erule assms(1), rule assms(2), erule (1) assms(3))
  then have "R (wk_world s) (wk_world s1)" by (simp add: b)
  then show ?case using Cons.IH [of s1] assms(3) b by (cases f) auto
qed (simp add: assms(2))

lemma rounds_related:
  assumes "\<And>k book w v w'. publish_once cd opts send (envs k) book w = (v, w') \<Longrightarrow> R w w'"
    and "\<And>w. R w w" and "\<And>a b c. R a b \<Longrightarrow> R b c \<Longrightarrow> R a c"
    and "rounds n cd opts send ended envs books s = Some s'"
  shows "R (wk_world s) (wk_world s')"
  using assms(4)
proof (induction n arbitrary: s)
  case (Suc n)
  obtain f s1 where b: "each_book cd opts send ended envs books s = (f, s1)" by fastforce
  have "R (wk_world s) (wk_world (snd (each_book cd opts send ended envs books s)))"
    by (rule each_book_related) (erule assms(1), rule assms(2), erule (1) assms(3))
  then have "R (wk_world s) (wk_world s1)" by (simp add: b)
  then show ?case
    using Suc.IH [of "s1\<lparr>wk_checks := Suc (wk_checks s1)\<rparr>"] Suc.prems assms(3) b
    by (cases f) (auto simp: Let_def split: if_split_asm)
qed simp

lemma Run_related:
  assumes "Publisher_Run fuel cd ended envs books opts (Some send) w = Some (res, s)"
    and "\<And>opts k book w v w'. publish_once cd opts send (envs k) book w = (v, w') \<Longrightarrow> R w w'"
    and "\<And>w. R w w" and "\<And>a b c. R a b \<Longrightarrow> R b c \<Longrightarrow> R a c"
  shows "R w (wk_world s)"
proof (cases "\<exists>o2. Options_Defaults opts = Inr o2 \<and> books \<noteq> []")
  case True
  then show ?thesis using assms(1) rounds_related [where R = R and envs = envs, OF assms(2-4)] by (fastforce simp: Publisher_Run_def)
next
  case False
  then have "wk_world s = w" using assms(1) by (auto simp: Publisher_Run_def Let_def split: sum.split_asm)
  then show ?thesis using assms(3) by simp
qed

section \<open>Deliveries and facts\<close>

text \<open>No event is newly marked delivered, and no fact is lost.\<close>

definition delivered :: "db \<Rightarrow> ID \<times> ID \<Rightarrow> bool" where
  "delivered db k = (case map_of (db_delivery db) k of None \<Rightarrow> False | Some r \<Rightarrow> der_delivered r)"

definition quiet :: "db \<Rightarrow> db \<Rightarrow> bool" where
  "quiet db db' = ((\<forall>k. delivered db' k \<longrightarrow> delivered db k)
     \<and> (\<forall>k f. map_of (db_facts db) k = Some f \<longrightarrow> map_of (db_facts db') k = Some f))"

text \<open>What a leased fact says is in the table of facts.\<close>

definition leased_from :: "db \<Rightarrow> leased_fact \<Rightarrow> bool" where
  "leased_from db f = (\<exists>x. map_of (db_facts db) (lf_BookID f, lf_EventID f) = Some x
     \<and> lf_OperationID f = far_operation x \<and> lf_Type f = far_type x \<and> lf_Body f = far_body x)"

lemma quiet_refl [simp]: "quiet db db" by (simp add: quiet_def)

lemma quiet_trans: "quiet a b \<Longrightarrow> quiet b c \<Longrightarrow> quiet a c" by (simp add: quiet_def)

lemma quiet_leased: "quiet a b \<Longrightarrow> leased_from a f \<Longrightarrow> leased_from b f"
  unfolding quiet_def leased_from_def by blast

lemma claim_tx_quiet:
  assumes "claim_tx book token limit lease now db = Inr (fs, db')"
  shows "quiet db db'" and "f \<in> set fs \<Longrightarrow> leased_from db' f"
proof -
  note c = claim_each_Inr [OF assms [unfolded claim_tx_def]]
  have facts: "db_facts db' = db_facts db" using c(2) by auto
  have "delivered db k" if "delivered db' k" for k
  proof (cases "k \<in> {book} \<times> set (claim_ids book limit now db)")
    case True
    then obtain i where "k = (book, i)" "i \<in> set (claim_ids book limit now db)" by auto
    then show ?thesis using c(5) [of i] that by (auto simp: delivered_def)
  next
    case False
    then show ?thesis using c(6) that by (simp add: delivered_def)
  qed
  then show "quiet db db'" using facts by (simp add: quiet_def)
  show "f \<in> set fs \<Longrightarrow> leased_from db' f" using c(3) [of f] facts by (auto simp: leased_from_def)
qed

lemma ClaimOutbox_quiet:
  assumes "ClaimOutbox attempts token book limit lease db = (res, db')" and "\<And>k d. quiet d (at_others (attempts k) d)"
  shows "quiet db db'" and "res = Inr fs \<Longrightarrow> f \<in> set fs \<Longrightarrow> leased_from db' f"
proof -
  have "quiet db db' \<and> (\<forall>fs. res = Inr fs \<longrightarrow> (\<forall>f\<in>set fs. leased_from db' f))"
  proof (cases "Transact attempts (claim_tx book (NewID token) (nat limit) lease) db = (res, db')")
    case True
    from transact_loop_outcome [OF this [unfolded Transact_def], of quiet]
    obtain d where d: "quiet db d" "case res of
        Inr r \<Rightarrow> \<exists>now. claim_tx book (NewID token) (nat limit) lease now d = Inr (r, db')
      | Inl e \<Rightarrow> db' = d \<or> e = ErrUnknown \<and> (\<exists>now r. claim_tx book (NewID token) (nat limit) lease now d = Inr (r, db'))"
      using quiet_trans assms(2) by auto
    then show ?thesis using claim_tx_quiet quiet_trans by (cases res) fastforce+
  next
    case False
    then show ?thesis using assms(1) by (auto simp: ClaimOutbox_def split: if_split_asm)
  qed
  then show "quiet db db'" and "res = Inr fs \<Longrightarrow> f \<in> set fs \<Longrightarrow> leased_from db' f" by blast+
qed

lemma AcknowledgeOutbox_delivers:
  assumes "AcknowledgeOutbox x f db = (res, db')"
  shows "delivered db' k \<Longrightarrow> delivered db k \<or> k = (lf_BookID f, lf_EventID f)" and "db_facts db' = db_facts db"
proof -
  have u: "delivered d k \<longrightarrow> delivered db k \<or> k = (lf_BookID f, lf_EventID f)" "db_facts d = db_facts db"
    if "ack_update now f db = Some d" for now d
    using that by (auto simp: ack_update_def delivered_def update_conv' split: option.split_asm if_split_asm)
  have "db' = db \<or> (\<exists>now. ack_update now f db = Some db')"
    using assms by (auto simp: AcknowledgeOutbox_def Let_def split: if_split_asm option.split_asm)
  then show "delivered db' k \<Longrightarrow> delivered db k \<or> k = (lf_BookID f, lf_EventID f)" and "db_facts db' = db_facts db"
    using u by auto
qed

section \<open>What a consumer promises\<close>

text \<open>
  A send that succeeds leaves the event with the consumer, and no send takes one away, provided the
  environment of the send is regular.
\<close>

locale event_sink =
  fixes send :: "'x \<Rightarrow> string \<Rightarrow> 'w \<Rightarrow> unit result \<times> 'w"
    and regular :: "'x \<Rightarrow> bool"
    and received :: "'w \<Rightarrow> string \<Rightarrow> bool"
  assumes send_delivers: "regular x \<Longrightarrow> send x data w = (Inr (), w') \<Longrightarrow> received w' data"
    and send_keeps: "regular x \<Longrightarrow> send x data w = (r, w') \<Longrightarrow> received w d \<Longrightarrow> received w' d"
begin

text \<open>Every event marked delivered was so at the start, or its wire form is with the consumer.\<close>

definition accounted :: "codec \<Rightarrow> db \<Rightarrow> db \<times> 'w \<Rightarrow> bool" where
  "accounted cd db0 s = (\<forall>k. delivered (fst s) k \<longrightarrow> delivered db0 k \<or>
     (\<exists>f data. k = (lf_BookID f, lf_EventID f) \<and> leased_from (fst s) f \<and> wire cd f = Inr data \<and> received (snd s) data))"

definition orderly :: "'x worker_env \<Rightarrow> bool" where
  "orderly x = (regular (we_send x) \<and> (\<forall>k d. quiet d (at_others (we_attempts x k) d)) \<and> (\<forall>d. quiet d (we_others x d)))"

lemma accounted_step:
  assumes "accounted cd db0 (db, w)" and "quiet db db'" and "\<And>d. received w d \<Longrightarrow> received w' d"
  shows "accounted cd db0 (db', w')"
proof -
  have "delivered db0 k \<or> (\<exists>f data. k = (lf_BookID f, lf_EventID f) \<and> leased_from db' f \<and> wire cd f = Inr data \<and> received w' data)"
    if "delivered db' k" for k
  proof -
    have "delivered db k" using that assms(2) unfolding quiet_def by blast
    with assms(1) have "delivered db0 k \<or> (\<exists>f data. k = (lf_BookID f, lf_EventID f) \<and> leased_from db f \<and> wire cd f = Inr data \<and> received w data)"
      unfolding accounted_def fst_conv snd_conv by blast
    then show ?thesis using quiet_leased [OF assms(2)] assms(3) by blast
  qed
  then show ?thesis unfolding accounted_def by simp
qed

lemma publish_once_accounted:
  assumes "publish_once cd opts send x book s = (v, s')" and "orderly x" and "accounted cd db0 s"
  shows "accounted cd db0 s'"
proof -
  obtain db w where s: "s = (db, w)" by fastforce
  note x = assms(2) [unfolded orderly_def]
  obtain res db1 where claim: "ClaimOutbox (we_attempts x) (we_token x) book 1 (opt_LeaseMS opts * Millisecond) db = (res, db1)" by fastforce
  note q = ClaimOutbox_quiet [OF claim]
  have q1: "quiet db db1" using q(1) x by blast
  have same: "accounted cd db0 (db1, w)" using accounted_step [OF assms(3) [unfolded s] q1] by blast
  show ?thesis
  proof (cases "\<exists>f fs data. res = Inr (f # fs) \<and> wire cd f = Inr data")
    case False
    then have "s' = (db1, w)" using assms(1) claim
      by (cases res; auto simp: publish_once_def s split: list.split_asm sum.split_asm)
    then show ?thesis using same by simp
  next
    case True
    then obtain f fs data where f: "res = Inr (f # fs)" "wire cd f = Inr data" by blast
    obtain r w1 where sent: "send (we_send x) data w = (r, w1)" by fastforce
    have kept: "accounted cd db0 (we_others x db1, w1)"
      using accounted_step [OF same] x send_keeps sent by blast
    show ?thesis
    proof (cases r)
      case (Inl e)
      then have "s' = (we_others x db1, w1)" using assms(1) claim f sent by (simp add: publish_once_def s)
      then show ?thesis using kept by simp
    next
      case (Inr u)
      obtain r2 db2 where ack: "AcknowledgeOutbox (we_ack x) f (we_others x db1) = (r2, db2)" by fastforce
      have s': "s' = (db2, w1)" using assms(1) claim f sent Inr ack by (auto simp: publish_once_def s split: sum.split_asm)
      note d = AcknowledgeOutbox_delivers [OF ack]
      have "send (we_send x) data w = (Inr (), w1)" using sent Inr by simp
      then have got: "received w1 data" using send_delivers x by blast
      have "leased_from db1 f" using q(2) f(1) x by simp
      then have "leased_from (we_others x db1) f" using x quiet_leased by blast
      then have "leased_from db2 f" using d(2) by (simp add: leased_from_def)
      then show ?thesis
        using kept d got f(2) unfolding s' accounted_def leased_from_def by fastforce
    qed
  qed
qed

lemma Run_accounted:
  assumes "\<And>k. orderly (envs k)" and "Publisher_Run fuel cd ended envs books opts (Some send) (db, w) = Some (res, s)"
  shows "accounted cd db (wk_world s)"
proof -
  have "accounted cd db (db, w) \<longrightarrow> accounted cd db (wk_world s)"
    by (rule Run_related [OF assms(2)]) (use publish_once_accounted assms(1) in blast)+
  then show ?thesis by (simp add: accounted_def)
qed

end

text \<open>
  A consumer whose contents are sound: a send of a text that is known to be good keeps them so. The texts a
  run sends are the wire forms of facts of its database.
\<close>

definition facts_within :: "db \<Rightarrow> db \<Rightarrow> bool" where
  "facts_within db db' = (\<forall>k f. map_of (db_facts db) k = Some f \<longrightarrow> map_of (db_facts db') k = Some f)"

lemma quiet_facts: "quiet a b \<Longrightarrow> facts_within a b" by (simp add: quiet_def facts_within_def)

lemma facts_within_leased: "facts_within a b \<Longrightarrow> leased_from a f \<Longrightarrow> leased_from b f"
  unfolding facts_within_def leased_from_def by blast

lemma facts_within_trans: "facts_within a b \<Longrightarrow> facts_within b c \<Longrightarrow> facts_within a c" by (simp add: facts_within_def)

locale sound_sink = event_sink send regular received
  for send :: "'x \<Rightarrow> string \<Rightarrow> 'w \<Rightarrow> unit result \<times> 'w" and regular :: "'x \<Rightarrow> bool" and received :: "'w \<Rightarrow> string \<Rightarrow> bool" +
  fixes sound :: "'w \<Rightarrow> bool"
    and known :: "string \<Rightarrow> bool"
  assumes send_sound: "regular x \<Longrightarrow> known data \<Longrightarrow> send x data w = (r, w') \<Longrightarrow> sound w \<Longrightarrow> sound w'"
begin

definition vouched :: "codec \<Rightarrow> db \<Rightarrow> bool" where
  "vouched cd db = (\<forall>f data. leased_from db f \<longrightarrow> wire cd f = Inr data \<longrightarrow> known data)"

definition follows :: "codec \<Rightarrow> db \<times> 'w \<Rightarrow> db \<times> 'w \<Rightarrow> bool" where
  "follows cd s s' = (facts_within (fst s) (fst s') \<and> (vouched cd (fst s') \<longrightarrow> sound (snd s) \<longrightarrow> sound (snd s')))"

lemma vouched_within: "facts_within a b \<Longrightarrow> vouched cd b \<Longrightarrow> vouched cd a"
  using facts_within_leased unfolding vouched_def by blast

lemma follows_refl: "follows cd s s" by (simp add: follows_def facts_within_def)

lemma follows_trans: "follows cd a b \<Longrightarrow> follows cd b c \<Longrightarrow> follows cd a c"
  using facts_within_trans vouched_within unfolding follows_def by blast

lemma publish_once_follows:
  assumes "publish_once cd opts send x book s = (v, s')" and "orderly x"
  shows "follows cd s s'"
proof -
  obtain db w where s: "s = (db, w)" by fastforce
  note x = assms(2) [unfolded orderly_def]
  obtain res db1 where claim: "ClaimOutbox (we_attempts x) (we_token x) book 1 (opt_LeaseMS opts * Millisecond) db = (res, db1)" by fastforce
  note q = ClaimOutbox_quiet [OF claim]
  have q1: "facts_within db db1" using q(1) x quiet_facts by blast
  show ?thesis
  proof (cases "\<exists>f fs data. res = Inr (f # fs) \<and> wire cd f = Inr data")
    case False
    then have "s' = (db1, w)" using assms(1) claim
      by (cases res; auto simp: publish_once_def s split: list.split_asm sum.split_asm)
    then show ?thesis using q1 by (simp add: follows_def s)
  next
    case True
    then obtain f fs data where f: "res = Inr (f # fs)" "wire cd f = Inr data" by blast
    obtain r w1 where sent: "send (we_send x) data w = (r, w1)" by fastforce
    have others: "facts_within db1 (we_others x db1)" using x quiet_facts by blast
    have "facts_within (we_others x db1) (fst s') \<and> snd s' = w1"
    proof (cases r)
      case (Inl e)
      then have "s' = (we_others x db1, w1)" using assms(1) claim f sent by (simp add: publish_once_def s)
      then show ?thesis by (simp add: facts_within_def)
    next
      case (Inr u)
      obtain r2 db2 where ack: "AcknowledgeOutbox (we_ack x) f (we_others x db1) = (r2, db2)" by fastforce
      then have "s' = (db2, w1)" using assms(1) claim f sent Inr by (auto simp: publish_once_def s split: sum.split_asm)
      then show ?thesis using AcknowledgeOutbox_delivers(2) [OF ack] by (simp add: facts_within_def)
    qed
    then have last: "facts_within db1 (fst s')" "snd s' = w1" using facts_within_trans [OF others] by blast+
    have "leased_from db1 f" using q(2) f(1) x by simp
    then have "sound w1" if "vouched cd (fst s')" "sound w"
      using vouched_within [OF last(1) that(1)] f(2) that(2) sent x send_sound unfolding vouched_def by blast
    then show ?thesis using facts_within_trans [OF q1 last(1)] last(2) by (simp add: follows_def s)
  qed
qed

lemma Run_sound:
  assumes "\<And>k. orderly (envs k)" and "Publisher_Run fuel cd ended envs books opts (Some send) (db, w) = Some (res, s)"
    and "\<And>f data. leased_from (fst (wk_world s)) f \<Longrightarrow> wire cd f = Inr data \<Longrightarrow> known data" and "sound w"
  shows "sound (snd (wk_world s))"
proof -
  have "follows cd (db, w) (wk_world s)"
    by (rule Run_related [OF assms(2)]) (use publish_once_follows assms(1) follows_refl follows_trans in blast)+
  then show ?thesis using assms(3,4) by (auto simp: follows_def vouched_def)
qed

end

section \<open>The inbox as the consumer\<close>

record sink_env =
  se_link :: link
  se_ready :: bool
  se_attempts :: "nat \<Rightarrow> inbox_db attempt"

definition inbox_send :: "env \<Rightarrow> codec \<Rightarrow> event_config \<Rightarrow> sink_env \<Rightarrow> string \<Rightarrow> inbox_db \<Rightarrow> unit result \<times> inbox_db" where
  "inbox_send E cd config x data w = Send (eventHandler E cd config (se_ready x) (se_attempts x)) (se_link x) data w"

text \<open>Other writers of the inbox only add rows.\<close>

definition inbox_regular :: "sink_env \<Rightarrow> bool" where
  "inbox_regular x = (\<forall>k d. extends d (at_others (se_attempts x k) d))"

definition in_inbox :: "env \<Rightarrow> codec \<Rightarrow> inbox_db \<Rightarrow> string \<Rightarrow> bool" where
  "in_inbox E cd w data = (\<exists>e c. Decode cd data = Some (e, c) \<and> ingested w e (digest E c))"

lemma inbox_send_outcome:
  assumes "inbox_send E cd config x data w = (res, w')" and "inbox_regular x"
  shows "extends w w'" and "res = Inr () \<Longrightarrow> in_inbox E cd w' data"
proof -
  let ?h = "eventHandler E cd config (se_ready x) (se_attempts x)"
  let ?q = "\<lparr>hr_TLS = lk_TLS (se_link x), hr_Path = lk_Path (se_link x), hr_Method = ''POST'', hr_ContentType = ''application/json'',
    hr_RawQuery = [], hr_Body = Some data\<rparr>"
  obtain status d where h: "?h ?q w = (status, d)" by fastforce
  note out = handler_outcome [OF h]
  have "extends w w' \<and> (res = Inr () \<longrightarrow> in_inbox E cd w' data)"
    using assms out h unfolding inbox_send_def Send_def inbox_regular_def in_inbox_def Let_def
    by (cases "lk_reaches (se_link x)") (auto split: if_split_asm)
  then show "extends w w'" and "res = Inr () \<Longrightarrow> in_inbox E cd w' data" by blast+
qed

interpretation inbox_sink: event_sink "inbox_send E cd config" inbox_regular "in_inbox E cd" for E cd config
proof
  fix x data and w w' :: inbox_db and r d
  assume x: "inbox_regular x"
  show "inbox_send E cd config x data w = (Inr (), w') \<Longrightarrow> in_inbox E cd w' data" using inbox_send_outcome(2) x by blast
  show "inbox_send E cd config x data w = (r, w') \<Longrightarrow> in_inbox E cd w d \<Longrightarrow> in_inbox E cd w' d"
    using inbox_send_outcome(1) [OF _ x] extends_ingested unfolding in_inbox_def by blast
qed

text \<open>
  Other writers of the inbox record canonical texts in play with their own projection, as \<open>Accept\<close> does; then
  what the inbox holds after a run stands for such texts, if the wire forms of the facts are among them.
\<close>

definition inbox_guarded :: "env \<Rightarrow> codec \<Rightarrow> string set \<Rightarrow> sink_env \<Rightarrow> bool" where
  "inbox_guarded E cd T x = (\<forall>k d. projected E cd T d \<longrightarrow> projected E cd T (at_others (se_attempts x k) d))"

lemma inbox_send_projected:
  assumes "inbox_send E cd config x data w = (r, w')" and "inbox_guarded E cd T x"
    and "\<And>e c. Decode cd data = Some (e, c) \<Longrightarrow> c \<in> T" and "projected E cd T w"
  shows "projected E cd T w'"
proof -
  let ?q = "\<lparr>hr_TLS = lk_TLS (se_link x), hr_Path = lk_Path (se_link x), hr_Method = ''POST'', hr_ContentType = ''application/json'',
    hr_RawQuery = [], hr_Body = Some data\<rparr>"
  obtain status d where h: "eventHandler E cd config (se_ready x) (se_attempts x) ?q w = (status, d)" by fastforce
  have "projected E cd T d"
    by (rule handler_projected [OF h]) (use assms(2-4) in \<open>auto simp: inbox_guarded_def\<close>)
  moreover have "w' = w \<or> w' = d"
    using assms(1) h unfolding inbox_send_def Send_def Let_def by (auto split: if_split_asm)
  ultimately show ?thesis using assms(4) by blast
qed

interpretation sound_inbox: sound_sink "inbox_send E cd config" "\<lambda>x. inbox_regular x \<and> inbox_guarded E cd T x" "in_inbox E cd"
    "projected E cd T" "\<lambda>data. \<forall>e c. Decode cd data = Some (e, c) \<longrightarrow> c \<in> T" for E cd config T
proof
  fix x data and w w' :: inbox_db and r d
  assume x: "inbox_regular x \<and> inbox_guarded E cd T x"
  show "inbox_send E cd config x data w = (Inr (), w') \<Longrightarrow> in_inbox E cd w' data" using inbox_sink.send_delivers x by blast
  show "inbox_send E cd config x data w = (r, w') \<Longrightarrow> in_inbox E cd w d \<Longrightarrow> in_inbox E cd w' d" using inbox_sink.send_keeps x by blast
  show "\<forall>e c. Decode cd data = Some (e, c) \<longrightarrow> c \<in> T \<Longrightarrow> inbox_send E cd config x data w = (r, w') \<Longrightarrow> projected E cd T w \<Longrightarrow> projected E cd T w'"
    using inbox_send_projected x by blast
qed

section \<open>The event of a fact, read by the consumer\<close>

text \<open>Only the identity fields of a receipt have the name of an identity field, whatever the case of the letters.\<close>

lemma receipt_names:
  assumes "receipt_json r = JObj kvs"
  shows "distinct (map fst kvs)" and "list_all ascii (map fst kvs)"
    and "k \<in> set (map fst kvs) \<Longrightarrow> k \<notin> set identity_fields \<Longrightarrow> field_for identity_fields k = None"
proof -
  let ?names = "[''caller_identity'', ''schema_version'', ''book_id'', ''operation_id'', ''kind'', ''request_hash'', ''outcome'', ''reason'',
    ''payment_id'', ''subject_ids'', ''journal_id'', ''hold_id'', ''hold_version'', ''control_versions'', ''account_versions'', ''policy_id'',
    ''evidence_id'', ''limit_change'', ''recorded_at'', ''event_id'']"
  have names: "map fst kvs = ?names" using assms by (auto simp: receipt_json_def)
  have facts: "distinct ?names" "list_all ascii ?names" "list_all (\<lambda>k. map lower_char k = k) ?names" by code_simp+
  show "distinct (map fst kvs)" "list_all ascii (map fst kvs)" unfolding names by (rule facts)+
  show "k \<in> set (map fst kvs) \<Longrightarrow> k \<notin> set identity_fields \<Longrightarrow> field_for identity_fields k = None"
    using facts(2,3) unfolding names list_all_iff by (intro field_for_other [OF _ _ identity_names_lower]) blast+
qed

lemma decoded_identity:
  assumes "jcs_same (receipt_json rc) v" and "evt_Receipt e = Some v" and "Identity e = Some r" and "event_valid e r"
  shows "ri_RequestHash r = rc_RequestHash rc" and "ri_Kind r = rc_Kind rc" and "ri_Outcome r = rc_Outcome rc"
proof -
  obtain kvs where rc: "receipt_json rc = JObj kvs" by (simp add: receipt_json_def)
  note names = receipt_names [OF rc]
  obtain kvs' where v: "v = JObj kvs'" "distinct (map fst kvs')" "set (map fst kvs') = set (map fst kvs)"
    and same: "\<And>n v. map_of kvs n = Some v \<Longrightarrow> \<exists>v'. map_of kvs' n = Some v' \<and> jcs_same v v'"
    using assms(1) unfolding rc by (rule jcs_same_member [OF _ names(1,2)]) blast
  have run: "identity_members kvs' zero_identity = Some r" using assms(2,3) by (simp add: Identity_def v(1))
  have field: "get_identity n r = s" if "n \<in> set identity_fields" "map_of kvs n = Some (JStr s)" "ascii (get_identity n r)" for n s
    using identity_members_read [OF run v(2) _ that(1)] names(3) v(3) jcs_same_text [OF same [OF that(2)]] that(3) by auto
  have "list_all ascii event_kinds" "ascii ''APPLIED''" "ascii ''REJECTED''" by code_simp+
  then have texts: "ascii (ri_RequestHash r)" "ascii (ri_Kind r)" "ascii (ri_Outcome r)"
    using assms(4) ValidHash_ascii unfolding event_valid_def list_all_iff by metis+
  have "map_of kvs ''request_hash'' = Some (JStr (rc_RequestHash rc))" "map_of kvs ''kind'' = Some (JStr (rc_Kind rc))"
    "map_of kvs ''outcome'' = Some (JStr (rc_Outcome rc))"
    using rc by (auto simp: receipt_json_def)
  from this [THEN field [rotated]] show "ri_RequestHash r = rc_RequestHash rc" and "ri_Kind r = rc_Kind rc" and "ri_Outcome r = rc_Outcome rc"
    using texts by (simp_all add: get_identity_def identity_fields_def)
qed

lemma wire_read:
  assumes "jcs_codec cd" and "wire cd f = Inr data" and "Decode cd data = Some (e, c)"
  obtains r v where "c = data" "evt_BookID e = lf_BookID f" "evt_EventID e = lf_EventID f" "evt_OperationID e = lf_OperationID f"
    "Identity e = Some r" "ri_RequestHash r = rc_RequestHash (lf_Body f)" "ri_Kind r = rc_Kind (lf_Body f)"
    "ri_Outcome r = rc_Outcome (lf_Body f)" "evt_Receipt e = Some v" "jcs_same (receipt_json (lf_Body f)) v"
proof -
  obtain e0 where new: "New cd (lf_BookID f) (lf_EventID f) (lf_OperationID f) (receipt_json (lf_Body f)) = Some e0"
    and enc: "Encode cd e0 = Some data"
    using assms(2) by (auto simp: wire_def split: option.split_asm if_split_asm)
  have e0: "evt_BookID e0 = lf_BookID f" "evt_EventID e0 = lf_EventID f" "evt_OperationID e0 = lf_OperationID f"
    "evt_Receipt e0 = Some (receipt_json (lf_Body f))"
    using new by (auto simp: New_def Let_def bind_eq_Some_conv)
  obtain j e1 r where d: "cd_Transform cd data = Some (data, j)" "decode_event j = Some e1" "Identity e1 = Some r" "event_valid e1 r"
    "jcs_same (event_json e0) j" using Encode_decodes [OF assms(1) enc] .
  have e1: "e1 = e" "c = data" using assms(3) d by (auto simp: Decode_Some)
  note env = decoded_envelope [OF d(5,2,4)]
  have "envelope e ! 4 = envelope e0 ! 4" "envelope e ! 5 = envelope e0 ! 5" "envelope e ! 6 = envelope e0 ! 6" using env(1) e1 by simp_all
  then have ids: "evt_BookID e = lf_BookID f" "evt_EventID e = lf_EventID f" "evt_OperationID e = lf_OperationID f"
    using e0 by (simp_all add: envelope_def event_fields_def get_event_def)
  obtain v where v: "evt_Receipt e1 = Some v" "jcs_same (receipt_json (lf_Body f)) v" using env(2) e0(4) by auto
  from decoded_identity [OF v(2,1) d(3,4)] show thesis using that [OF e1(2) ids] d(3) v unfolding e1 by blast
qed

text \<open>A canonical text has one event.\<close>

lemma canonical_event:
  assumes "jcs_codec cd" and "Decode cd data1 = Some (e1, c)" and "Decode cd data2 = Some (e2, c)"
  shows "e1 = e2"
proof -
  obtain j1 where j1: "cd_Transform cd data1 = Some (c, j1)" "decode_event j1 = Some e1" using assms(2) by (auto simp: Decode_Some)
  obtain j2 where j2: "cd_Transform cd data2 = Some (c, j2)" "decode_event j2 = Some e2" using assms(3) by (auto simp: Decode_Some)
  have "cd_Transform cd c = Some (c, j1)" "cd_Transform cd c = Some (c, j2)" using assms(1) j1(1) j2(1) unfolding jcs_codec_def by blast+
  then show ?thesis using j1(2) j2(2) by simp
qed

section \<open>Properties\<close>

text \<open>
  C16. Delivery from end to end. Let \<open>T\<close> be the canonical texts in play, on which the digest does not collide: the wire
  forms of the facts, and the texts the inbox holds and other writers add, with their own projections. Then after a run of the
  worker against the inbox, under transport faults, lost replies, retries and concurrent writers, every event the run marked
  delivered is in the inbox of Reconciliation under its identity with the digest of its wire form, and the row of its
  operation has the event, the request hash, the kind and the outcome of the receipt in the fact, and this receipt.
\<close>

theorem delivered_is_ingested:
  assumes "jcs_codec cd" and "inj_on (digest E) T" and "projected E cd T ib"
    and "Publisher_Run fuel cd ended envs books opts (Some (inbox_send E cd config)) (db, ib) = Some (res, s)"
    and "\<And>k. inbox_regular (we_send (envs k))" and "\<And>k. inbox_guarded E cd T (we_send (envs k))"
    and "\<And>k j d. quiet d (at_others (we_attempts (envs k) j) d)" and "\<And>k d. quiet d (we_others (envs k) d)"
    and "\<And>f data. leased_from (fst (wk_world s)) f \<Longrightarrow> wire cd f = Inr data \<Longrightarrow> data \<in> T"
    and "delivered (fst (wk_world s)) (b, i)" and "\<not> delivered db (b, i)"
  shows "\<exists>x tok data p. map_of (db_facts (fst (wk_world s))) (b, i) = Some x
    \<and> wire cd \<lparr>lf_BookID = b, lf_EventID = i, lf_OperationID = far_operation x, lf_LeaseToken = tok, lf_Type = far_type x,
        lf_Body = far_body x\<rparr> = Inr data
    \<and> map_of (ib_inbox (snd (wk_world s))) (b, i) = Some (digest E data)
    \<and> map_of (ib_operations (snd (wk_world s))) (b, far_operation x) = Some p \<and> prj_event p = i
    \<and> prj_request_hash p = rc_RequestHash (far_body x) \<and> prj_kind p = rc_Kind (far_body x) \<and> prj_outcome p = rc_Outcome (far_body x)
    \<and> jcs_same (receipt_json (far_body x)) (prj_receipt p)"
proof -
  have "inbox_sink.orderly (envs k)" for k using assms(5,7,8) by (simp add: inbox_sink.orderly_def)
  from inbox_sink.Run_accounted [OF this assms(4)]
  obtain f data where f: "(b, i) = (lf_BookID f, lf_EventID f)" "leased_from (fst (wk_world s)) f" "wire cd f = Inr data"
    "in_inbox E cd (snd (wk_world s)) data"
    using assms(10,11) unfolding inbox_sink.accounted_def by blast
  obtain x where x: "map_of (db_facts (fst (wk_world s))) (b, i) = Some x" "lf_OperationID f = far_operation x" "lf_Type f = far_type x"
    "lf_Body f = far_body x" using f(1,2) by (auto simp: leased_from_def)
  obtain e c where e: "Decode cd data = Some (e, c)" "ingested (snd (wk_world s)) e (digest E c)" using f(4) by (auto simp: in_inbox_def)
  obtain r v where r: "c = data" "evt_BookID e = b" "evt_EventID e = i" "evt_OperationID e = far_operation x" "Identity e = Some r"
    "ri_RequestHash r = rc_RequestHash (far_body x)" "ri_Kind r = rc_Kind (far_body x)" "ri_Outcome r = rc_Outcome (far_body x)"
    "evt_Receipt e = Some v" "jcs_same (receipt_json (far_body x)) v"
    using wire_read [OF assms(1) f(3) e(1)] f(1) x by (metis prod.inject)
  have known: "\<forall>e c. Decode cd data = Some (e, c) \<longrightarrow> c \<in> T" if "leased_from (fst (wk_world s)) f" "wire cd f = Inr data" for f data
    using wire_read [OF assms(1) that(2)] assms(9) [OF that] by metis
  have "sound_inbox.orderly E cd T (envs k)" for k using assms(5-8) by (simp add: sound_inbox.orderly_def)
  from sound_inbox.Run_sound [OF this assms(4) known assms(3)] have "projected E cd T (snd (wk_world s))" .
  moreover have row: "map_of (ib_inbox (snd (wk_world s))) (b, i) = Some (digest E data)" using e(2) r(1-3) by (simp add: ingested_def)
  ultimately obtain data1 e1 c1 r1 p where p: "Decode cd data1 = Some (e1, c1)" "c1 \<in> T" "digest E data = digest E c1" "Identity e1 = Some r1"
    "map_of (ib_operations (snd (wk_world s))) (b, evt_OperationID e1) = Some p" "projects e1 r1 p" by (rule projected_row) blast
  have "c1 = c" using inj_onD [OF assms(2) p(3) assms(9) [OF f(2,3)] p(2)] r(1) by simp
  then have "e1 = e" using canonical_event [OF assms(1)] p(1) e(1) by blast
  then have "map_of (ib_operations (snd (wk_world s))) (b, far_operation x) = Some p" "projects e r p" using p(4-6) r(4,5) by simp_all
  moreover have "wire cd \<lparr>lf_BookID = b, lf_EventID = i, lf_OperationID = far_operation x, lf_LeaseToken = lf_LeaseToken f,
      lf_Type = far_type x, lf_Body = far_body x\<rparr> = Inr data" using f(1,3) x by (cases f) simp
  ultimately show ?thesis using x(1) row r by (fastforce simp: projects_def)
qed

text \<open>
  C38. The worker ends when its context does: if the context is done from its \<open>K\<close>-th check on, the loop returns
  within \<open>K + 1\<close> rounds over the books, whatever the database and the consumer do, and the only error it returns is for
  options out of range, no books or no consumer.
\<close>

theorem worker_stops:
  assumes "\<And>k. K \<le> k \<Longrightarrow> ended k"
  shows "\<exists>res s. Publisher_Run (Suc K) cd ended envs books opts send w = Some (res, s) \<and>
    (res = Inr () \<longleftrightarrow> books \<noteq> [] \<and> send \<noteq> None \<and> is_ok (Options_Defaults opts)) \<and> (res \<noteq> Inr () \<longrightarrow> res = Inl ErrInvalid \<and> wk_world s = w)"
proof (cases "\<exists>o2 f. Options_Defaults opts = Inr o2 \<and> send = Some f \<and> books \<noteq> []")
  case True
  then obtain o2 f where o2: "Options_Defaults opts = Inr o2" "send = Some f" "books \<noteq> []" by blast
  obtain s where "rounds (Suc K) cd o2 f ended envs books \<lparr>wk_world = w, wk_checks = 0, wk_failed = []\<rparr> = Some s"
    using rounds_end [of K ended "Suc K", OF assms] by fastforce
  then show ?thesis using o2 by (simp add: Publisher_Run_def is_ok_def del: rounds.simps)
next
  case False
  then show ?thesis
    by (cases "Options_Defaults opts"; cases send) (auto simp: Publisher_Run_def Let_def is_ok_def)
qed

text \<open>
  C40. The options the worker runs with are in bounds: the lease it asks for is between a second and a
  minute in nanoseconds, without overflow, so the outbox never refuses it, and it is at least twice the time a delivery may take.
\<close>

theorem worker_options_bounds:
  assumes "Options_Defaults opts = Inr o2"
  shows "sint (opt_LeaseMS o2 * Millisecond) = sint (opt_LeaseMS o2) * 1000000
    \<and> sint Second \<le> sint (opt_LeaseMS o2 * Millisecond) \<and> sint (opt_LeaseMS o2 * Millisecond) \<le> sint Minute
    \<and> 2 * sint (opt_TimeoutMS o2) \<le> sint (opt_LeaseMS o2) \<and> 50 \<le> sint (opt_PollMS o2) \<and> sint (opt_PollMS o2) \<le> 5000
    \<and> 100 \<le> sint (opt_TimeoutMS o2) \<and> sint (opt_TimeoutMS o2) \<le> 5000"
proof -
  have b: "50 \<le> sint (opt_PollMS o2)" "sint (opt_PollMS o2) \<le> 5000" "100 \<le> sint (opt_TimeoutMS o2)" "sint (opt_TimeoutMS o2) \<le> 5000"
    "1000 \<le> sint (opt_LeaseMS o2)" "sint (opt_LeaseMS o2) \<le> 60000" "sint (2 * opt_TimeoutMS o2) \<le> sint (opt_LeaseMS o2)"
    using assms unfolding Options_Defaults_def Let_def by (auto simp only: not_less not_le de_Morgan_disj split: if_split_asm)
  have m: "sint (a * c) = sint a * sint c" if "- (2 ^ 63) \<le> sint a * sint c" "sint a * sint c < 2 ^ 63" for a c :: int64
    using sint64_of_int [OF that] by simp
  have k: "sint Millisecond = 1000000" "sint (2 :: int64) = 2" "sint Second = 1000000000" "sint Minute = 60000000000"
    by (simp_all add: Millisecond_def Second_def Minute_def)
  have "sint (opt_LeaseMS o2 * Millisecond) = sint (opt_LeaseMS o2) * 1000000" using m [of "opt_LeaseMS o2" Millisecond] b(5,6) k by simp
  moreover have "sint (2 * opt_TimeoutMS o2) = 2 * sint (opt_TimeoutMS o2)" using m [of 2 "opt_TimeoutMS o2"] b(3,4) k by simp
  ultimately show ?thesis using b k by simp
qed

theorem worker_options_bounds_witness:
  "sint (opt_LeaseMS \<lparr>opt_PollMS = 250, opt_LeaseMS = 30000, opt_TimeoutMS = 3000\<rparr> * Millisecond) = 30000 * 1000000"
proof -
  have "Options_Defaults \<lparr>opt_PollMS = 0, opt_LeaseMS = 0, opt_TimeoutMS = 0\<rparr> =
      Inr \<lparr>opt_PollMS = 250, opt_LeaseMS = 30000, opt_TimeoutMS = 3000\<rparr>" by (simp add: Options_Defaults_def)
  from worker_options_bounds [OF this] show ?thesis by simp
qed

section \<open>A concrete delivery\<close>

definition x_body :: receipt where
  "x_body = zero_receipt\<lparr>rc_SchemaVersion := ''1'', rc_BookID := x_uuid (CHR ''a''), rc_OperationID := x_uuid (CHR ''c''),
     rc_Kind := ''TRANSFER_INTERNAL'', rc_RequestHash := replicate 64 (CHR ''0''), rc_Outcome := ''APPLIED'',
     rc_RecordedAt := \<lparr>t_ns = 63902919845500000000, t_offset = 0\<rparr>, rc_EventID := x_uuid (CHR ''b'')\<rparr>"

definition x_fact_event :: event where
  "x_fact_event = x_envelope\<lparr>evt_Receipt := Some (receipt_json x_body)\<rparr>"

definition x_fact_codec :: codec where "x_fact_codec = one_text (event_json x_fact_event) ''wire''"

definition x_outbox :: db where
  "x_outbox = empty_db\<lparr>db_facts := [((x_uuid (CHR ''a''), x_uuid (CHR ''b'')),
       \<lparr>far_operation = x_uuid (CHR ''c''), far_type = ''LedgerOperationResolved'', far_body = x_body\<rparr>)],
     db_delivery := [((x_uuid (CHR ''a''), x_uuid (CHR ''b'')), new_delivery)]\<rparr>"

definition x_sink :: sink_env where
  "x_sink = \<lparr>se_link = x_link, se_ready = True, se_attempts = x_inbox_attempts\<rparr>"

definition x_worker_env :: "sink_env worker_env" where
  "x_worker_env = \<lparr>we_attempts = x_attempts, we_token = replicate 16 3, we_send = x_sink, we_others = id,
     we_ack = \<lparr>xe_clock = x_time 2001, xe_fault = None\<rparr>, we_alive = True\<rparr>"

lemma x_times: "Time_Format \<lparr>t_ns = 63902919845500000000, t_offset = 0\<rparr> = ''2026-01-02T03:04:05.5Z''" by code_simp

definition x_body_json :: json where
  "x_body_json = JObj
  [(''caller_identity'', JStr []), (''schema_version'', JStr ''1''), (''book_id'', JStr (x_uuid (CHR ''a''))),
   (''operation_id'', JStr (x_uuid (CHR ''c''))), (''kind'', JStr ''TRANSFER_INTERNAL''), (''request_hash'', JStr (replicate 64 (CHR ''0''))),
   (''outcome'', JStr ''APPLIED''), (''reason'', JStr []), (''payment_id'', JStr []), (''subject_ids'', JArr []), (''journal_id'', JStr []),
   (''hold_id'', JStr []), (''hold_version'', JStr (format_int 0)), (''control_versions'', JObj []), (''account_versions'', JObj []),
   (''policy_id'', JStr []), (''evidence_id'', JStr []), (''limit_change'', JNull), (''recorded_at'', JStr ''2026-01-02T03:04:05.5Z''),
   (''event_id'', JStr (x_uuid (CHR ''b'')))]"

lemma x_body_read: "receipt_json x_body = x_body_json"
  by (simp add: receipt_json_def x_body_def zero_receipt_def x_times versions_json_def option_json_def x_body_json_def)

lemma x_fact_read:
  "Identity x_fact_event = Some x_identity" "decode_event (event_json x_fact_event) = Some x_fact_event"
proof -
  have other: "field_for identity_fields ''caller_identity'' = None" "field_for identity_fields ''reason'' = None"
    "field_for identity_fields ''payment_id'' = None" "field_for identity_fields ''subject_ids'' = None"
    "field_for identity_fields ''journal_id'' = None" "field_for identity_fields ''hold_id'' = None"
    "field_for identity_fields ''hold_version'' = None" "field_for identity_fields ''control_versions'' = None"
    "field_for identity_fields ''account_versions'' = None" "field_for identity_fields ''policy_id'' = None"
    "field_for identity_fields ''evidence_id'' = None" "field_for identity_fields ''limit_change'' = None"
    using receipt_names(3) [OF x_body_read [unfolded x_body_json_def]] by (simp_all add: identity_fields_def)
  show "Identity x_fact_event = Some x_identity"
    unfolding x_fact_event_def x_body_read x_body_json_def
    by (simp add: Identity_def other field_for_exact identity_fields_def [THEN arg_cong [where f = set]] string_member_def set_identity_def
        zero_identity_def x_identity_def)
  show "decode_event (event_json x_fact_event) = Some x_fact_event"
    unfolding x_fact_event_def x_body_read x_envelope_def
    by (simp add: event_json_def decode_event_def field_for_exact event_fields_def [THEN arg_cong [where f = set]] string_member_def
        set_event_def zero_event_def)
qed

lemma x_fact_decode: "Decode x_fact_codec ''wire'' = Some (x_fact_event, ''wire'')"
proof -
  have "event_valid x_fact_event x_identity" using x_envelope_valid by (simp add: event_valid_def x_fact_event_def)
  then show ?thesis unfolding Decode_Some using x_fact_read by (simp add: x_fact_codec_def one_text_def MaxBytes_def)
qed

lemma x_wire:
  "wire x_fact_codec \<lparr>lf_BookID = x_uuid (CHR ''a''), lf_EventID = x_uuid (CHR ''b''), lf_OperationID = x_uuid (CHR ''c''),
     lf_LeaseToken = tok, lf_Type = ''LedgerOperationResolved'', lf_Body = x_body\<rparr> = Inr ''wire''"
proof -
  have e: "x_fact_event = \<lparr>evt_Version = ''1'', evt_Producer = ''ledger'', evt_Type = ''LedgerOperationResolved'', evt_Country = ''KE'',
     evt_BookID = x_uuid (CHR ''a''), evt_EventID = x_uuid (CHR ''b''), evt_OperationID = x_uuid (CHR ''c''),
     evt_OccurredAt = ''2026-01-02T03:04:05.5Z'', evt_Receipt = Some (receipt_json x_body)\<rparr>"
    by (simp add: x_fact_event_def x_envelope_def)
  have enc: "Encode x_fact_codec x_fact_event = Some ''wire''"
    using x_fact_decode by (simp add: Encode_def x_fact_codec_def one_text_def)
  have "Identity (x_fact_event\<lparr>evt_OccurredAt := []\<rparr>) = Some x_identity" using x_fact_read(1) by (simp add: Identity_def)
  then have "New x_fact_codec (x_uuid (CHR ''a'')) (x_uuid (CHR ''b'')) (x_uuid (CHR ''c'')) (receipt_json x_body) = Some x_fact_event"
    using enc unfolding New_def Let_def e by (simp add: x_identity_def)
  then show ?thesis using enc by (simp add: wire_def)
qed

definition x_options :: options where "x_options = \<lparr>opt_PollMS = 250, opt_LeaseMS = 30000, opt_TimeoutMS = 3000\<rparr>"

definition x_lease :: leased_fact where
  "x_lease = \<lparr>lf_BookID = x_uuid (CHR ''a''), lf_EventID = x_uuid (CHR ''b''), lf_OperationID = x_uuid (CHR ''c''),
     lf_LeaseToken = NewID (replicate 16 3), lf_Type = ''LedgerOperationResolved'', lf_Body = x_body\<rparr>"

lemma x_ids: "ID_Valid (x_uuid (CHR ''a''))" "ID_Valid (x_uuid (CHR ''b''))" "ID_Valid (NewID (replicate 16 3))"
  by code_simp+

lemma x_leased:
  "ClaimOutbox x_attempts (replicate 16 3) (x_uuid (CHR ''a'')) 1 (opt_LeaseMS x_options * Millisecond) x_outbox =
     (Inr [x_lease], x_outbox\<lparr>db_delivery := [((x_uuid (CHR ''a''), x_uuid (CHR ''b'')), new_delivery\<lparr>der_lease_token := Some (NewID (replicate 16 3)),
        der_lease_until := Some (lease_end (x_time 2000) 30000000000), der_attempts := 1\<rparr>)]\<rparr>)"
proof -
  have ms: "opt_LeaseMS x_options * Millisecond = 30000000000" by (simp add: x_options_def Millisecond_def)
  have "claim_tx (x_uuid (CHR ''a'')) (NewID (replicate 16 3)) 1 30000000000 (x_time 2000) x_outbox =
     Inr ([x_lease], x_outbox\<lparr>db_delivery := [((x_uuid (CHR ''a''), x_uuid (CHR ''b'')), new_delivery\<lparr>der_lease_token := Some (NewID (replicate 16 3)),
        der_lease_until := Some (lease_end (x_time 2000) 30000000000), der_attempts := 1\<rparr>)]\<rparr>)"
    by (simp add: claim_tx_def claim_ids_def claimable_def x_outbox_def new_delivery_def update_row_def x_lease_def)
  then show ?thesis unfolding ms
    using x_ids by (simp add: ClaimOutbox_def Transact_def retries_def numeral_eq_Suc x_attempts_def Second_def Minute_def)
qed

lemma x_sent: "\<exists>ib. inbox_send x_env x_fact_codec x_event_config x_sink ''wire'' x_inbox = (Inr (), ib)"
proof -
  have ids: "evt_BookID x_fact_event = x_uuid (CHR ''a'')" "evt_EventID x_fact_event = x_uuid (CHR ''b'')"
    "evt_OperationID x_fact_event = x_uuid (CHR ''c'')" by (simp_all add: x_fact_event_def x_envelope_def)
  have ri: "ri_RequestHash x_identity = replicate 64 (CHR ''0'')" "ri_Outcome x_identity = ''APPLIED''"
    "ri_RecordedAt x_identity = ''2026-01-02T03:04:05.5Z''" by (simp_all add: x_identity_def)
  obtain t where t: "Time_Parse ''2026-01-02T03:04:05.5Z'' = Some t"
    using x_envelope_parts(1) by (auto simp: bind_eq_Some_conv)
  have h: "length (digest x_env ''wire'') = 64" by (simp add: digest_def x_env_def)
  obtain ib where ib: "persist x_env x_fact_event (digest x_env ''wire'') x_inbox = Inr ib"
    using h t by (auto simp: persist_def Let_def ids ri x_fact_read(1) insert_row_def x_inbox_def projection_checks_def split: option.split)
  have "Accept x_env x_fact_codec x_inbox_attempts ''wire'' x_inbox = (Inr (), ib)"
    by (simp add: Accept_def x_fact_decode acceptOnce_def x_inbox_attempts_def ib numeral_eq_Suc)
  then show ?thesis
    by (simp add: inbox_send_def Send_def x_sink_def eventHandler_def x_link_def x_event_config_def Peer_def EventPath_def MaxBytes_def
        x_fact_decode ids)
qed

lemma x_published:
  "\<exists>d ib. publish_once x_fact_codec x_options (inbox_send x_env x_fact_codec x_event_config) x_worker_env (x_uuid (CHR ''a'')) (x_outbox, x_inbox) =
     (Sent, d, ib) \<and> delivered d (x_uuid (CHR ''a''), x_uuid (CHR ''b'')) \<and> db_facts d = db_facts x_outbox"
proof -
  obtain ib where ib: "inbox_send x_env x_fact_codec x_event_config x_sink ''wire'' x_inbox = (Inr (), ib)" using x_sent by blast
  let ?k = "(x_uuid (CHR ''a''), x_uuid (CHR ''b''))"
  let ?r = "new_delivery\<lparr>der_lease_token := Some (NewID (replicate 16 3)), der_lease_until := Some (lease_end (x_time 2000) 30000000000),
     der_attempts := 1\<rparr>"
  let ?d = "x_outbox\<lparr>db_delivery := [(?k, ?r)]\<rparr>"
  have row: "ack_row (x_time 2001) (NewID (replicate 16 3)) ?r" by (simp add: ack_row_def lease_end_def x_time_def)
  have ack: "AcknowledgeOutbox \<lparr>xe_clock = x_time 2001, xe_fault = None\<rparr> x_lease ?d =
      (Inr (), ?d\<lparr>db_delivery := [(?k, ?r\<lparr>der_delivered := True\<rparr>)]\<rparr>)"
    using x_ids row by (simp add: AcknowledgeOutbox_def x_lease_def ack_update_def)
  have "publish_once x_fact_codec x_options (inbox_send x_env x_fact_codec x_event_config) x_worker_env (x_uuid (CHR ''a'')) (x_outbox, x_inbox) =
     (Sent, ?d\<lparr>db_delivery := [(?k, ?r\<lparr>der_delivered := True\<rparr>)]\<rparr>, ib)"
    using x_wire ib ack by (simp add: publish_once_def x_worker_env_def x_leased x_lease_def)
  then show ?thesis by (auto simp: delivered_def)
qed

text \<open>One publication, after which the context ends.\<close>

theorem delivered_is_ingested_witness:
  "\<exists>res s p. Publisher_Run 1 x_fact_codec (\<lambda>k. 1 \<le> k) (\<lambda>k. x_worker_env) [x_uuid (CHR ''a'')]
      \<lparr>opt_PollMS = 0, opt_LeaseMS = 0, opt_TimeoutMS = 0\<rparr> (Some (inbox_send x_env x_fact_codec x_event_config)) (x_outbox, x_inbox) = Some (res, s)
    \<and> map_of (ib_operations (snd (wk_world s))) (x_uuid (CHR ''a''), x_uuid (CHR ''c'')) = Some p \<and> prj_event p = x_uuid (CHR ''b'')
    \<and> prj_request_hash p = replicate 64 (CHR ''0'') \<and> prj_kind p = ''TRANSFER_INTERNAL'' \<and> prj_outcome p = ''APPLIED''"
proof -
  obtain d ib where once: "publish_once x_fact_codec x_options (inbox_send x_env x_fact_codec x_event_config) x_worker_env
      (x_uuid (CHR ''a'')) (x_outbox, x_inbox) = (Sent, d, ib)" and del: "delivered d (x_uuid (CHR ''a''), x_uuid (CHR ''b''))"
    and facts: "db_facts d = db_facts x_outbox"
    using x_published by blast
  have "Options_Defaults \<lparr>opt_PollMS = 0, opt_LeaseMS = 0, opt_TimeoutMS = 0\<rparr> = Inr x_options"
    by (simp add: Options_Defaults_def x_options_def)
  then have run: "Publisher_Run 1 x_fact_codec (\<lambda>k. 1 \<le> k) (\<lambda>k. x_worker_env) [x_uuid (CHR ''a'')]
      \<lparr>opt_PollMS = 0, opt_LeaseMS = 0, opt_TimeoutMS = 0\<rparr> (Some (inbox_send x_env x_fact_codec x_event_config)) (x_outbox, x_inbox) =
      Some (Inr (), \<lparr>wk_world = (d, ib), wk_checks = 2, wk_failed = []\<rparr>)"
    using once by (simp add: Publisher_Run_def burst_limit_def numeral_eq_Suc)
  have jcs: "jcs_codec x_fact_codec" by (simp add: x_fact_codec_def one_text_jcs)
  have inbox: "inj_on (digest x_env) {''wire''}" "projected x_env x_fact_codec {''wire''} x_inbox" by (simp_all add: projected_def x_inbox_def)
  have env: "inbox_regular (we_send x_worker_env)" "inbox_guarded x_env x_fact_codec {''wire''} (we_send x_worker_env)"
    "quiet a (at_others (we_attempts x_worker_env j) a)" "quiet a (we_others x_worker_env a)" for j a
    by (simp_all add: x_worker_env_def x_sink_def inbox_regular_def inbox_guarded_def x_inbox_attempts_def x_attempts_def)
  have texts: "data = ''wire''" if "wire x_fact_codec f = Inr data" for f data
    using that by (auto simp: wire_def Encode_def Decode_def bind_eq_Some_conv x_fact_codec_def one_text_def split: option.split_asm if_split_asm)
  have fresh: "\<not> delivered x_outbox (x_uuid (CHR ''a''), x_uuid (CHR ''b''))" by (simp add: delivered_def x_outbox_def new_delivery_def)
  have fact: "map_of (db_facts d) (x_uuid (CHR ''a''), x_uuid (CHR ''b'')) =
      Some \<lparr>far_operation = x_uuid (CHR ''c''), far_type = ''LedgerOperationResolved'', far_body = x_body\<rparr>"
    by (simp add: facts x_outbox_def)
  have body: "rc_RequestHash x_body = replicate 64 (CHR ''0'')" "rc_Kind x_body = ''TRANSFER_INTERNAL''" "rc_Outcome x_body = ''APPLIED''"
    by (simp_all add: x_body_def)
  from delivered_is_ingested [OF jcs inbox run env _ _ fresh] texts del run fact body show ?thesis by auto
qed

theorem worker_stops_witness:
  "\<exists>s. Publisher_Run 4 x_codec (\<lambda>k. 3 \<le> k) (\<lambda>k. x_worker_env) [''book''] \<lparr>opt_PollMS = 0, opt_LeaseMS = 0, opt_TimeoutMS = 0\<rparr>
     (Some (inbox_send x_env x_codec x_event_config)) (x_outbox, x_inbox) = Some (Inr (), s)"
proof -
  have "is_ok (Options_Defaults \<lparr>opt_PollMS = 0, opt_LeaseMS = 0, opt_TimeoutMS = 0\<rparr>)" by (simp add: Options_Defaults_def is_ok_def)
  then show ?thesis
    using worker_stops [of 3 "\<lambda>k. 3 \<le> k" x_codec "\<lambda>k. x_worker_env" "[''book'']" "\<lparr>opt_PollMS = 0, opt_LeaseMS = 0, opt_TimeoutMS = 0\<rparr>"
        "Some (inbox_send x_env x_codec x_event_config)" "(x_outbox, x_inbox)"] by (auto simp: numeral_eq_Suc)
qed

end
