(* ===== verification/Json_Text.thy ===== *)
theory Json_Text
  imports Event "HOL-Library.AList"
begin

text \<open>
  Reading JSON text as \<open>encoding/json\<close> does with \<open>UseNumber\<close>: the first value of a text and what follows it.
  Strings are unquoted with the replacement character for invalid UTF-8 and lone surrogates; an object is the list of its
  members as written, and \<open>any_value\<close> keeps the last of each name as decoding to a Go map does.
\<close>

section \<open>Strings\<close>

text \<open>UTF-8, as \<open>utf8.EncodeRune\<close> and \<open>utf8.DecodeRune\<close> have it.\<close>

definition code_of :: "char \<Rightarrow> nat" where "code_of c = of_char c"

definition utf8 :: "nat \<Rightarrow> string" where
  "utf8 n = map char_of
     (if n < 128 then [n]
      else if n < 2048 then [192 + n div 64, 128 + n mod 64]
      else if n < 65536 then [224 + n div 4096, 128 + n div 64 mod 64, 128 + n mod 64]
      else [240 + n div 262144, 128 + n div 4096 mod 64, 128 + n div 64 mod 64, 128 + n mod 64])"

definition replacement :: string where "replacement = utf8 65533"

definition continuation :: "char \<Rightarrow> bool" where
  "continuation c = (128 \<le> code_of c \<and> code_of c < 192)"

text \<open>How many bytes the character at the front takes; none for invalid UTF-8.\<close>

definition rune_length :: "string \<Rightarrow> nat" where
  "rune_length s =
     (case s of
        [] \<Rightarrow> 0
      | c # r \<Rightarrow>
          let a = code_of c; b = (case r of [] \<Rightarrow> 0 | x # _ \<Rightarrow> code_of x)
          in if a < 128 then 1
             else if 194 \<le> a \<and> a < 224 \<and> length r \<ge> 1 \<and> list_all continuation (take 1 r) then 2
             else if 224 \<le> a \<and> a < 240 \<and> length r \<ge> 2 \<and> list_all continuation (take 2 r)
                  \<and> (a = 224 \<longrightarrow> 160 \<le> b) \<and> (a = 237 \<longrightarrow> b < 160) then 3
             else if 240 \<le> a \<and> a < 245 \<and> length r \<ge> 3 \<and> list_all continuation (take 3 r)
                  \<and> (a = 240 \<longrightarrow> 144 \<le> b) \<and> (a = 244 \<longrightarrow> b < 144) then 4
             else 0)"

definition hex4 :: "string \<Rightarrow> nat option" where
  "hex4 s = (if length s < 4 then None else
     foldl (\<lambda>acc c. Option.bind acc (\<lambda>n. Option.bind (hex_val c) (\<lambda>d. Some (n * 16 + d)))) (Some 0) (take 4 s))"

definition surrogate :: "nat \<Rightarrow> bool" where "surrogate n = (55296 \<le> n \<and> n < 57344)"

text \<open>The character of a \<open>\u\<close> escape whose digits stand at the front, and the rest.\<close>

definition unicode_escape :: "string \<Rightarrow> (string \<times> string) option" where
  "unicode_escape s =
     (case hex4 s of
        None \<Rightarrow> None
      | Some n \<Rightarrow>
          let r = drop 4 s
          in if \<not> surrogate n then Some (utf8 n, r)
             else case (if take 2 r = [CHR 0x5C, CHR ''u''] then hex4 (drop 2 r) else None) of
               None \<Rightarrow> Some (replacement, r)
             | Some m \<Rightarrow>
                 if n < 56320 \<and> 56320 \<le> m \<and> m < 57344
                 then Some (utf8 ((n - 55296) * 1024 + (m - 56320) + 65536), drop 6 r)
                 else Some (replacement, r))"

text \<open>The text up to the closing quote.\<close>

fun read_string :: "nat \<Rightarrow> string \<Rightarrow> (string \<times> string) option" where
  "read_string 0 s = None"
| "read_string (Suc n) s =
     (case s of
        [] \<Rightarrow> None
      | c # r \<Rightarrow>
          if c = CHR 0x22 then Some ([], r)
          else if code_of c < 32 then None
          else
            let (part, rest) =
              (if c \<noteq> CHR 0x5C then
                 (let k = rune_length s in if k = 0 then (Some replacement, r) else (Some (take k s), drop k s))
               else case r of
                   [] \<Rightarrow> (None, [])
                 | e # r' \<Rightarrow>
                     if e = CHR ''u'' then (case unicode_escape r' of None \<Rightarrow> (None, []) | Some (x, r'') \<Rightarrow> (Some x, r''))
                     else if e \<in> {CHR 0x22, CHR 0x5C, CHR ''/''} then (Some [e], r')
                     else if e = CHR ''b'' then (Some [CHR 0x08], r') else if e = CHR ''f'' then (Some [CHR 0x0C], r')
                     else if e = CHR ''n'' then (Some [CHR 0x0A], r') else if e = CHR ''r'' then (Some [CHR 0x0D], r')
                     else if e = CHR ''t'' then (Some [CHR 0x09], r')
                     else (None, []))
            in Option.bind part (\<lambda>p. map_option (\<lambda>(q, rest'). (p @ q, rest')) (read_string n rest)))"

section \<open>Numbers and literals\<close>

definition digits_span :: "string \<Rightarrow> (string \<times> string) option" where
  "digits_span s = (let d = takeWhile is_digit s in if d = [] then None else Some (d, dropWhile is_digit s))"

definition read_int :: "string \<Rightarrow> (string \<times> string) option" where
  "read_int s = (case s of [] \<Rightarrow> None | c # r \<Rightarrow> if c = CHR ''0'' then Some (''0'', r) else digits_span s)"

definition number_fraction :: "string \<Rightarrow> (string \<times> string) option" where
  "number_fraction s =
     (case s of c # r \<Rightarrow> if c = CHR ''.'' then map_option (\<lambda>(d, r'). (c # d, r')) (digits_span r) else Some ([], s) | [] \<Rightarrow> Some ([], s))"

definition read_exponent :: "string \<Rightarrow> (string \<times> string) option" where
  "read_exponent s =
     (case s of
        [] \<Rightarrow> Some ([], s)
      | c # r \<Rightarrow>
          if c = CHR ''e'' \<or> c = CHR ''E'' then
            (case r of
               x # r' \<Rightarrow> if x = CHR ''+'' \<or> x = CHR ''-'' then map_option (\<lambda>(d, t). (c # x # d, t)) (digits_span r')
                         else map_option (\<lambda>(d, t). (c # d, t)) (digits_span r)
             | [] \<Rightarrow> None)
          else Some ([], s))"

definition read_number :: "string \<Rightarrow> (string \<times> string) option" where
  "read_number s =
     (let (sign, s) = (case s of c # r \<Rightarrow> if c = CHR ''-'' then ([c], r) else ([], s) | [] \<Rightarrow> ([], s))
      in Option.bind (read_int s) (\<lambda>(i, s). Option.bind (number_fraction s) (\<lambda>(f, s).
         map_option (\<lambda>(e, s). (sign @ i @ f @ e, s)) (read_exponent s))))"

section \<open>Values\<close>

definition skip :: "string \<Rightarrow> string" where
  "skip = dropWhile (\<lambda>c. c \<in> {CHR '' '', CHR 0x09, CHR 0x0A, CHR 0x0D})"

definition expect_word :: "string \<Rightarrow> json \<Rightarrow> string \<Rightarrow> (json \<times> string) option" where
  "expect_word w v s = (if take (length w) s = w then Some (v, drop (length w) s) else None)"

text \<open>The first argument bounds the steps by the length of the text, the second is the nesting that is left.\<close>

fun read_value :: "nat \<Rightarrow> nat \<Rightarrow> string \<Rightarrow> (json \<times> string) option"
and read_members :: "nat \<Rightarrow> nat \<Rightarrow> string \<Rightarrow> ((string \<times> json) list \<times> string) option"
and read_elements :: "nat \<Rightarrow> nat \<Rightarrow> string \<Rightarrow> (json list \<times> string) option" where
  "read_value 0 d s = None"
| "read_value (Suc n) d s =
     (case skip s of
        [] \<Rightarrow> None
      | c # r \<Rightarrow>
          if c = CHR ''{'' then
            (if d = 0 then None
             else if take 1 (skip r) = ''}'' then Some (JObj [], drop 1 (skip r))
             else map_option (\<lambda>(kvs, t). (JObj kvs, t)) (read_members n (d - 1) r))
          else if c = CHR ''['' then
            (if d = 0 then None
             else if take 1 (skip r) = '']'' then Some (JArr [], drop 1 (skip r))
             else map_option (\<lambda>(vs, t). (JArr vs, t)) (read_elements n (d - 1) r))
          else if c = CHR 0x22 then map_option (\<lambda>(x, t). (JStr x, t)) (read_string (length r) r)
          else if c = CHR ''t'' then expect_word ''rue'' (JBool True) r
          else if c = CHR ''f'' then expect_word ''alse'' (JBool False) r
          else if c = CHR ''n'' then expect_word ''ull'' JNull r
          else map_option (\<lambda>(x, t). (JNum x, t)) (read_number (c # r)))"
| "read_members 0 d s = None"
| "read_members (Suc n) d s =
     (case skip s of
        [] \<Rightarrow> None
      | c # r \<Rightarrow>
          if c \<noteq> CHR 0x22 then None
          else Option.bind (read_string (length r) r) (\<lambda>(k, t).
               case skip t of
                 [] \<Rightarrow> None
               | x # t' \<Rightarrow>
                   if x \<noteq> CHR '':'' then None
                   else Option.bind (read_value n d t') (\<lambda>(v, u).
                        case skip u of
                          [] \<Rightarrow> None
                        | y # u' \<Rightarrow>
                            if y = CHR '','' then map_option (\<lambda>(kvs, z). ((k, v) # kvs, z)) (read_members n d u')
                            else if y = CHR ''}'' then Some ([(k, v)], u')
                            else None)))"
| "read_elements 0 d s = None"
| "read_elements (Suc n) d s =
     Option.bind (read_value n d s) (\<lambda>(v, u).
       case skip u of
         [] \<Rightarrow> None
       | y # u' \<Rightarrow>
           if y = CHR '','' then map_option (\<lambda>(vs, z). (v # vs, z)) (read_elements n d u')
           else if y = CHR '']'' then Some ([v], u')
           else None)"

definition json_read :: "string \<Rightarrow> (json \<times> string) option" where
  "json_read s = read_value (Suc (length s)) 10000 s"

fun any_value :: "json \<Rightarrow> json" where
  "any_value (JObj kvs) = JObj (foldl (\<lambda>m (k, v). AList.update k v m) [] (map (\<lambda>(k, v). (k, any_value v)) kvs))"
| "any_value (JArr vs) = JArr (map any_value vs)"
| "any_value v = v"

end
