(* ===== verification/Snapshot_Data.thy ===== *)
theory Snapshot_Data
  imports Json_Text
begin

text \<open>
  The data of \<open>reconciliation/internal/verify/snapshot.go\<close>: the decoded snapshot and the accessors the checks use.
  A Go map is an association list with distinct keys; a \<open>Row\<close> may be the nil map. Marshalling followed by canonicalisation
  is a parameter, with an empty text for a failure.
\<close>

section \<open>Snapshots\<close>

type_synonym row = "(string \<times> json) list option"

record snapshot =
  sn_SchemaVersion :: string
  sn_Cut :: string
  sn_BookID :: string
  sn_Tables :: "(string \<times> row list option) list"
  sn_Digests :: "(string \<times> string) list"
  sn_Counts :: "(string \<times> int) list"

record report =
  rep_BookID :: string
  rep_Cut :: string
  rep_Valid :: bool
  rep_Accounts :: nat
  rep_Journals :: nat
  rep_Operations :: nat
  rep_OutstandingHolds :: nat
  rep_Problems :: "string list"

text \<open>
  The components the verifier calls: canonical text of a value, canonical form of a text, SHA-256, the offset of Nairobi,
  and the order in which the \<open>n\<close>-th \<open>range\<close> statement visits the keys of a map.
\<close>

record verifier =
  vf_canonical :: "json \<Rightarrow> string"
  vf_Transform :: "string \<Rightarrow> string option"
  vf_sha256 :: "string \<Rightarrow> bytes"
  vf_zone :: "int \<Rightarrow> int"
  vf_range :: "nat \<Rightarrow> string list \<Rightarrow> string list"

section \<open>Decoding\<close>

definition zero_snapshot :: snapshot where
  "zero_snapshot = \<lparr>sn_SchemaVersion = [], sn_Cut = [], sn_BookID = [], sn_Tables = [], sn_Digests = [], sn_Counts = []\<rparr>"

text \<open>What \<open>encoding/json\<close> stores for a member of each Go type; \<open>None\<close> is a type error.\<close>

definition row_of :: "json \<Rightarrow> row option" where
  "row_of v = (case v of JNull \<Rightarrow> Some None | JObj _ \<Rightarrow> (case any_value v of JObj kvs \<Rightarrow> Some (Some kvs) | _ \<Rightarrow> None) | _ \<Rightarrow> None)"

definition rows_of :: "json \<Rightarrow> row list option option" where
  "rows_of v = (case v of JNull \<Rightarrow> Some None | JArr vs \<Rightarrow> map_option Some (those (map row_of vs)) | _ \<Rightarrow> None)"

definition text_of :: "json \<Rightarrow> string option" where
  "text_of v = (case v of JNull \<Rightarrow> Some [] | JStr s \<Rightarrow> Some s | _ \<Rightarrow> None)"

definition count_of :: "json \<Rightarrow> int option" where
  "count_of v = (case v of JNull \<Rightarrow> Some 0 | JNum n \<Rightarrow> map_option sint (parse_int64 n) | _ \<Rightarrow> None)"

text \<open>A JSON object decodes into a map entry by entry, over what the map held.\<close>

fun into_map :: "(json \<Rightarrow> 'a option) \<Rightarrow> (string \<times> json) list \<Rightarrow> (string \<times> 'a) list \<Rightarrow> (string \<times> 'a) list option" where
  "into_map f [] m = Some m"
| "into_map f ((k, v) # kvs) m = Option.bind (f v) (\<lambda>x. into_map f kvs (AList.update k x m))"

definition map_member :: "(json \<Rightarrow> 'a option) \<Rightarrow> json \<Rightarrow> (string \<times> 'a) list \<Rightarrow> (string \<times> 'a) list option" where
  "map_member f v m = (case v of JNull \<Rightarrow> Some [] | JObj kvs \<Rightarrow> into_map f kvs m | _ \<Rightarrow> None)"

definition snapshot_fields :: "string list" where
  "snapshot_fields = [''schema_version'', ''cut'', ''book_id'', ''tables'', ''digests'', ''counts'']"

definition set_snapshot :: "string \<Rightarrow> json \<Rightarrow> snapshot \<Rightarrow> snapshot option" where
  "set_snapshot n v s =
     (if n = ''schema_version'' then string_member (\<lambda>x s. s\<lparr>sn_SchemaVersion := x\<rparr>) v s
      else if n = ''cut'' then string_member (\<lambda>x s. s\<lparr>sn_Cut := x\<rparr>) v s
      else if n = ''book_id'' then string_member (\<lambda>x s. s\<lparr>sn_BookID := x\<rparr>) v s
      else if n = ''tables'' then map_option (\<lambda>m. s\<lparr>sn_Tables := m\<rparr>) (map_member rows_of v (sn_Tables s))
      else if n = ''digests'' then map_option (\<lambda>m. s\<lparr>sn_Digests := m\<rparr>) (map_member text_of v (sn_Digests s))
      else map_option (\<lambda>m. s\<lparr>sn_Counts := m\<rparr>) (map_member count_of v (sn_Counts s)))"

fun snapshot_members :: "(string \<times> json) list \<Rightarrow> snapshot \<Rightarrow> snapshot option" where
  "snapshot_members [] s = Some s"
| "snapshot_members ((k, v) # kvs) s =
     (case field_for snapshot_fields k of
        None \<Rightarrow> None
      | Some n \<Rightarrow> Option.bind (set_snapshot n v s) (snapshot_members kvs))"

definition export_limit :: nat where "export_limit = 16777216"

definition Decode_snapshot :: "string \<Rightarrow> snapshot option" where
  "Decode_snapshot data =
     (if length data > export_limit then None
      else Option.bind (json_read data) (\<lambda>(j, rest).
           Option.bind (case j of JObj kvs \<Rightarrow> snapshot_members kvs zero_snapshot | JNull \<Rightarrow> Some zero_snapshot | _ \<Rightarrow> None) (\<lambda>s.
             if skip rest \<noteq> [] then None else Some s)))"

section \<open>Cells\<close>

definition cell :: "row \<Rightarrow> string \<Rightarrow> json option" where
  "cell r key = (case r of None \<Rightarrow> None | Some kvs \<Rightarrow> map_of kvs key)"

definition str :: "row \<Rightarrow> string \<Rightarrow> string" where
  "str r key = (case cell r key of Some (JStr s) \<Rightarrow> s | _ \<Rightarrow> [])"

definition obj :: "json option \<Rightarrow> row" where
  "obj v = (case v of Some (JObj kvs) \<Rightarrow> Some kvs | _ \<Rightarrow> None)"

definition row_json :: "row \<Rightarrow> json" where
  "row_json r = (case r of None \<Rightarrow> JNull | Some kvs \<Rightarrow> JObj kvs)"

definition rows_json :: "row list option \<Rightarrow> json" where
  "rows_json t = (case t of None \<Rightarrow> JNull | Some rs \<Rightarrow> JArr (map row_json rs))"

definition table_of :: "snapshot \<Rightarrow> string \<Rightarrow> row list option" where
  "table_of s name = (case map_of (sn_Tables s) name of None \<Rightarrow> None | Some t \<Rightarrow> t)"

definition rows_in :: "snapshot \<Rightarrow> string \<Rightarrow> row list" where
  "rows_in s name = (case table_of s name of None \<Rightarrow> [] | Some rs \<Rightarrow> rs)"

definition digest_of :: "verifier \<Rightarrow> string \<Rightarrow> string" where
  "digest_of V b = hex_encode (vf_sha256 V b)"

definition equal_json :: "verifier \<Rightarrow> json \<Rightarrow> json \<Rightarrow> bool" where
  "equal_json V a b = (vf_canonical V a = vf_canonical V b)"

section \<open>Problems\<close>

text \<open>A check is the list of the problems it reports, with the value it returns separately; \<open>bad\<close> keeps the first hundred.\<close>

definition flag :: "bool \<Rightarrow> string \<Rightarrow> string list" where
  "flag b message = (if b then [message] else [])"

definition bad :: "string list \<Rightarrow> string \<Rightarrow> string list" where
  "bad problems message = (if length problems < 100 then problems @ [message] else problems)"

lemma flag_Nil [simp]: "flag b m = [] \<longleftrightarrow> \<not> b" by (simp add: flag_def)

lemma bad_first_hundred: "foldl bad ps ms = ps @ take (100 - length ps) ms" if "length ps \<le> 100"
  using that
proof (induction ms arbitrary: ps)
  case (Cons m ms)
  show ?case
  proof (cases "length ps < 100")
    case True
    then have "100 - length ps = Suc (100 - length (ps @ [m]))" by simp
    then show ?thesis using True Cons.IH [of "ps @ [m]"] by (simp add: bad_def)
  next
    case False
    then show ?thesis using Cons by (simp add: bad_def)
  qed
qed simp

section \<open>Values in texts\<close>

definition json_body :: "row \<Rightarrow> string \<Rightarrow> row" where
  "json_body r key = (case json_read (str r key) of Some (JObj kvs, _) \<Rightarrow> obj (Some (any_value (JObj kvs))) | _ \<Rightarrow> Some [])"

definition body_problems :: "row \<Rightarrow> string \<Rightarrow> string list" where
  "body_problems r key = flag (case json_read (str r key) of Some (JObj kvs, _) \<Rightarrow> False | _ \<Rightarrow> True) (''invalid JSON body in '' @ key)"

definition exact :: "string \<Rightarrow> nat \<Rightarrow> bool" where
  "exact value maxDigits = (canonical_dec value \<and> length value \<le> maxDigits)"

definition number :: "string \<Rightarrow> nat \<Rightarrow> int" where
  "number value maxDigits = (if exact value maxDigits then dec_ival value else 0)"

definition number_problems :: "string \<Rightarrow> nat \<Rightarrow> string list" where
  "number_problems value maxDigits = flag (\<not> exact value maxDigits) ''invalid exact integer''"

text \<open>\<open>ParseInt\<close> without its error: the nearest bound when out of range.\<close>

definition parsed :: "string \<Rightarrow> int" where
  "parsed s = (case parse_int s of None \<Rightarrow> 0 | Some n \<Rightarrow> max (- (2 ^ 63)) (min (2 ^ 63 - 1) n))"

definition integer :: "json option \<Rightarrow> int" where
  "integer v = (case v of Some (JStr s) \<Rightarrow> parsed s | Some (JNum s) \<Rightarrow> parsed s | _ \<Rightarrow> 0)"

text \<open>\<open>hex.DecodeString\<close>: what was decoded, and whether all was.\<close>

fun hex_string :: "string \<Rightarrow> string \<times> bool" where
  "hex_string [] = ([], True)"
| "hex_string [_] = ([], False)"
| "hex_string (a # b # s) =
     (case (hex_val a, hex_val b) of
        (Some x, Some y) \<Rightarrow> (let (r, ok) = hex_string s in (char_of (16 * x + y) # r, ok))
      | _ \<Rightarrow> ([], False))"

text \<open>\<open>fmt.Sprint\<close> of a decoded value.\<close>

definition between :: "string \<Rightarrow> string list \<Rightarrow> string" where
  "between sep xs = (case xs of [] \<Rightarrow> [] | x # ys \<Rightarrow> x @ concat (map (\<lambda>y. sep @ y) ys))"

fun sprint :: "json \<Rightarrow> string" where
  "sprint JNull = ''<nil>''"
| "sprint (JBool b) = (if b then ''true'' else ''false'')"
| "sprint (JNum n) = n"
| "sprint (JStr s) = s"
| "sprint (JTime t) = Time_Format t"
| "sprint (JArr vs) = ''['' @ between '' '' (map sprint vs) @ '']''"
| "sprint (JObj kvs) = ''map['' @ between '' '' (map (\<lambda>(k, v). k @ '':'' @ v) (sort_key fst (map (\<lambda>(k, v). (k, sprint v)) kvs))) @ '']''"

definition sprint_cell :: "json option \<Rightarrow> string" where
  "sprint_cell v = (case v of None \<Rightarrow> ''<nil>'' | Some j \<Rightarrow> sprint j)"

section \<open>Indexes\<close>

definition row_id :: "row \<Rightarrow> string list \<Rightarrow> string" where
  "row_id r keys = between ''/'' (map (str r) keys)"

fun index_rows :: "string \<Rightarrow> string list \<Rightarrow> row list \<Rightarrow> (string \<times> row) list \<Rightarrow> string list \<times> (string \<times> row) list" where
  "index_rows table keys [] result = ([], result)"
| "index_rows table keys (r # rs) result =
     (let missing = concat (map (\<lambda>key. flag (str r key = []) (''missing identity in '' @ table)) keys);
          i = row_id r keys;
          duplicate = flag (map_of result i \<noteq> None) (''duplicate identity in '' @ table);
          (problems, result') = index_rows table keys rs (AList.update i r result)
      in (missing @ duplicate @ problems, result'))"

definition index :: "snapshot \<Rightarrow> string \<Rightarrow> string list \<Rightarrow> (string \<times> row) list" where
  "index s table keys = snd (index_rows table keys (rows_in s table) [])"

definition index_problems :: "snapshot \<Rightarrow> string \<Rightarrow> string list \<Rightarrow> string list" where
  "index_problems s table keys = fst (index_rows table keys (rows_in s table) [])"

definition row_at :: "(string \<times> row) list \<Rightarrow> string \<Rightarrow> row" where
  "row_at m i = (case map_of m i of None \<Rightarrow> None | Some r \<Rightarrow> r)"

text \<open>A \<open>range\<close> over a map.\<close>

definition keys_of :: "verifier \<Rightarrow> nat \<Rightarrow> (string \<times> 'a) list \<Rightarrow> string list" where
  "keys_of V n m = vf_range V n (map fst m)"

text \<open>Sums kept in a map, created when first added to.\<close>

definition sum_at :: "(string \<times> int) list \<Rightarrow> string \<Rightarrow> int" where
  "sum_at m key = (case map_of m key of None \<Rightarrow> 0 | Some n \<Rightarrow> n)"

definition add_at :: "string \<Rightarrow> int \<Rightarrow> (string \<times> int) list \<Rightarrow> (string \<times> int) list" where
  "add_at key n m = AList.update key (sum_at m key + n) m"

end
