(* ===== verification/Verify.thy ===== *)
theory Verify
  imports Snapshot_Data
begin

text \<open>
  \<open>Verify\<close> of \<open>reconciliation/internal/verify/snapshot.go\<close> up to the histories and the templates. Each block of the
  function is one definition: the problems it reports, in order, and what it leaves in the maps it fills.
\<close>

section \<open>Manifest and book\<close>

definition required :: "string list" where
  "required = [''books'', ''accounts'', ''posting_policies'', ''account_balances'', ''spending_controls'', ''business_claims'', ''holds'',
     ''limit_usage'', ''journals'', ''journal_lines'', ''account_events'', ''control_events'', ''hold_events'', ''limit_events'',
     ''resolution_evidence'', ''financial_operations'', ''outbox_facts'']"

definition identity_problems :: "snapshot \<Rightarrow> string list" where
  "identity_problems s = flag (sn_SchemaVersion s \<noteq> ''1'' \<or> sn_BookID s = [] \<or> sn_Cut s = []) ''invalid snapshot identity''"

definition table_problems :: "verifier \<Rightarrow> snapshot \<Rightarrow> string \<Rightarrow> string list" where
  "table_problems V s name =
     flag (map_of (sn_Tables s) name = None
           \<or> (case map_of (sn_Counts s) name of None \<Rightarrow> 0 | Some n \<Rightarrow> n) \<noteq> int (length (rows_in s name))
           \<or> digest_of V (vf_canonical V (rows_json (table_of s name))) \<noteq> (case map_of (sn_Digests s) name of None \<Rightarrow> [] | Some d \<Rightarrow> d))
       (''table missing or manifest mismatch: '' @ name)
     @ concat (map (\<lambda>r. flag (str r ''book_id'' \<noteq> sn_BookID s) (''cross-book row in '' @ name)) (rows_in s name))"

definition book_problems :: "snapshot \<Rightarrow> string list" where
  "book_problems s =
     flag (length (remdups (map fst (sn_Tables s))) \<noteq> length required) ''unexpected snapshot tables''
     @ (case rows_in s ''books'' of
          [b] \<Rightarrow> flag (str b ''currency'' \<noteq> ''KES'' \<or> str b ''scale'' \<noteq> ''2'' \<or> str b ''country'' \<noteq> ''KE'' \<or> str b ''synthetic'' \<noteq> ''true'')
                  ''unsupported M1 book''
        | _ \<Rightarrow> [''expected exactly one book''])"

section \<open>Indexes\<close>

record indexes =
  ix_accounts :: "(string \<times> row) list"
  ix_balances :: "(string \<times> row) list"
  ix_journals :: "(string \<times> row) list"
  ix_ops :: "(string \<times> row) list"
  ix_claims :: "(string \<times> row) list"
  ix_holds :: "(string \<times> row) list"
  ix_policies :: "(string \<times> row) list"

definition indexes_of :: "snapshot \<Rightarrow> indexes" where
  "indexes_of s =
     \<lparr>ix_accounts = index s ''accounts'' [''account_id''], ix_balances = index s ''account_balances'' [''account_id''],
      ix_journals = index s ''journals'' [''journal_id''], ix_ops = index s ''financial_operations'' [''operation_id''],
      ix_claims = index s ''business_claims'' [''payment_id''], ix_holds = index s ''holds'' [''hold_id''],
      ix_policies = index s ''posting_policies'' [''policy_id'']\<rparr>"

definition indexes_problems :: "snapshot \<Rightarrow> string list" where
  "indexes_problems s =
     index_problems s ''accounts'' [''account_id''] @ index_problems s ''account_balances'' [''account_id''] @
     index_problems s ''journals'' [''journal_id''] @ index_problems s ''financial_operations'' [''operation_id''] @
     index_problems s ''business_claims'' [''payment_id''] @ index_problems s ''holds'' [''hold_id''] @
     index_problems s ''posting_policies'' [''policy_id'']"

definition account_problems :: "row \<Rightarrow> string list" where
  "account_problems a =
     flag (str a ''owner_id'' = []) ''account missing owner''
     @ flag (str a ''purpose'' \<noteq> ''WALLET'' \<and> str a ''purpose'' \<noteq> ''PROVIDER_POOL'' \<and> str a ''purpose'' \<noteq> ''FEE_INCOME'') ''invalid account purpose''"

section \<open>Journals, events and operations\<close>

text \<open>\<open>journalByOp\<close>, over the journals in the order they are visited.\<close>

fun journals_by_op :: "(string \<times> row) list \<Rightarrow> (string \<times> row) list \<Rightarrow> string list \<Rightarrow> (string \<times> string) list \<Rightarrow>
   string list \<times> (string \<times> string) list" where
  "journals_by_op ops journals [] by_op = ([], by_op)"
| "journals_by_op ops journals (i # is) by_op =
     (let op = str (row_at journals i) ''operation_id'';
          seen = (case map_of by_op op of None \<Rightarrow> [] | Some j \<Rightarrow> j);
          (problems, by_op') = journals_by_op ops journals is (AList.update op i by_op)
      in (flag (seen \<noteq> []) ''multiple journals for one financial operation'' @
          flag (row_at ops op = None) ''journal without operation'' @ problems, by_op'))"

text \<open>\<open>eventByOp\<close> and \<open>eventIDs\<close>, over the outbox facts.\<close>

fun events_by_op :: "(string \<times> row) list \<Rightarrow> row list \<Rightarrow> (string \<times> row) list \<Rightarrow> string list \<Rightarrow> string list \<times> (string \<times> row) list" where
  "events_by_op ops [] by_op ids = ([], by_op)"
| "events_by_op ops (event # events) by_op ids =
     (let op = str event ''operation_id''; i = str event ''event_id'';
          (problems, by_op') = events_by_op ops events (AList.update op event by_op) (i # ids)
      in (flag (row_at by_op op \<noteq> None \<or> i \<in> set ids \<or> i = []) ''duplicate outbox identity'' @
          flag (row_at ops op = None \<or> str event ''event_type'' \<noteq> ''LedgerOperationResolved'') ''orphan or invalid financial event'' @
          problems, by_op'))"

definition canonical_bytes :: "row \<Rightarrow> string" where
  "canonical_bytes op = fst (hex_string (str op ''canonical''))"

definition material_of :: "row \<Rightarrow> row" where
  "material_of op = (case json_read (canonical_bytes op) of Some (JObj kvs, _) \<Rightarrow> obj (Some (any_value (JObj kvs))) | _ \<Rightarrow> None)"

definition material_problems :: "row \<Rightarrow> string list" where
  "material_problems op =
     flag (case json_read (canonical_bytes op) of Some (JObj kvs, _) \<Rightarrow> False | Some (JNull, _) \<Rightarrow> False | _ \<Rightarrow> True) ''invalid material instruction''"

definition material_terms :: "row \<Rightarrow> row" where
  "material_terms material = obj (cell (obj (cell material ''body'')) ''terms'')"

definition op_problems ::
  "verifier \<Rightarrow> snapshot \<Rightarrow> indexes \<Rightarrow> (string \<times> string) list \<Rightarrow> (string \<times> row) list \<Rightarrow> string \<Rightarrow> row \<Rightarrow> string list" where
  "op_problems V s ix journal_by event_by i op =
     (let receipt = json_body op ''receipt''; b = canonical_bytes op; material = material_of op;
          event = row_at event_by i; journal = str receipt ''journal_id'';
          kind = str receipt ''kind''; payment = str (material_terms material) ''payment_id''; claim = row_at (ix_claims ix) payment
      in body_problems op ''receipt''
         @ flag (\<not> snd (hex_string (str op ''canonical'')) \<or> vf_Transform V b \<noteq> Some b \<or> digest_of V b \<noteq> str op ''request_hash'')
             ''operation canonical hash mismatch''
         @ material_problems op
         @ flag (str material ''book_id'' \<noteq> sn_BookID s \<or> str material ''kind'' \<noteq> str receipt ''kind'') ''operation material scope/kind mismatch''
         @ flag (str receipt ''operation_id'' \<noteq> i \<or> str receipt ''book_id'' \<noteq> sn_BookID s
               \<or> str receipt ''request_hash'' \<noteq> str op ''request_hash'' \<or> str receipt ''outcome'' \<noteq> str op ''outcome'') ''operation receipt mismatch''
         @ (if event = None \<or> str event ''event_id'' \<noteq> str receipt ''event_id'' then [''missing or mismatched financial outbox fact'']
            else body_problems event ''body''
              @ flag (\<not> equal_json V (row_json (json_body event ''body'')) (row_json receipt)) ''missing or mismatched financial outbox fact'')
         @ flag (journal \<noteq> (case map_of journal_by i of None \<Rightarrow> [] | Some j \<Rightarrow> j)) ''receipt/journal association mismatch''
         @ flag (journal \<noteq> [] \<and> (str op ''outcome'' \<noteq> ''APPLIED''
               \<or> str (row_at (ix_journals ix) journal) ''template'' \<noteq> str receipt ''kind'' @ ''/v1'')) ''journal without matching applied template''
         @ flag (str op ''outcome'' \<noteq> ''APPLIED'' \<and> str op ''outcome'' \<noteq> ''REJECTED'') ''invalid financial outcome''
         @ (if kind = ''TRANSFER_INTERNAL'' \<or> kind = ''RESERVE_PAYOUT'' then
              flag (claim = None \<or> str receipt ''payment_id'' \<noteq> payment) ''admission without business claim''
              @ flag (str op ''outcome'' = ''APPLIED'' \<and> str claim ''admission_operation_id'' \<noteq> i) ''duplicate applied business execution''
            else []))"

section \<open>Lines and journals\<close>

definition fits_int64 :: "int \<Rightarrow> bool" where
  "fits_int64 n = (- (2 ^ 63) \<le> n \<and> n < 2 ^ 63)"

text \<open>What the loop over the lines leaves: totals by account, lines by journal.\<close>

record posted_lines =
  pl_debit :: "(string \<times> int) list"
  pl_credit :: "(string \<times> int) list"
  pl_lines :: "(string \<times> row list) list"

definition lines_at :: "(string \<times> row list) list \<Rightarrow> string \<Rightarrow> row list" where
  "lines_at m j = (case map_of m j of None \<Rightarrow> [] | Some rs \<Rightarrow> rs)"

fun lines_loop :: "indexes \<Rightarrow> row list \<Rightarrow> posted_lines \<Rightarrow> string list \<times> posted_lines" where
  "lines_loop ix [] acc = ([], acc)"
| "lines_loop ix (line # ls) acc =
     (let journal = str line ''journal_id''; account = str line ''account_id''
      in if row_at (ix_journals ix) journal = None \<or> row_at (ix_accounts ix) account = None then
           (let (problems, acc') = lines_loop ix ls acc in (''orphan journal line'' # problems, acc'))
         else
           let units = str line ''units''; n = number units 19; side = str line ''side'';
               acc1 = (if side = ''DEBIT'' then acc\<lparr>pl_debit := add_at account n (pl_debit acc)\<rparr>
                       else if side = ''CREDIT'' then acc\<lparr>pl_credit := add_at account n (pl_credit acc)\<rparr> else acc);
               acc2 = acc1\<lparr>pl_lines := AList.update journal (lines_at (pl_lines acc1) journal @ [line]) (pl_lines acc1)\<rparr>;
               (problems, acc') = lines_loop ix ls acc2
           in (number_problems units 19 @ flag (n \<le> 0 \<or> \<not> fits_int64 n) ''invalid journal line amount''
               @ flag (side \<noteq> ''DEBIT'' \<and> side \<noteq> ''CREDIT'') ''invalid journal direction'' @ problems, acc'))"

definition by_ordinal :: "row list \<Rightarrow> row list" where
  "by_ordinal rs = sort_key (\<lambda>r. integer (cell r ''ordinal'')) rs"

record journal_sums =
  js_debit :: int
  js_credit :: int
  js_seen :: "string list"
  js_text :: string

fun journal_lines_loop :: "nat \<Rightarrow> row list \<Rightarrow> journal_sums \<Rightarrow> string list \<times> journal_sums" where
  "journal_lines_loop i [] acc = ([], acc)"
| "journal_lines_loop i (line # ls) acc =
     (let account = str line ''account_id''; side = str line ''side''; units = str line ''units''; n = number units 19;
          acc1 = (if side = ''DEBIT'' then acc\<lparr>js_debit := js_debit acc + n\<rparr> else acc\<lparr>js_credit := js_credit acc + n\<rparr>);
          acc2 = acc1\<lparr>js_seen := account # js_seen acc1, js_text := js_text acc1 @ account @ ''|'' @ side @ ''|'' @ units @ [CHR 0x0A]\<rparr>;
          (problems, acc') = journal_lines_loop (Suc i) ls acc2
      in (flag (integer (cell line ''ordinal'') \<noteq> int i \<or> account \<in> set (js_seen acc)) ''invalid journal ordinal or duplicate account''
          @ number_problems units 19 @ problems, acc'))"

definition journal_problems :: "verifier \<Rightarrow> snapshot \<Rightarrow> posted_lines \<Rightarrow> string \<Rightarrow> row \<Rightarrow> string list" where
  "journal_problems V s posted i journal =
     (let rows = by_ordinal (lines_at (pl_lines posted) i);
          (problems, acc) = journal_lines_loop 0 rows
            \<lparr>js_debit = 0, js_credit = 0, js_seen = [], js_text = sn_BookID s @ ''|KES|2'' @ [CHR 0x0A]\<rparr>
      in problems @ flag (length rows < 2 \<or> length rows > 8 \<or> integer (cell journal ''line_count'') \<noteq> int (length rows)
            \<or> js_debit acc \<noteq> js_credit acc \<or> digest_of V (js_text acc) \<noteq> str journal ''digest'')
           ''unbalanced, incomplete or altered journal'')"

section \<open>Holds\<close>

record hold_sums =
  hs_held :: "(string \<times> int) list"
  hs_reserved :: "(string \<times> int) list"
  hs_consumed :: "(string \<times> int) list"
  hs_open :: nat

definition hold_terms :: "row \<Rightarrow> row" where
  "hold_terms hold = obj (cell (json_body hold ''terms'') ''terms'')"

definition hold_key :: "row \<Rightarrow> string" where
  "hold_key hold = str (json_body hold ''terms'') ''owner_id'' @ ''/'' @ str (json_body hold ''terms'') ''bucket''"

definition hold_principal :: "row \<Rightarrow> int" where "hold_principal hold = number (str (hold_terms hold) ''principal'') 19"
definition hold_fee :: "row \<Rightarrow> int" where "hold_fee hold = number (str (hold_terms hold) ''fee'') 19"

definition hold_problems :: "indexes \<Rightarrow> string \<Rightarrow> row \<Rightarrow> string list" where
  "hold_problems ix i hold =
     (let h = json_body hold ''terms''; terms = hold_terms hold;
          source = str terms ''source_id''; pool = str h ''pool_id'';
          principal = hold_principal hold; total = principal + hold_fee hold;
          state = str hold ''state''; policy = row_at (ix_policies ix) (str terms ''policy_id'');
          claim = row_at (ix_claims ix) (str hold ''payment_id'')
      in body_problems hold ''terms''
         @ number_problems (str terms ''principal'') 19 @ number_problems (str terms ''fee'') 19
         @ flag (str h ''id'' \<noteq> i \<or> str h ''attempt_id'' \<noteq> str hold ''attempt_id'' \<or> str terms ''payment_id'' \<noteq> str hold ''payment_id''
               \<or> str (row_at (ix_accounts ix) source) ''owner_id'' \<noteq> str h ''owner_id''
               \<or> str (row_at (ix_accounts ix) source) ''purpose'' \<noteq> ''WALLET''
               \<or> str (row_at (ix_accounts ix) pool) ''purpose'' \<noteq> ''PROVIDER_POOL'') ''hold identity/account mismatch''
         @ flag (principal \<le> 0 \<or> \<not> fits_int64 total) ''invalid hold amount''
         @ flag (policy = None \<or> str policy ''pool_id'' \<noteq> pool \<or> str policy ''fee_account_id'' \<noteq> str h ''fee_account_id''
               \<or> str policy ''fee'' \<noteq> str terms ''fee'') ''hold policy mismatch''
         @ flag (claim = None \<or> str claim ''hold_id'' \<noteq> i \<or> str claim ''state'' \<noteq> state) ''hold/business claim mismatch''
         @ flag (state \<noteq> ''RESERVED'' \<and> state \<noteq> ''EXPOSED'' \<and> state \<noteq> ''CAPTURED'' \<and> state \<noteq> ''RELEASED'') ''invalid hold state'')"

definition hold_sum :: "indexes \<Rightarrow> row \<Rightarrow> hold_sums \<Rightarrow> hold_sums" where
  "hold_sum ix hold acc =
     (let source = str (hold_terms hold) ''source_id''; pool = str (json_body hold ''terms'') ''pool_id'';
          principal = hold_principal hold; total = principal + hold_fee hold; state = str hold ''state''
      in if state = ''RESERVED'' \<or> state = ''EXPOSED'' then
           acc\<lparr>hs_held := (if map_of (ix_accounts ix) source \<noteq> None \<and> map_of (ix_accounts ix) pool \<noteq> None
                            then add_at pool principal (add_at source total (hs_held acc)) else hs_held acc),
               hs_reserved := add_at (hold_key hold) principal (hs_reserved acc), hs_open := Suc (hs_open acc)\<rparr>
         else if state = ''CAPTURED'' then acc\<lparr>hs_consumed := add_at (hold_key hold) principal (hs_consumed acc)\<rparr>
         else acc)"

fun holds_loop :: "indexes \<Rightarrow> string list \<Rightarrow> hold_sums \<Rightarrow> string list \<times> hold_sums" where
  "holds_loop ix [] acc = ([], acc)"
| "holds_loop ix (i # is) acc =
     (let hold = row_at (ix_holds ix) i; (problems, acc') = holds_loop ix is (hold_sum ix hold acc)
      in (hold_problems ix i hold @ problems, acc'))"

section \<open>Applied transfers\<close>

definition is_transfer :: "row \<Rightarrow> bool" where
  "is_transfer op = (str op ''outcome'' = ''APPLIED'' \<and> str (json_body op ''receipt'') ''kind'' = ''TRANSFER_INTERNAL'')"

definition zone_date :: "verifier \<Rightarrow> time \<Rightarrow> string" where
  "zone_date V when = format_date ((t_ns when + vf_zone V (t_ns when) * 1000000000) div 86400000000000)"

definition transfer_sum :: "verifier \<Rightarrow> indexes \<Rightarrow> row \<Rightarrow> (string \<times> int) list \<Rightarrow> string list \<times> (string \<times> int) list" where
  "transfer_sum V ix op consumed =
     (let terms = material_terms (material_of op)
      in if \<not> is_transfer op then ([], consumed)
         else case Time_Parse (str (json_body op ''receipt'') ''recorded_at'') of
           None \<Rightarrow> ([''invalid transfer timestamp''], consumed)
         | Some when \<Rightarrow>
             (number_problems (str terms ''principal'') 19,
              add_at (str (row_at (ix_accounts ix) (str terms ''source_id'')) ''owner_id'' @ ''/'' @ zone_date V when)
                (number (str terms ''principal'') 19) consumed))"

fun transfers_loop :: "verifier \<Rightarrow> indexes \<Rightarrow> string list \<Rightarrow> (string \<times> int) list \<Rightarrow> string list \<times> (string \<times> int) list" where
  "transfers_loop V ix [] consumed = ([], consumed)"
| "transfers_loop V ix (i # is) consumed =
     (let (here, consumed1) = transfer_sum V ix (row_at (ix_ops ix) i) consumed;
          (problems, consumed2) = transfers_loop V ix is consumed1
      in (here @ problems, consumed2))"

section \<open>Claims, balances and usage\<close>

definition receipt_of :: "indexes \<Rightarrow> string \<Rightarrow> row" where
  "receipt_of ix i = (if map_of (ix_ops ix) i = None then None else json_body (row_at (ix_ops ix) i) ''receipt'')"

definition claim_problems :: "indexes \<Rightarrow> row \<Rightarrow> string list" where
  "claim_problems ix claim =
     (let admission = str claim ''admission_operation_id''; result = str claim ''result_operation_id'';
          op = row_at (ix_ops ix) admission
      in flag (str claim ''stage'' \<noteq> ''EXECUTION'' \<or> op = None \<or> row_at (ix_ops ix) result = None
               \<or> str op ''outcome'' \<noteq> str claim ''admission_outcome'' \<or> str op ''request_hash'' \<noteq> str claim ''material_hash'')
           ''business claim lacks matching admission''
         @ flag (str (receipt_of ix admission) ''payment_id'' \<noteq> str claim ''payment_id''
               \<or> str (receipt_of ix result) ''payment_id'' \<noteq> str claim ''payment_id'') ''business claim payment mismatch'')"

text \<open>A chain of \<open>||\<close> stops at the first disjunct that holds, and the numbers after it are not read.\<close>

definition balance_problems :: "indexes \<Rightarrow> posted_lines \<Rightarrow> hold_sums \<Rightarrow> string \<Rightarrow> string list" where
  "balance_problems ix posted holds i =
     (let balance = row_at (ix_balances ix) i; account = row_at (ix_accounts ix) i;
          debit = sum_at (pl_debit posted) i; credit = sum_at (pl_credit posted) i; held = sum_at (hs_held holds) i;
          differs = [''balance differs from journal/hold history''];
          surplus = (if str account ''purpose'' = ''PROVIDER_POOL'' then debit - credit else credit - debit)
      in (if balance = None \<or> str balance ''purpose'' \<noteq> str account ''purpose'' then differs
          else number_problems (str balance ''debits'') 38 @
            (if debit \<noteq> number (str balance ''debits'') 38 then differs
             else number_problems (str balance ''credits'') 38 @
               (if credit \<noteq> number (str balance ''credits'') 38 then differs
                else number_problems (str balance ''held'') 38 @ (if held \<noteq> number (str balance ''held'') 38 then differs else []))))
         @ flag (surplus < held) ''negative available funds'')"

definition usage_problems :: "(string \<times> int) list \<Rightarrow> (string \<times> int) list \<Rightarrow> string \<Rightarrow> row \<Rightarrow> string list" where
  "usage_problems reserved consumed key u =
     number_problems (str u ''reserved'') 38 @
     (if sum_at reserved key \<noteq> number (str u ''reserved'') 38 then [''limit usage differs from admitted payments/holds'']
      else number_problems (str u ''consumed'') 38 @
        flag (sum_at consumed key \<noteq> number (str u ''consumed'') 38) ''limit usage differs from admitted payments/holds'')"

end
