(* ===== verification/Histories.thy ===== *)
theory Histories
  imports Verify
begin

text \<open>
  The connected histories and the posting templates of \<open>verify/snapshot.go\<close>, and \<open>Verify\<close> itself.
\<close>

section \<open>Histories\<close>

definition clone :: "row \<Rightarrow> (string \<times> json) list" where
  "clone r = (case r of None \<Rightarrow> [] | Some kvs \<Rightarrow> kvs)"

text \<open>Expiries are compared at the microseconds the column keeps.\<close>

definition truncated :: "json option \<Rightarrow> (string \<times> json) list \<Rightarrow> (string \<times> json) list" where
  "truncated expires state =
     (case Time_Parse (case expires of Some (JStr s) \<Rightarrow> s | _ \<Rightarrow> []) of
        None \<Rightarrow> state
      | Some when \<Rightarrow> AList.update ''ExpiresAt'' (JStr (Time_Format \<lparr>t_ns = t_ns when div 1000 * 1000, t_offset = 0\<rparr>)) state)"

definition normalize :: "row \<Rightarrow> (string \<times> json) list" where
  "normalize r =
     (case obj (cell r ''state'') of
        None \<Rightarrow> clone r
      | Some state \<Rightarrow> AList.update ''state'' (JObj (truncated (map_of state ''ExpiresAt'') state)) (clone r))"

definition historyEqual :: "verifier \<Rightarrow> row \<Rightarrow> row \<Rightarrow> bool" where
  "historyEqual V a b = equal_json V (JObj (normalize a)) (JObj (normalize b))"

text \<open>The legal moves of a hold, as the verifier knows them.\<close>

definition hold_move :: "string \<Rightarrow> string \<Rightarrow> bool" where
  "hold_move old next =
     (old = ''RESERVED'' \<and> (next = ''EXPOSED'' \<or> next = ''RELEASED'') \<or> old = ''EXPOSED'' \<and> (next = ''CAPTURED'' \<or> next = ''RELEASED''))"

definition hold_event_problems :: "verifier \<Rightarrow> nat \<Rightarrow> row \<Rightarrow> row \<Rightarrow> string list" where
  "hold_event_problems V i prior after =
     (let next = str (obj (cell after ''state'')) ''State''; old = str (obj (cell prior ''state'')) ''State''
      in flag (i = 0 \<and> next \<noteq> ''RESERVED'') ''hold did not start reserved''
         @ flag (i > 0 \<and> \<not> hold_move old next) ''invalid hold history transition''
         @ flag (i > 0 \<and> \<not> equal_json V (JObj (AList.delete ''state'' (clone after))) (JObj (AList.delete ''state'' (clone prior))))
             ''hold financial terms changed'')"

text \<open>One event of a history: the problems, and the state it leads to.\<close>

definition after_of :: "row \<Rightarrow> row" where "after_of r = obj (cell (json_body r ''body'') ''After'')"
definition before_of :: "row \<Rightarrow> row" where "before_of r = obj (cell (json_body r ''body'') ''Before'')"

definition event_problems :: "verifier \<Rightarrow> string \<Rightarrow> nat \<Rightarrow> row \<Rightarrow> row \<Rightarrow> string list" where
  "event_problems V table i prior r =
     (let before = before_of r; after = after_of r;
          version = (if table = ''hold_events'' then integer (cell (obj (cell after ''state'')) ''Version'') else integer (cell after ''version''))
      in body_problems r ''body''
         @ flag (integer (cell r ''version'') \<noteq> int (Suc i) \<or> after = None) (''broken history sequence in '' @ table)
         @ flag (i = 0 \<and> before \<noteq> None) ''initial history has predecessor''
         @ flag (i > 0 \<and> \<not> historyEqual V before prior) (''disconnected history in '' @ table)
         @ (if table = ''hold_events'' then hold_event_problems V i prior after else [])
         @ flag (version \<noteq> int (Suc i)) ''history body version mismatch'')"

fun history_loop :: "verifier \<Rightarrow> string \<Rightarrow> nat \<Rightarrow> row \<Rightarrow> row list \<Rightarrow> string list \<times> row" where
  "history_loop V table i prior [] = ([], prior)"
| "history_loop V table i prior (r # rs) =
     (let (problems, tip) = history_loop V table (Suc i) (after_of r) rs
      in (event_problems V table i prior r @ problems, tip))"

definition tip_problems :: "verifier \<Rightarrow> string \<Rightarrow> row \<Rightarrow> row \<Rightarrow> string list" where
  "tip_problems V table prior current =
     (if table = ''account_events'' then
        (let totals = obj (cell prior ''totals'')
         in flag (str prior ''account_id'' \<noteq> str current ''account_id'' \<or> str totals ''Debits'' \<noteq> str current ''debits''
              \<or> str totals ''Credits'' \<noteq> str current ''credits'' \<or> str totals ''Held'' \<noteq> str current ''held'') ''account history tip mismatch'')
      else if table = ''hold_events'' then
        flag (str (obj (cell prior ''state'')) ''State'' \<noteq> str current ''state'') ''hold history tip mismatch''
        @ body_problems current ''terms''
        @ flag (\<not> equal_json V (row_json (json_body current ''terms'')) (JObj (AList.delete ''state'' (clone prior)))) ''hold terms/history mismatch''
      else if table = ''limit_events'' then
        (let values = obj (cell prior ''values'')
         in flag (str values ''Reserved'' \<noteq> str current ''reserved'' \<or> str values ''Consumed'' \<noteq> str current ''consumed'') ''limit history tip mismatch'')
      else
        flag (str prior ''daily_cap'' \<noteq> str current ''daily_cap'' \<or> str prior ''epoch'' \<noteq> str current ''epoch''
           \<or> sprint_cell (cell prior ''debit_frozen'') \<noteq> str current ''debit_frozen''
           \<or> sprint_cell (cell prior ''credit_frozen'') \<noteq> str current ''credit_frozen'') ''control history tip mismatch'')"

definition by_version :: "row list \<Rightarrow> row list" where
  "by_version rs = sort_key (\<lambda>r. integer (cell r ''version'')) rs"

definition history_of :: "snapshot \<Rightarrow> string \<Rightarrow> string list \<Rightarrow> string \<Rightarrow> row list" where
  "history_of s table keys i = by_version (filter (\<lambda>r. row_id r keys = i) (rows_in s table))"

definition history_problems :: "verifier \<Rightarrow> snapshot \<Rightarrow> string \<Rightarrow> string list \<Rightarrow> string \<Rightarrow> row \<Rightarrow> string list" where
  "history_problems V s table keys i current =
     (let rows = history_of s table keys i; (problems, tip) = history_loop V table 0 None rows
      in problems @
         (if rows = [] \<or> integer (cell current ''version'') \<noteq> int (length rows) then [''mutable version lacks history in '' @ table]
          else tip_problems V table tip current))"

definition spec_problems :: "verifier \<Rightarrow> snapshot \<Rightarrow> indexes \<Rightarrow> nat \<Rightarrow> string \<times> string list \<times> (string \<times> row) list \<Rightarrow> string list" where
  "spec_problems V s ix n = (\<lambda>(table, keys, current).
     concat (map (\<lambda>r. flag (row_at current (row_id r keys) = None) (''orphan history in '' @ table)
                      @ flag (str (row_at (ix_ops ix) (str r ''operation_id'')) ''outcome'' \<noteq> ''APPLIED'') ''history without applied operation'')
              (rows_in s table))
     @ concat (map (\<lambda>i. history_problems V s table keys i (row_at current i)) (keys_of V n current)))"

definition histories :: "verifier \<Rightarrow> snapshot \<Rightarrow> indexes \<Rightarrow> (string \<times> row) list \<Rightarrow> string list" where
  "histories V s ix usage =
     index_problems s ''spending_controls'' [''subject_kind'', ''subject_id'']
     @ spec_problems V s ix 8 (''account_events'', [''account_id''], ix_balances ix)
     @ spec_problems V s ix 9 (''control_events'', [''subject_kind'', ''subject_id''],
         index s ''spending_controls'' [''subject_kind'', ''subject_id''])
     @ spec_problems V s ix 10 (''hold_events'', [''hold_id''], ix_holds ix)
     @ spec_problems V s ix 11 (''limit_events'', [''owner_id'', ''bucket''], usage)"

section \<open>Templates\<close>

text \<open>\<open>expected\<close> with the entries of a template added in order.\<close>

fun entries :: "(string \<times> row) list \<Rightarrow> (string \<times> string \<times> int) list \<Rightarrow> (string \<times> string) list \<Rightarrow> string list \<times> (string \<times> string) list" where
  "entries accounts [] expected = ([], expected)"
| "entries accounts ((account, side, n) # es) expected =
     (let key = account @ ''/'' @ side; old = (case map_of expected key of None \<Rightarrow> [] | Some x \<Rightarrow> x);
          (problems, expected') = entries accounts es (if n > 0 then AList.update key (format_int n) expected else expected)
      in (flag (row_at accounts account = None) ''posting template references missing account''
          @ flag (n > 0 \<and> old \<noteq> []) ''posting template aliases accounts'' @ problems, expected'))"

definition posting_problems ::
  "indexes \<Rightarrow> posted_lines \<Rightarrow> string \<Rightarrow> (string \<times> string \<times> int) list \<Rightarrow> string list" where
  "posting_problems ix posted journal es =
     (let (problems, expected) = entries (ix_accounts ix) es []; rows = by_ordinal (lines_at (pl_lines posted) journal)
      in problems @
         (if journal = [] \<or> row_at (ix_journals ix) journal = None \<or> length rows \<noteq> length expected
          then [''missing or extra posting template lines'']
          else concat (map (\<lambda>line.
            flag ((case map_of expected (str line ''account_id'' @ ''/'' @ str line ''side'') of None \<Rightarrow> [] | Some x \<Rightarrow> x) \<noteq> str line ''units'')
              ''journal does not match authorized payment terms'') rows)))"

definition transfer_template :: "indexes \<Rightarrow> posted_lines \<Rightarrow> row \<Rightarrow> row \<Rightarrow> string list" where
  "transfer_template ix posted receipt material =
     (let terms = material_terms material; policy = row_at (ix_policies ix) (str terms ''policy_id'');
          principal = number (str terms ''principal'') 19; fee = number (str terms ''fee'') 19
      in number_problems (str terms ''principal'') 19 @ number_problems (str terms ''fee'') 19
         @ flag (policy = None \<or> str policy ''fee'' \<noteq> str terms ''fee'' \<or> str receipt ''policy_id'' \<noteq> str terms ''policy_id'')
             ''transfer fee policy mismatch''
         @ posting_problems ix posted (str receipt ''journal_id'')
             [(str terms ''source_id'', ''DEBIT'', principal + fee), (str terms ''beneficiary_id'', ''CREDIT'', principal),
              (str policy ''fee_account_id'', ''CREDIT'', fee)])"

definition capture_template :: "indexes \<Rightarrow> posted_lines \<Rightarrow> (string \<times> row) list \<Rightarrow> row \<Rightarrow> string list" where
  "capture_template ix posted evidence receipt =
     (let h = row_at (ix_holds ix) (str receipt ''hold_id''); fixed = json_body h ''terms''; terms = obj (cell fixed ''terms'');
          proof = row_at evidence (str receipt ''evidence_id''); claims = json_body proof ''body'';
          principal = number (str terms ''principal'') 19; fee = number (str terms ''fee'') 19
      in body_problems h ''terms'' @ body_problems proof ''body''
         @ flag (h = None \<or> str h ''state'' \<noteq> ''CAPTURED'' \<or> str claims ''final_state'' \<noteq> ''FINAL_SUCCESS''
               \<or> str claims ''attempt_id'' \<noteq> str h ''attempt_id'' \<or> str claims ''principal'' \<noteq> str terms ''principal''
               \<or> str claims ''beneficiary_id'' \<noteq> str terms ''beneficiary_id''
               \<or> str claims ''provider_account_id'' \<noteq> str fixed ''provider_account_id''
               \<or> str claims ''capability_id'' \<noteq> str fixed ''capability_id'') ''capture lacks matching final evidence''
         @ number_problems (str terms ''principal'') 19 @ number_problems (str terms ''fee'') 19
         @ posting_problems ix posted (str receipt ''journal_id'')
             [(str terms ''source_id'', ''DEBIT'', principal + fee), (str fixed ''pool_id'', ''CREDIT'', principal),
              (str fixed ''fee_account_id'', ''CREDIT'', fee)])"

definition funding_template :: "indexes \<Rightarrow> posted_lines \<Rightarrow> row \<Rightarrow> row \<Rightarrow> string list" where
  "funding_template ix posted receipt material =
     (let rows = by_ordinal (lines_at (pl_lines posted) (str receipt ''journal_id''))
      in flag (length rows \<noteq> 2) ''invalid synthetic funding template''
         @ concat (map (\<lambda>line.
             let purpose = str (row_at (ix_accounts ix) (str line ''account_id'')) ''purpose''; side = str line ''side''
             in flag (str line ''units'' \<noteq> str material ''units''
                  \<or> \<not> (purpose = ''WALLET'' \<and> side = ''CREDIT'' \<or> purpose = ''PROVIDER_POOL'' \<and> side = ''DEBIT'')) ''invalid synthetic funding posting'') rows))"

definition template_problems :: "snapshot \<Rightarrow> indexes \<Rightarrow> posted_lines \<Rightarrow> (string \<times> row) list \<Rightarrow> row \<Rightarrow> string list" where
  "template_problems s ix posted evidence op =
     (let receipt = json_body op ''receipt''; material = material_of op; eid = str receipt ''evidence_id'';
          proof = row_at evidence eid; claims = json_body proof ''body''; kind = str receipt ''kind''
      in (if eid = [] then []
          else body_problems proof ''body''
            @ flag (proof = None \<or> str claims ''id'' \<noteq> eid \<or> str claims ''book_id'' \<noteq> sn_BookID s
                  \<or> str claims ''payment_id'' \<noteq> str receipt ''payment_id'' \<or> str claims ''hold_id'' \<noteq> str receipt ''hold_id'')
                ''resolution receipt/evidence mismatch'')
         @ (if str op ''outcome'' \<noteq> ''APPLIED'' then []
            else if kind = ''TRANSFER_INTERNAL'' then transfer_template ix posted receipt material
            else if kind = ''CAPTURE_PAYOUT'' then capture_template ix posted evidence receipt
            else if kind = ''FIXTURE_FUND'' then funding_template ix posted receipt material
            else if kind \<in> {''CREATE_ACCOUNT'', ''SET_ACCOUNT_CONTROL'', ''RESERVE_PAYOUT'', ''MARK_HOLD_EXPOSED'', ''RELEASE_PAYOUT''}
              then flag (str receipt ''journal_id'' \<noteq> []) ''non-posting command created a journal''
            else [''unknown operation kind'']))"

definition templates :: "verifier \<Rightarrow> snapshot \<Rightarrow> indexes \<Rightarrow> posted_lines \<Rightarrow> string list" where
  "templates V s ix posted =
     (let evidence = index s ''resolution_evidence'' [''evidence_id'']
      in index_problems s ''resolution_evidence'' [''evidence_id'']
         @ concat (map (\<lambda>i. let r = row_at evidence i
             in body_problems r ''body''
                @ flag (digest_of V (vf_canonical V (row_json (json_body r ''body''))) \<noteq> str r ''digest'') ''resolution evidence hash mismatch'')
             (keys_of V 12 evidence))
         @ concat (map (\<lambda>i. template_problems s ix posted evidence (row_at (ix_ops ix) i)) (keys_of V 13 (ix_ops ix))))"

section \<open>The whole check\<close>

definition no_lines :: posted_lines where
  "no_lines = \<lparr>pl_debit = [], pl_credit = [], pl_lines = []\<rparr>"

definition posted_of :: "snapshot \<Rightarrow> posted_lines" where
  "posted_of s = snd (lines_loop (indexes_of s) (rows_in s ''journal_lines'') no_lines)"

definition no_holds :: hold_sums where
  "no_holds = \<lparr>hs_held = [], hs_reserved = [], hs_consumed = [], hs_open = 0\<rparr>"

definition holds_of :: "verifier \<Rightarrow> snapshot \<Rightarrow> hold_sums" where
  "holds_of V s = snd (holds_loop (indexes_of s) (keys_of V 3 (ix_holds (indexes_of s))) no_holds)"

definition consumed_of :: "verifier \<Rightarrow> snapshot \<Rightarrow> (string \<times> int) list" where
  "consumed_of V s = snd (transfers_loop V (indexes_of s) (keys_of V 4 (ix_ops (indexes_of s))) (hs_consumed (holds_of V s)))"

text \<open>Every problem that is found, in the order it is found.\<close>

definition found :: "verifier \<Rightarrow> snapshot \<Rightarrow> string list" where
  "found V s =
     (let ix = indexes_of s; posted = posted_of s; holds = holds_of V s; consumed = consumed_of V s;
          (journal_found, journal_by) = journals_by_op (ix_ops ix) (ix_journals ix) (keys_of V 0 (ix_journals ix)) [];
          (event_found, event_by) = events_by_op (ix_ops ix) (rows_in s ''outbox_facts'') [] [];
          usage = index s ''limit_usage'' [''owner_id'', ''bucket'']
      in identity_problems s
         @ concat (map (table_problems V s) required)
         @ book_problems s
         @ indexes_problems s
         @ concat (map (\<lambda>i. account_problems (row_at (ix_accounts ix) i)) (keys_of V 14 (ix_accounts ix)))
         @ journal_found @ event_found
         @ concat (map (\<lambda>i. op_problems V s ix journal_by event_by i (row_at (ix_ops ix) i)) (keys_of V 1 (ix_ops ix)))
         @ fst (lines_loop ix (rows_in s ''journal_lines'') no_lines)
         @ concat (map (\<lambda>i. journal_problems V s posted i (row_at (ix_journals ix) i)) (keys_of V 2 (ix_journals ix)))
         @ fst (holds_loop ix (keys_of V 3 (ix_holds ix)) no_holds)
         @ fst (transfers_loop V ix (keys_of V 4 (ix_ops ix)) (hs_consumed holds))
         @ concat (map (\<lambda>i. claim_problems ix (row_at (ix_claims ix) i)) (keys_of V 5 (ix_claims ix)))
         @ concat (map (balance_problems ix posted holds) (keys_of V 6 (ix_accounts ix)))
         @ flag (length (ix_balances ix) \<noteq> length (ix_accounts ix)) ''orphan or missing balance''
         @ index_problems s ''limit_usage'' [''owner_id'', ''bucket'']
         @ concat (map (\<lambda>key. usage_problems (hs_reserved holds) consumed key (row_at usage key)) (keys_of V 7 usage))
         @ concat (map (\<lambda>key. flag (row_at usage key = None) ''missing reserved limit bucket'') (keys_of V 15 (hs_reserved holds)))
         @ concat (map (\<lambda>key. flag (row_at usage key = None) ''missing consumed limit bucket'') (keys_of V 16 consumed))
         @ histories V s ix usage
         @ templates V s ix posted)"

definition Verify :: "verifier \<Rightarrow> snapshot \<Rightarrow> report" where
  "Verify V s =
     (let problems = foldl bad [] (found V s); ix = indexes_of s
      in \<lparr>rep_BookID = sn_BookID s, rep_Cut = sn_Cut s, rep_Valid = (length problems = 0), rep_Accounts = length (ix_accounts ix),
          rep_Journals = length (ix_journals ix), rep_Operations = length (ix_ops ix), rep_OutstandingHolds = hs_open (holds_of V s),
          rep_Problems = problems\<rparr>)"

end
