(* ===== verification/Verified.thy ===== *)
theory Verified
  imports Histories "HOL-Library.Multiset"
begin

text \<open>
  What a valid report of the verifier establishes about the rows of the snapshot, whatever order Go visits its maps in.
\<close>

section \<open>The verdict\<close>

text \<open>A \<open>range\<close> visits every key once.\<close>

definition fair_range :: "verifier \<Rightarrow> bool" where
  "fair_range V = (\<forall>n ks. mset (vf_range V n ks) = mset ks)"

lemma keys_of_set: "fair_range V \<Longrightarrow> set (keys_of V n m) = set (map fst m)"
  by (metis fair_range_def keys_of_def mset_eq_setD)

lemma Verify_valid: "rep_Valid (Verify V s) \<longleftrightarrow> found V s = []"
  using bad_first_hundred [of "[]" "found V s"] by (simp add: Verify_def Let_def)

section \<open>Indexes without problems\<close>

lemma index_rows_clean:
  assumes "index_rows table keys rs result = ([], result')"
  shows "distinct (map (\<lambda>r. row_id r keys) rs) \<and> (\<forall>r\<in>set rs. map_of result (row_id r keys) = None \<and> (\<forall>k\<in>set keys. str r k \<noteq> []))
    \<and> (\<forall>i. map_of result' i = (case map_of (map (\<lambda>r. (row_id r keys, r)) rs) i of None \<Rightarrow> map_of result i | Some r \<Rightarrow> Some r))"
  using assms
proof (induction rs arbitrary: result)
  case (Cons r rs)
  let ?i = "row_id r keys"
  obtain ps where rest: "index_rows table keys rs (AList.update ?i r result) = (ps, result')" and ps: "ps = []"
    and here: "map_of result ?i = None" "\<forall>k\<in>set keys. str r k \<noteq> []"
    using Cons.prems by (auto simp: Let_def split: prod.split_asm)
  note ih = Cons.IH [OF rest [unfolded ps]]
  have upd: "map_of (AList.update ?i r result) k = (if k = ?i then Some r else map_of result k)" for k
    by (simp add: update_conv')
  have out: "?i \<notin> (\<lambda>r. row_id r keys) ` set rs"
  proof
    assume "?i \<in> (\<lambda>r. row_id r keys) ` set rs"
    then obtain x where "x \<in> set rs" "row_id x keys = ?i" by auto
    then show False using ih upd by (metis option.distinct(1))
  qed
  have none: "map_of (map (\<lambda>r. (row_id r keys, r)) rs) ?i = None" using out by (auto simp: map_of_eq_None_iff image_iff)
  have prev: "map_of result (row_id x keys) = None" if "x \<in> set rs" for x
    using ih that upd by (metis option.distinct(1))
  show ?case using ih out here none prev upd by (auto split: option.split)
qed simp

lemma index_rows_distinct: "distinct (map fst result) \<Longrightarrow> distinct (map fst (snd (index_rows table keys rs result)))"
proof (induction rs arbitrary: result)
  case (Cons r rs)
  show ?case using Cons.IH [OF distinct_update [OF Cons.prems]] by (simp add: Let_def case_prod_beta)
qed simp

lemma index_distinct: "distinct (map fst (index s table keys))"
  by (simp add: index_def index_rows_distinct)

lemma index_clean:
  assumes "index_problems s table keys = []"
  shows "distinct (map (\<lambda>r. row_id r keys) (rows_in s table))" and "r \<in> set (rows_in s table) \<Longrightarrow> k \<in> set keys \<Longrightarrow> str r k \<noteq> []"
    and "map_of (index s table keys) i = Some r \<longleftrightarrow> r \<in> set (rows_in s table) \<and> row_id r keys = i"
proof -
  let ?m = "map (\<lambda>r. (row_id r keys, r)) (rows_in s table)"
  have run: "index_rows table keys (rows_in s table) [] = ([], index s table keys)"
    using assms by (simp add: index_problems_def index_def prod_eq_iff)
  note c = index_rows_clean [OF run]
  show d: "distinct (map (\<lambda>r. row_id r keys) (rows_in s table))" and "r \<in> set (rows_in s table) \<Longrightarrow> k \<in> set keys \<Longrightarrow> str r k \<noteq> []"
    using c by blast+
  have "map_of (index s table keys) i = map_of ?m i" using c by (auto split: option.split)
  moreover have "distinct (map fst ?m)" using d by (simp add: o_def)
  then have "map_of ?m i = Some r \<longleftrightarrow> (i, r) \<in> set ?m" by (rule map_of_eq_Some_iff)
  ultimately show "map_of (index s table keys) i = Some r \<longleftrightarrow> r \<in> set (rows_in s table) \<and> row_id r keys = i" by auto
qed

lemma row_id_single [simp]: "row_id r [k] = str r k" by (simp add: row_id_def between_def)

lemma nil_row_str [simp]: "str None k = []" by (simp add: str_def cell_def)

lemma row_at_index:
  assumes "index_problems s table keys = []" and "keys \<noteq> []" and "r \<in> set (rows_in s table)"
  shows "row_at (index s table keys) (row_id r keys) = r" and "r \<noteq> None" and "row_id r keys \<in> set (map fst (index s table keys))"
proof -
  have m: "map_of (index s table keys) (row_id r keys) = Some r" using index_clean(3) [OF assms(1)] assms(3) by blast
  then show "row_at (index s table keys) (row_id r keys) = r" by (simp add: row_at_def)
  obtain k where "k \<in> set keys" using assms(2) by (cases keys) auto
  then show "r \<noteq> None" using index_clean(2) [OF assms(1,3)] by (cases r) auto
  show "row_id r keys \<in> set (map fst (index s table keys))" using map_of_SomeD [OF m] by force
qed

lemma row_at_Some:
  assumes "index_problems s table keys = []" and "row_at (index s table keys) i \<noteq> None"
  shows "row_at (index s table keys) i \<in> set (rows_in s table) \<and> row_id (row_at (index s table keys) i) keys = i"
  using assms(2) index_clean(3) [OF assms(1), of i] by (auto simp: row_at_def split: option.split_asm)

section \<open>Lines\<close>

definition lines_of :: "snapshot \<Rightarrow> string \<Rightarrow> row list" where
  "lines_of s j = filter (\<lambda>r. str r ''journal_id'' = j) (rows_in s ''journal_lines'')"

definition side_total :: "string \<Rightarrow> row list \<Rightarrow> int" where
  "side_total side rs = (\<Sum>r\<leftarrow>rs. if str r ''side'' = side then number (str r ''units'') 19 else 0)"

text \<open>A line in order: an exact positive amount on a side, of a journal and an account of the snapshot.\<close>

definition line_clean :: "indexes \<Rightarrow> row \<Rightarrow> bool" where
  "line_clean ix r = (row_at (ix_journals ix) (str r ''journal_id'') \<noteq> None \<and> row_at (ix_accounts ix) (str r ''account_id'') \<noteq> None
     \<and> str r ''side'' \<in> {''DEBIT'', ''CREDIT''} \<and> exact (str r ''units'') 19
     \<and> 0 < number (str r ''units'') 19 \<and> number (str r ''units'') 19 < 2 ^ 63)"

lemma sum_at_add [simp]: "sum_at (add_at k n m) i = (if i = k then sum_at m k + n else sum_at m i)"
  by (simp add: sum_at_def add_at_def update_conv')

lemma lines_at_update [simp]: "lines_at (AList.update j rs m) i = (if i = j then rs else lines_at m i)"
  by (simp add: lines_at_def update_conv')

lemma lines_loop_clean:
  assumes "lines_loop ix ls acc = ([], acc')"
  shows "\<forall>r\<in>set ls. line_clean ix r"
    and "sum_at (pl_debit acc') a = sum_at (pl_debit acc) a + side_total ''DEBIT'' (filter (\<lambda>r. str r ''account_id'' = a) ls)"
    and "sum_at (pl_credit acc') a = sum_at (pl_credit acc) a + side_total ''CREDIT'' (filter (\<lambda>r. str r ''account_id'' = a) ls)"
    and "lines_at (pl_lines acc') j = lines_at (pl_lines acc) j @ filter (\<lambda>r. str r ''journal_id'' = j) ls"
proof -
  have "(\<forall>r\<in>set ls. line_clean ix r)
    \<and> sum_at (pl_debit acc') a = sum_at (pl_debit acc) a + side_total ''DEBIT'' (filter (\<lambda>r. str r ''account_id'' = a) ls)
    \<and> sum_at (pl_credit acc') a = sum_at (pl_credit acc) a + side_total ''CREDIT'' (filter (\<lambda>r. str r ''account_id'' = a) ls)
    \<and> lines_at (pl_lines acc') j = lines_at (pl_lines acc) j @ filter (\<lambda>r. str r ''journal_id'' = j) ls"
    using assms
  proof (induction ls arbitrary: acc)
    case (Cons r ls)
    let ?n = "number (str r ''units'') 19" and ?a = "str r ''account_id''" and ?side = "str r ''side''"
    let ?acc1 = "if ?side = ''DEBIT'' then acc\<lparr>pl_debit := add_at ?a ?n (pl_debit acc)\<rparr>
       else if ?side = ''CREDIT'' then acc\<lparr>pl_credit := add_at ?a ?n (pl_credit acc)\<rparr> else acc"
    let ?acc2 = "?acc1\<lparr>pl_lines := AList.update (str r ''journal_id'') (lines_at (pl_lines ?acc1) (str r ''journal_id'') @ [r]) (pl_lines ?acc1)\<rparr>"
    have found: "row_at (ix_journals ix) (str r ''journal_id'') \<noteq> None" "row_at (ix_accounts ix) ?a \<noteq> None"
      using Cons.prems by (auto simp: Let_def split: if_split_asm prod.split_asm)
    obtain ps where rest: "lines_loop ix ls ?acc2 = (ps, acc')" by (cases "lines_loop ix ls ?acc2") (use Cons.prems found in \<open>auto simp: Let_def\<close>)
    have clean: "ps = []" "exact (str r ''units'') 19" "0 < ?n" "fits_int64 ?n" "?side \<in> {''DEBIT'', ''CREDIT''}"
      using Cons.prems found rest by (auto simp: Let_def number_problems_def)
    have lc: "line_clean ix r" using found clean by (simp add: line_clean_def fits_int64_def)
    note ih = Cons.IH [OF rest [unfolded clean(1)]]
    have sums: "sum_at (pl_debit ?acc2) a = sum_at (pl_debit acc) a + (if ?side = ''DEBIT'' \<and> a = ?a then ?n else 0)"
      "sum_at (pl_credit ?acc2) a = sum_at (pl_credit acc) a + (if ?side = ''CREDIT'' \<and> a = ?a then ?n else 0)"
      "lines_at (pl_lines ?acc2) j = lines_at (pl_lines acc) j @ (if str r ''journal_id'' = j then [r] else [])"
      using clean(5) by auto
    show ?case
      using ih lc unfolding sums by (auto simp: side_total_def)
  qed (simp add: side_total_def)
  then show "\<forall>r\<in>set ls. line_clean ix r"
    and "sum_at (pl_debit acc') a = sum_at (pl_debit acc) a + side_total ''DEBIT'' (filter (\<lambda>r. str r ''account_id'' = a) ls)"
    and "sum_at (pl_credit acc') a = sum_at (pl_credit acc) a + side_total ''CREDIT'' (filter (\<lambda>r. str r ''account_id'' = a) ls)"
    and "lines_at (pl_lines acc') j = lines_at (pl_lines acc) j @ filter (\<lambda>r. str r ''journal_id'' = j) ls" by blast+
qed

lemma side_total_Nil [simp]: "side_total side [] = 0" by (simp add: side_total_def)

lemma side_total_Cons [simp]:
  "side_total side (r # rs) = (if str r ''side'' = side then number (str r ''units'') 19 else 0) + side_total side rs"
  by (simp add: side_total_def)

lemma side_total_bag: "side_total side rs = (\<Sum>r\<in>#mset rs. if str r ''side'' = side then number (str r ''units'') 19 else 0)"
  by (induction rs) simp_all

lemma side_total_mset: "mset rs = mset rs' \<Longrightarrow> side_total side rs = side_total side rs'"
  by (simp add: side_total_bag)

lemma by_ordinal_mset [simp]: "mset (by_ordinal rs) = mset rs" by (simp add: by_ordinal_def)
lemma by_ordinal_length [simp]: "length (by_ordinal rs) = length rs" by (simp add: by_ordinal_def)
lemma by_ordinal_set [simp]: "set (by_ordinal rs) = set rs" by (simp add: by_ordinal_def)

text \<open>The text whose digest a journal carries.\<close>

definition row_text :: "row \<Rightarrow> string" where
  "row_text r = str r ''account_id'' @ ''|'' @ str r ''side'' @ ''|'' @ str r ''units'' @ [CHR 0x0A]"

lemma journal_lines_clean:
  assumes "journal_lines_loop i ls acc = (ps, acc')" and "\<forall>r\<in>set ls. str r ''side'' \<in> {''DEBIT'', ''CREDIT''}"
  shows "js_debit acc' = js_debit acc + side_total ''DEBIT'' ls" and "js_credit acc' = js_credit acc + side_total ''CREDIT'' ls"
    and "js_text acc' = js_text acc @ concat (map row_text ls)"
    and "ps = [] \<longleftrightarrow> distinct (map (\<lambda>r. str r ''account_id'') ls) \<and> set (map (\<lambda>r. str r ''account_id'') ls) \<inter> set (js_seen acc) = {}
      \<and> (\<forall>n<length ls. integer (cell (ls ! n) ''ordinal'') = int (i + n)) \<and> (\<forall>r\<in>set ls. exact (str r ''units'') 19)"
proof -
  have "js_debit acc' = js_debit acc + side_total ''DEBIT'' ls \<and> js_credit acc' = js_credit acc + side_total ''CREDIT'' ls
    \<and> js_text acc' = js_text acc @ concat (map row_text ls)
    \<and> (ps = [] \<longleftrightarrow> distinct (map (\<lambda>r. str r ''account_id'') ls) \<and> set (map (\<lambda>r. str r ''account_id'') ls) \<inter> set (js_seen acc) = {}
      \<and> (\<forall>n<length ls. integer (cell (ls ! n) ''ordinal'') = int (i + n)) \<and> (\<forall>r\<in>set ls. exact (str r ''units'') 19))"
    using assms
  proof (induction ls arbitrary: i acc ps)
    case (Cons r ls)
    let ?a = "str r ''account_id''" and ?n = "number (str r ''units'') 19"
    let ?acc1 = "if str r ''side'' = ''DEBIT'' then acc\<lparr>js_debit := js_debit acc + ?n\<rparr> else acc\<lparr>js_credit := js_credit acc + ?n\<rparr>"
    let ?acc2 = "?acc1\<lparr>js_seen := ?a # js_seen ?acc1,
       js_text := js_text ?acc1 @ ?a @ ''|'' @ str r ''side'' @ ''|'' @ str r ''units'' @ [CHR 0x0A]\<rparr>"
    obtain qs where rest: "journal_lines_loop (Suc i) ls ?acc2 = (qs, acc')"
      by (cases "journal_lines_loop (Suc i) ls ?acc2") (use Cons.prems(1) in \<open>auto simp: Let_def\<close>)
    have ps: "ps = flag (integer (cell r ''ordinal'') \<noteq> int i \<or> ?a \<in> set (js_seen acc)) ''invalid journal ordinal or duplicate account''
      @ number_problems (str r ''units'') 19 @ qs"
      using Cons.prems(1) rest by (simp add: Let_def)
    note ih = Cons.IH [OF rest]
    have sides: "\<forall>r\<in>set ls. str r ''side'' \<in> {''DEBIT'', ''CREDIT''}" "str r ''side'' \<in> {''DEBIT'', ''CREDIT''}" using Cons.prems(2) by auto
    have fields: "js_debit ?acc2 = js_debit acc + (if str r ''side'' = ''DEBIT'' then ?n else 0)"
      "js_credit ?acc2 = js_credit acc + (if str r ''side'' = ''CREDIT'' then ?n else 0)"
      "js_seen ?acc2 = ?a # js_seen acc" "js_text ?acc2 = js_text acc @ row_text r" using sides(2) by (auto simp: row_text_def)
    have shift: "(\<forall>n<length (r # ls). integer (cell ((r # ls) ! n) ''ordinal'') = int (i + n)) \<longleftrightarrow>
      integer (cell r ''ordinal'') = int i \<and> (\<forall>n<length ls. integer (cell (ls ! n) ''ordinal'') = int (Suc i + n))"
      by (auto simp: nth_Cons split: nat.splits)
    show ?case unfolding shift using ih [OF sides(1)] unfolding fields ps number_problems_def by (auto simp: row_text_def)
  qed simp
  then show "js_debit acc' = js_debit acc + side_total ''DEBIT'' ls" and "js_credit acc' = js_credit acc + side_total ''CREDIT'' ls"
    and "js_text acc' = js_text acc @ concat (map row_text ls)"
    and "ps = [] \<longleftrightarrow> distinct (map (\<lambda>r. str r ''account_id'') ls) \<and> set (map (\<lambda>r. str r ''account_id'') ls) \<inter> set (js_seen acc) = {}
      \<and> (\<forall>n<length ls. integer (cell (ls ! n) ''ordinal'') = int (i + n)) \<and> (\<forall>r\<in>set ls. exact (str r ''units'') 19)" by blast+
qed

section \<open>The parts of a valid report\<close>

definition event_by :: "snapshot \<Rightarrow> (string \<times> row) list" where
  "event_by s = snd (events_by_op (ix_ops (indexes_of s)) (rows_in s ''outbox_facts'') [] [])"

definition journal_by :: "verifier \<Rightarrow> snapshot \<Rightarrow> (string \<times> string) list" where
  "journal_by V s = snd (journals_by_op (ix_ops (indexes_of s)) (ix_journals (indexes_of s)) (keys_of V 0 (ix_journals (indexes_of s))) [])"

lemma found_Nil:
  "found V s = [] \<longleftrightarrow>
     identity_problems s = [] \<and> (\<forall>name\<in>set required. table_problems V s name = []) \<and> book_problems s = [] \<and> indexes_problems s = []
   \<and> (\<forall>i\<in>set (keys_of V 14 (ix_accounts (indexes_of s))). account_problems (row_at (ix_accounts (indexes_of s)) i) = [])
   \<and> fst (journals_by_op (ix_ops (indexes_of s)) (ix_journals (indexes_of s)) (keys_of V 0 (ix_journals (indexes_of s))) []) = []
   \<and> fst (events_by_op (ix_ops (indexes_of s)) (rows_in s ''outbox_facts'') [] []) = []
   \<and> (\<forall>i\<in>set (keys_of V 1 (ix_ops (indexes_of s))). op_problems V s (indexes_of s) (journal_by V s) (event_by s) i (row_at (ix_ops (indexes_of s)) i) = [])
   \<and> fst (lines_loop (indexes_of s) (rows_in s ''journal_lines'') no_lines) = []
   \<and> (\<forall>i\<in>set (keys_of V 2 (ix_journals (indexes_of s))). journal_problems V s (posted_of s) i (row_at (ix_journals (indexes_of s)) i) = [])
   \<and> fst (holds_loop (indexes_of s) (keys_of V 3 (ix_holds (indexes_of s))) no_holds) = []
   \<and> fst (transfers_loop V (indexes_of s) (keys_of V 4 (ix_ops (indexes_of s))) (hs_consumed (holds_of V s))) = []
   \<and> (\<forall>i\<in>set (keys_of V 5 (ix_claims (indexes_of s))). claim_problems (indexes_of s) (row_at (ix_claims (indexes_of s)) i) = [])
   \<and> (\<forall>i\<in>set (keys_of V 6 (ix_accounts (indexes_of s))). balance_problems (indexes_of s) (posted_of s) (holds_of V s) i = [])
   \<and> length (ix_balances (indexes_of s)) = length (ix_accounts (indexes_of s))
   \<and> index_problems s ''limit_usage'' [''owner_id'', ''bucket''] = []
   \<and> (\<forall>key\<in>set (keys_of V 7 (index s ''limit_usage'' [''owner_id'', ''bucket''])).
        usage_problems (hs_reserved (holds_of V s)) (consumed_of V s) key (row_at (index s ''limit_usage'' [''owner_id'', ''bucket'']) key) = [])
   \<and> (\<forall>key\<in>set (keys_of V 15 (hs_reserved (holds_of V s))). row_at (index s ''limit_usage'' [''owner_id'', ''bucket'']) key \<noteq> None)
   \<and> (\<forall>key\<in>set (keys_of V 16 (consumed_of V s)). row_at (index s ''limit_usage'' [''owner_id'', ''bucket'']) key \<noteq> None)
   \<and> histories V s (indexes_of s) (index s ''limit_usage'' [''owner_id'', ''bucket'']) = []
   \<and> templates V s (indexes_of s) (posted_of s) = []"
  unfolding found_def Let_def case_prod_beta journal_by_def event_by_def
  by (simp only: append_is_Nil_conv concat_eq_Nil_conv set_map ball_simps flag_Nil conj_assoc not_not simp_thms)

lemma indexes_clean:
  assumes "indexes_problems s = []"
  shows "index_problems s ''accounts'' [''account_id''] = []" and "index_problems s ''account_balances'' [''account_id''] = []"
    and "index_problems s ''journals'' [''journal_id''] = []" and "index_problems s ''financial_operations'' [''operation_id''] = []"
    and "index_problems s ''business_claims'' [''payment_id''] = []" and "index_problems s ''holds'' [''hold_id''] = []"
    and "index_problems s ''posting_policies'' [''policy_id''] = []"
  using assms by (simp_all add: indexes_problems_def)

lemma indexes_of_sel [simp]:
  "ix_accounts (indexes_of s) = index s ''accounts'' [''account_id'']" "ix_balances (indexes_of s) = index s ''account_balances'' [''account_id'']"
  "ix_journals (indexes_of s) = index s ''journals'' [''journal_id'']" "ix_ops (indexes_of s) = index s ''financial_operations'' [''operation_id'']"
  "ix_claims (indexes_of s) = index s ''business_claims'' [''payment_id'']" "ix_holds (indexes_of s) = index s ''holds'' [''hold_id'']"
  "ix_policies (indexes_of s) = index s ''posting_policies'' [''policy_id'']"
  by (simp_all add: indexes_of_def)

lemma posted_clean:
  assumes "found V s = []"
  shows "r \<in> set (rows_in s ''journal_lines'') \<Longrightarrow> line_clean (indexes_of s) r"
    and "sum_at (pl_debit (posted_of s)) a = side_total ''DEBIT'' (filter (\<lambda>r. str r ''account_id'' = a) (rows_in s ''journal_lines''))"
    and "sum_at (pl_credit (posted_of s)) a = side_total ''CREDIT'' (filter (\<lambda>r. str r ''account_id'' = a) (rows_in s ''journal_lines''))"
    and "lines_at (pl_lines (posted_of s)) j = lines_of s j"
proof -
  have "lines_loop (indexes_of s) (rows_in s ''journal_lines'') no_lines = ([], posted_of s)"
    using assms by (simp add: found_Nil posted_of_def prod_eq_iff)
  note c = lines_loop_clean [OF this]
  show "r \<in> set (rows_in s ''journal_lines'') \<Longrightarrow> line_clean (indexes_of s) r" using c(1) by blast
  show "sum_at (pl_debit (posted_of s)) a = side_total ''DEBIT'' (filter (\<lambda>r. str r ''account_id'' = a) (rows_in s ''journal_lines''))"
    "sum_at (pl_credit (posted_of s)) a = side_total ''CREDIT'' (filter (\<lambda>r. str r ''account_id'' = a) (rows_in s ''journal_lines''))"
    "lines_at (pl_lines (posted_of s)) j = lines_of s j"
    using c(2-4) by (simp_all add: no_lines_def sum_at_def lines_at_def lines_of_def)
qed

text \<open>Every row of an indexed table is checked.\<close>

lemma checked_row:
  assumes "fair_range V" and "index_problems s table [k] = []" and "r \<in> set (rows_in s table)"
    and "\<forall>i\<in>set (keys_of V n (index s table [k])). P i (row_at (index s table [k]) i)"
  shows "P (str r k) r"
proof -
  have "row_at (index s table [k]) (str r k) = r" "str r k \<in> set (keys_of V n (index s table [k]))"
    using row_at_index [OF assms(2) _ assms(3)] by (simp_all add: keys_of_set [OF assms(1)])
  then show ?thesis using assms(4) by metis
qed

text \<open>No problem with the association of journals and operations, in any order of the journals.\<close>

lemma journals_by_op_clean:
  fixes journals :: "(string \<times> row) list"
  assumes "\<forall>i\<in>set ks. i \<noteq> []" and "\<forall>k v. map_of by_op k = Some v \<longrightarrow> v \<noteq> []"
  defines "op \<equiv> \<lambda>i. str (row_at journals i) ''operation_id''"
  shows "fst (journals_by_op ops journals ks by_op) = [] \<longleftrightarrow>
      distinct (map op ks) \<and> (\<forall>i\<in>set ks. map_of by_op (op i) = None \<and> row_at ops (op i) \<noteq> None)"
    and "distinct (map op ks) \<Longrightarrow> map_of (snd (journals_by_op ops journals ks by_op)) k =
      (case map_of (map (\<lambda>i. (op i, i)) ks) k of None \<Rightarrow> map_of by_op k | Some i \<Rightarrow> Some i)"
proof -
  have "(fst (journals_by_op ops journals ks by_op) = [] \<longleftrightarrow>
      distinct (map op ks) \<and> (\<forall>i\<in>set ks. map_of by_op (op i) = None \<and> row_at ops (op i) \<noteq> None))
    \<and> (distinct (map op ks) \<longrightarrow> map_of (snd (journals_by_op ops journals ks by_op)) k =
      (case map_of (map (\<lambda>i. (op i, i)) ks) k of None \<Rightarrow> map_of by_op k | Some i \<Rightarrow> Some i))"
    using assms(1,2)
  proof (induction ks arbitrary: by_op)
    case (Cons i ks)
    let ?b = "AList.update (op i) i by_op"
    have upd: "map_of ?b k = (if k = op i then Some i else map_of by_op k)" for k by (simp add: update_conv')
    have pre: "\<forall>i\<in>set ks. i \<noteq> []" "\<forall>k v. map_of ?b k = Some v \<longrightarrow> v \<noteq> []" using Cons.prems by (auto simp: upd)
    note ih = Cons.IH [OF pre]
    have old: "(case map_of by_op (op i) of None \<Rightarrow> [] | Some j \<Rightarrow> j) = [] \<longleftrightarrow> map_of by_op (op i) = None"
      using Cons.prems(2) by (auto split: option.split)
    have split: "fst (journals_by_op ops journals (i # ks) by_op) = [] \<longleftrightarrow>
        map_of by_op (op i) = None \<and> row_at ops (op i) \<noteq> None \<and> fst (journals_by_op ops journals ks ?b) = []"
      using old by (simp add: Let_def case_prod_beta op_def)
    have snd: "snd (journals_by_op ops journals (i # ks) by_op) = snd (journals_by_op ops journals ks ?b)"
      by (simp add: Let_def case_prod_beta op_def)
    have none: "map_of (map (\<lambda>i. (op i, i)) ks) (op i) = None" if "op i \<notin> op ` set ks"
      using that by (auto simp: map_of_eq_None_iff image_iff)
    have free: "(\<forall>x\<in>set ks. map_of ?b (op x) = None) \<longleftrightarrow> op i \<notin> op ` set ks \<and> (\<forall>x\<in>set ks. map_of by_op (op x) = None)"
      unfolding upd by (force simp: image_iff)
    have first: "fst (journals_by_op ops journals ks ?b) = [] \<longleftrightarrow> distinct (map op ks) \<and> (\<forall>x\<in>set ks. map_of ?b (op x) = None)
        \<and> (\<forall>x\<in>set ks. row_at ops (op x) \<noteq> None)" using ih by blast
    show ?case unfolding split snd first free using ih none by (auto simp: upd split: option.split)
  qed simp
  then show "fst (journals_by_op ops journals ks by_op) = [] \<longleftrightarrow>
      distinct (map op ks) \<and> (\<forall>i\<in>set ks. map_of by_op (op i) = None \<and> row_at ops (op i) \<noteq> None)"
    and "distinct (map op ks) \<Longrightarrow> map_of (snd (journals_by_op ops journals ks by_op)) k =
      (case map_of (map (\<lambda>i. (op i, i)) ks) k of None \<Rightarrow> map_of by_op k | Some i \<Rightarrow> Some i)" by blast+
qed

lemma index_keys: "index_problems s table keys = [] \<Longrightarrow> i \<in> set (map fst (index s table keys)) \<Longrightarrow>
    \<exists>r\<in>set (rows_in s table). row_id r keys = i \<and> row_at (index s table keys) i = r"
proof -
  assume c: "index_problems s table keys = []" and "i \<in> set (map fst (index s table keys))"
  then obtain r where "map_of (index s table keys) i = Some r" by (metis list.set_map map_of_eq_None_iff not_None_eq)
  then show ?thesis using index_clean(3) [OF c, of i r] by (auto simp: row_at_def)
qed

lemma journal_keys:
  assumes "fair_range V" and "index_problems s ''journals'' [''journal_id''] = []"
  shows "\<forall>i\<in>set (keys_of V n (index s ''journals'' [''journal_id''])). i \<noteq> []"
  unfolding keys_of_set [OF assms(1)] using index_keys [OF assms(2)] index_clean(2) [OF assms(2)] by fastforce

text \<open>What \<open>journalByOp\<close> says when there is no problem with it.\<close>

lemma journal_by_clean:
  assumes "fair_range V" and "found V s = []"
  shows "j \<in> set (rows_in s ''journals'') \<Longrightarrow> map_of (journal_by V s) (str j ''operation_id'') = Some (str j ''journal_id'')"
    and "j \<in> set (rows_in s ''journals'') \<Longrightarrow> row_at (index s ''financial_operations'' [''operation_id'']) (str j ''operation_id'') \<noteq> None"
proof -
  let ?J = "index s ''journals'' [''journal_id'']"
  let ?op = "\<lambda>i. str (row_at ?J i) ''operation_id''"
  note parts = assms(2) [unfolded found_Nil]
  have clean: "index_problems s ''journals'' [''journal_id''] = []" using parts indexes_clean(3) by blast
  note c = journals_by_op_clean [where journals = ?J, OF journal_keys [OF assms(1) clean, of 0], of "[]"]
  have ok: "distinct (map ?op (keys_of V 0 ?J))" "\<forall>i\<in>set (keys_of V 0 ?J). row_at (index s ''financial_operations'' [''operation_id'']) (?op i) \<noteq> None"
    using parts c(1) [of "index s ''financial_operations'' [''operation_id'']"] by simp_all
  show "map_of (journal_by V s) (str j ''operation_id'') = Some (str j ''journal_id'')"
    and "row_at (index s ''financial_operations'' [''operation_id'']) (str j ''operation_id'') \<noteq> None"
    if "j \<in> set (rows_in s ''journals'')" for j
  proof -
    have j: "row_at ?J (str j ''journal_id'') = j" "str j ''journal_id'' \<in> set (keys_of V 0 ?J)"
      using row_at_index [OF clean _ that] by (simp_all add: keys_of_set [OF assms(1)])
    then show "row_at (index s ''financial_operations'' [''operation_id'']) (str j ''operation_id'') \<noteq> None" using ok(2) by metis
    have "distinct (map fst (map (\<lambda>i. (?op i, i)) (keys_of V 0 ?J)))" using ok(1) by (simp add: o_def)
    moreover have "(str j ''operation_id'', str j ''journal_id'') \<in> set (map (\<lambda>i. (?op i, i)) (keys_of V 0 ?J))" using j by force
    ultimately have "map_of (map (\<lambda>i. (?op i, i)) (keys_of V 0 ?J)) (str j ''operation_id'') = Some (str j ''journal_id'')"
      by (rule map_of_is_SomeI)
    then show "map_of (journal_by V s) (str j ''operation_id'') = Some (str j ''journal_id'')"
      using c(2) [OF _ ok(1)] by (simp add: journal_by_def)
  qed
qed

text \<open>
  C21. In a snapshot the verifier reports as valid every journal is a double entry: two to eight lines with distinct
  accounts of the snapshot, each an exact positive 64-bit amount on one side, debits equal to credits, with the digest of exactly these lines
  in order, and it belongs to an operation of the snapshot.
\<close>

theorem verified_journals_balance:
  assumes "fair_range V" and "rep_Valid (Verify V s)" and "j \<in> set (rows_in s ''journals'')"
  shows "let ls = by_ordinal (lines_of s (str j ''journal_id'')) in
      2 \<le> length ls \<and> length ls \<le> 8 \<and> distinct (map (\<lambda>r. str r ''account_id'') ls) \<and> (\<forall>r\<in>set ls. line_clean (indexes_of s) r)
    \<and> side_total ''DEBIT'' ls = side_total ''CREDIT'' ls
    \<and> digest_of V (sn_BookID s @ ''|KES|2'' @ [CHR 0x0A] @ concat (map row_text ls)) = str j ''digest''
    \<and> (\<exists>op\<in>set (rows_in s ''financial_operations''). str op ''operation_id'' = str j ''operation_id'')"
proof -
  have valid: "found V s = []" using assms(2) Verify_valid by blast
  note parts = valid [unfolded found_Nil]
  have jp: "journal_problems V s (posted_of s) (str j ''journal_id'') j = []"
    using checked_row [OF assms(1) indexes_clean(3) assms(3), of 2 "\<lambda>i r. journal_problems V s (posted_of s) i r = []"] parts by simp
  let ?ls = "by_ordinal (lines_of s (str j ''journal_id''))"
  have clean: "\<forall>r\<in>set ?ls. line_clean (indexes_of s) r" using posted_clean(1) [OF valid] by (auto simp: lines_of_def)
  then have sides: "\<forall>r\<in>set ?ls. str r ''side'' \<in> {''DEBIT'', ''CREDIT''}" by (simp add: line_clean_def)
  obtain ps acc where run: "journal_lines_loop 0 ?ls \<lparr>js_debit = 0, js_credit = 0, js_seen = [], js_text = sn_BookID s @ ''|KES|2'' @ [CHR 0x0A]\<rparr> = (ps, acc)"
    by fastforce
  have p: "ps = []" "2 \<le> length ?ls" "length ?ls \<le> 8" "js_debit acc = js_credit acc" "digest_of V (js_text acc) = str j ''digest''"
    using jp run by (simp_all add: journal_problems_def Let_def posted_clean(4) [OF valid] not_less)
  note c = journal_lines_clean [OF run sides]
  have "\<exists>op\<in>set (rows_in s ''financial_operations''). str op ''operation_id'' = str j ''operation_id''"
    using row_at_Some [OF indexes_clean(4) journal_by_clean(2) [OF assms(1) valid assms(3)]] parts by auto
  then show ?thesis unfolding Let_def using p c clean by simp
qed

section \<open>Holds\<close>

lemma update_new: "k \<notin> fst ` set al \<Longrightarrow> AList.update k v al = al @ [(k, v)]"
  by (induction al) auto

lemma index_rows_list:
  assumes "index_rows table keys rs result = ([], result')"
  shows "result' = result @ map (\<lambda>r. (row_id r keys, r)) rs"
  using assms
proof (induction rs arbitrary: result)
  case (Cons r rs)
  obtain ps where rest: "index_rows table keys rs (AList.update (row_id r keys) r result) = (ps, result')" "ps = []"
    and "map_of result (row_id r keys) = None"
    using Cons.prems by (auto simp: Let_def split: prod.split_asm)
  then have "AList.update (row_id r keys) r result = result @ [(row_id r keys, r)]"
    by (intro update_new) (simp add: map_of_eq_None_iff)
  then show ?case using Cons.IH [of "result @ [(row_id r keys, r)]"] rest by simp
qed simp

lemma index_list:
  "index_problems s table keys = [] \<Longrightarrow> index s table keys = map (\<lambda>r. (row_id r keys, r)) (rows_in s table)"
  using index_rows_list [of table keys "rows_in s table" "[]"] by (simp add: index_problems_def index_def prod_eq_iff)

text \<open>A range over an index visits the rows of the table.\<close>

lemma visited_rows:
  assumes "fair_range V" and "index_problems s table keys = []" and "keys \<noteq> []"
  shows "mset (map (row_at (index s table keys)) (keys_of V n (index s table keys))) = mset (rows_in s table)"
proof -
  let ?I = "index s table keys"
  have "mset (keys_of V n ?I) = mset (map fst ?I)" using assms(1) by (simp add: fair_range_def keys_of_def)
  then have "mset (map (row_at ?I) (keys_of V n ?I)) = mset (map (row_at ?I) (map fst ?I))" by (simp only: mset_map)
  also have "map (row_at ?I) (map fst ?I) = map (\<lambda>r. row_at ?I (row_id r keys)) (rows_in s table)"
    by (subst (2) index_list [OF assms(2)]) simp
  also have "\<dots> = map (\<lambda>r. r) (rows_in s table)" by (rule map_cong [OF refl row_at_index(1) [OF assms(2,3)]])
  finally show ?thesis by simp
qed

definition hold_is_open :: "row \<Rightarrow> bool" where
  "hold_is_open h = (str h ''state'' = ''RESERVED'' \<or> str h ''state'' = ''EXPOSED'')"

text \<open>What a hold keeps on an account, reserves of a limit and has consumed of one.\<close>

definition held_by :: "string \<Rightarrow> row \<Rightarrow> int" where
  "held_by a h = (if hold_is_open h then
     (if str (hold_terms h) ''source_id'' = a then hold_principal h + hold_fee h else 0) +
     (if str (json_body h ''terms'') ''pool_id'' = a then hold_principal h else 0) else 0)"

definition reserved_by :: "string \<Rightarrow> row \<Rightarrow> int" where
  "reserved_by key h = (if hold_is_open h \<and> hold_key h = key then hold_principal h else 0)"

definition captured_by :: "string \<Rightarrow> row \<Rightarrow> int" where
  "captured_by key h = (if str h ''state'' = ''CAPTURED'' \<and> hold_key h = key then hold_principal h else 0)"

definition hold_accounts :: "indexes \<Rightarrow> row \<Rightarrow> bool" where
  "hold_accounts ix h = (map_of (ix_accounts ix) (str (hold_terms h) ''source_id'') \<noteq> None \<and> map_of (ix_accounts ix) (str (json_body h ''terms'') ''pool_id'') \<noteq> None)"

lemma holds_loop_eq:
  "holds_loop ix ks acc = (concat (map (\<lambda>i. hold_problems ix i (row_at (ix_holds ix) i)) ks),
     fold (hold_sum ix) (map (row_at (ix_holds ix)) ks) acc)"
  by (induction ks arbitrary: acc) (simp_all add: Let_def)

lemma hold_sum_sel:
  assumes "hold_is_open h \<longrightarrow> hold_accounts ix h"
  shows "sum_at (hs_held (hold_sum ix h acc)) a = sum_at (hs_held acc) a + held_by a h"
    and "sum_at (hs_reserved (hold_sum ix h acc)) key = sum_at (hs_reserved acc) key + reserved_by key h"
    and "sum_at (hs_consumed (hold_sum ix h acc)) key = sum_at (hs_consumed acc) key + captured_by key h"
    and "hs_open (hold_sum ix h acc) = hs_open acc + (if hold_is_open h then 1 else 0)"
  using assms by (auto simp: hold_sum_def Let_def held_by_def reserved_by_def captured_by_def hold_is_open_def hold_accounts_def)

lemma fold_hold_sums:
  assumes "\<forall>h\<in>set hs. hold_is_open h \<longrightarrow> hold_accounts ix h"
  shows "sum_at (hs_held (fold (hold_sum ix) hs acc)) a = sum_at (hs_held acc) a + (\<Sum>h\<in>#mset hs. held_by a h)"
    and "sum_at (hs_reserved (fold (hold_sum ix) hs acc)) key = sum_at (hs_reserved acc) key + (\<Sum>h\<in>#mset hs. reserved_by key h)"
    and "sum_at (hs_consumed (fold (hold_sum ix) hs acc)) key = sum_at (hs_consumed acc) key + (\<Sum>h\<in>#mset hs. captured_by key h)"
    and "hs_open (fold (hold_sum ix) hs acc) = hs_open acc + length (filter hold_is_open hs)"
proof -
  have "sum_at (hs_held (fold (hold_sum ix) hs acc)) a = sum_at (hs_held acc) a + (\<Sum>h\<in>#mset hs. held_by a h)
    \<and> sum_at (hs_reserved (fold (hold_sum ix) hs acc)) key = sum_at (hs_reserved acc) key + (\<Sum>h\<in>#mset hs. reserved_by key h)
    \<and> sum_at (hs_consumed (fold (hold_sum ix) hs acc)) key = sum_at (hs_consumed acc) key + (\<Sum>h\<in>#mset hs. captured_by key h)
    \<and> hs_open (fold (hold_sum ix) hs acc) = hs_open acc + length (filter hold_is_open hs)"
    using assms by (induction hs arbitrary: acc) (simp_all add: hold_sum_sel)
  then show "sum_at (hs_held (fold (hold_sum ix) hs acc)) a = sum_at (hs_held acc) a + (\<Sum>h\<in>#mset hs. held_by a h)"
    and "sum_at (hs_reserved (fold (hold_sum ix) hs acc)) key = sum_at (hs_reserved acc) key + (\<Sum>h\<in>#mset hs. reserved_by key h)"
    and "sum_at (hs_consumed (fold (hold_sum ix) hs acc)) key = sum_at (hs_consumed acc) key + (\<Sum>h\<in>#mset hs. captured_by key h)"
    and "hs_open (fold (hold_sum ix) hs acc) = hs_open acc + length (filter hold_is_open hs)" by blast+
qed

lemma str_row_at: "str (row_at m i) k \<noteq> [] \<Longrightarrow> map_of m i \<noteq> None"
  by (auto simp: row_at_def split: option.splits)

lemma hold_problems_accounts: "hold_problems ix i h = [] \<Longrightarrow> hold_accounts ix h"
  using str_row_at [of "ix_accounts ix" "str (hold_terms h) ''source_id''" "''purpose''"]
    str_row_at [of "ix_accounts ix" "str (json_body h ''terms'') ''pool_id''" "''purpose''"]
  by (auto simp: hold_problems_def Let_def hold_accounts_def)

text \<open>The holds of a valid snapshot, and the sums over them.\<close>

lemma holds_clean:
  assumes "fair_range V" and "found V s = []"
  shows "h \<in> set (rows_in s ''holds'') \<Longrightarrow> hold_problems (indexes_of s) (str h ''hold_id'') h = []"
    and "sum_at (hs_held (holds_of V s)) a = (\<Sum>h\<leftarrow>rows_in s ''holds''. held_by a h)"
    and "sum_at (hs_reserved (holds_of V s)) key = (\<Sum>h\<leftarrow>rows_in s ''holds''. reserved_by key h)"
    and "sum_at (hs_consumed (holds_of V s)) key = (\<Sum>h\<leftarrow>rows_in s ''holds''. captured_by key h)"
    and "hs_open (holds_of V s) = length (filter hold_is_open (rows_in s ''holds''))"
proof -
  let ?H = "index s ''holds'' [''hold_id'']"
  note parts = assms(2) [unfolded found_Nil]
  have clean: "index_problems s ''holds'' [''hold_id''] = []" using parts indexes_clean(6) by blast
  let ?hs = "map (row_at ?H) (keys_of V 3 ?H)"
  have bag: "mset ?hs = mset (rows_in s ''holds'')" by (rule visited_rows [OF assms(1) clean]) simp
  have all: "\<forall>i\<in>set (keys_of V 3 ?H). hold_problems (indexes_of s) i (row_at ?H i) = []"
    using parts by (simp add: holds_loop_eq)
  show row: "hold_problems (indexes_of s) (str h ''hold_id'') h = []" if "h \<in> set (rows_in s ''holds'')" for h
    using checked_row [where P = "\<lambda>i h. hold_problems (indexes_of s) i h = []", OF assms(1) clean that all] .
  have acc: "\<forall>h\<in>set ?hs. hold_is_open h \<longrightarrow> hold_accounts (indexes_of s) h"
    using row hold_problems_accounts mset_eq_setD [OF bag] by blast
  have sums: "holds_of V s = fold (hold_sum (indexes_of s)) ?hs no_holds" by (simp add: holds_of_def holds_loop_eq)
  note f = fold_hold_sums [OF acc, of no_holds]
  show "sum_at (hs_held (holds_of V s)) a = (\<Sum>h\<leftarrow>rows_in s ''holds''. held_by a h)"
    "sum_at (hs_reserved (holds_of V s)) key = (\<Sum>h\<leftarrow>rows_in s ''holds''. reserved_by key h)"
    "sum_at (hs_consumed (holds_of V s)) key = (\<Sum>h\<leftarrow>rows_in s ''holds''. captured_by key h)"
    unfolding sums f(1-3) bag by (simp_all add: no_holds_def sum_at_def flip: sum_mset_sum_list)
  show "hs_open (holds_of V s) = length (filter hold_is_open (rows_in s ''holds''))"
    using arg_cong [OF bag, of "\<lambda>m. size (filter_mset hold_is_open m)"] unfolding sums f(4)
    by (simp only: mset_filter [symmetric] size_mset) (simp add: no_holds_def)
qed

text \<open>
  C20. In a snapshot the verifier reports as valid every account has one balance that is exactly its history: the
  debits and credits it states are the sums of the journal lines of the account, what it holds is the sum over the open holds (principal
  and fee at the source wallet, principal at the pool), its purpose is the account's, and what is posted on its normal side covers what is held.
\<close>

theorem verified_balances:
  assumes "fair_range V" and "rep_Valid (Verify V s)" and "a \<in> set (rows_in s ''accounts'')"
  shows "\<exists>b\<in>set (rows_in s ''account_balances''). let i = str a ''account_id''; ls = filter (\<lambda>r. str r ''account_id'' = i) (rows_in s ''journal_lines'') in
      str b ''account_id'' = i \<and> str b ''purpose'' = str a ''purpose''
    \<and> exact (str b ''debits'') 38 \<and> exact (str b ''credits'') 38 \<and> exact (str b ''held'') 38
    \<and> dec_ival (str b ''debits'') = side_total ''DEBIT'' ls \<and> dec_ival (str b ''credits'') = side_total ''CREDIT'' ls
    \<and> dec_ival (str b ''held'') = (\<Sum>h\<leftarrow>rows_in s ''holds''. held_by i h)
    \<and> dec_ival (str b ''held'') \<le> (if str a ''purpose'' = ''PROVIDER_POOL'' then 1 else - 1) * (side_total ''DEBIT'' ls - side_total ''CREDIT'' ls)"
proof -
  have valid: "found V s = []" using assms(2) Verify_valid by blast
  note parts = valid [unfolded found_Nil]
  have clean: "index_problems s ''accounts'' [''account_id''] = []" "index_problems s ''account_balances'' [''account_id''] = []"
    using parts indexes_clean(1,2) by blast+
  let ?i = "str a ''account_id''" and ?B = "index s ''account_balances'' [''account_id'']"
  have bp: "balance_problems (indexes_of s) (posted_of s) (holds_of V s) ?i = []"
    using checked_row [where P = "\<lambda>i a. balance_problems (indexes_of s) (posted_of s) (holds_of V s) i = []" and n = 6, OF assms(1) clean(1) assms(3)] parts by simp
  have a: "row_at (index s ''accounts'' [''account_id'']) ?i = a" using row_at_index(1) [OF clean(1) _ assms(3)] by simp
  define b where "b = row_at ?B ?i"
  have facts: "b \<noteq> None" "str b ''purpose'' = str a ''purpose''" "exact (str b ''debits'') 38" "exact (str b ''credits'') 38" "exact (str b ''held'') 38"
    "sum_at (pl_debit (posted_of s)) ?i = dec_ival (str b ''debits'')" "sum_at (pl_credit (posted_of s)) ?i = dec_ival (str b ''credits'')"
    "sum_at (hs_held (holds_of V s)) ?i = dec_ival (str b ''held'')"
    "\<not> (if str a ''purpose'' = ''PROVIDER_POOL'' then sum_at (pl_debit (posted_of s)) ?i - sum_at (pl_credit (posted_of s)) ?i
      else sum_at (pl_credit (posted_of s)) ?i - sum_at (pl_debit (posted_of s)) ?i) < sum_at (hs_held (holds_of V s)) ?i"
    using bp unfolding balance_problems_def Let_def
    by (simp_all add: a number_def number_problems_def flip: b_def split: if_split_asm)
  have "b \<in> set (rows_in s ''account_balances'')" "str b ''account_id'' = ?i"
    using row_at_Some [OF clean(2)] facts(1) by (simp_all add: b_def)
  then show ?thesis
    using facts posted_clean(2,3) [OF valid, of ?i] holds_clean(2) [OF assms(1) valid, of ?i]
    by (intro bexI [of _ b]) (auto simp: Let_def split: if_split_asm)
qed

end
