(* ===== verification/Reconciled.thy ===== *)
theory Reconciled
  imports Verified
begin

text \<open>
  More of what a valid report of the verifier establishes: operations and their evidence, histories, limits; the report
  itself; and how the verifier agrees with the domain it deliberately does not import.
\<close>

section \<open>Operations\<close>

text \<open>\<open>eventByOp\<close> when no outbox fact is a problem.\<close>

lemma events_by_op_clean:
  assumes "fst (events_by_op ops events by_op ids) = []" and "None \<notin> set events"
  shows "\<forall>e\<in>set events. row_at by_op (str e ''operation_id'') = None \<and> row_at ops (str e ''operation_id'') \<noteq> None
      \<and> str e ''event_type'' = ''LedgerOperationResolved'' \<and> str e ''event_id'' \<noteq> [] \<and> str e ''event_id'' \<notin> set ids"
    and "distinct (map (\<lambda>e. str e ''operation_id'') events)" and "distinct (map (\<lambda>e. str e ''event_id'') events)"
    and "row_at (snd (events_by_op ops events by_op ids)) i =
      (case List.find (\<lambda>e. str e ''operation_id'' = i) events of None \<Rightarrow> row_at by_op i | Some e \<Rightarrow> e)"
proof -
  have "(\<forall>e\<in>set events. row_at by_op (str e ''operation_id'') = None \<and> row_at ops (str e ''operation_id'') \<noteq> None
      \<and> str e ''event_type'' = ''LedgerOperationResolved'' \<and> str e ''event_id'' \<noteq> [] \<and> str e ''event_id'' \<notin> set ids)
    \<and> distinct (map (\<lambda>e. str e ''operation_id'') events) \<and> distinct (map (\<lambda>e. str e ''event_id'') events)
    \<and> row_at (snd (events_by_op ops events by_op ids)) i =
      (case List.find (\<lambda>e. str e ''operation_id'' = i) events of None \<Rightarrow> row_at by_op i | Some e \<Rightarrow> e)"
    using assms
  proof (induction events arbitrary: by_op ids)
    case (Cons e es)
    let ?o = "str e ''operation_id''" and ?b = "AList.update (str e ''operation_id'') e by_op"
    have upd: "row_at ?b k = (if k = ?o then e else row_at by_op k)" for k by (simp add: row_at_def update_conv')
    have here: "row_at by_op ?o = None" "str e ''event_id'' \<notin> set ids" "str e ''event_id'' \<noteq> []" "row_at ops ?o \<noteq> None"
      "str e ''event_type'' = ''LedgerOperationResolved''" and rest: "fst (events_by_op ops es ?b (str e ''event_id'' # ids)) = []"
      using Cons.prems(1) by (simp_all add: Let_def case_prod_beta)
    have snd: "snd (events_by_op ops (e # es) by_op ids) = snd (events_by_op ops es ?b (str e ''event_id'' # ids))"
      by (simp add: Let_def case_prod_beta)
    have e: "e \<noteq> None" "None \<notin> set es" using Cons.prems(2) by (cases e; simp)+
    note ih = Cons.IH [OF rest e(2)]
    have ahead: "row_at ?b (str x ''operation_id'') = None" if "x \<in> set es" for x using ih that by blast
    have other: "str x ''operation_id'' \<noteq> ?o" if "x \<in> set es" for x
    proof
      assume "str x ''operation_id'' = ?o"
      then show False using ahead [OF that] e(1) unfolding upd by simp
    qed
    have behind: "row_at by_op (str x ''operation_id'') = None" if "x \<in> set es" for x
      using ahead [OF that] other [OF that] unfolding upd by simp
    have fresh: "str x ''event_id'' \<noteq> str e ''event_id''" if "x \<in> set es" for x using ih that by auto
    have find: "List.find (\<lambda>e. str e ''operation_id'' = ?o) es = None" using other by (auto simp: find_None_iff)
    have all: "\<forall>x\<in>set (e # es). row_at by_op (str x ''operation_id'') = None \<and> row_at ops (str x ''operation_id'') \<noteq> None
      \<and> str x ''event_type'' = ''LedgerOperationResolved'' \<and> str x ''event_id'' \<noteq> [] \<and> str x ''event_id'' \<notin> set ids"
      using here behind ih by simp
    have ops: "distinct (map (\<lambda>e. str e ''operation_id'') (e # es))" using ih other by force
    have ids: "distinct (map (\<lambda>e. str e ''event_id'') (e # es))" using ih fresh by force
    have at: "row_at (snd (events_by_op ops es ?b (str e ''event_id'' # ids))) i =
        (case List.find (\<lambda>e. str e ''operation_id'' = i) es of None \<Rightarrow> row_at ?b i | Some e \<Rightarrow> e)" using ih by blast
    have "row_at (snd (events_by_op ops (e # es) by_op ids)) i =
        (case List.find (\<lambda>e. str e ''operation_id'' = i) (e # es) of None \<Rightarrow> row_at by_op i | Some e \<Rightarrow> e)"
      unfolding snd at by (cases "i = ?o") (use find in \<open>simp_all add: upd split: option.split\<close>)
    then show ?case using all ops ids by blast
  qed simp
  then show "\<forall>e\<in>set events. row_at by_op (str e ''operation_id'') = None \<and> row_at ops (str e ''operation_id'') \<noteq> None
      \<and> str e ''event_type'' = ''LedgerOperationResolved'' \<and> str e ''event_id'' \<noteq> [] \<and> str e ''event_id'' \<notin> set ids"
    and "distinct (map (\<lambda>e. str e ''operation_id'') events)" and "distinct (map (\<lambda>e. str e ''event_id'') events)"
    and "row_at (snd (events_by_op ops events by_op ids)) i =
      (case List.find (\<lambda>e. str e ''operation_id'' = i) events of None \<Rightarrow> row_at by_op i | Some e \<Rightarrow> e)" by blast+
qed

lemma filter_unique: "distinct (map f xs) \<Longrightarrow> x \<in> set xs \<Longrightarrow> filter (\<lambda>y. f y = f x) xs = [x]"
  by (induction xs) (auto simp: filter_empty_conv image_iff)

lemma outbox_rows:
  assumes "found V s = []"
  shows "None \<notin> set (rows_in s ''outbox_facts'')"
proof
  assume n: "None \<in> set (rows_in s ''outbox_facts'')"
  have "sn_BookID s \<noteq> []" using assms by (simp add: found_Nil identity_problems_def)
  moreover have "table_problems V s ''outbox_facts'' = []" using assms by (simp add: found_Nil required_def)
  then have "str None ''book_id'' = sn_BookID s" using n by (fastforce simp: table_problems_def)
  ultimately show False by simp
qed

lemma no_journal:
  assumes "fair_range V" and "found V s = []" and "map_of (journal_by V s) i = Some x"
  shows "\<exists>j\<in>set (rows_in s ''journals''). str j ''operation_id'' = i \<and> str j ''journal_id'' = x"
proof -
  let ?J = "index s ''journals'' [''journal_id'']"
  let ?op = "\<lambda>i. str (row_at ?J i) ''operation_id''"
  note parts = assms(2) [unfolded found_Nil]
  have clean: "index_problems s ''journals'' [''journal_id''] = []" using parts indexes_clean(3) by blast
  note c = journals_by_op_clean [where journals = ?J, OF journal_keys [OF assms(1) clean, of 0], of "[]"]
  have d: "distinct (map ?op (keys_of V 0 ?J))" using parts c(1) [of "index s ''financial_operations'' [''operation_id'']"] by simp
  have "map_of (journal_by V s) i = map_of (map (\<lambda>i. (?op i, i)) (keys_of V 0 ?J)) i"
    using c(2) [OF _ d] by (simp add: journal_by_def split: option.split)
  then have "(i, x) \<in> set (map (\<lambda>i. (?op i, i)) (keys_of V 0 ?J))" using assms(3) by (intro map_of_SomeD) simp
  then have x: "x \<in> set (map fst ?J)" "i = ?op x" by (auto simp: keys_of_set [OF assms(1)])
  from index_keys [OF clean x(1)] x(2) show ?thesis by auto
qed

text \<open>
  C22. In a snapshot the verifier reports as valid no operation is silent, altered or forged: each carries the canonical
  text whose hash it states, its receipt names it, its book, hash and outcome, exactly one outbox fact belongs to it and publishes this
  receipt under its event identity, and it has a journal exactly if the receipt says so, then being applied with the template of its kind.
\<close>

theorem verified_operations:
  assumes "fair_range V" and "rep_Valid (Verify V s)" and "op \<in> set (rows_in s ''financial_operations'')"
  shows "let i = str op ''operation_id''; receipt = json_body op ''receipt''; j = str receipt ''journal_id'' in
      snd (hex_string (str op ''canonical'')) \<and> vf_Transform V (canonical_bytes op) = Some (canonical_bytes op)
    \<and> digest_of V (canonical_bytes op) = str op ''request_hash''
    \<and> str (material_of op) ''book_id'' = sn_BookID s \<and> str (material_of op) ''kind'' = str receipt ''kind''
    \<and> str receipt ''operation_id'' = i \<and> str receipt ''book_id'' = sn_BookID s \<and> str receipt ''request_hash'' = str op ''request_hash''
    \<and> str receipt ''outcome'' = str op ''outcome'' \<and> str op ''outcome'' \<in> {''APPLIED'', ''REJECTED''}
    \<and> (\<exists>e. filter (\<lambda>e. str e ''operation_id'' = i) (rows_in s ''outbox_facts'') = [e] \<and> str e ''event_id'' = str receipt ''event_id''
          \<and> equal_json V (row_json (json_body e ''body'')) (row_json receipt))
    \<and> (if j = [] then \<forall>x\<in>set (rows_in s ''journals''). str x ''operation_id'' \<noteq> i
       else str op ''outcome'' = ''APPLIED'' \<and> (\<exists>x\<in>set (rows_in s ''journals''). str x ''journal_id'' = j \<and> str x ''operation_id'' = i
          \<and> str x ''template'' = str receipt ''kind'' @ ''/v1''))"
proof -
  have valid: "found V s = []" using assms(2) Verify_valid by blast
  note parts = valid [unfolded found_Nil]
  have clean: "index_problems s ''financial_operations'' [''operation_id''] = []" "index_problems s ''journals'' [''journal_id''] = []"
    using parts indexes_clean(3,4) by blast+
  let ?i = "str op ''operation_id''" and ?r = "json_body op ''receipt''"
  have p: "op_problems V s (indexes_of s) (journal_by V s) (event_by s) ?i op = []"
    using checked_row [where P = "\<lambda>i op. op_problems V s (indexes_of s) (journal_by V s) (event_by s) i op = []" and n = 1,
      OF assms(1) clean(1) assms(3)] parts by simp
  have outbox: "fst (events_by_op (index s ''financial_operations'' [''operation_id'']) (rows_in s ''outbox_facts'') [] []) = []"
    using parts by simp
  note ev = events_by_op_clean [OF outbox outbox_rows [OF valid]]
  have event: "row_at (event_by s) ?i \<noteq> None" "str (row_at (event_by s) ?i) ''event_id'' = str ?r ''event_id''"
    "equal_json V (row_json (json_body (row_at (event_by s) ?i) ''body'')) (row_json ?r)"
    using p unfolding op_problems_def Let_def by (simp_all split: if_split_asm)
  obtain e where e: "List.find (\<lambda>e. str e ''operation_id'' = ?i) (rows_in s ''outbox_facts'') = Some e" "row_at (event_by s) ?i = e"
    using event(1) ev(4) [of ?i] by (auto simp: event_by_def row_at_def [of "[]"] split: option.split_asm)
  have mem: "e \<in> set (rows_in s ''outbox_facts'')" "str e ''operation_id'' = ?i" using e(1) by (auto simp: find_Some_iff)
  have one: "filter (\<lambda>e. str e ''operation_id'' = ?i) (rows_in s ''outbox_facts'') = [e]"
    using filter_unique [where f = "\<lambda>e. str e ''operation_id''", OF ev(2) mem(1)] mem(2) by simp
  have rest: "snd (hex_string (str op ''canonical''))" "vf_Transform V (canonical_bytes op) = Some (canonical_bytes op)"
    "digest_of V (canonical_bytes op) = str op ''request_hash''" "str (material_of op) ''book_id'' = sn_BookID s"
    "str (material_of op) ''kind'' = str ?r ''kind''" "str ?r ''operation_id'' = ?i" "str ?r ''book_id'' = sn_BookID s"
    "str ?r ''request_hash'' = str op ''request_hash''" "str ?r ''outcome'' = str op ''outcome''" "str op ''outcome'' \<in> {''APPLIED'', ''REJECTED''}"
    "str ?r ''journal_id'' = (case map_of (journal_by V s) ?i of None \<Rightarrow> [] | Some j \<Rightarrow> j)"
    "str ?r ''journal_id'' \<noteq> [] \<longrightarrow> str op ''outcome'' = ''APPLIED'' \<and>
       str (row_at (index s ''journals'' [''journal_id'']) (str ?r ''journal_id'')) ''template'' = str ?r ''kind'' @ ''/v1''"
    using p unfolding op_problems_def Let_def by (auto split: if_split_asm)
  have journal: "if str ?r ''journal_id'' = [] then \<forall>x\<in>set (rows_in s ''journals''). str x ''operation_id'' \<noteq> ?i
       else str op ''outcome'' = ''APPLIED'' \<and> (\<exists>x\<in>set (rows_in s ''journals''). str x ''journal_id'' = str ?r ''journal_id'' \<and> str x ''operation_id'' = ?i
          \<and> str x ''template'' = str ?r ''kind'' @ ''/v1'')"
  proof (cases "str ?r ''journal_id'' = []")
    case True
    have False if "x \<in> set (rows_in s ''journals'')" "str x ''operation_id'' = ?i" for x
      using journal_by_clean(1) [OF assms(1) valid that(1)] that rest(11) True index_clean(2) [OF clean(2) that(1)] by simp
    then show ?thesis using True by auto
  next
    case False
    then obtain j where "map_of (journal_by V s) ?i = Some j" "j = str ?r ''journal_id''" using rest(11) by (auto split: option.split_asm)
    then obtain x where x: "x \<in> set (rows_in s ''journals'')" "str x ''operation_id'' = ?i" "str x ''journal_id'' = str ?r ''journal_id''"
      using no_journal [OF assms(1) valid] by blast
    moreover have "row_at (index s ''journals'' [''journal_id'']) (str ?r ''journal_id'') = x"
      using row_at_index(1) [OF clean(2) _ x(1)] x(3) by simp
    ultimately show ?thesis using False rest(12) by auto
  qed
  show ?thesis unfolding Let_def using rest(1-10) one event e(2) journal by blast
qed

section \<open>Histories\<close>

lemma history_loop_eq:
  "fst (history_loop V t i prior rs) = [] \<longleftrightarrow>
     (\<forall>n<length rs. event_problems V t (i + n) ((prior # map after_of rs) ! n) (rs ! n) = [])"
  "snd (history_loop V t i prior rs) = last (prior # map after_of rs)"
proof (induction rs arbitrary: i prior)
  case (Cons r rs)
  have split: "(\<forall>n<length (r # rs). P n) \<longleftrightarrow> P 0 \<and> (\<forall>n<length rs. P (Suc n))" for P
    by (auto simp: less_Suc_eq_0_disj)
  case 1
  then show ?case unfolding split using Cons.IH(1) [of "Suc i" "after_of r"] by (simp add: Let_def case_prod_beta)
  case 2
  then show ?case using Cons.IH(2) [of "Suc i" "after_of r"] by (simp add: Let_def case_prod_beta)
qed simp_all

text \<open>The state a hold event leads to.\<close>

definition state_after :: "row \<Rightarrow> string" where
  "state_after r = str (obj (cell (after_of r) ''state'')) ''State''"

lemma after_state: "str (obj (cell (after_of r) ''state'')) ''State'' = state_after r" by (simp add: state_after_def)

text \<open>A sequence of states a hold can go through.\<close>

fun hold_path :: "string list \<Rightarrow> bool" where
  "hold_path (a # b # ss) = (hold_move a b \<and> hold_path (b # ss))"
| "hold_path _ = True"

lemma hold_path_nth: "(\<forall>n. Suc n < length ss \<longrightarrow> hold_move (ss ! n) (ss ! Suc n)) \<Longrightarrow> hold_path ss"
proof (induction ss rule: hold_path.induct)
  case (1 a b ss)
  have "hold_move a b" using 1(2) [rule_format, of 0] by simp
  moreover have "\<forall>n. Suc n < length (b # ss) \<longrightarrow> hold_move ((b # ss) ! n) ((b # ss) ! Suc n)"
    using 1(2) by (metis Suc_less_eq length_Cons nth_Cons_Suc)
  ultimately show ?case using 1(1) by simp
qed simp_all

lemma hold_path_short: "hold_path (''RESERVED'' # ss) \<Longrightarrow> ss \<in> {[], [''EXPOSED''], [''RELEASED''], [''EXPOSED'', ''CAPTURED''], [''EXPOSED'', ''RELEASED'']}"
  by (cases ss; cases "tl ss"; cases "tl (tl ss)") (auto simp: hold_move_def)

lemma spec_clean:
  assumes "fair_range V" and "spec_problems V s ix n (table, keys, index s t keys) = []" and "index_problems s t keys = []" and "keys \<noteq> []"
    and "r \<in> set (rows_in s t)"
  shows "history_problems V s table keys (row_id r keys) r = []"
  using assms(2) row_at_index [OF assms(3-5)]
  by (auto simp: spec_problems_def keys_of_set [OF assms(1)])

text \<open>
  C23. In a snapshot the verifier reports as valid every hold has its whole life on record: its events, in the order of
  their versions, are numbered from 1 without a gap, start reserved, make only legal moves, and end in the state and at the version the
  hold has now; so a hold has one to three events and one of five lives.
\<close>

theorem verified_hold_histories:
  assumes "fair_range V" and "rep_Valid (Verify V s)" and "h \<in> set (rows_in s ''holds'')"
  shows "let es = history_of s ''hold_events'' [''hold_id''] (str h ''hold_id'') in
      map (\<lambda>e. integer (cell e ''version'')) es = map int [1..<Suc (length es)]
    \<and> integer (cell h ''version'') = int (length es) \<and> state_after (last es) = str h ''state''
    \<and> map state_after es \<in> {[''RESERVED''], [''RESERVED'', ''EXPOSED''], [''RESERVED'', ''RELEASED''],
        [''RESERVED'', ''EXPOSED'', ''CAPTURED''], [''RESERVED'', ''EXPOSED'', ''RELEASED'']}"
proof -
  have valid: "found V s = []" using assms(2) Verify_valid by blast
  note parts = valid [unfolded found_Nil]
  have clean: "index_problems s ''holds'' [''hold_id''] = []" using parts indexes_clean(6) by blast
  let ?es = "history_of s ''hold_events'' [''hold_id''] (str h ''hold_id'')"
  have "spec_problems V s (indexes_of s) 10 (''hold_events'', [''hold_id''], index s ''holds'' [''hold_id'']) = []"
    using parts by (simp add: histories_def)
  from spec_clean [OF assms(1) this clean _ assms(3)]
  have hp: "history_problems V s ''hold_events'' [''hold_id''] (str h ''hold_id'') h = []" by simp
  then have ne: "?es \<noteq> []" "integer (cell h ''version'') = int (length ?es)"
    and loop: "fst (history_loop V ''hold_events'' 0 None ?es) = []"
    and tip: "tip_problems V ''hold_events'' (snd (history_loop V ''hold_events'' 0 None ?es)) h = []"
    unfolding history_problems_def Let_def case_prod_beta by (auto split: if_split_asm)
  have ev: "event_problems V ''hold_events'' n ((None # map after_of ?es) ! n) (?es ! n) = []" if "n < length ?es" for n
    using loop that by (simp add: history_loop_eq)
  have last: "snd (history_loop V ''hold_events'' 0 None ?es) = after_of (last ?es)" using ne(1) by (simp add: history_loop_eq last_map)
  have versions: "integer (cell (?es ! n) ''version'') = int (Suc n)" if "n < length ?es" for n
    using ev [OF that] by (simp add: event_problems_def Let_def)
  then have "map (\<lambda>e. integer (cell e ''version'')) ?es = map int [1..<Suc (length ?es)]"
    by (intro nth_equalityI) (simp_all del: upt_Suc)
  moreover have "state_after (last ?es) = str h ''state''"
    using tip last by (simp add: tip_problems_def state_after_def)
  moreover have "map state_after ?es \<in> {[''RESERVED''], [''RESERVED'', ''EXPOSED''], [''RESERVED'', ''RELEASED''],
        [''RESERVED'', ''EXPOSED'', ''CAPTURED''], [''RESERVED'', ''EXPOSED'', ''RELEASED'']}"
  proof -
    have first: "state_after (?es ! 0) = ''RESERVED''"
      using ev [of 0] ne(1) by (simp add: event_problems_def Let_def hold_event_problems_def state_after_def)
    have moves: "hold_move (map state_after ?es ! n) (map state_after ?es ! Suc n)" if "Suc n < length (map state_after ?es)" for n
      using ev [of "Suc n"] that by (simp add: event_problems_def Let_def hold_event_problems_def state_after_def)
    obtain e es where es: "?es = e # es" using ne(1) by (cases ?es) auto
    have "hold_path (map state_after ?es)" using hold_path_nth moves by blast
    then have "hold_path (''RESERVED'' # map state_after es)" using first es by simp
    then show ?thesis using hold_path_short [of "map state_after es"] first es by auto
  qed
  ultimately show ?thesis unfolding Let_def using ne(2) by blast
qed

text \<open>
  The verifier, which imports nothing of the domain, and the domain agree on the life of a hold: a move is legal for
  the verifier exactly if an expose, a capture or a release can take a hold from the one state to the other.
\<close>

lemma hold_moves_agree:
  "hold_move old next \<longleftrightarrow> (\<exists>h h'. hold_step h h' \<and> hs_State h = old \<and> hs_State h' = next)"
proof
  assume m: "hold_move old next"
  define h :: hold_state_value where "h = \<lparr>hs_State = old, hs_Version = 1, hs_ExpiresAt = \<lparr>t_ns = 1, t_offset = 0\<rparr>\<rparr>"
  have v: "NextVersion 1 = Inr 2" by (simp add: NextVersion_def MaxInt64_def)
  have e: "Hold_Expose h 1 \<lparr>t_ns = 0, t_offset = 0\<rparr> = Inr (h\<lparr>hs_State := Exposed, hs_Version := 2\<rparr>)" if "old = ''RESERVED''"
    using that v by (simp add: Hold_Expose_def h_def hold_state_defs Before_def)
  have c: "Hold_Capture h 1 True = Inr (h\<lparr>hs_State := Captured, hs_Version := 2\<rparr>)" if "old = ''EXPOSED''"
    using that v by (simp add: Hold_Capture_def h_def hold_state_defs)
  have r: "Hold_Release h 1 True = Inr (h\<lparr>hs_State := Released, hs_Version := 2\<rparr>)" if "old = ''EXPOSED'' \<or> old = ''RESERVED''"
    using that v by (auto simp: Hold_Release_def h_def hold_state_defs)
  have sel: "hs_State h = old" "hs_State (h\<lparr>hs_State := x, hs_Version := 2\<rparr>) = x" for x by (simp_all add: h_def)
  consider "old = ''RESERVED''" "next = Exposed" | "old = ''EXPOSED'' \<or> old = ''RESERVED''" "next = Released" | "old = ''EXPOSED''" "next = Captured"
    using m unfolding hold_move_def hold_state_defs by blast
  then show "\<exists>h h'. hold_step h h' \<and> hs_State h = old \<and> hs_State h' = next"
    by cases (use hold_step.expose [OF e] hold_step.release [OF r] hold_step.capture [OF c] sel in blast)+
next
  assume "\<exists>h h'. hold_step h h' \<and> hs_State h = old \<and> hs_State h' = next"
  then obtain h h' where h: "hold_step h h'" "hs_State h = old" "hs_State h' = next" by blast
  show "hold_move old next" using hold_stepD(4) [OF h(1)] unfolding h(2,3) hold_move_def hold_state_defs by blast
qed

end
