(* ===== verification/Limits.thy ===== *)
theory Limits
  imports Reconciled
begin

text \<open>
  Daily limits against admitted payments, the report, and the independence of the verdict from the order in which Go
  visits its maps.
\<close>

section \<open>Keys of the sums\<close>

lemma add_at_keys [simp]: "fst ` set (add_at key n m) = insert key (fst ` set m)"
  by (simp add: add_at_def dom_update)

lemma hold_sum_keys:
  "fst ` set (hs_reserved (hold_sum ix h acc)) = fst ` set (hs_reserved acc) \<union> (if hold_is_open h then {hold_key h} else {})"
  "fst ` set (hs_consumed (hold_sum ix h acc)) = fst ` set (hs_consumed acc) \<union> (if str h ''state'' = ''CAPTURED'' then {hold_key h} else {})"
  by (auto simp: hold_sum_def Let_def hold_is_open_def)

lemma fold_hold_keys:
  "fst ` set (hs_reserved (fold (hold_sum ix) hs acc)) = fst ` set (hs_reserved acc) \<union> hold_key ` {h \<in> set hs. hold_is_open h}"
  "fst ` set (hs_consumed (fold (hold_sum ix) hs acc)) = fst ` set (hs_consumed acc) \<union> hold_key ` {h \<in> set hs. str h ''state'' = ''CAPTURED''}"
  by (induction hs arbitrary: acc) (auto simp: hold_sum_keys)

text \<open>What an applied transfer consumes, and of which limit.\<close>

definition transfer_key :: "verifier \<Rightarrow> indexes \<Rightarrow> row \<Rightarrow> string option" where
  "transfer_key V ix op =
     (if \<not> is_transfer op then None
      else case Time_Parse (str (json_body op ''receipt'') ''recorded_at'') of
        None \<Rightarrow> None
      | Some when \<Rightarrow> Some (str (row_at (ix_accounts ix) (str (material_terms (material_of op)) ''source_id'')) ''owner_id'' @ ''/'' @ zone_date V when))"

definition transferred_by :: "verifier \<Rightarrow> indexes \<Rightarrow> string \<Rightarrow> row \<Rightarrow> int" where
  "transferred_by V ix key op = (if transfer_key V ix op = Some key then number (str (material_terms (material_of op)) ''principal'') 19 else 0)"

lemma transfer_sum_sel:
  "sum_at (snd (transfer_sum V ix op c)) key = sum_at c key + transferred_by V ix key op"
  "fst ` set (snd (transfer_sum V ix op c)) = fst ` set c \<union> set_option (transfer_key V ix op)"
  "fst (transfer_sum V ix op c) = fst (transfer_sum V ix op [])"
  by (auto simp: transfer_sum_def Let_def transferred_by_def transfer_key_def split: option.split)

lemma transfers_loop_eq:
  "fst (transfers_loop V ix ks c) = concat (map (\<lambda>i. fst (transfer_sum V ix (row_at (ix_ops ix) i) [])) ks)"
  "sum_at (snd (transfers_loop V ix ks c)) key = sum_at c key + (\<Sum>op\<in>#mset (map (row_at (ix_ops ix)) ks). transferred_by V ix key op)"
  "fst ` set (snd (transfers_loop V ix ks c)) = fst ` set c \<union> (\<Union>i\<in>set ks. set_option (transfer_key V ix (row_at (ix_ops ix) i)))"
proof (induction ks arbitrary: c)
  case (Cons i ks)
  {
    case 1
    then show ?case using Cons.IH(1) [of "snd (transfer_sum V ix (row_at (ix_ops ix) i) c)"] transfer_sum_sel(3)
      by (simp add: case_prod_beta)
  next
    case 2
    then show ?case using Cons.IH(2) [of "snd (transfer_sum V ix (row_at (ix_ops ix) i) c)"]
      by (simp add: case_prod_beta transfer_sum_sel(1))
  next
    case 3
    then show ?case using Cons.IH(3) [of "snd (transfer_sum V ix (row_at (ix_ops ix) i) c)"]
      by (simp add: case_prod_beta transfer_sum_sel(2) Un_assoc)
  }
qed simp_all

lemma consumed_clean:
  assumes "fair_range V" and "found V s = []"
  shows "sum_at (consumed_of V s) key = (\<Sum>h\<leftarrow>rows_in s ''holds''. captured_by key h)
      + (\<Sum>op\<leftarrow>rows_in s ''financial_operations''. transferred_by V (indexes_of s) key op)"
proof -
  have clean: "index_problems s ''financial_operations'' [''operation_id''] = []" using assms(2) indexes_clean(4) by (simp add: found_Nil)
  have bag: "mset (map (row_at (index s ''financial_operations'' [''operation_id''])) (keys_of V 4 (index s ''financial_operations'' [''operation_id''])))
      = mset (rows_in s ''financial_operations'')" by (rule visited_rows [OF assms(1) clean]) simp
  show ?thesis unfolding consumed_of_def transfers_loop_eq(2) indexes_of_sel bag holds_clean(4) [OF assms]
    by (simp flip: sum_mset_sum_list)
qed

lemma limit_keys:
  assumes "fair_range V"
  shows "fst ` set (hs_reserved (holds_of V s)) = hold_key ` {h. h \<in> row_at (index s ''holds'' [''hold_id'']) ` fst ` set (index s ''holds'' [''hold_id'']) \<and> hold_is_open h}"
    and "fst ` set (consumed_of V s) =
      hold_key ` {h. h \<in> row_at (index s ''holds'' [''hold_id'']) ` fst ` set (index s ''holds'' [''hold_id'']) \<and> str h ''state'' = ''CAPTURED''}
      \<union> (\<Union>i\<in>fst ` set (index s ''financial_operations'' [''operation_id'']).
          set_option (transfer_key V (indexes_of s) (row_at (index s ''financial_operations'' [''operation_id'']) i)))"
  by (simp_all add: consumed_of_def holds_of_def holds_loop_eq transfers_loop_eq(3) fold_hold_keys no_holds_def keys_of_set [OF assms])

text \<open>
  C24. In a snapshot the verifier reports as valid every daily limit is exactly what was admitted under it: reserved is
  the sum of the principals of the open holds of that owner and day, consumed is the sum of the captured ones and of the applied transfers
  of the owner on that day in Nairobi, and every hold that is open or captured has such a limit.
\<close>

theorem verified_limits:
  assumes "fair_range V" and "rep_Valid (Verify V s)"
  shows "(\<forall>u\<in>set (rows_in s ''limit_usage''). let key = row_id u [''owner_id'', ''bucket''] in
        exact (str u ''reserved'') 38 \<and> exact (str u ''consumed'') 38
      \<and> dec_ival (str u ''reserved'') = (\<Sum>h\<leftarrow>rows_in s ''holds''. reserved_by key h)
      \<and> dec_ival (str u ''consumed'') = (\<Sum>h\<leftarrow>rows_in s ''holds''. captured_by key h)
          + (\<Sum>op\<leftarrow>rows_in s ''financial_operations''. transferred_by V (indexes_of s) key op))
    \<and> (\<forall>h\<in>set (rows_in s ''holds''). hold_is_open h \<or> str h ''state'' = ''CAPTURED'' \<longrightarrow>
        (\<exists>u\<in>set (rows_in s ''limit_usage''). row_id u [''owner_id'', ''bucket''] = hold_key h))"
proof -
  have valid: "found V s = []" using assms(2) Verify_valid by blast
  note parts = valid [unfolded found_Nil]
  let ?U = "index s ''limit_usage'' [''owner_id'', ''bucket'']"
  have clean: "index_problems s ''limit_usage'' [''owner_id'', ''bucket''] = []" "index_problems s ''holds'' [''hold_id''] = []"
    using parts indexes_clean(6) by blast+
  have one: "let key = row_id u [''owner_id'', ''bucket''] in
        exact (str u ''reserved'') 38 \<and> exact (str u ''consumed'') 38
      \<and> dec_ival (str u ''reserved'') = (\<Sum>h\<leftarrow>rows_in s ''holds''. reserved_by key h)
      \<and> dec_ival (str u ''consumed'') = (\<Sum>h\<leftarrow>rows_in s ''holds''. captured_by key h)
          + (\<Sum>op\<leftarrow>rows_in s ''financial_operations''. transferred_by V (indexes_of s) key op)"
    if u: "u \<in> set (rows_in s ''limit_usage'')" for u
  proof -
    let ?key = "row_id u [''owner_id'', ''bucket'']"
    have at: "row_at ?U ?key = u" "?key \<in> set (keys_of V 7 ?U)"
      using row_at_index [OF clean(1) _ u] by (simp_all add: keys_of_set [OF assms(1)])
    have "usage_problems (hs_reserved (holds_of V s)) (consumed_of V s) ?key u = []" using parts at by metis
    then have "exact (str u ''reserved'') 38" "exact (str u ''consumed'') 38" "sum_at (hs_reserved (holds_of V s)) ?key = dec_ival (str u ''reserved'')"
      "sum_at (consumed_of V s) ?key = dec_ival (str u ''consumed'')"
      by (auto simp: usage_problems_def number_problems_def number_def split: if_split_asm)
    then show ?thesis using holds_clean(3) [OF assms(1) valid, of ?key] consumed_clean [OF assms(1) valid, of ?key] by (simp add: Let_def)
  qed
  have two: "\<exists>u\<in>set (rows_in s ''limit_usage''). row_id u [''owner_id'', ''bucket''] = hold_key h"
    if h: "h \<in> set (rows_in s ''holds'')" "hold_is_open h \<or> str h ''state'' = ''CAPTURED''" for h
  proof -
    have "row_at (index s ''holds'' [''hold_id'']) (str h ''hold_id'') = h" "str h ''hold_id'' \<in> fst ` set (index s ''holds'' [''hold_id''])"
      using row_at_index [OF clean(2) _ h(1)] by simp_all
    then have "h \<in> row_at (index s ''holds'' [''hold_id'']) ` fst ` set (index s ''holds'' [''hold_id''])" by force
    then have "hold_key h \<in> fst ` set (hs_reserved (holds_of V s)) \<union> fst ` set (consumed_of V s)"
      using h(2) unfolding limit_keys [OF assms(1)] by blast
    then have "row_at ?U (hold_key h) \<noteq> None" using parts by (auto simp: keys_of_set [OF assms(1)])
    from row_at_Some [OF clean(1) this] show ?thesis by blast
  qed
  show ?thesis using one two by blast
qed

text \<open>
  A report lists the first hundred of the problems found, and the cap never hides a problem from the verdict: the
  report is valid exactly if nothing was found.
\<close>

lemma report_bounded:
  "rep_Problems (Verify V s) = take 100 (found V s) \<and> length (rep_Problems (Verify V s)) \<le> 100
    \<and> (rep_Valid (Verify V s) \<longleftrightarrow> found V s = []) \<and> (rep_Valid (Verify V s) \<longleftrightarrow> rep_Problems (Verify V s) = [])"
  using bad_first_hundred [of "[]" "found V s"] by (simp add: Verify_def Let_def)

section \<open>The order of maps\<close>

text \<open>What does not depend on the order of the ranges.\<close>

lemma order_free:
  fixes r :: "nat \<Rightarrow> string list \<Rightarrow> string list"
  defines "V' \<equiv> \<lambda>V. V\<lparr>vf_range := r\<rparr>"
  shows "table_problems (V' V) s name = table_problems V s name"
    and "journal_problems (V' V) s posted i j = journal_problems V s posted i j"
    and "fst (transfer_sum (V' V) ix op c) = fst (transfer_sum V ix op c)"
    and "transfer_key (V' V) ix op = transfer_key V ix op"
    and "history_problems (V' V) s table keys i cur = history_problems V s table keys i cur"
    and "map_of jb i = map_of jb' i \<Longrightarrow> op_problems (V' V) s ix jb eb i op = op_problems V s ix jb' eb i op"
    and "digest_of (V' V) t = digest_of V t"
    and "vf_canonical (V' V) = vf_canonical V"
proof -
  have d: "digest_of (V' V) = digest_of V" "equal_json (V' V) = equal_json V" for V
    by (simp_all add: fun_eq_iff V'_def digest_of_def equal_json_def)
  have sel: "vf_canonical (V' V) = vf_canonical V" "vf_Transform (V' V) = vf_Transform V" "zone_date (V' V) = zone_date V" for V
    by (simp_all add: V'_def zone_date_def fun_eq_iff)
  show "digest_of (V' V) t = digest_of V t" "vf_canonical (V' V) = vf_canonical V" by (simp_all add: d sel)
  show "table_problems (V' V) s name = table_problems V s name" by (simp add: table_problems_def d sel)
  show "journal_problems (V' V) s posted i j = journal_problems V s posted i j" by (simp add: journal_problems_def d)
  show "fst (transfer_sum (V' V) ix op c) = fst (transfer_sum V ix op c)" by (simp add: transfer_sum_def Let_def sel split: option.split)
  show "transfer_key (V' V) ix op = transfer_key V ix op" by (simp add: transfer_key_def sel split: option.split)
  show "op_problems (V' V) s ix jb eb i op = op_problems V s ix jb' eb i op" if "map_of jb i = map_of jb' i"
    unfolding op_problems_def Let_def d sel that ..
  have "hold_event_problems (V' V) n p a = hold_event_problems V n p a" for n p a unfolding hold_event_problems_def d ..
  note h = this
  have "event_problems (V' V) t n p a = event_problems V t n p a" for t n p a unfolding event_problems_def historyEqual_def d h ..
  then have "history_loop (V' V) t n p rs = history_loop V t n p rs" for t n p rs by (induction rs arbitrary: n p) simp_all
  then have loop: "history_loop (V' V) = history_loop V" by (simp add: fun_eq_iff)
  show "history_problems (V' V) s table keys i cur = history_problems V s table keys i cur"
    unfolding history_problems_def tip_problems_def d loop ..
qed

lemma found_reordered:
  assumes "fair_range V" and "fair_range (V\<lparr>vf_range := r\<rparr>)" and "found V s = []"
  shows "found (V\<lparr>vf_range := r\<rparr>) s = []"
proof -
  let ?V = "V\<lparr>vf_range := r\<rparr>"
  note parts = assms(3) [unfolded found_Nil]
  note free = order_free [where r = r]
  have keys: "set (keys_of ?V n m) = set (keys_of V k m)" for n k and m :: "(string \<times> row) list"
    by (simp add: keys_of_set [OF assms(1)] keys_of_set [OF assms(2)])
  have ikeys: "set (keys_of ?V n m) = set (keys_of V k m)" for n k and m :: "(string \<times> int) list"
    by (simp add: keys_of_set [OF assms(1)] keys_of_set [OF assms(2)])
  have clean: "index_problems s ''journals'' [''journal_id''] = []" "index_problems s ''holds'' [''hold_id''] = []"
    "index_problems s ''financial_operations'' [''operation_id''] = []" using parts indexes_clean(3,4,6) by blast+
  let ?J = "index s ''journals'' [''journal_id'']"
  let ?op = "\<lambda>i. str (row_at ?J i) ''operation_id''"
  have bag: "mset (keys_of ?V 0 ?J) = mset (keys_of V 0 ?J)" using assms(1,2) by (simp add: fair_range_def keys_of_def)
  have dist: "distinct (map ?op (keys_of ?V 0 ?J)) = distinct (map ?op (keys_of V 0 ?J))"
    using bag by (intro mset_eq_imp_distinct_iff) simp
  note c = journals_by_op_clean [where journals = ?J, OF journal_keys [OF assms(1) clean(1), of 0], of "[]"]
  note c' = journals_by_op_clean [where journals = ?J, OF journal_keys [OF assms(2) clean(1), of 0], of "[]"]
  have j: "distinct (map ?op (keys_of V 0 ?J))" "\<forall>i\<in>set (keys_of V 0 ?J). row_at (index s ''financial_operations'' [''operation_id'']) (?op i) \<noteq> None"
    using parts c(1) [of "index s ''financial_operations'' [''operation_id'']"] by simp_all
  have j': "fst (journals_by_op (index s ''financial_operations'' [''operation_id'']) ?J (keys_of ?V 0 ?J) []) = []"
    using c'(1) j dist keys [of 0 ?J 0] by simp
  have "map_of (map (\<lambda>i. (?op i, i)) (keys_of ?V 0 ?J)) = map_of (map (\<lambda>i. (?op i, i)) (keys_of V 0 ?J))"
    using j(1) dist keys [of 0 ?J 0] by (intro map_of_inject_set [THEN iffD2]) (simp_all add: o_def)
  then have jb: "map_of (journal_by ?V s) i = map_of (journal_by V s) i" for i
    using c(2) [OF _ j(1)] c'(2) [of "index s ''financial_operations'' [''operation_id'']" i] j(1) dist
    by (simp add: journal_by_def)
  have hp: "\<forall>i\<in>set (keys_of V 3 (index s ''holds'' [''hold_id''])). hold_problems (indexes_of s) i (row_at (index s ''holds'' [''hold_id'']) i) = []"
    using parts by (simp add: holds_loop_eq)
  have hbag: "mset (map (row_at (index s ''holds'' [''hold_id''])) (keys_of W 3 (index s ''holds'' [''hold_id'']))) = mset (rows_in s ''holds'')"
    if "fair_range W" for W by (rule visited_rows [OF that clean(2)]) simp
  have accs: "\<forall>h\<in>set (map (row_at (index s ''holds'' [''hold_id''])) (keys_of W 3 (index s ''holds'' [''hold_id'']))). hold_is_open h \<longrightarrow> hold_accounts (indexes_of s) h"
    if "fair_range W" for W
    using holds_clean(1) [OF assms(1,3)] hold_problems_accounts mset_eq_setD [OF hbag [OF that]] by blast
  have sums: "sum_at (hs_held (holds_of ?V s)) a = sum_at (hs_held (holds_of V s)) a"
    "sum_at (hs_reserved (holds_of ?V s)) a = sum_at (hs_reserved (holds_of V s)) a"
    "sum_at (hs_consumed (holds_of ?V s)) a = sum_at (hs_consumed (holds_of V s)) a" for a
    by (simp_all add: holds_of_def holds_loop_eq fold_hold_sums [OF accs [OF assms(1)]] fold_hold_sums [OF accs [OF assms(2)]]
        hbag [OF assms(1), unfolded mset_map] hbag [OF assms(2), unfolded mset_map])
  have tbag: "mset (map (row_at (index s ''financial_operations'' [''operation_id''])) (keys_of W 4 (index s ''financial_operations'' [''operation_id''])))
      = mset (rows_in s ''financial_operations'')" if "fair_range W" for W by (rule visited_rows [OF that clean(3)]) simp
  have tr: "transferred_by ?V ix k op = transferred_by V ix k op" for ix k op by (simp add: transferred_by_def free(4))
  have consumed: "sum_at (consumed_of ?V s) a = sum_at (consumed_of V s) a" for a
    unfolding consumed_of_def transfers_loop_eq(2) indexes_of_sel tbag [OF assms(1)] tbag [OF assms(2)] sums tr ..
  have lkeys: "set (keys_of ?V 15 (hs_reserved (holds_of ?V s))) = set (keys_of V 15 (hs_reserved (holds_of V s)))"
    "set (keys_of ?V 16 (consumed_of ?V s)) = set (keys_of V 16 (consumed_of V s))"
    by (simp_all add: keys_of_set [OF assms(1)] keys_of_set [OF assms(2)] limit_keys [OF assms(1)] limit_keys [OF assms(2)] free(4))
  have spec: "spec_problems ?V s ix n x = [] \<longleftrightarrow> spec_problems V s ix n x = []" for ix n x
    by (cases x) (simp add: spec_problems_def free(5) keys [of n _ n])
  have hist: "histories ?V s ix u = [] \<longleftrightarrow> histories V s ix u = []" for ix u by (simp add: histories_def spec)
  have temp: "templates ?V s ix p = [] \<longleftrightarrow> templates V s ix p = []" for ix p
    by (simp add: templates_def Let_def free(7,8) keys [of 12 _ 12] keys [of 13 _ 13])
  have h': "fst (holds_loop (indexes_of s) (keys_of ?V 3 (ix_holds (indexes_of s))) no_holds) = []"
    using hp keys [of 3 _ 3] by (simp add: holds_loop_eq)
  have t': "fst (transfers_loop ?V (indexes_of s) (keys_of ?V 4 (ix_ops (indexes_of s))) (hs_consumed (holds_of ?V s))) = []"
    using parts by (simp add: transfers_loop_eq(1) free(3) keys [of 4 _ 4])
  have bal: "balance_problems (indexes_of s) (posted_of s) (holds_of ?V s) i = balance_problems (indexes_of s) (posted_of s) (holds_of V s) i" for i
    unfolding balance_problems_def sums ..
  have use: "usage_problems (hs_reserved (holds_of ?V s)) (consumed_of ?V s) k u = usage_problems (hs_reserved (holds_of V s)) (consumed_of V s) k u" for k u
    unfolding usage_problems_def sums consumed ..
  have same: "set (keys_of ?V n m) = set (keys_of V n m)" for n and m :: "(string \<times> row) list" by (rule keys)
  show ?thesis
    unfolding found_Nil free(1,2) free(6) [OF jb] hist temp lkeys bal use same
    using parts j' h' t' by simp
qed

text \<open>
  C29. The verdict is a function of the snapshot: whatever order Go visits its maps in, \<open>Verify\<close> accepts the same
  snapshots. (The order in which problems are listed, and so which hundred are kept, does depend on it.)
\<close>

theorem verdict_order_independent:
  assumes "fair_range V" and "fair_range (V\<lparr>vf_range := r\<rparr>)"
  shows "rep_Valid (Verify (V\<lparr>vf_range := r\<rparr>) s) = rep_Valid (Verify V s)"
  using found_reordered [OF assms] found_reordered [of "V\<lparr>vf_range := r\<rparr>" "vf_range V" s] assms by (auto simp: Verify_valid)

end
