(* ===== verification/Json_Write.thy ===== *)
theory Json_Write
  imports Snapshot_Data
begin

text \<open>
  The text \<open>encoding/json\<close> writes for a value, and that the reader takes it back when its texts are valid
  UTF-8.
\<close>

section \<open>Writing\<close>

text \<open>
  The string encoder of \<open>encoding/json\<close> with HTML escaping: what stays of an ASCII character, the replacement character for
  invalid UTF-8, and the two line separators.
\<close>

definition escape_char :: "char \<Rightarrow> string" where
  "escape_char c =
     (if c = CHR 0x22 \<or> c = CHR 0x5C then [CHR 0x5C, c]
      else if c = CHR 0x08 then [CHR 0x5C, CHR ''b''] else if c = CHR 0x0C then [CHR 0x5C, CHR ''f'']
      else if c = CHR 0x0A then [CHR 0x5C, CHR ''n''] else if c = CHR 0x0D then [CHR 0x5C, CHR ''r'']
      else if c = CHR 0x09 then [CHR 0x5C, CHR ''t'']
      else if code_of c < 32 \<or> c \<in> {CHR ''<'', CHR ''>'', CHR ''&''}
        then CHR 0x5C # ''u00'' @ [hex_char (code_of c div 16), hex_char (code_of c mod 16)]
      else [c])"

function escaped :: "string \<Rightarrow> string" where
  "escaped [] = []"
| "escaped (c # r) =
     (if code_of c < 128 then escape_char c @ escaped r
      else let k = rune_length (c # r)
           in if k = 0 then CHR 0x5C # ''ufffd'' @ escaped r
              else (if take k (c # r) = utf8 8232 then CHR 0x5C # ''u2028''
                    else if take k (c # r) = utf8 8233 then CHR 0x5C # ''u2029'' else take k (c # r))
                @ escaped (drop (k - 1) r))"
  by pat_completeness auto
termination by (relation "measure length") auto

definition quoted :: "string \<Rightarrow> string" where
  "quoted s = CHR 0x22 # escaped s @ [CHR 0x22]"

text \<open>Valid UTF-8.\<close>

function valid_text :: "string \<Rightarrow> bool" where
  "valid_text [] = True"
| "valid_text (c # r) =
     (if code_of c < 128 then valid_text r
      else rune_length (c # r) \<noteq> 0 \<and> valid_text (drop (rune_length (c # r) - 1) r))"
  by pat_completeness auto
termination by (relation "measure length") auto

lemma valid_text_ascii: "ascii s \<Longrightarrow> valid_text s"
  by (induction s) (simp_all add: ascii_def code_of_def)

text \<open>How many bytes a character takes is read off these bytes.\<close>

lemma rune_length_own:
  assumes "rune_length s = k" and "k \<noteq> 0"
  shows "k \<le> length s" and "rune_length (take k s @ t) = k"
proof -
  obtain c r where s: "s = c # r" using assms by (cases s) (simp_all add: rune_length_def)
  consider "k = 1" "code_of c < 128" | "k = 2" "length r \<ge> 1" | "k = 3" "length r \<ge> 2" | "k = 4" "length r \<ge> 3"
    using assms by (auto simp: rune_length_def s Let_def split: if_split_asm)
  then show "k \<le> length s" "rune_length (take k s @ t) = k"
    using assms by (cases; auto simp: rune_length_def s Let_def take_Suc_conv_app_nth numeral_2_eq_2 numeral_3_eq_3 split: if_split_asm list.splits)+
qed

fun write_json :: "json \<Rightarrow> string" where
  "write_json JNull = ''null''"
| "write_json (JBool b) = (if b then ''true'' else ''false'')"
| "write_json (JNum n) = n"
| "write_json (JStr s) = quoted s"
| "write_json (JTime t) = quoted (Time_Format t)"
| "write_json (JArr vs) = ''['' @ between '','' (map write_json vs) @ '']''"
| "write_json (JObj kvs) = ''{'' @ between '','' (map (\<lambda>(k, v). quoted k @ '':'' @ write_json v) kvs) @ ''}''"

text \<open>Valid texts, canonical decimals, and objects whose names differ.\<close>

fun plain_json :: "json \<Rightarrow> bool" where
  "plain_json JNull = True"
| "plain_json (JBool b) = True"
| "plain_json (JNum n) = canonical_dec n"
| "plain_json (JStr s) = valid_text s"
| "plain_json (JTime t) = False"
| "plain_json (JArr vs) = list_all plain_json vs"
| "plain_json (JObj kvs) = (distinct (map fst kvs) \<and> list_all (\<lambda>(k, v). valid_text k \<and> plain_json v) kvs)"

fun nesting :: "json \<Rightarrow> nat" where
  "nesting (JArr vs) = Suc (foldr max (map nesting vs) 0)"
| "nesting (JObj kvs) = Suc (foldr max (map (\<lambda>(k, v). nesting v) kvs) 0)"
| "nesting v = 0"

section \<open>Reading back\<close>

lemma hex_val_digits: "hex_val CHR ''0'' = Some 0" "hex_val CHR ''2'' = Some 2" "hex_val CHR ''8'' = Some 8" "hex_val CHR ''9'' = Some 9"
  by code_simp+

lemma read_backslash:
  "read_string (Suc n) (CHR 0x5C # CHR ''u'' # r) =
     (case unicode_escape r of None \<Rightarrow> None | Some (x, t) \<Rightarrow> map_option (\<lambda>(q, rest). (x @ q, rest)) (read_string n t))"
  "e \<in> {CHR 0x22, CHR 0x5C} \<Longrightarrow> read_string (Suc n) (CHR 0x5C # e # r) = map_option (\<lambda>(q, rest). (e # q, rest)) (read_string n r)"
  "read_string (Suc n) (CHR 0x5C # CHR ''b'' # r) = map_option (\<lambda>(q, rest). (CHR 0x08 # q, rest)) (read_string n r)"
  "read_string (Suc n) (CHR 0x5C # CHR ''f'' # r) = map_option (\<lambda>(q, rest). (CHR 0x0C # q, rest)) (read_string n r)"
  "read_string (Suc n) (CHR 0x5C # CHR ''n'' # r) = map_option (\<lambda>(q, rest). (CHR 0x0A # q, rest)) (read_string n r)"
  "read_string (Suc n) (CHR 0x5C # CHR ''r'' # r) = map_option (\<lambda>(q, rest). (CHR 0x0D # q, rest)) (read_string n r)"
  "read_string (Suc n) (CHR 0x5C # CHR ''t'' # r) = map_option (\<lambda>(q, rest). (CHR 0x09 # q, rest)) (read_string n r)"
  by (auto simp: code_of_def split: option.split)

lemma read_plain:
  "code_of c < 128 \<Longrightarrow> 32 \<le> code_of c \<Longrightarrow> c \<notin> {CHR 0x22, CHR 0x5C} \<Longrightarrow>
   read_string (Suc n) (c # r) = map_option (\<lambda>(q, rest). (c # q, rest)) (read_string n r)"
  by (simp add: rune_length_def Let_def)

lemma unicode_low:
  assumes "code_of c < 128"
  shows "unicode_escape (''00'' @ hex_char (code_of c div 16) # hex_char (code_of c mod 16) # r) = Some ([c], r)"
proof -
  have "code_of c div 16 < 16" using assms by (intro less_mult_imp_div_less) simp
  then have "hex4 (''00'' @ hex_char (code_of c div 16) # hex_char (code_of c mod 16) # r) = Some (code_of c)"
    by (simp add: hex4_def hex_val_digits)
  moreover have "\<not> surrogate (code_of c)" using assms by (simp add: surrogate_def)
  moreover have "utf8 (code_of c) = [c]" using assms by (simp add: utf8_def) (simp add: code_of_def)
  ultimately show ?thesis by (simp add: unicode_escape_def)
qed

lemma read_escape:
  assumes "code_of c < 128"
  shows "read_string (Suc n) (escape_char c @ r) = map_option (\<lambda>(q, rest). (c # q, rest)) (read_string n r)"
  unfolding escape_char_def
  using read_backslash(2) [of c n r] read_plain [OF assms, of n r]
  by (simp add: read_backslash(1,3-7) unicode_low [OF assms, simplified] del: read_string.simps)

text \<open>The part of a text that one step of \<open>escaped\<close> writes, and that \<open>read_string\<close> reads in one step.\<close>

lemma read_rune:
  assumes "rune_length s = k" and "k \<noteq> 0" and "128 \<le> code_of (hd s)"
  shows "read_string (Suc n) ((if take k s = utf8 8232 then CHR 0x5C # ''u2028'' else if take k s = utf8 8233 then CHR 0x5C # ''u2029'' else take k s) @ r)
    = map_option (\<lambda>(q, rest). (take k s @ q, rest)) (read_string n r)"
proof -
  have u: "unicode_escape (''2028'' @ r) = Some (utf8 8232, r)" "unicode_escape (''2029'' @ r) = Some (utf8 8233, r)"
    by (simp_all add: unicode_escape_def hex4_def hex_val_digits surrogate_def)
  obtain c t where s: "s = c # t" using assms by (cases s) (simp_all add: rune_length_def)
  have k: "rune_length (take k s @ r) = k" "k \<le> length s" using rune_length_own [OF assms(1,2)] by auto
  obtain m where m: "k = Suc m" using assms(2) by (cases k) auto
  have "c \<noteq> CHR 0x22" "c \<noteq> CHR 0x5C" "\<not> code_of c < 32" using assms(3) by (auto simp: s code_of_def)
  then have "read_string (Suc n) (take k s @ r) = map_option (\<lambda>(q, rest). (take k s @ q, rest)) (read_string n r)"
    using k by (simp add: s m)
  then show ?thesis using read_backslash(1) [of n "''2028'' @ r"] read_backslash(1) [of n "''2029'' @ r"] u
    by (simp del: read_string.simps)
qed

lemma escaped_length: "valid_text s \<Longrightarrow> length s \<le> length (escaped s)"
proof (induction s rule: escaped.induct)
  case (2 c r)
  show ?case
  proof (cases "code_of c < 128")
    case True
    then show ?thesis using 2 by (simp add: escape_char_def)
  next
    case False
    let ?k = "rune_length (c # r)"
    have k: "?k \<noteq> 0" "valid_text (drop (?k - 1) r)" using 2(4) False by simp_all
    have len: "?k \<le> length (c # r)" "?k \<le> 6"
      using rune_length_own(1) [OF refl k(1)] by (auto simp: rune_length_def Let_def)
    show ?thesis using 2(3) [OF False refl k(1) k(2)] False k len by (auto simp: Let_def)
  qed
qed simp

lemma read_string_quoted:
  "valid_text s \<Longrightarrow> length s < n \<Longrightarrow> read_string n (escaped s @ CHR 0x22 # rest) = Some (s, rest)"
proof (induction s arbitrary: n rule: escaped.induct)
  case 1
  then show ?case by (cases n) simp_all
next
  case (2 c r)
  obtain m where n: "n = Suc m" using 2(5) by (cases n) auto
  show ?case
  proof (cases "code_of c < 128")
    case True
    then have "read_string m (escaped r @ CHR 0x22 # rest) = Some (r, rest)" using 2(1) 2(4,5) n by simp
    then show ?thesis using True n read_escape [OF True, of m "escaped r @ CHR 0x22 # rest"] by (simp del: read_string.simps)
  next
    case False
    let ?k = "rune_length (c # r)"
    have k: "?k \<noteq> 0" "valid_text (drop (?k - 1) r)" using 2(4) False by simp_all
    have rest: "read_string m (escaped (drop (?k - 1) r) @ CHR 0x22 # rest) = Some (drop (?k - 1) r, rest)"
      using 2(3) [OF False refl k(1) k(2), of m] 2(5) n by simp
    have "take ?k (c # r) @ drop (?k - 1) r = c # r" using k(1) by (cases ?k) simp_all
    then show ?thesis
      using read_rune [OF refl k(1), of m "escaped (drop (?k - 1) r) @ CHR 0x22 # rest"] rest False k(1) n
      by (simp add: Let_def del: read_string.simps)
  qed
qed

lemma skip_Cons: "c \<notin> {CHR '' '', CHR 0x09, CHR 0x0A, CHR 0x0D} \<Longrightarrow> skip (c # r) = c # r"
  by (simp add: skip_def)

lemma digit_no_sign: "is_digit c \<Longrightarrow> c \<notin> {CHR '' '', CHR 0x09, CHR 0x0A, CHR 0x0D, CHR ''-'', CHR ''{'', CHR ''['', CHR '']'', CHR 0x22, CHR ''t'', CHR ''f'', CHR ''n''}"
  by (auto simp: is_digit_def less_eq_char_def)

definition ends_value :: "string \<Rightarrow> bool" where
  "ends_value rest = (case rest of [] \<Rightarrow> True | c # _ \<Rightarrow> c \<in> {CHR '','', CHR ''}'', CHR '']''})"

lemma read_number_digits:
  assumes "canonical_dec s" and "ends_value rest"
  shows "read_number (s @ rest) = Some (s, rest)"
proof -
  obtain c r where s: "s = c # r" using assms(1) by (cases s) (auto simp: canonical_dec_def)
  have d: "is_digit c" "list_all is_digit r" "c = CHR ''0'' \<Longrightarrow> r = []" using assms(1) s by (auto simp: canonical_dec_def)
  have nd: "\<not> is_digit x" "x \<notin> {CHR ''.'', CHR ''e'', CHR ''E''}" if "rest = x # t" for x t
    using assms(2) that by (auto simp: ends_value_def is_digit_def less_eq_char_def)
  have tw: "takeWhile is_digit (r @ rest) = r" "dropWhile is_digit (r @ rest) = rest"
    using d(2) nd(1) by (induction r) (cases rest; simp)+
  have int: "read_int (s @ rest) = Some (s, rest)"
    using d tw by (simp add: read_int_def s digits_span_def)
  have tail: "number_fraction rest = Some ([], rest)" "read_exponent rest = Some ([], rest)"
    using nd(2) by (cases rest; simp add: number_fraction_def read_exponent_def)+
  have "c \<noteq> CHR ''-''" using digit_no_sign [OF d(1)] by auto
  then show ?thesis using int tail by (simp add: read_number_def s)
qed

lemma number_start:
  assumes "canonical_dec s"
  obtains c r where "s = c # r" and "is_digit c"
  using assms by (cases s) (auto simp: canonical_dec_def)

text \<open>What a value starts with: nothing that is skipped, and no closing bracket.\<close>

lemma written_start:
  assumes "plain_json v"
  shows "\<exists>c r. write_json v = c # r \<and> c \<notin> {CHR '' '', CHR 0x09, CHR 0x0A, CHR 0x0D, CHR '']''}"
proof (cases v)
  case (JNum s)
  with assms have "canonical_dec s" by simp
  then obtain c r where "s = c # r" "is_digit c" by (rule number_start)
  then show ?thesis using JNum digit_no_sign by simp
next
  case (JBool b)
  then show ?thesis by (cases b) simp_all
qed (use assms in \<open>auto simp: quoted_def\<close>)

text \<open>A reader of values that takes back what is written, on texts up to a length and a nesting.\<close>

definition reads :: "nat \<Rightarrow> nat \<Rightarrow> json \<Rightarrow> bool" where
  "reads N d v = (\<forall>rest. ends_value rest \<longrightarrow> read_value N d (write_json v @ rest) = Some (v, rest))"

lemma read_elements_written:
  assumes "vs \<noteq> []" and "length (between '','' (map write_json vs)) < n" and "list_all plain_json vs"
    and "\<forall>v\<in>set vs. \<forall>m \<ge> length (write_json v). reads m d v"
  shows "read_elements n d (between '','' (map write_json vs) @ CHR '']'' # rest) = Some (vs, rest)"
  using assms
proof (induction vs arbitrary: n)
  case (Cons v vs)
  obtain m where n: "n = Suc m" using Cons.prems(2) by (cases n) auto
  have rv: "read_value m d (write_json v @ t) = Some (v, t)" if "ends_value t" for t
    using Cons.prems(2,4) that n by (simp add: between_def reads_def)
  show ?case
  proof (cases vs)
    case Nil
    then show ?thesis using rv [of "CHR '']'' # rest"] by (simp add: n between_def ends_value_def skip_def)
  next
    case (Cons w ws)
    let ?t = "between '','' (map write_json vs)"
    have split: "between '','' (map write_json (v # vs)) = write_json v @ CHR '','' # ?t" by (simp add: between_def Cons)
    obtain c r where "write_json v = c # r" using Cons.prems(3) written_start [of v] by (auto simp del: write_json.simps)
    then have "length ?t < m" using Cons.prems(2) unfolding split n by simp
    then have "read_elements m d (?t @ CHR '']'' # rest) = Some (vs, rest)" using Cons.IH Cons.prems(3,4) Cons by simp
    then show ?thesis unfolding split n using rv [of "CHR '','' # ?t @ CHR '']'' # rest"] by (simp add: ends_value_def skip_def)
  qed
qed simp

definition members_text :: "(string \<times> json) list \<Rightarrow> string" where
  "members_text kvs = between '','' (map (\<lambda>(k, v). quoted k @ '':'' @ write_json v) kvs)"

lemma members_text_simps:
  "members_text [(k, v)] = quoted k @ '':'' @ write_json v"
  "kvs \<noteq> [] \<Longrightarrow> members_text ((k, v) # kvs) = quoted k @ '':'' @ write_json v @ '','' @ members_text kvs"
  by (auto simp: members_text_def between_def split: list.split)

lemma read_members_written:
  assumes "kvs \<noteq> []" and "length (members_text kvs) \<le> n"
    and "list_all (\<lambda>(k, v). valid_text k \<and> plain_json v) kvs"
    and "\<forall>(k, v)\<in>set kvs. \<forall>m \<ge> length (write_json v). reads m d v"
  shows "read_members n d (members_text kvs @ CHR ''}'' # rest) = Some (kvs, rest)"
  using assms
proof (induction kvs arbitrary: n)
  case (Cons kv kvs)
  obtain k v where kv: "kv = (k, v)" by (cases kv)
  have len: "length (quoted k @ '':'' @ write_json v) \<le> n"
    using Cons.prems(2) kv by (cases "kvs = []") (auto simp: members_text_simps)
  then obtain m where n: "n = Suc m" by (cases n) auto
  have rs: "read_string (length (escaped k @ CHR 0x22 # t)) (escaped k @ CHR 0x22 # t) = Some (k, t)" for t
    using Cons.prems(3) kv escaped_length [of k] by (intro read_string_quoted) simp_all
  have rv: "read_value m d (write_json v @ t) = Some (v, t)" if "ends_value t" for t
    using Cons.prems(4) that len n kv by (simp add: reads_def quoted_def)
  show ?case
  proof (cases "kvs = []")
    case True
    then show ?thesis using rs [of "'':'' @ write_json v @ CHR ''}'' # rest"] rv [of "CHR ''}'' # rest"]
      by (simp add: n kv members_text_simps ends_value_def quoted_def skip_Cons del: read_string.simps)
  next
    case False
    have "length (members_text kvs) \<le> m" using Cons.prems(2) False by (simp add: n kv members_text_simps quoted_def)
    then have "read_members m d (members_text kvs @ CHR ''}'' # rest) = Some (kvs, rest)" using Cons.IH Cons.prems(3,4) False kv by simp
    then show ?thesis
      using rs [of "'':'' @ write_json v @ CHR '','' # members_text kvs @ CHR ''}'' # rest"] rv [of "CHR '','' # members_text kvs @ CHR ''}'' # rest"] False
      by (simp add: n kv members_text_simps ends_value_def quoted_def skip_Cons del: read_string.simps)
  qed
qed simp

lemma max_list: "x \<in> set xs \<Longrightarrow> (x::nat) \<le> foldr max xs 0"
  by (induction xs) (auto simp: le_max_iff_disj)

lemma reads_written:
  "plain_json v \<Longrightarrow> nesting v \<le> d \<Longrightarrow> length (write_json v) \<le> N \<Longrightarrow> reads N d v"
proof (induction v arbitrary: N d)
  case (JNum s)
  then obtain c r where s: "s = c # r" "is_digit c" using number_start by (metis plain_json.simps(3))
  obtain n where "N = Suc n" using JNum s by (cases N) auto
  then show ?case using JNum digit_no_sign [OF s(2)] s(1) read_number_digits [of s]
    by (simp add: reads_def skip_Cons)
next
  case (JStr s)
  obtain n where "N = Suc n" using JStr by (cases N) (auto simp: quoted_def)
  then show ?case using JStr escaped_length [of s] by (simp add: reads_def quoted_def skip_Cons read_string_quoted del: read_string.simps)
next
  case JNull
  then obtain n where "N = Suc n" by (cases N) auto
  then show ?case by (simp add: reads_def expect_word_def skip_Cons)
next
  case (JBool b)
  then obtain n where "N = Suc n" by (cases N) (auto split: if_splits)
  then show ?case by (cases b) (simp_all add: reads_def expect_word_def skip_Cons)
next
  case (JArr vs)
  obtain n where n: "N = Suc n" using JArr.prems by (cases N) auto
  obtain e where d: "d = Suc e" using JArr.prems by (cases d) auto
  show ?case
  proof (cases "vs = []")
    case True
    then show ?thesis by (simp add: reads_def n d between_def skip_Cons)
  next
    case False
    then obtain v ws where vs: "vs = v # ws" by (cases vs) auto
    obtain c r where c: "write_json v = c # r" "c \<notin> {CHR '' '', CHR 0x09, CHR 0x0A, CHR 0x0D, CHR '']''}"
      using written_start [of v] JArr.prems(1) vs by auto
    have "nesting v \<le> e" if "v \<in> set vs" for v
      using max_list [of "nesting v" "map nesting vs"] that JArr.prems(2) d by simp
    then have "\<forall>v\<in>set vs. \<forall>m \<ge> length (write_json v). reads m e v" using JArr by (auto simp: list_all_iff)
    with False JArr.prems n have "read_elements n e (between '','' (map write_json vs) @ CHR '']'' # rest) = Some (vs, rest)" for rest
      by (intro read_elements_written) simp_all
    moreover obtain t where "between '','' (map write_json vs) = c # t" using c(1) by (simp add: between_def vs)
    ultimately show ?thesis using c(2) by (simp add: reads_def n d skip_Cons)
  qed
next
  case (JObj kvs)
  obtain n where n: "N = Suc n" using JObj.prems by (cases N) auto
  obtain e where d: "d = Suc e" using JObj.prems by (cases d) auto
  show ?case
  proof (cases "kvs = []")
    case True
    then show ?thesis by (simp add: reads_def n d between_def skip_Cons)
  next
    case False
    then obtain k v ws where vs: "kvs = (k, v) # ws" by (cases kvs) auto
    have brackets: "write_json (JObj kvs) = ''{'' @ members_text kvs @ ''}''" by (simp add: members_text_def)
    have "nesting v \<le> e" if "(k, v) \<in> set kvs" for k v
      using max_list [of "nesting v" "map (\<lambda>(k, v). nesting v) kvs"] that JObj.prems(2) d by force
    then have "\<forall>(k, v)\<in>set kvs. \<forall>m \<ge> length (write_json v). reads m e v"
      using JObj by (auto simp: list_all_iff)
    with False JObj.prems n have "read_members n e (members_text kvs @ CHR ''}'' # rest) = Some (kvs, rest)" for rest
      by (intro read_members_written) (simp_all add: members_text_def)
    moreover obtain r where "members_text kvs = CHR 0x22 # r" by (simp add: members_text_def between_def vs quoted_def)
    ultimately show ?thesis unfolding reads_def n d brackets by (simp add: skip_Cons)
  qed
qed simp

lemma json_read_written:
  assumes "plain_json v" and "nesting v \<le> 10000" and "ends_value rest"
  shows "json_read (write_json v @ rest) = Some (v, rest)"
  using reads_written [OF assms(1,2), of "Suc (length (write_json v @ rest))"] assms(3) by (simp add: json_read_def reads_def)

lemma any_value_plain: "plain_json v \<Longrightarrow> any_value v = v"
proof (induction v)
  case (JObj kvs)
  have step: "foldl (\<lambda>m (k, v). AList.update k v m) m kvs = m @ kvs" if "distinct (map fst (m @ kvs))" for m and kvs :: "(string \<times> json) list"
    using that
  proof (induction kvs arbitrary: m)
    case (Cons kv kvs)
    obtain k v where kv: "kv = (k, v)" by (cases kv)
    have "k \<notin> fst ` set m" using Cons.prems kv by auto
    then have "AList.update k v m = m @ [(k, v)]" by (induction m) auto
    then show ?case using Cons kv by simp
  qed simp
  have "map (\<lambda>(k, v). (k, any_value v)) kvs = kvs" using JObj by (intro map_idI) (force simp: list_all_iff)
  then show ?case using step [of "[]" kvs] JObj.prems by simp
next
  case (JArr vs)
  then show ?case by (simp add: list_all_iff map_idI)
qed simp_all

end
