(* ===== verification/Small_Book.thy ===== *)
theory Small_Book
  imports Limits Json_Write
begin

text \<open>
  The snapshot of a small book, on which the results about the verifier are instantiated: a funded wallet, a provider pool,
  a fee account, and one payout that is reserved. The components the verifier calls are given as concrete functions.
\<close>

section \<open>The rows\<close>

definition cells :: "(string \<times> string) list \<Rightarrow> row" where
  "cells kvs = Some (map (\<lambda>(k, v). (k, JStr v)) kvs)"

definition hex_text :: "string \<Rightarrow> string" where
  "hex_text t = hex_encode (map of_char t)"

definition fund_fields :: "(string \<times> json) list" where
  "fund_fields = [(''book_id'', JStr ''b''), (''kind'', JStr ''FIXTURE_FUND''), (''units'', JStr ''5'')]"

definition reserve_fields :: "(string \<times> json) list" where
  "reserve_fields = [(''book_id'', JStr ''b''), (''kind'', JStr ''RESERVE_PAYOUT''), (''body'', JObj [(''terms'', JObj [(''payment_id'',
     JStr ''y'')])])]"

definition fund_receipt_fields :: "(string \<times> json) list" where
  "fund_receipt_fields = [(''operation_id'', JStr ''f''), (''book_id'', JStr ''b''), (''kind'', JStr ''FIXTURE_FUND''), (''request_hash'',
     JStr ''31''), (''outcome'', JStr ''APPLIED''), (''event_id'', JStr ''e''), (''journal_id'', JStr ''j'')]"

definition reserve_receipt_fields :: "(string \<times> json) list" where
  "reserve_receipt_fields = [(''operation_id'', JStr ''r''), (''book_id'', JStr ''b''), (''kind'', JStr ''RESERVE_PAYOUT''), (''request_hash'',
     JStr ''4b''), (''outcome'', JStr ''APPLIED''), (''event_id'', JStr ''g''), (''payment_id'', JStr ''y'')]"

definition hold_fields :: "(string \<times> json) list" where
  "hold_fields = [(''id'', JStr ''h''), (''attempt_id'', JStr ''t''), (''owner_id'', JStr ''o''), (''bucket'', JStr ''d''), (''pool_id'',
     JStr ''P''), (''fee_account_id'', JStr ''F''), (''terms'', JObj [(''payment_id'', JStr ''y''), (''source_id'', JStr ''W''), (''principal'',
     JStr ''2''), (''fee'', JStr ''0''), (''policy_id'', JStr ''q'')])]"

definition hold_event_fields :: "(string \<times> json) list" where
  "hold_event_fields = [(''After'', JObj [(''id'', JStr ''h''), (''attempt_id'', JStr ''t''), (''owner_id'', JStr ''o''), (''bucket'', JStr ''d''),
     (''pool_id'', JStr ''P''), (''fee_account_id'', JStr ''F''), (''terms'', JObj [(''payment_id'', JStr ''y''), (''source_id'', JStr ''W''),
     (''principal'', JStr ''2''), (''fee'', JStr ''0''), (''policy_id'', JStr ''q'')]), (''state'', JObj [(''State'', JStr ''RESERVED''),
     (''Version'', JStr ''1'')])])]"

definition wallet_event_fields :: "(string \<times> json) list" where
  "wallet_event_fields = [(''After'', JObj [(''account_id'', JStr ''W''), (''version'', JStr ''1''), (''totals'', JObj [(''Debits'', JStr ''0''),
     (''Credits'', JStr ''5''), (''Held'', JStr ''2'')])])]"

definition pool_event_fields :: "(string \<times> json) list" where
  "pool_event_fields = [(''After'', JObj [(''account_id'', JStr ''P''), (''version'', JStr ''1''), (''totals'', JObj [(''Debits'', JStr ''5''),
     (''Credits'', JStr ''0''), (''Held'', JStr ''2'')])])]"

definition fee_event_fields :: "(string \<times> json) list" where
  "fee_event_fields = [(''After'', JObj [(''account_id'', JStr ''F''), (''version'', JStr ''1''), (''totals'', JObj [(''Debits'', JStr ''0''),
     (''Credits'', JStr ''0''), (''Held'', JStr ''0'')])])]"

definition limit_event_fields :: "(string \<times> json) list" where
  "limit_event_fields = [(''After'', JObj [(''version'', JStr ''1''), (''values'', JObj [(''Reserved'', JStr ''2''), (''Consumed'', JStr ''0'')])])]"

definition book_cells :: row where
  "book_cells = cells [(''book_id'', ''b''), (''currency'', ''KES''), (''scale'', ''2''), (''country'', ''KE''), (''synthetic'', ''true'')]"

definition wallet_cells :: row where
  "wallet_cells = cells [(''book_id'', ''b''), (''account_id'', ''W''), (''owner_id'', ''o''), (''purpose'', ''WALLET'')]"

definition pool_cells :: row where
  "pool_cells = cells [(''book_id'', ''b''), (''account_id'', ''P''), (''owner_id'', ''p''), (''purpose'', ''PROVIDER_POOL'')]"

definition fee_cells :: row where
  "fee_cells = cells [(''book_id'', ''b''), (''account_id'', ''F''), (''owner_id'', ''p''), (''purpose'', ''FEE_INCOME'')]"

definition policy_cells :: row where
  "policy_cells = cells [(''book_id'', ''b''), (''policy_id'', ''q''), (''pool_id'', ''P''), (''fee_account_id'', ''F''), (''fee'', ''0'')]"

definition wallet_balance :: row where
  "wallet_balance = cells [(''book_id'', ''b''), (''account_id'', ''W''), (''purpose'', ''WALLET''), (''debits'', ''0''), (''credits'', ''5''),
     (''held'', ''2''), (''version'', ''1'')]"

definition pool_balance :: row where
  "pool_balance = cells [(''book_id'', ''b''), (''account_id'', ''P''), (''purpose'', ''PROVIDER_POOL''), (''debits'', ''5''), (''credits'',
     ''0''), (''held'', ''2''), (''version'', ''1'')]"

definition fee_balance :: row where
  "fee_balance = cells [(''book_id'', ''b''), (''account_id'', ''F''), (''purpose'', ''FEE_INCOME''), (''debits'', ''0''), (''credits'', ''0''),
     (''held'', ''0''), (''version'', ''1'')]"

definition claim_cells :: row where
  "claim_cells = cells [(''book_id'', ''b''), (''payment_id'', ''y''), (''admission_operation_id'', ''r''), (''result_operation_id'', ''r''),
     (''stage'', ''EXECUTION''), (''admission_outcome'', ''APPLIED''), (''material_hash'', ''4b''), (''hold_id'', ''h''), (''state'', ''RESERVED'')]"

definition hold_cells :: row where
  "hold_cells = cells [(''book_id'', ''b''), (''hold_id'', ''h''), (''attempt_id'', ''t''), (''payment_id'', ''y''), (''state'', ''RESERVED''),
     (''version'', ''1''), (''terms'', write_json (JObj hold_fields))]"

definition usage_cells :: row where
  "usage_cells = cells [(''book_id'', ''b''), (''owner_id'', ''o''), (''bucket'', ''d''), (''reserved'', ''2''), (''consumed'', ''0''), (''version'',
     ''1'')]"

definition journal_cells :: row where
  "journal_cells = cells [(''book_id'', ''b''), (''journal_id'', ''j''), (''operation_id'', ''f''), (''template'', ''FIXTURE_FUND/v1''),
     (''line_count'', ''2''), (''digest'', ''1d'')]"

definition debit_cells :: row where
  "debit_cells = cells [(''book_id'', ''b''), (''journal_id'', ''j''), (''ordinal'', ''0''), (''account_id'', ''P''), (''side'', ''DEBIT''),
     (''units'', ''5'')]"

definition credit_cells :: row where
  "credit_cells = cells [(''book_id'', ''b''), (''journal_id'', ''j''), (''ordinal'', ''1''), (''account_id'', ''W''), (''side'', ''CREDIT''),
     (''units'', ''5'')]"

definition wallet_event :: row where
  "wallet_event = cells [(''book_id'', ''b''), (''account_id'', ''W''), (''version'', ''1''), (''operation_id'', ''r''), (''body'',
     write_json (JObj wallet_event_fields))]"

definition pool_event :: row where
  "pool_event = cells [(''book_id'', ''b''), (''account_id'', ''P''), (''version'', ''1''), (''operation_id'', ''r''), (''body'',
     write_json (JObj pool_event_fields))]"

definition fee_event :: row where
  "fee_event = cells [(''book_id'', ''b''), (''account_id'', ''F''), (''version'', ''1''), (''operation_id'', ''f''), (''body'',
     write_json (JObj fee_event_fields))]"

definition hold_event_cells :: row where
  "hold_event_cells = cells [(''book_id'', ''b''), (''hold_id'', ''h''), (''version'', ''1''), (''operation_id'', ''r''), (''body'',
     write_json (JObj hold_event_fields))]"

definition limit_event_cells :: row where
  "limit_event_cells = cells [(''book_id'', ''b''), (''owner_id'', ''o''), (''bucket'', ''d''), (''version'', ''1''), (''operation_id'', ''r''),
     (''body'', write_json (JObj limit_event_fields))]"

definition fund_op :: row where
  "fund_op = cells [(''book_id'', ''b''), (''operation_id'', ''f''), (''outcome'', ''APPLIED''), (''canonical'',
     hex_text (write_json (JObj fund_fields))), (''request_hash'', ''31''), (''receipt'', write_json (JObj fund_receipt_fields))]"

definition reserve_op :: row where
  "reserve_op = cells [(''book_id'', ''b''), (''operation_id'', ''r''), (''outcome'', ''APPLIED''), (''canonical'',
     hex_text (write_json (JObj reserve_fields))), (''request_hash'', ''4b''), (''receipt'', write_json (JObj reserve_receipt_fields))]"

definition fund_fact :: row where
  "fund_fact = cells [(''book_id'', ''b''), (''event_id'', ''e''), (''operation_id'', ''f''), (''event_type'', ''LedgerOperationResolved''),
     (''body'', write_json (JObj fund_receipt_fields))]"

definition reserve_fact :: row where
  "reserve_fact = cells [(''book_id'', ''b''), (''event_id'', ''g''), (''operation_id'', ''r''), (''event_type'', ''LedgerOperationResolved''),
     (''body'', write_json (JObj reserve_receipt_fields))]"

definition small_tables :: "(string \<times> row list) list" where
  "small_tables =
    [(''books'', [book_cells]), (''accounts'', [wallet_cells, pool_cells, fee_cells]), (''posting_policies'', [policy_cells]),
     (''account_balances'', [wallet_balance, pool_balance, fee_balance]), (''spending_controls'', []), (''business_claims'', [claim_cells]),
     (''holds'', [hold_cells]), (''limit_usage'', [usage_cells]), (''journals'', [journal_cells]),
     (''journal_lines'', [debit_cells, credit_cells]), (''account_events'', [wallet_event, pool_event, fee_event]), (''control_events'', []),
     (''hold_events'', [hold_event_cells]), (''limit_events'', [limit_event_cells]), (''resolution_evidence'', []),
     (''financial_operations'', [fund_op, reserve_op]), (''outbox_facts'', [fund_fact, reserve_fact])]"

definition small_verifier :: verifier where
  "small_verifier =
     \<lparr>vf_canonical = (\<lambda>j. case j of JArr vs \<Rightarrow> replicate (length vs) CHR ''x'' | JObj kvs \<Rightarrow> concat (map fst kvs) | _ \<Rightarrow> []),
      vf_Transform = Some, vf_sha256 = (\<lambda>t. [of_nat (length t)]), vf_zone = (\<lambda>_. 10800), vf_range = (\<lambda>n ks. ks)\<rparr>"

definition small_snapshot :: snapshot where
  "small_snapshot =
     \<lparr>sn_SchemaVersion = ''1'', sn_Cut = ''1.0'', sn_BookID = ''b'', sn_Tables = map (\<lambda>(name, rows). (name, Some rows)) small_tables,
      sn_Digests = map (\<lambda>(name, rows). (name, hex_encode [of_nat (length rows)])) small_tables,
      sn_Counts = map (\<lambda>(name, rows). (name, int (length rows))) small_tables\<rparr>"

section \<open>Reading them\<close>

lemma str_cells: "str (cells kvs) k = (case map_of kvs k of None \<Rightarrow> [] | Some v \<Rightarrow> v)"
proof -
  have "map_of (map (\<lambda>(k, v). (k, JStr v)) kvs) k = map_option JStr (map_of kvs k)" by (induction kvs) auto
  then show ?thesis by (simp add: str_def cell_def cells_def split: option.split)
qed

lemma cell_cells: "cell (cells kvs) k = map_option JStr (map_of kvs k)"
  unfolding cell_def cells_def by (induction kvs) auto

lemma cells_Some: "cells kvs \<noteq> None" by (simp add: cells_def)

lemma hex_string_text: "hex_string (hex_text t) = (t, True)"
proof (induction t)
  case (Cons c t)
  have small: "(of_char c :: nat) < 256" using of_char_mod_256 [of c] by (metis mod_less_divisor zero_less_numeral)
  have "unat (of_char c :: 8 word) = of_char c"
    using small unat_of_nat [where 'a = 8, of "of_char c"] by (simp add: of_nat_of_char)
  moreover have "(of_char c :: nat) div 16 < 16" using small by (intro less_mult_imp_div_less) simp
  ultimately show ?case using Cons by (simp add: hex_text_def hex_encode_def hex_byte_def)
qed (simp add: hex_text_def hex_encode_def)

lemma written_body:
  assumes "str r key = write_json (JObj kvs)" and "plain_json (JObj kvs)" and "nesting (JObj kvs) \<le> 10000"
  shows "json_body r key = Some kvs" and "body_problems r key = []"
  using json_read_written [OF assms(2,3), of "[]"] assms(1) any_value_plain [OF assms(2)]
  by (simp_all add: json_body_def body_problems_def ends_value_def obj_def del: write_json.simps any_value.simps)

lemmas small_rows = book_cells_def wallet_cells_def pool_cells_def fee_cells_def policy_cells_def wallet_balance_def pool_balance_def fee_balance_def
    claim_cells_def hold_cells_def usage_cells_def journal_cells_def debit_cells_def credit_cells_def wallet_event_def pool_event_def fee_event_def
    hold_event_cells_def limit_event_cells_def fund_op_def reserve_op_def fund_fact_def reserve_fact_def

text \<open>The cells of a row, without unfolding the row.\<close>

lemmas small_str = small_rows [THEN arg_cong [where f = str], THEN fun_cong] str_cells
lemmas small_cell = small_rows [THEN arg_cong [where f = cell], THEN fun_cong] cell_cells
lemmas small_Some = small_rows [THEN arg_cong [where f = "\<lambda>r. r = None"]] cells_Some


text \<open>The tables, their indexes and the texts in their cells.\<close>

lemma small_tables_rows:
  shows "rows_in small_snapshot ''books'' = [book_cells]"
  and "rows_in small_snapshot ''accounts'' = [wallet_cells, pool_cells, fee_cells]"
  and "rows_in small_snapshot ''posting_policies'' = [policy_cells]"
  and "rows_in small_snapshot ''account_balances'' = [wallet_balance, pool_balance, fee_balance]"
  and "rows_in small_snapshot ''spending_controls'' = []"
  and "rows_in small_snapshot ''business_claims'' = [claim_cells]"
  and "rows_in small_snapshot ''holds'' = [hold_cells]"
  and "rows_in small_snapshot ''limit_usage'' = [usage_cells]"
  and "rows_in small_snapshot ''journals'' = [journal_cells]"
  and "rows_in small_snapshot ''journal_lines'' = [debit_cells, credit_cells]"
  and "rows_in small_snapshot ''account_events'' = [wallet_event, pool_event, fee_event]"
  and "rows_in small_snapshot ''control_events'' = []"
  and "rows_in small_snapshot ''hold_events'' = [hold_event_cells]"
  and "rows_in small_snapshot ''limit_events'' = [limit_event_cells]"
  and "rows_in small_snapshot ''resolution_evidence'' = []"
  and "rows_in small_snapshot ''financial_operations'' = [fund_op, reserve_op]"
  and "rows_in small_snapshot ''outbox_facts'' = [fund_fact, reserve_fact]"
  by (simp_all add: rows_in_def table_of_def small_snapshot_def small_tables_def)

lemma small_indexes:
  shows "index small_snapshot ''accounts'' [''account_id''] = [(''W'', wallet_cells), (''P'', pool_cells), (''F'', fee_cells)]"
  and "index_problems small_snapshot ''accounts'' [''account_id''] = []"
  and "index small_snapshot ''account_balances'' [''account_id''] = [(''W'', wallet_balance), (''P'', pool_balance), (''F'', fee_balance)]"
  and "index_problems small_snapshot ''account_balances'' [''account_id''] = []"
  and "index small_snapshot ''journals'' [''journal_id''] = [(''j'', journal_cells)]"
  and "index_problems small_snapshot ''journals'' [''journal_id''] = []"
  and "index small_snapshot ''financial_operations'' [''operation_id''] = [(''f'', fund_op), (''r'', reserve_op)]"
  and "index_problems small_snapshot ''financial_operations'' [''operation_id''] = []"
  and "index small_snapshot ''business_claims'' [''payment_id''] = [(''y'', claim_cells)]"
  and "index_problems small_snapshot ''business_claims'' [''payment_id''] = []"
  and "index small_snapshot ''holds'' [''hold_id''] = [(''h'', hold_cells)]"
  and "index_problems small_snapshot ''holds'' [''hold_id''] = []"
  and "index small_snapshot ''posting_policies'' [''policy_id''] = [(''q'', policy_cells)]"
  and "index_problems small_snapshot ''posting_policies'' [''policy_id''] = []"
  and "index small_snapshot ''limit_usage'' [''owner_id'', ''bucket''] = [(''o/d'', usage_cells)]"
  and "index_problems small_snapshot ''limit_usage'' [''owner_id'', ''bucket''] = []"
  and "index small_snapshot ''spending_controls'' [''subject_kind'', ''subject_id''] = []"
  and "index_problems small_snapshot ''spending_controls'' [''subject_kind'', ''subject_id''] = []"
  and "index small_snapshot ''resolution_evidence'' [''evidence_id''] = []"
  and "index_problems small_snapshot ''resolution_evidence'' [''evidence_id''] = []"
  by (simp_all add: index_def index_problems_def small_tables_rows small_str row_id_def between_def flag_def Let_def)

lemma small_fields_plain:
  shows "plain_json (JObj fund_fields)" "nesting (JObj fund_fields) \<le> 10000"
  and "plain_json (JObj reserve_fields)" "nesting (JObj reserve_fields) \<le> 10000"
  and "plain_json (JObj fund_receipt_fields)" "nesting (JObj fund_receipt_fields) \<le> 10000"
  and "plain_json (JObj reserve_receipt_fields)" "nesting (JObj reserve_receipt_fields) \<le> 10000"
  and "plain_json (JObj hold_fields)" "nesting (JObj hold_fields) \<le> 10000"
  and "plain_json (JObj hold_event_fields)" "nesting (JObj hold_event_fields) \<le> 10000"
  and "plain_json (JObj wallet_event_fields)" "nesting (JObj wallet_event_fields) \<le> 10000"
  and "plain_json (JObj pool_event_fields)" "nesting (JObj pool_event_fields) \<le> 10000"
  and "plain_json (JObj fee_event_fields)" "nesting (JObj fee_event_fields) \<le> 10000"
  and "plain_json (JObj limit_event_fields)" "nesting (JObj limit_event_fields) \<le> 10000"
  by (simp_all add: fund_fields_def reserve_fields_def fund_receipt_fields_def reserve_receipt_fields_def hold_fields_def hold_event_fields_def wallet_event_fields_def pool_event_fields_def fee_event_fields_def limit_event_fields_def code_of_def)

lemma small_bodies:
  shows "json_body hold_cells ''terms'' = Some hold_fields" "body_problems hold_cells ''terms'' = []"
  and "json_body wallet_event ''body'' = Some wallet_event_fields" "body_problems wallet_event ''body'' = []"
  and "json_body pool_event ''body'' = Some pool_event_fields" "body_problems pool_event ''body'' = []"
  and "json_body fee_event ''body'' = Some fee_event_fields" "body_problems fee_event ''body'' = []"
  and "json_body hold_event_cells ''body'' = Some hold_event_fields" "body_problems hold_event_cells ''body'' = []"
  and "json_body limit_event_cells ''body'' = Some limit_event_fields" "body_problems limit_event_cells ''body'' = []"
  and "json_body fund_op ''receipt'' = Some fund_receipt_fields" "body_problems fund_op ''receipt'' = []"
  and "json_body reserve_op ''receipt'' = Some reserve_receipt_fields" "body_problems reserve_op ''receipt'' = []"
  and "json_body fund_fact ''body'' = Some fund_receipt_fields" "body_problems fund_fact ''body'' = []"
  and "json_body reserve_fact ''body'' = Some reserve_receipt_fields" "body_problems reserve_fact ''body'' = []"
  by (rule written_body; (rule small_fields_plain | simp add: small_str del: write_json.simps))+

lemma small_materials:
  shows "hex_string (str fund_op ''canonical'') = (write_json (JObj fund_fields), True)"
  and "hex_string (str reserve_op ''canonical'') = (write_json (JObj reserve_fields), True)"
  by (simp_all add: small_str hex_string_text del: write_json.simps)

section \<open>It is accepted\<close>

lemma small_keys [simp]: "keys_of small_verifier n m = map fst m"
  by (simp add: keys_of_def small_verifier_def)

lemma small_digest: "digest_of small_verifier t = hex_encode [of_nat (length t)]"
  by (simp add: digest_of_def small_verifier_def)

lemma small_canonical:
  "vf_canonical small_verifier (JArr vs) = replicate (length vs) CHR ''x''"
  "vf_canonical small_verifier (JObj kvs) = concat (map fst kvs)"
  by (simp_all add: small_verifier_def)

lemma small_id: "sn_BookID small_snapshot = ''b''" by (simp add: small_snapshot_def)

lemma small_names: "map fst (sn_Tables small_snapshot) = required"
  by (simp add: small_snapshot_def small_tables_def required_def)

lemma small_manifest:
  "identity_problems small_snapshot = []" "book_problems small_snapshot = []" "indexes_problems small_snapshot = []"
proof -
  show "identity_problems small_snapshot = []" by (simp add: identity_problems_def small_snapshot_def)
  show "book_problems small_snapshot = []"
    unfolding book_problems_def small_names small_tables_rows by (simp add: small_str required_def)
  show "indexes_problems small_snapshot = []" by (simp add: indexes_problems_def small_indexes)
qed

lemma small_table_problems: "list_all (\<lambda>name. table_problems small_verifier small_snapshot name = []) required"
  by (simp add: required_def table_problems_def rows_in_def table_of_def small_snapshot_def small_tables_def small_digest small_canonical
      rows_json_def small_str)

lemma small_accounts: "\<forall>i\<in>{''W'', ''P'', ''F''}. account_problems (row_at (index small_snapshot ''accounts'' [''account_id'']) i) = []"
  by (simp add: small_indexes row_at_def account_problems_def small_str)

lemma small_row_at: "row_at ((k, r) # m) i = (if i = k then r else row_at m i)" "row_at [] i = None"
  by (simp_all add: row_at_def)

lemmas small_simps = small_indexes small_tables_rows small_row_at small_str small_cell small_Some small_bodies small_id

lemma small_orders:
  "journals_by_op (index small_snapshot ''financial_operations'' [''operation_id'']) (index small_snapshot ''journals'' [''journal_id'']) [''j''] []
     = ([], [(''f'', ''j'')])"
  "events_by_op (index small_snapshot ''financial_operations'' [''operation_id'']) [fund_fact, reserve_fact] [] []
     = ([], [(''f'', fund_fact), (''r'', reserve_fact)])"
  by (simp_all add: small_simps flag_def)

lemma small_material:
  "canonical_bytes fund_op = write_json (JObj fund_fields)" "canonical_bytes reserve_op = write_json (JObj reserve_fields)"
  "material_of fund_op = Some fund_fields" "material_of reserve_op = Some reserve_fields"
  "material_problems fund_op = []" "material_problems reserve_op = []"
proof -
  show c: "canonical_bytes fund_op = write_json (JObj fund_fields)" "canonical_bytes reserve_op = write_json (JObj reserve_fields)"
    by (simp_all add: canonical_bytes_def small_materials)
  note read = json_read_written [where rest = "[]", OF small_fields_plain(1,2)] json_read_written [where rest = "[]", OF small_fields_plain(3,4)]
  show "material_of fund_op = Some fund_fields" "material_of reserve_op = Some reserve_fields"
    "material_problems fund_op = []" "material_problems reserve_op = []"
    using read by (simp_all add: material_of_def material_problems_def c ends_value_def obj_def any_value_plain [OF small_fields_plain(1)]
        any_value_plain [OF small_fields_plain(3)] del: write_json.simps any_value.simps)
qed

lemmas small_eval = number_problems_def number_def exact_def canonical_dec_def is_digit_def less_eq_char_def dec_ival_def dec_val_def digit_val_def
  Let_def fits_int64_def

lemma small_posted:
  "lines_loop (indexes_of small_snapshot) [debit_cells, credit_cells] no_lines
     = ([], \<lparr>pl_debit = [(''P'', 5)], pl_credit = [(''W'', 5)], pl_lines = [(''j'', [debit_cells, credit_cells])]\<rparr>)"
  by (simp add: small_simps no_lines_def lines_at_def add_at_def sum_at_def small_eval)

lemma str_Some: "str (Some kvs) k = (case map_of kvs k of Some (JStr s) \<Rightarrow> s | _ \<Rightarrow> [])"
  by (simp add: str_def cell_def)

lemma cell_Some: "cell (Some kvs) k = map_of kvs k" "cell None k = None" "str None k = []"
  by (simp_all add: cell_def str_def)

lemma small_hex: "hex_encode [49] = ''31''" "hex_encode [75] = ''4b''" "hex_encode [29] = ''1d''"
  by code_simp+

lemma small_hashes:
  "length (write_json (JObj fund_fields)) = 49" "length (write_json (JObj reserve_fields)) = 75"
  by (simp_all add: fund_fields_def reserve_fields_def quoted_def between_def escape_char_def code_of_def)

lemma small_ops:
  "op_problems small_verifier small_snapshot (indexes_of small_snapshot) [(''f'', ''j'')] [(''f'', fund_fact), (''r'', reserve_fact)] ''f'' fund_op = []"
  "op_problems small_verifier small_snapshot (indexes_of small_snapshot) [(''f'', ''j'')] [(''f'', fund_fact), (''r'', reserve_fact)] ''r'' reserve_op = []"
  unfolding op_problems_def Let_def small_bodies small_material small_materials small_digest small_hashes indexes_of_sel small_id
  by (simp_all add: small_indexes small_row_at small_str small_Some small_bodies equal_json_def str_Some cell_Some obj_def material_terms_def
      fund_fields_def reserve_fields_def fund_receipt_fields_def reserve_receipt_fields_def small_verifier_def small_hex)

lemma small_integers: "integer (Some (JStr ''0'')) = 0" "integer (Some (JStr ''1'')) = 1" "integer (Some (JStr ''2'')) = 2"
  by code_simp+

lemma small_posted_of:
  "posted_of small_snapshot = \<lparr>pl_debit = [(''P'', 5)], pl_credit = [(''W'', 5)], pl_lines = [(''j'', [debit_cells, credit_cells])]\<rparr>"
  unfolding posted_of_def small_tables_rows small_posted by simp

lemma small_journal: "journal_problems small_verifier small_snapshot (posted_of small_snapshot) ''j'' journal_cells = []"
  by (simp add: journal_problems_def small_posted_of lines_at_def by_ordinal_def small_cell small_integers small_str small_eval small_id
      small_digest small_hex)

lemma small_holds:
  "holds_loop (indexes_of small_snapshot) [''h''] no_holds = ([],
     \<lparr>hs_held = [(''W'', 2), (''P'', 2)], hs_reserved = [(''o/d'', 2)], hs_consumed = [], hs_open = 1\<rparr>)"
  by (simp add: hold_problems_def hold_sum_def hold_terms_def hold_key_def hold_principal_def hold_fee_def no_holds_def small_simps
      hold_fields_def str_Some cell_Some obj_def small_eval add_at_def sum_at_def)

lemma small_transfers: "transfers_loop small_verifier (indexes_of small_snapshot) [''f'', ''r''] [] = ([], [])"
  by (simp add: transfer_sum_def is_transfer_def small_simps fund_receipt_fields_def reserve_receipt_fields_def str_Some)

lemma small_claim: "claim_problems (indexes_of small_snapshot) claim_cells = []"
  by (simp add: claim_problems_def receipt_of_def small_simps reserve_receipt_fields_def str_Some Let_def)

lemma small_holds_of:
  "holds_of small_verifier small_snapshot = \<lparr>hs_held = [(''W'', 2), (''P'', 2)], hs_reserved = [(''o/d'', 2)], hs_consumed = [], hs_open = 1\<rparr>"
  unfolding holds_of_def indexes_of_sel small_indexes small_keys list.map fst_conv small_holds by simp

lemma small_consumed: "consumed_of small_verifier small_snapshot = []"
  unfolding consumed_of_def indexes_of_sel small_indexes small_keys list.map fst_conv small_holds_of hold_sums.select_convs small_transfers by simp

lemma small_balances:
  "\<forall>i\<in>{''W'', ''P'', ''F''}. balance_problems (indexes_of small_snapshot) (posted_of small_snapshot) (holds_of small_verifier small_snapshot) i = []"
  by (simp add: balance_problems_def small_posted_of small_holds_of small_simps sum_at_def small_eval)

lemma small_usage: "usage_problems [(''o/d'', 2)] [] ''o/d'' usage_cells = []"
  by (simp add: usage_problems_def small_simps sum_at_def small_eval)

lemma small_histories: "histories small_verifier small_snapshot (indexes_of small_snapshot) [(''o/d'', usage_cells)] = []"
proof -
  have rows: "history_of small_snapshot ''account_events'' [''account_id''] ''W'' = [wallet_event]"
    "history_of small_snapshot ''account_events'' [''account_id''] ''P'' = [pool_event]"
    "history_of small_snapshot ''account_events'' [''account_id''] ''F'' = [fee_event]"
    "history_of small_snapshot ''hold_events'' [''hold_id''] ''h'' = [hold_event_cells]"
    "history_of small_snapshot ''limit_events'' [''owner_id'', ''bucket''] ''o/d'' = [limit_event_cells]"
    by (simp_all add: history_of_def small_tables_rows by_version_def row_id_def between_def small_str)
  have one: "history_problems small_verifier small_snapshot ''account_events'' [''account_id''] ''W'' wallet_balance = []"
    "history_problems small_verifier small_snapshot ''account_events'' [''account_id''] ''P'' pool_balance = []"
    "history_problems small_verifier small_snapshot ''account_events'' [''account_id''] ''F'' fee_balance = []"
    "history_problems small_verifier small_snapshot ''limit_events'' [''owner_id'', ''bucket''] ''o/d'' usage_cells = []"
    unfolding history_problems_def rows
    by (simp_all add: event_problems_def tip_problems_def before_of_def after_of_def small_bodies small_cell small_str small_integers
        wallet_event_fields_def pool_event_fields_def fee_event_fields_def limit_event_fields_def cell_Some str_Some obj_def)
  have two: "history_problems small_verifier small_snapshot ''hold_events'' [''hold_id''] ''h'' hold_cells = []"
    unfolding history_problems_def rows
    by (simp add: event_problems_def tip_problems_def before_of_def after_of_def hold_event_problems_def small_bodies small_cell small_str
        small_integers hold_event_fields_def hold_fields_def cell_Some str_Some obj_def clone_def equal_json_def row_json_def small_canonical
        AList.delete_eq)
  show ?thesis
    unfolding histories_def spec_problems_def
    using one two
    by (simp add: small_indexes small_tables_rows small_row_at small_str small_Some row_id_def between_def)
qed

lemma small_templates: "templates small_verifier small_snapshot (indexes_of small_snapshot) (posted_of small_snapshot) = []"
  by (simp add: templates_def template_problems_def funding_template_def small_posted_of lines_at_def by_ordinal_def small_integers small_simps
      small_material fund_receipt_fields_def reserve_receipt_fields_def fund_fields_def str_Some)

lemma small_by: "journal_by small_verifier small_snapshot = [(''f'', ''j'')]" "event_by small_snapshot = [(''f'', fund_fact), (''r'', reserve_fact)]"
  using small_orders by (simp_all add: journal_by_def event_by_def small_indexes small_tables_rows del: journals_by_op.simps events_by_op.simps)

lemmas small_walk = indexes_of_sel small_indexes small_keys small_tables_rows small_by small_posted_of small_holds_of small_consumed hold_sums.select_convs
  list.map fst_conv

theorem small_accepted: "found small_verifier small_snapshot = []"
  unfolding found_Nil small_walk
proof (intro conjI)
  show "\<forall>name\<in>set required. table_problems small_verifier small_snapshot name = []"
    using small_table_problems by (simp add: list_all_iff)
qed (use small_manifest small_orders [unfolded small_walk] small_accounts [unfolded small_walk] small_ops small_posted small_journal [unfolded small_walk]
     small_holds small_transfers small_claim small_balances [unfolded small_walk] small_usage small_histories small_templates [unfolded small_walk]
     in \<open>simp_all add: small_row_at small_Some del: journals_by_op.simps events_by_op.simps lines_loop.simps holds_loop.simps transfers_loop.simps\<close>)

lemma small_valid: "rep_Valid (Verify small_verifier small_snapshot)"
  by (simp add: Verify_valid small_accepted)

lemma small_fair: "fair_range small_verifier" "fair_range (small_verifier\<lparr>vf_range := \<lambda>n. rev\<rparr>)"
  by (simp_all add: fair_range_def small_verifier_def)

section \<open>What the results say of it\<close>

theorem verified_journals_balance_witness:
  "fair_range small_verifier \<and> rep_Valid (Verify small_verifier small_snapshot) \<and> journal_cells \<in> set (rows_in small_snapshot ''journals'')
    \<and> (let ls = by_ordinal (lines_of small_snapshot (str journal_cells ''journal_id'')) in side_total ''DEBIT'' ls = side_total ''CREDIT'' ls)"
  using verified_journals_balance [OF small_fair(1) small_valid, of journal_cells] small_fair(1) small_valid
  by (simp add: small_tables_rows Let_def)

theorem verified_balances_witness:
  "fair_range small_verifier \<and> rep_Valid (Verify small_verifier small_snapshot) \<and> wallet_cells \<in> set (rows_in small_snapshot ''accounts'')
    \<and> (\<exists>b\<in>set (rows_in small_snapshot ''account_balances''). str b ''account_id'' = ''W''
        \<and> dec_ival (str b ''held'') = (\<Sum>h\<leftarrow>rows_in small_snapshot ''holds''. held_by ''W'' h))"
proof -
  have w: "wallet_cells \<in> set (rows_in small_snapshot ''accounts'')" "str wallet_cells ''account_id'' = ''W''"
    by (simp_all add: small_tables_rows small_str)
  show ?thesis using verified_balances [OF small_fair(1) small_valid w(1)] small_fair(1) small_valid w by (auto simp: Let_def)
qed

theorem verified_operations_witness:
  "fair_range small_verifier \<and> rep_Valid (Verify small_verifier small_snapshot) \<and> fund_op \<in> set (rows_in small_snapshot ''financial_operations'')
    \<and> digest_of small_verifier (canonical_bytes fund_op) = ''31''"
proof -
  have w: "fund_op \<in> set (rows_in small_snapshot ''financial_operations'')" "str fund_op ''request_hash'' = ''31''"
    by (simp_all add: small_tables_rows small_str)
  show ?thesis using verified_operations [OF small_fair(1) small_valid w(1)] small_fair(1) small_valid w by (simp add: Let_def)
qed

theorem verified_hold_histories_witness:
  "fair_range small_verifier \<and> rep_Valid (Verify small_verifier small_snapshot) \<and> hold_cells \<in> set (rows_in small_snapshot ''holds'')
    \<and> state_after (last (history_of small_snapshot ''hold_events'' [''hold_id''] ''h'')) = ''RESERVED''"
proof -
  have w: "hold_cells \<in> set (rows_in small_snapshot ''holds'')" "str hold_cells ''hold_id'' = ''h''" "str hold_cells ''state'' = ''RESERVED''"
    by (simp_all add: small_tables_rows small_str)
  show ?thesis using verified_hold_histories [OF small_fair(1) small_valid w(1)] small_fair(1) small_valid w by (simp add: Let_def)
qed

theorem verified_limits_witness:
  "fair_range small_verifier \<and> rep_Valid (Verify small_verifier small_snapshot) \<and> usage_cells \<in> set (rows_in small_snapshot ''limit_usage'')
    \<and> dec_ival (str usage_cells ''reserved'') = (\<Sum>h\<leftarrow>rows_in small_snapshot ''holds''. reserved_by ''o/d'' h)"
proof -
  have w: "usage_cells \<in> set (rows_in small_snapshot ''limit_usage'')" "row_id usage_cells [''owner_id'', ''bucket''] = ''o/d''"
    by (simp_all add: small_tables_rows small_str row_id_def between_def)
  show ?thesis using verified_limits [OF small_fair(1) small_valid] small_fair(1) small_valid w by (auto simp: Let_def)
qed

theorem verdict_order_independent_witness:
  "fair_range small_verifier \<and> fair_range (small_verifier\<lparr>vf_range := \<lambda>n. rev\<rparr>)
    \<and> rep_Valid (Verify (small_verifier\<lparr>vf_range := \<lambda>n. rev\<rparr>) small_snapshot)"
  using verdict_order_independent [OF small_fair, of small_snapshot] small_fair small_valid by simp

end
