(* ===== verification/Wire.thy ===== *)
theory Wire
  imports Json_Write Command
begin

text \<open>
  Requests on the wire: protobuf messages, and how \<open>transport/server.go\<close> turns them into the structs of a command by way
  of JSON. The text \<open>protojson\<close> writes is a parameter (its spacing is not specified); its value has every field of a message under its
  proto name. \<open>encoding/json\<close> stores a value into a struct field by field, by the tags and methods of \<open>application/model.go\<close>.
\<close>

section \<open>Messages\<close>

datatype message = Message (unknown: string) (fields: "(string \<times> field) list")
and field = PString string | PBool bool | PMessage "message option" | PMap "(string \<times> string) list" | PMessages "message list"

text \<open>The generated getters: the zero value for a nil message or an unset field.\<close>

definition GetString :: "message option \<Rightarrow> string \<Rightarrow> string" where
  "GetString m n = (case m of None \<Rightarrow> [] | Some x \<Rightarrow> (case map_of (fields x) n of Some (PString s) \<Rightarrow> s | _ \<Rightarrow> []))"

definition GetMessage :: "message option \<Rightarrow> string \<Rightarrow> message option" where
  "GetMessage m n = (case m of None \<Rightarrow> None | Some x \<Rightarrow> (case map_of (fields x) n of Some (PMessage v) \<Rightarrow> v | _ \<Rightarrow> None))"

fun message_json :: "message \<Rightarrow> json" and field_json :: "field \<Rightarrow> json" where
  "message_json (Message u fs) = JObj (map (\<lambda>(n, f). (n, field_json f)) fs)"
| "field_json (PString s) = JStr s"
| "field_json (PBool b) = JBool b"
| "field_json (PMessage m) = (case m of None \<Rightarrow> JNull | Some x \<Rightarrow> message_json x)"
| "field_json (PMap kvs) = JObj (map (\<lambda>(k, v). (k, JStr v)) kvs)"
| "field_json (PMessages ms) = JArr (map message_json ms)"

section \<open>Structs\<close>

text \<open>How a value is stored into a field of each Go type; \<open>None\<close> is an error.\<close>

type_synonym 'r put = "json \<Rightarrow> 'r \<Rightarrow> 'r option"

fun members :: "(string \<times> 'r put) list \<Rightarrow> (string \<times> json) list \<Rightarrow> 'r \<Rightarrow> 'r option" where
  "members fs [] r = Some r"
| "members fs ((k, v) # kvs) r =
     (case Option.bind (field_for (map fst fs) k) (map_of fs) of
        None \<Rightarrow> members fs kvs r
      | Some put \<Rightarrow> Option.bind (put v r) (members fs kvs))"

definition into_struct :: "(string \<times> 'r put) list \<Rightarrow> json \<Rightarrow> 'r \<Rightarrow> 'r option" where
  "into_struct fs v r = (case v of JNull \<Rightarrow> Some r | JObj kvs \<Rightarrow> members fs kvs r | _ \<Rightarrow> None)"

definition bool_member :: "(bool \<Rightarrow> 'r \<Rightarrow> 'r) \<Rightarrow> 'r put" where
  "bool_member set_it v r = (case v of JBool b \<Rightarrow> Some (set_it b r) | JNull \<Rightarrow> Some r | _ \<Rightarrow> None)"

text \<open>\<open>ID.UnmarshalJSON\<close>: the empty text and null give the empty identity, another text the canonical form of what \<open>ParseID\<close> accepts.\<close>

definition id_member :: "(ID \<Rightarrow> 'r \<Rightarrow> 'r) \<Rightarrow> 'r put" where
  "id_member set_it v r =
     (case v of
        JNull \<Rightarrow> Some (set_it [] r)
      | JStr s \<Rightarrow> if s = [] then Some (set_it [] r) else (case ParseID s of Inl _ \<Rightarrow> None | Inr i \<Rightarrow> Some (set_it i r))
      | _ \<Rightarrow> None)"

text \<open>
  \<open>Amount\<close> and \<open>Wide\<close> have methods that take a string and nothing else, not even null. They refuse escapes in its
  text; \<open>protojson\<close> does not escape digits, and no other character is accepted.
\<close>

definition amount_member :: "(amount \<Rightarrow> 'r \<Rightarrow> 'r) \<Rightarrow> 'r put" where
  "amount_member set_it v r =
     (case v of JStr s \<Rightarrow> (case ParseAmount s of Inl _ \<Rightarrow> None | Inr a \<Rightarrow> Some (set_it a r)) | _ \<Rightarrow> None)"

definition wide_member :: "(wide \<Rightarrow> 'r \<Rightarrow> 'r) \<Rightarrow> 'r put" where
  "wide_member set_it v r = (case v of JStr s \<Rightarrow> (case ParseWide s of Inl _ \<Rightarrow> None | Inr w \<Rightarrow> Some (set_it w r)) | _ \<Rightarrow> None)"

text \<open>The option \<open>,string\<close> of an integer: a number in quotes; the text null leaves the field.\<close>

definition quoted_int :: "string \<Rightarrow> int64 option option" where
  "quoted_int s =
     (case s of [] \<Rightarrow> None
      | c # _ \<Rightarrow> if s = ''null'' then Some None else if c = CHR ''-'' \<or> is_digit c then map_option Some (parse_int64 s) else None)"

definition int_member :: "(int64 \<Rightarrow> 'r \<Rightarrow> 'r) \<Rightarrow> 'r put" where
  "int_member set_it v r =
     (case v of
        JNull \<Rightarrow> Some r
      | JStr s \<Rightarrow> map_option (\<lambda>n. case n of None \<Rightarrow> r | Some x \<Rightarrow> set_it x r) (quoted_int s)
      | _ \<Rightarrow> None)"

definition time_member :: "(time \<Rightarrow> 'r \<Rightarrow> 'r) \<Rightarrow> 'r put" where
  "time_member set_it v r =
     (case v of JNull \<Rightarrow> Some r | JStr s \<Rightarrow> map_option (\<lambda>t. set_it t r) (Time_Parse s) | _ \<Rightarrow> None)"

definition struct_member :: "(string \<times> 's put) list \<Rightarrow> ('r \<Rightarrow> 's) \<Rightarrow> ('s \<Rightarrow> 'r \<Rightarrow> 'r) \<Rightarrow> 'r put" where
  "struct_member fs get set_it v r = map_option (\<lambda>x. set_it x r) (into_struct fs v (get r))"

section \<open>The structs of a command\<close>

definition zero_time :: time where "zero_time = \<lparr>t_ns = 0, t_offset = 0\<rparr>"

definition zero_grant :: grant where
  "zero_grant = \<lparr>gr_ID = [], gr_Issuer = [], gr_BookID = [], gr_PaymentID = [], gr_SubjectID = [], gr_SourceID = [], gr_BeneficiaryID = [],
     gr_Principal = Amount 0, gr_Fee = Amount 0, gr_PolicyID = [], gr_QuoteID = [], gr_Currency = [], gr_SubjectEpoch = 0, gr_AccountEpoch = 0,
     gr_NotBefore = zero_time, gr_ExpiresAt = zero_time\<rparr>"

definition zero_evidence :: signed_evidence where
  "zero_evidence = \<lparr>se_Claims = \<lparr>ev_ID = [], ev_Issuer = [], ev_BookID = [], ev_PaymentID = [], ev_HoldID = [], ev_AttemptID = [],
     ev_ProviderAccountID = [], ev_BeneficiaryID = [], ev_Principal = Amount 0, ev_Currency = [], ev_CapabilityID = [], ev_FinalState = [],
     ev_SubmissionFenced = False, ev_ObservedAt = zero_time, ev_SourceDigest = []\<rparr>, se_Signature = []\<rparr>"

definition zero_terms :: terms where
  "zero_terms = \<lparr>tm_PaymentID = [], tm_SourceID = [], tm_BeneficiaryID = [], tm_Principal = Amount 0, tm_Fee = Amount 0, tm_Currency = [],
     tm_PolicyID = [], tm_QuoteID = [], tm_Grant = \<lparr>sg_Claims = zero_grant, sg_Signature = []\<rparr>\<rparr>"

definition zero_ref :: hold_ref where
  "zero_ref = \<lparr>rf_PaymentID = [], rf_HoldID = [], rf_AttemptID = [], rf_ExpectedVersion = 0\<rparr>"

definition zero_control :: set_control where
  "zero_control = \<lparr>sc_Key = \<lparr>ck_Kind = [], ck_ID = []\<rparr>, sc_ExpectedVersion = 0, sc_DebitFrozen = False, sc_CreditFrozen = False,
     sc_DailyCap = zero_wide, sc_RevokeGrants = False, sc_Reason = []\<rparr>"

definition grant_fields :: "(string \<times> grant put) list" where
  "grant_fields =
     [(''id'', id_member (\<lambda>x g. g\<lparr>gr_ID := x\<rparr>)), (''issuer'', string_member (\<lambda>x g. g\<lparr>gr_Issuer := x\<rparr>)),
      (''book_id'', id_member (\<lambda>x g. g\<lparr>gr_BookID := x\<rparr>)), (''payment_id'', id_member (\<lambda>x g. g\<lparr>gr_PaymentID := x\<rparr>)),
      (''subject_id'', id_member (\<lambda>x g. g\<lparr>gr_SubjectID := x\<rparr>)), (''source_id'', id_member (\<lambda>x g. g\<lparr>gr_SourceID := x\<rparr>)),
      (''beneficiary_id'', id_member (\<lambda>x g. g\<lparr>gr_BeneficiaryID := x\<rparr>)), (''principal'', amount_member (\<lambda>x g. g\<lparr>gr_Principal := x\<rparr>)),
      (''fee'', amount_member (\<lambda>x g. g\<lparr>gr_Fee := x\<rparr>)), (''policy_id'', id_member (\<lambda>x g. g\<lparr>gr_PolicyID := x\<rparr>)),
      (''quote_id'', id_member (\<lambda>x g. g\<lparr>gr_QuoteID := x\<rparr>)), (''currency'', string_member (\<lambda>x g. g\<lparr>gr_Currency := x\<rparr>)),
      (''subject_epoch'', int_member (\<lambda>x g. g\<lparr>gr_SubjectEpoch := x\<rparr>)), (''account_epoch'', int_member (\<lambda>x g. g\<lparr>gr_AccountEpoch := x\<rparr>)),
      (''not_before'', time_member (\<lambda>x g. g\<lparr>gr_NotBefore := x\<rparr>)), (''expires_at'', time_member (\<lambda>x g. g\<lparr>gr_ExpiresAt := x\<rparr>))]"

definition signed_grant_fields :: "(string \<times> signed_grant put) list" where
  "signed_grant_fields =
     [(''claims'', struct_member grant_fields sg_Claims (\<lambda>x s. s\<lparr>sg_Claims := x\<rparr>)), (''signature'', string_member (\<lambda>x s. s\<lparr>sg_Signature := x\<rparr>))]"

definition terms_fields :: "(string \<times> terms put) list" where
  "terms_fields =
     [(''payment_id'', id_member (\<lambda>x t. t\<lparr>tm_PaymentID := x\<rparr>)), (''source_id'', id_member (\<lambda>x t. t\<lparr>tm_SourceID := x\<rparr>)),
      (''beneficiary_id'', id_member (\<lambda>x t. t\<lparr>tm_BeneficiaryID := x\<rparr>)), (''principal'', amount_member (\<lambda>x t. t\<lparr>tm_Principal := x\<rparr>)),
      (''fee'', amount_member (\<lambda>x t. t\<lparr>tm_Fee := x\<rparr>)), (''currency'', string_member (\<lambda>x t. t\<lparr>tm_Currency := x\<rparr>)),
      (''policy_id'', id_member (\<lambda>x t. t\<lparr>tm_PolicyID := x\<rparr>)), (''quote_id'', id_member (\<lambda>x t. t\<lparr>tm_QuoteID := x\<rparr>)),
      (''grant'', struct_member signed_grant_fields tm_Grant (\<lambda>x t. t\<lparr>tm_Grant := x\<rparr>))]"

definition evidence_fields :: "(string \<times> evidence put) list" where
  "evidence_fields =
     [(''id'', id_member (\<lambda>x e. e\<lparr>ev_ID := x\<rparr>)), (''issuer'', string_member (\<lambda>x e. e\<lparr>ev_Issuer := x\<rparr>)),
      (''book_id'', id_member (\<lambda>x e. e\<lparr>ev_BookID := x\<rparr>)), (''payment_id'', id_member (\<lambda>x e. e\<lparr>ev_PaymentID := x\<rparr>)),
      (''hold_id'', id_member (\<lambda>x e. e\<lparr>ev_HoldID := x\<rparr>)), (''attempt_id'', id_member (\<lambda>x e. e\<lparr>ev_AttemptID := x\<rparr>)),
      (''provider_account_id'', id_member (\<lambda>x e. e\<lparr>ev_ProviderAccountID := x\<rparr>)),
      (''beneficiary_id'', id_member (\<lambda>x e. e\<lparr>ev_BeneficiaryID := x\<rparr>)), (''principal'', amount_member (\<lambda>x e. e\<lparr>ev_Principal := x\<rparr>)),
      (''currency'', string_member (\<lambda>x e. e\<lparr>ev_Currency := x\<rparr>)), (''capability_id'', id_member (\<lambda>x e. e\<lparr>ev_CapabilityID := x\<rparr>)),
      (''final_state'', string_member (\<lambda>x e. e\<lparr>ev_FinalState := x\<rparr>)),
      (''submission_fenced'', bool_member (\<lambda>x e. e\<lparr>ev_SubmissionFenced := x\<rparr>)), (''observed_at'', time_member (\<lambda>x e. e\<lparr>ev_ObservedAt := x\<rparr>)),
      (''source_digest'', string_member (\<lambda>x e. e\<lparr>ev_SourceDigest := x\<rparr>))]"

definition signed_evidence_fields :: "(string \<times> signed_evidence put) list" where
  "signed_evidence_fields =
     [(''claims'', struct_member evidence_fields se_Claims (\<lambda>x s. s\<lparr>se_Claims := x\<rparr>)),
      (''signature'', string_member (\<lambda>x s. s\<lparr>se_Signature := x\<rparr>))]"

definition ref_fields :: "(string \<times> hold_ref put) list" where
  "ref_fields =
     [(''payment_id'', id_member (\<lambda>x r. r\<lparr>rf_PaymentID := x\<rparr>)), (''hold_id'', id_member (\<lambda>x r. r\<lparr>rf_HoldID := x\<rparr>)),
      (''attempt_id'', id_member (\<lambda>x r. r\<lparr>rf_AttemptID := x\<rparr>)), (''expected_version'', int_member (\<lambda>x r. r\<lparr>rf_ExpectedVersion := x\<rparr>))]"

definition key_fields :: "(string \<times> control_key put) list" where
  "key_fields = [(''kind'', string_member (\<lambda>x k. k\<lparr>ck_Kind := x\<rparr>)), (''id'', id_member (\<lambda>x k. k\<lparr>ck_ID := x\<rparr>))]"

definition control_fields :: "(string \<times> set_control put) list" where
  "control_fields =
     [(''key'', struct_member key_fields sc_Key (\<lambda>x c. c\<lparr>sc_Key := x\<rparr>)), (''expected_version'', int_member (\<lambda>x c. c\<lparr>sc_ExpectedVersion := x\<rparr>)),
      (''debit_frozen'', bool_member (\<lambda>x c. c\<lparr>sc_DebitFrozen := x\<rparr>)), (''credit_frozen'', bool_member (\<lambda>x c. c\<lparr>sc_CreditFrozen := x\<rparr>)),
      (''daily_cap'', wide_member (\<lambda>x c. c\<lparr>sc_DailyCap := x\<rparr>)), (''revoke_grants'', bool_member (\<lambda>x c. c\<lparr>sc_RevokeGrants := x\<rparr>)),
      (''reason'', string_member (\<lambda>x c. c\<lparr>sc_Reason := x\<rparr>))]"

text \<open>The local struct of \<open>ReservePayout\<close>; the expiry stays raw.\<close>

record reserve_body =
  rb_Terms :: terms
  rb_HoldID :: ID
  rb_AttemptID :: ID
  rb_PoolID :: ID
  rb_ExpiresAt :: "json option"

definition reserve_body_fields :: "(string \<times> reserve_body put) list" where
  "reserve_body_fields =
     [(''terms'', struct_member terms_fields rb_Terms (\<lambda>x b. b\<lparr>rb_Terms := x\<rparr>)), (''hold_id'', id_member (\<lambda>x b. b\<lparr>rb_HoldID := x\<rparr>)),
      (''attempt_id'', id_member (\<lambda>x b. b\<lparr>rb_AttemptID := x\<rparr>)), (''pool_id'', id_member (\<lambda>x b. b\<lparr>rb_PoolID := x\<rparr>)),
      (''expires_at'', \<lambda>v b. Some (b\<lparr>rb_ExpiresAt := Some v\<rparr>))]"

section \<open>Decoding\<close>

type_synonym protojson = "message \<Rightarrow> string option"

definition decode_json :: "protojson \<Rightarrow> message option \<Rightarrow> json result" where
  "decode_json pj m =
     (case m of
        None \<Rightarrow> Inl ErrInvalid
      | Some x \<Rightarrow>
          (case pj x of
             None \<Rightarrow> Inl ErrInvalid
           | Some data \<Rightarrow>
               if length data > 16384 then Inl ErrInvalid
               else case json_read data of
                 None \<Rightarrow> Inl ErrInvalid
               | Some (v, rest) \<Rightarrow> if skip rest = [] then Inr v else Inl ErrInvalid))"

definition decode :: "protojson \<Rightarrow> message option \<Rightarrow> (string \<times> 'r put) list \<Rightarrow> 'r \<Rightarrow> 'r result" where
  "decode pj m fs zero =
     res_bind (decode_json pj m) (\<lambda>v. case into_struct fs v zero of None \<Rightarrow> Inl ErrInvalid | Some x \<Rightarrow> Inr x)"

end
