(* ===== verification/Snapshot_Export.thy ===== *)
theory Snapshot_Export
  imports Histories Json_Write Transact
begin

text \<open>
  The export of a book: \<open>Store.Snapshot\<close> of \<open>store/cockroach/snapshot.go\<close>. What a query returns is a parameter, its columns
  cast to text by the database; so is the canonical form, with SHA-256 one of the components the verifier calls as well.
  A Go map is an association list; JSON writes it in the order of its names.
\<close>

section \<open>Tables and columns\<close>

definition exportColumns :: "(string \<times> string list) list" where
  "exportColumns =
    [(''books'', [''book_id'', ''entity_id'', ''country'', ''currency'', ''scale'', ''synthetic'', ''default_cap'']),
     (''accounts'', [''book_id'', ''account_id'', ''owner_id'', ''purpose'']),
     (''posting_policies'', [''book_id'', ''policy_id'', ''fee'', ''fee_account_id'', ''pool_id'', ''provider_account_id'', ''capability_id'',
       ''max_hold_seconds'']),
     (''account_balances'', [''book_id'', ''account_id'', ''purpose'', ''debits'', ''credits'', ''held'', ''version'']),
     (''spending_controls'', [''book_id'', ''subject_kind'', ''subject_id'', ''version'', ''epoch'', ''debit_frozen'', ''credit_frozen'', ''daily_cap'']),
     (''business_claims'', [''book_id'', ''payment_id'', ''stage'', ''admission_operation_id'', ''admission_outcome'', ''material_hash'', ''state'',
       ''hold_id'', ''result_operation_id'']),
     (''holds'', [''book_id'', ''hold_id'', ''payment_id'', ''attempt_id'', ''terms'', ''expires_at'', ''state'', ''version'']),
     (''limit_usage'', [''book_id'', ''owner_id'', ''bucket'', ''reserved'', ''consumed'', ''version'']),
     (''journals'', [''book_id'', ''journal_id'', ''operation_id'', ''template'', ''recorded_at'', ''line_count'', ''digest'']),
     (''journal_lines'', [''book_id'', ''journal_id'', ''ordinal'', ''account_id'', ''side'', ''units'']),
     (''account_events'', [''book_id'', ''account_id'', ''version'', ''operation_id'', ''body'']),
     (''control_events'', [''book_id'', ''subject_kind'', ''subject_id'', ''version'', ''operation_id'', ''body'']),
     (''hold_events'', [''book_id'', ''hold_id'', ''version'', ''operation_id'', ''body'']),
     (''limit_events'', [''book_id'', ''owner_id'', ''bucket'', ''version'', ''operation_id'', ''body'']),
     (''resolution_evidence'', [''book_id'', ''evidence_id'', ''digest'', ''body'']),
     (''financial_operations'', [''book_id'', ''operation_id'', ''canonical'', ''request_hash'', ''outcome'', ''receipt'']),
     (''outbox_facts'', [''book_id'', ''event_id'', ''operation_id'', ''event_type'', ''body''])]"

text \<open>
  The read-only transaction: whether it begins and commits, the cut, and for the text of a query its rows, each \<open>None\<close> where
  \<open>Values\<close> fails, with what \<open>Err\<close> says at the end; \<open>None\<close> for a query that fails. \<open>xp_order\<close> is the order in which the tables are visited.
\<close>

record export_tx =
  xp_begins :: bool
  xp_commits :: bool
  xp_cut :: "string option"
  xp_query :: "db \<Rightarrow> string \<Rightarrow> ID \<Rightarrow> (json list option list \<times> bool) option"
  xp_canonical :: "json \<Rightarrow> string result"
  xp_sha256 :: "string \<Rightarrow> bytes"
  xp_order :: "(string \<times> string list) list"

definition bodyDigest :: "export_tx \<Rightarrow> string \<Rightarrow> string" where
  "bodyDigest X b = hex_encode (xp_sha256 X b)"

definition projection :: "string \<Rightarrow> string \<Rightarrow> string" where
  "projection table c = (if table = ''financial_operations'' \<and> c = ''canonical'' then ''encode(canonical,'' @ [CHR 0x27] @ ''hex'' @ [CHR 0x27] @ '')'' else c @ ''::STRING'')"

definition export_query :: "string \<Rightarrow> string list \<Rightarrow> string" where
  "export_query table columns =
     ''SELECT '' @ between '','' (map (projection table) columns) @ '' FROM '' @ table @ '' WHERE book_id=$1 ORDER BY '' @ between '','' columns
     @ '' LIMIT 100001''"

section \<open>Rows and tables\<close>

definition export_row :: "string list \<Rightarrow> json list \<Rightarrow> row" where
  "export_row columns values = Some (sort_key fst (zip columns values))"

text \<open>The rows of one table with the totals so far: rows and bytes of all tables.\<close>

fun export_rows :: "string list \<Rightarrow> json list option list \<Rightarrow> row list \<Rightarrow> nat \<times> nat \<Rightarrow> (row list \<times> nat \<times> nat) result" where
  "export_rows columns [] data totals = Inr (data, totals)"
| "export_rows columns (None # vs) data totals = Inl ErrUnavailable"
| "export_rows columns (Some values # vs) data (n, b) =
     (let row = export_row columns values; b1 = b + length (write_json (row_json row))
      in if b1 > 15 * 1048576 then Inl ErrInvalid
         else if n + 1 > 100000 then Inl ErrInvalid
         else export_rows columns vs (data @ [row]) (n + 1, b1))"

definition export_table ::
  "export_tx \<Rightarrow> db \<Rightarrow> ID \<Rightarrow> string \<times> string list \<Rightarrow> snapshot \<times> nat \<times> nat \<Rightarrow> (snapshot \<times> nat \<times> nat) result" where
  "export_table X db book = (\<lambda>(table, columns) (s, totals).
     case xp_query X db (export_query table columns) book of
       None \<Rightarrow> Inl ErrUnavailable
     | Some (rows, ends_well) \<Rightarrow>
         res_bind (export_rows columns rows [] totals) (\<lambda>(data, totals).
           if \<not> ends_well then Inl ErrUnavailable
           else res_bind (xp_canonical X (rows_json (Some data))) (\<lambda>canonical.
             Inr (s\<lparr>sn_Tables := AList.update table (Some data) (sn_Tables s), sn_Counts := AList.update table (int (length data)) (sn_Counts s),
                    sn_Digests := AList.update table (bodyDigest X canonical) (sn_Digests s)\<rparr>, totals))))"

fun export_tables ::
  "export_tx \<Rightarrow> db \<Rightarrow> ID \<Rightarrow> (string \<times> string list) list \<Rightarrow> snapshot \<times> nat \<times> nat \<Rightarrow> (snapshot \<times> nat \<times> nat) result" where
  "export_tables X db book [] acc = Inr acc"
| "export_tables X db book (t # ts) acc = res_bind (export_table X db book t acc) (export_tables X db book ts)"

definition Store_Snapshot :: "export_tx \<Rightarrow> db \<Rightarrow> ID \<Rightarrow> snapshot result" where
  "Store_Snapshot X db book =
     (if \<not> xp_begins X then Inl ErrUnavailable
      else res_bind (readBook db book) (\<lambda>_.
        case xp_cut X of
          None \<Rightarrow> Inl ErrUnavailable
        | Some moment \<Rightarrow>
            res_bind (export_tables X db book (xp_order X)
                (\<lparr>sn_SchemaVersion = ''1'', sn_Cut = moment, sn_BookID = book, sn_Tables = [], sn_Digests = [], sn_Counts = []\<rparr>, 0, 0)) (\<lambda>(s, _).
              if xp_commits X then Inr s else Inl ErrUnavailable)))"

section \<open>The artifact\<close>

text \<open>\<open>json.Marshal\<close> of the snapshot.\<close>

definition by_name :: "(string \<times> 'a) list \<Rightarrow> (string \<times> 'a) list" where
  "by_name m = sort_key fst m"

definition snapshot_json :: "snapshot \<Rightarrow> json" where
  "snapshot_json s = JObj
     [(''schema_version'', JStr (sn_SchemaVersion s)), (''cut'', JStr (sn_Cut s)), (''book_id'', JStr (sn_BookID s)),
      (''tables'', JObj (map (\<lambda>(k, t). (k, rows_json t)) (by_name (sn_Tables s)))),
      (''digests'', JObj (map (\<lambda>(k, d). (k, JStr d)) (by_name (sn_Digests s)))),
      (''counts'', JObj (map (\<lambda>(k, n). (k, JNum (format_int n))) (by_name (sn_Counts s))))]"

text \<open>The snapshot with its maps in the order JSON gives them.\<close>

definition ordered :: "snapshot \<Rightarrow> snapshot" where
  "ordered s = s\<lparr>sn_Tables := by_name (sn_Tables s), sn_Digests := by_name (sn_Digests s), sn_Counts := by_name (sn_Counts s)\<rparr>"

section \<open>Chunks\<close>

record chunk =
  sk_SchemaVersion :: string
  sk_BookId :: ID
  sk_Cut :: string
  sk_Index :: "32 word"
  sk_Data :: string
  sk_Sha256 :: string
  sk_Last :: bool

definition chunk_size :: nat where "chunk_size = 65536"

definition chunk_at :: "ID \<Rightarrow> string \<Rightarrow> string \<Rightarrow> string \<Rightarrow> nat \<Rightarrow> chunk" where
  "chunk_at book moment data digest offset =
     (let end_at = min (offset + chunk_size) (length data)
      in \<lparr>sk_SchemaVersion = ''1'', sk_BookId = book, sk_Cut = moment, sk_Index = of_nat (offset div chunk_size),
          sk_Data = take (end_at - offset) (drop offset data), sk_Sha256 = digest, sk_Last = (end_at = length data)\<rparr>)"

text \<open>The chunks that are sent from an offset on, and whether \<open>Send\<close> took them all; \<open>sends i\<close> tells of the \<open>i\<close>-th.\<close>

function send_chunks :: "(nat \<Rightarrow> bool) \<Rightarrow> ID \<Rightarrow> string \<Rightarrow> string \<Rightarrow> string \<Rightarrow> nat \<Rightarrow> chunk list \<times> bool" where
  "send_chunks sends book moment data digest offset =
     (if offset < length data then
        if \<not> sends (offset div chunk_size) then ([], False)
        else let (cs, ok) = send_chunks sends book moment data digest (offset + chunk_size)
             in (chunk_at book moment data digest offset # cs, ok)
      else ([], True))"
  by pat_completeness auto
termination by (relation "measure (\<lambda>(_, _, _, data, _, offset). length data - offset)") (auto simp: chunk_size_def)

declare send_chunks.simps [simp del]

end
