(* ===== verification/Exported.thy ===== *)
theory Exported
  imports Snapshot_Export Exactly_Once "HOL-Library.Multiset"
begin

text \<open>
  What an exported snapshot is: all seventeen tables with their rows, counts and digests, within the bounds the reader sets,
  and read back by the verifier as it was.
\<close>

section \<open>The loops\<close>

lemma export_rows_Inr:
  assumes "export_rows columns vs data (n, b) = Inr (data', n', b')" and "n \<le> 100000" and "b \<le> 15 * 1048576"
  shows "None \<notin> set vs" and "data' = data @ map (export_row columns) (map the vs)" and "n' = n + length vs"
    and "b' = b + (\<Sum>v\<leftarrow>vs. length (write_json (row_json (export_row columns (the v)))))" and "n' \<le> 100000" and "b' \<le> 15 * 1048576"
proof -
  have "None \<notin> set vs \<and> data' = data @ map (export_row columns) (map the vs) \<and> n' = n + length vs
      \<and> b' = b + (\<Sum>v\<leftarrow>vs. length (write_json (row_json (export_row columns (the v))))) \<and> n' \<le> 100000 \<and> b' \<le> 15 * 1048576"
    using assms
  proof (induction vs arbitrary: data n b)
    case (Cons v vs)
    then show ?case by (cases v) (force simp: Let_def split: if_split_asm)+
  qed simp
  then show "None \<notin> set vs" "data' = data @ map (export_row columns) (map the vs)" "n' = n + length vs"
    "b' = b + (\<Sum>v\<leftarrow>vs. length (write_json (row_json (export_row columns (the v)))))" "n' \<le> 100000" "b' \<le> 15 * 1048576" by auto
qed

text \<open>The rows of a table that was exported, and its canonical text.\<close>

definition exported_rows :: "export_tx \<Rightarrow> db \<Rightarrow> ID \<Rightarrow> string \<times> string list \<Rightarrow> row list" where
  "exported_rows X db book = (\<lambda>(table, columns).
     case xp_query X db (export_query table columns) book of None \<Rightarrow> [] | Some (rows, _) \<Rightarrow> map (export_row columns) (map the rows))"

definition canonical_text :: "export_tx \<Rightarrow> json \<Rightarrow> string" where
  "canonical_text X j = (case xp_canonical X j of Inl _ \<Rightarrow> [] | Inr c \<Rightarrow> c)"

definition rows_weight :: "row list \<Rightarrow> nat" where
  "rows_weight rs = (\<Sum>r\<leftarrow>rs. length (write_json (row_json r)))"

lemma update_fresh: "k \<notin> fst ` set m \<Longrightarrow> AList.update k v m = m @ [(k, v)]"
  by (induction m) auto

lemma export_table_Inr:
  assumes "export_table X db book t (s, n, b) = Inr (s', n', b')" and "n \<le> 100000" and "b \<le> 15 * 1048576"
    and "fst t \<notin> fst ` set (sn_Tables s)" and "fst t \<notin> fst ` set (sn_Counts s)" and "fst t \<notin> fst ` set (sn_Digests s)"
  defines "rs \<equiv> exported_rows X db book t"
  shows "s' = s\<lparr>sn_Tables := sn_Tables s @ [(fst t, Some rs)], sn_Counts := sn_Counts s @ [(fst t, int (length rs))],
      sn_Digests := sn_Digests s @ [(fst t, bodyDigest X (canonical_text X (rows_json (Some rs))))]\<rparr>"
    and "n' = n + length rs" and "b' = b + rows_weight rs" and "n' \<le> 100000" and "b' \<le> 15 * 1048576"
    and "\<forall>rows e. xp_query X db (export_query (fst t) (snd t)) book = Some (rows, e) \<longrightarrow> None \<notin> set rows"
proof -
  obtain table columns where t: "t = (table, columns)" by (cases t)
  obtain rows data c where r: "xp_query X db (export_query table columns) book = Some (rows, True)"
    "export_rows columns rows [] (n, b) = Inr (data, n', b')" "xp_canonical X (rows_json (Some data)) = Inr c"
    "s' = s\<lparr>sn_Tables := AList.update table (Some data) (sn_Tables s), sn_Counts := AList.update table (int (length data)) (sn_Counts s),
       sn_Digests := AList.update table (bodyDigest X c) (sn_Digests s)\<rparr>"
    using assms(1) by (auto simp: export_table_def t split: option.split_asm if_split_asm)
  note e = export_rows_Inr [OF r(2) assms(2,3)]
  have rs: "data = rs" using e(2) r(1) by (simp add: rs_def exported_rows_def t)
  show "s' = s\<lparr>sn_Tables := sn_Tables s @ [(fst t, Some rs)], sn_Counts := sn_Counts s @ [(fst t, int (length rs))],
      sn_Digests := sn_Digests s @ [(fst t, bodyDigest X (canonical_text X (rows_json (Some rs))))]\<rparr>"
    using r(3,4) assms(4-6) by (simp add: update_fresh t canonical_text_def rs)
  show "n' = n + length rs" "n' \<le> 100000" "b' \<le> 15 * 1048576" using e by (simp_all flip: rs)
  show "\<forall>rows e. xp_query X db (export_query (fst t) (snd t)) book = Some (rows, e) \<longrightarrow> None \<notin> set rows" using r(1) e(1) by (simp add: t)
  show "b' = b + rows_weight rs" using e(2,4) by (simp add: rows_weight_def o_def flip: rs)
qed

lemma export_tables_Inr:
  assumes "export_tables X db book ts (s, n, b) = Inr (s', n', b')" and "n \<le> 100000" and "b \<le> 15 * 1048576" and "distinct (map fst ts)"
    and "fst ` set ts \<inter> (fst ` set (sn_Tables s) \<union> fst ` set (sn_Counts s) \<union> fst ` set (sn_Digests s)) = {}"
  defines "rs \<equiv> exported_rows X db book"
  shows "s' = s\<lparr>sn_Tables := sn_Tables s @ map (\<lambda>t. (fst t, Some (rs t))) ts, sn_Counts := sn_Counts s @ map (\<lambda>t. (fst t, int (length (rs t)))) ts,
      sn_Digests := sn_Digests s @ map (\<lambda>t. (fst t, bodyDigest X (canonical_text X (rows_json (Some (rs t)))))) ts\<rparr>
    \<and> n' = n + (\<Sum>t\<leftarrow>ts. length (rs t)) \<and> b' = b + (\<Sum>t\<leftarrow>ts. rows_weight (rs t)) \<and> n' \<le> 100000 \<and> b' \<le> 15 * 1048576
    \<and> (\<forall>t\<in>set ts. \<forall>rows e. xp_query X db (export_query (fst t) (snd t)) book = Some (rows, e) \<longrightarrow> None \<notin> set rows)"
  using assms(1-5)
proof (induction ts arbitrary: s n b)
  case (Cons t ts)
  obtain s1 n1 b1 where one: "export_table X db book t (s, n, b) = Inr (s1, n1, b1)" "export_tables X db book ts (s1, n1, b1) = Inr (s', n', b')"
    using Cons.prems(1) by auto
  have fresh: "fst t \<notin> fst ` set (sn_Tables s)" "fst t \<notin> fst ` set (sn_Counts s)" "fst t \<notin> fst ` set (sn_Digests s)"
    using Cons.prems(5) by auto
  note e = export_table_Inr [OF one(1) Cons.prems(2,3) fresh]
  have "fst ` set ts \<inter> (fst ` set (sn_Tables s1) \<union> fst ` set (sn_Counts s1) \<union> fst ` set (sn_Digests s1)) = {}"
    using Cons.prems(4,5) by (auto simp: e(1))
  then show ?case using Cons.IH [OF one(2) e(4,5)] Cons.prems(4) e(1-3,6) by (simp add: rs_def)
qed simp

section \<open>The snapshot\<close>

definition exported :: "export_tx \<Rightarrow> db \<Rightarrow> ID \<Rightarrow> string \<Rightarrow> snapshot" where
  "exported X db book moment =
     (let rs = exported_rows X db book
      in \<lparr>sn_SchemaVersion = ''1'', sn_Cut = moment, sn_BookID = book, sn_Tables = map (\<lambda>t. (fst t, Some (rs t))) (xp_order X),
          sn_Digests = map (\<lambda>t. (fst t, bodyDigest X (canonical_text X (rows_json (Some (rs t)))))) (xp_order X),
          sn_Counts = map (\<lambda>t. (fst t, int (length (rs t)))) (xp_order X)\<rparr>)"

lemma export_names: "distinct (map fst exportColumns)" "set (map fst exportColumns) = set required" "length exportColumns = 17"
  by code_simp+

lemma ordered_names:
  assumes "mset (xp_order X) = mset exportColumns"
  shows "distinct (map fst (xp_order X))" and "set (xp_order X) = set exportColumns" and "length (xp_order X) = 17"
  using export_names(1,3) mset_eq_imp_distinct_iff [of "map fst (xp_order X)" "map fst exportColumns"] mset_eq_setD [OF assms] mset_eq_length [OF assms] assms
  by simp_all

lemma Store_Snapshot_Inr:
  assumes "Store_Snapshot X db book = Inr s" and "mset (xp_order X) = mset exportColumns"
  obtains moment where "xp_cut X = Some moment" and "s = exported X db book moment"
    and "(\<Sum>t\<leftarrow>xp_order X. length (exported_rows X db book t)) \<le> 100000"
    and "(\<Sum>t\<leftarrow>xp_order X. rows_weight (exported_rows X db book t)) \<le> 15 * 1048576"
    and "\<forall>t\<in>set exportColumns. \<forall>rows e. xp_query X db (export_query (fst t) (snd t)) book = Some (rows, e) \<longrightarrow> None \<notin> set rows"
proof -
  obtain moment n b where r: "xp_cut X = Some moment"
    "export_tables X db book (xp_order X)
       (\<lparr>sn_SchemaVersion = ''1'', sn_Cut = moment, sn_BookID = book, sn_Tables = [], sn_Digests = [], sn_Counts = []\<rparr>, 0, 0) = Inr (s, n, b)"
    using assms(1) by (auto simp: Store_Snapshot_def split: if_split_asm option.split_asm)
  note e = export_tables_Inr [OF r(2) _ _ ordered_names(1) [OF assms(2)]]
  show ?thesis using e ordered_names(2) [OF assms(2)] by (intro that [OF r(1)]) (simp_all add: exported_def Let_def)
qed

section \<open>Maps in the order of their names\<close>

lemma by_name_simps [simp]: "mset (by_name m) = mset m" "set (by_name m) = set m" "length (by_name m) = length m"
  by (simp_all add: by_name_def)

lemma by_name_keys: "distinct (map fst (by_name m)) \<longleftrightarrow> distinct (map fst m)"
  by (intro mset_eq_imp_distinct_iff) simp

lemma map_of_by_name: "distinct (map fst m) \<Longrightarrow> map_of (by_name m) = map_of m"
  by (intro map_of_inject_set [THEN iffD2]) (simp_all add: by_name_keys)

lemma sum_by_name: "(\<Sum>x\<leftarrow>by_name m. f x) = (\<Sum>x\<leftarrow>m. f x :: nat)"
  by (metis by_name_simps(1) mset_map sum_mset_sum_list)

lemma into_map_all:
  assumes "distinct (map fst (acc @ m))" and "\<forall>(k, x)\<in>set m. f (g x) = Some x"
  shows "into_map f (map (\<lambda>(k, x). (k, g x)) m) acc = Some (acc @ m)"
  using assms
proof (induction m arbitrary: acc)
  case (Cons kx m)
  obtain k x where kx: "kx = (k, x)" by (cases kx)
  have "k \<notin> fst ` set acc" using Cons.prems(1) kx by auto
  then show ?case using Cons.IH [of "acc @ [(k, x)]"] Cons.prems kx by (simp add: update_fresh)
qed simp

section \<open>Reading it back\<close>

text \<open>The database casts every cell to text or gives NULL.\<close>

definition text_cell :: "json \<Rightarrow> bool" where
  "text_cell v = (case v of JNull \<Rightarrow> True | JStr s \<Rightarrow> valid_text s | _ \<Rightarrow> False)"

definition text_rows :: "row list \<Rightarrow> bool" where
  "text_rows rs = list_all (\<lambda>r. case r of None \<Rightarrow> False | Some kvs \<Rightarrow>
     distinct (map fst kvs) \<and> list_all (\<lambda>(k, v). valid_text k \<and> text_cell v) kvs) rs"

definition text_snapshot :: "snapshot \<Rightarrow> bool" where
  "text_snapshot s =
     (valid_text (sn_SchemaVersion s) \<and> valid_text (sn_Cut s) \<and> valid_text (sn_BookID s)
    \<and> distinct (map fst (sn_Tables s)) \<and> distinct (map fst (sn_Digests s)) \<and> distinct (map fst (sn_Counts s))
    \<and> list_all (\<lambda>(k, t). valid_text k \<and> (case t of None \<Rightarrow> True | Some rs \<Rightarrow> text_rows rs)) (sn_Tables s)
    \<and> list_all (\<lambda>(k, d). valid_text k \<and> valid_text d) (sn_Digests s)
    \<and> list_all (\<lambda>(k, n). valid_text k \<and> 0 \<le> n \<and> n < 2 ^ 63) (sn_Counts s))"

lemma text_cell_plain: "text_cell v \<Longrightarrow> plain_json v \<and> nesting v = 0"
  by (cases v) (simp_all add: text_cell_def)

lemma text_row_plain:
  assumes "distinct (map fst kvs)" and "list_all (\<lambda>(k, v). valid_text k \<and> text_cell v) kvs"
  shows "plain_json (JObj kvs)" and "nesting (JObj kvs) = 1" and "row_of (JObj kvs) = Some (Some kvs)"
proof -
  have "\<forall>(k, v)\<in>set kvs. valid_text k \<and> plain_json v \<and> nesting v = 0" using assms(2) text_cell_plain by (auto simp: list_all_iff)
  then show p: "plain_json (JObj kvs)" using assms(1) by (auto simp: list_all_iff)
  have "foldr max (map (\<lambda>(k, v). nesting v) kvs) 0 = 0"
    using \<open>\<forall>(k, v)\<in>set kvs. valid_text k \<and> plain_json v \<and> nesting v = 0\<close> by (induction kvs) auto
  then show "nesting (JObj kvs) = 1" by simp
  show "row_of (JObj kvs) = Some (Some kvs)" using any_value_plain [OF p] by (simp add: row_of_def del: any_value.simps)
qed

lemma max_bound: "\<forall>x\<in>set xs. x \<le> (k::nat) \<Longrightarrow> foldr max xs 0 \<le> k"
  by (induction xs) auto

lemma those_same: "\<forall>x\<in>set xs. f x = Some x \<Longrightarrow> those (map f xs) = Some xs"
  by (induction xs) auto

lemma text_rows_plain:
  assumes "text_rows rs"
  shows "plain_json (rows_json (Some rs))" and "nesting (rows_json (Some rs)) \<le> 2" and "rows_of (rows_json (Some rs)) = Some (Some rs)"
proof -
  have each: "plain_json (row_json r) \<and> nesting (row_json r) = 1 \<and> row_of (row_json r) = Some r" if "r \<in> set rs" for r
  proof -
    have "case r of None \<Rightarrow> False | Some kvs \<Rightarrow> distinct (map fst kvs) \<and> list_all (\<lambda>(k, v). valid_text k \<and> text_cell v) kvs"
      using assms that unfolding text_rows_def list_all_iff [of _ rs] by (rule bspec)
    then obtain kvs where "r = Some kvs" "distinct (map fst kvs)" "list_all (\<lambda>(k, v). valid_text k \<and> text_cell v) kvs"
      by (cases r) simp_all
    then show ?thesis using text_row_plain [of kvs] by (simp add: row_json_def del: plain_json.simps nesting.simps)
  qed
  show "plain_json (rows_json (Some rs))" using each by (simp add: rows_json_def list_all_iff)
  have "foldr max (map nesting (map row_json rs)) 0 \<le> 1" using each by (intro max_bound) auto
  then show "nesting (rows_json (Some rs)) \<le> 2" by (simp add: rows_json_def)
  have "those (map (row_of \<circ> row_json) rs) = Some rs" using each by (intro those_same) simp
  then show "rows_of (rows_json (Some rs)) = Some (Some rs)" by (simp add: rows_json_def rows_of_def)
qed

lemma table_plain:
  assumes "case t of None \<Rightarrow> True | Some rs \<Rightarrow> text_rows rs"
  shows "plain_json (rows_json t)" and "nesting (rows_json t) \<le> 2" and "rows_of (rows_json t) = Some t"
proof (atomize (full), cases t)
  case None
  then show "plain_json (rows_json t) \<and> nesting (rows_json t) \<le> 2 \<and> rows_of (rows_json t) = Some t" by (simp add: rows_json_def rows_of_def)
next
  case (Some rs)
  then show "plain_json (rows_json t) \<and> nesting (rows_json t) \<le> 2 \<and> rows_of (rows_json t) = Some t"
    using text_rows_plain [of rs] assms by (simp del: plain_json.simps nesting.simps)
qed

lemma count_text: "0 \<le> n \<Longrightarrow> n < 2 ^ 63 \<Longrightarrow> canonical_dec (format_int n) \<and> count_of (JNum (format_int n)) = Some n"
proof -
  assume n: "0 \<le> n" "n < 2 ^ 63"
  then have "sint (word_of_int n :: int64) = n" by (intro sint64_of_int) simp_all
  then have "parse_int64 (format_int n) = Some (word_of_int n)" using parse_int64_format [of "word_of_int n"] by (simp add: format_int64_def)
  then show ?thesis using n \<open>sint (word_of_int n :: int64) = n\<close> dec_canonical by (simp add: count_of_def format_int_def)
qed

lemma snapshot_plain:
  assumes "text_snapshot s"
  shows "plain_json (snapshot_json s)" and "nesting (snapshot_json s) \<le> 10000"
proof -
  have names: "valid_text ''schema_version''" "valid_text ''cut''" "valid_text ''book_id''" "valid_text ''tables''" "valid_text ''digests''" "valid_text ''counts''"
    by code_simp+
  have t: "\<forall>(k, t)\<in>set (by_name (sn_Tables s)). valid_text k \<and> plain_json (rows_json t) \<and> nesting (rows_json t) \<le> 2"
    using assms table_plain by (auto simp: text_snapshot_def list_all_iff)
  have c: "\<forall>(k, n)\<in>set (by_name (sn_Counts s)). valid_text k \<and> canonical_dec (format_int n)"
    using assms count_text by (auto simp: text_snapshot_def list_all_iff)
  have d: "\<forall>(k, n)\<in>set (by_name (sn_Digests s)). valid_text k \<and> valid_text n" using assms by (auto simp: text_snapshot_def list_all_iff)
  have object: "plain_json (JObj (map (\<lambda>(k, x). (k, f x)) m))"
    if "distinct (map fst m)" "\<forall>(k, x)\<in>set m. valid_text k \<and> plain_json (f x)" for f :: "'x \<Rightarrow> json" and m
  proof -
    have "distinct (map fst (map (\<lambda>(k, x). (k, f x)) m))" using that(1) by (simp add: o_def case_prod_beta)
    then show ?thesis using that unfolding plain_json.simps by (auto simp: list_all_iff)
  qed
  have distinct: "distinct (map fst (by_name (sn_Tables s)))" "distinct (map fst (by_name (sn_Digests s)))" "distinct (map fst (by_name (sn_Counts s)))"
    using assms by (simp_all add: text_snapshot_def by_name_keys)
  have "plain_json (JObj (map (\<lambda>(k, t). (k, rows_json t)) (by_name (sn_Tables s))))" using t by (intro object distinct) auto
  moreover have "plain_json (JObj (map (\<lambda>(k, d). (k, JStr d)) (by_name (sn_Digests s))))" using d by (intro object distinct) auto
  moreover have "plain_json (JObj (map (\<lambda>(k, n). (k, JNum (format_int n))) (by_name (sn_Counts s))))" using c by (intro object distinct) auto
  moreover have "valid_text (sn_SchemaVersion s)" "valid_text (sn_Cut s)" "valid_text (sn_BookID s)" using assms by (simp_all add: text_snapshot_def)
  ultimately show "plain_json (snapshot_json s)" using names unfolding snapshot_json_def
    by (subst plain_json.simps) (simp del: plain_json.simps(7) add: plain_json.simps(4))
  have "foldr max (map (\<lambda>(k, v). nesting v) (map (\<lambda>(k, t). (k, rows_json t)) (by_name (sn_Tables s)))) 0 \<le> 2"
    using t by (intro max_bound) auto
  moreover have "foldr max (map (\<lambda>(k, v). nesting v) (map (\<lambda>(k, d). (k, JStr d)) (by_name (sn_Digests s)))) 0 \<le> 0"
    by (intro max_bound) auto
  moreover have "foldr max (map (\<lambda>(k, v). nesting v) (map (\<lambda>(k, n). (k, JNum (format_int n))) (by_name (sn_Counts s)))) 0 \<le> 0"
    by (intro max_bound) auto
  ultimately show "nesting (snapshot_json s) \<le> 10000" unfolding snapshot_json_def by simp
qed

lemma snapshot_read:
  assumes "text_snapshot s"
  shows "snapshot_members (case snapshot_json s of JObj kvs \<Rightarrow> kvs | _ \<Rightarrow> []) zero_snapshot = Some (ordered s)"
proof -
  have t: "into_map rows_of (map (\<lambda>(k, t). (k, rows_json t)) (by_name (sn_Tables s))) [] = Some (by_name (sn_Tables s))"
    using into_map_all [of "[]" "by_name (sn_Tables s)" rows_of rows_json] assms table_plain(3)
    by (force simp: text_snapshot_def list_all_iff by_name_keys)
  have d: "into_map text_of (map (\<lambda>(k, d). (k, JStr d)) (by_name (sn_Digests s))) [] = Some (by_name (sn_Digests s))"
    using into_map_all [of "[]" "by_name (sn_Digests s)" text_of JStr] assms by (simp add: text_snapshot_def by_name_keys text_of_def)
  have c: "into_map count_of (map (\<lambda>(k, n). (k, JNum (format_int n))) (by_name (sn_Counts s))) [] = Some (by_name (sn_Counts s))"
    using into_map_all [of "[]" "by_name (sn_Counts s)" count_of "\<lambda>n. JNum (format_int n)"] assms count_text
    by (force simp: text_snapshot_def list_all_iff by_name_keys)
  have f: "field_for snapshot_fields ''schema_version'' = Some ''schema_version''" "field_for snapshot_fields ''cut'' = Some ''cut''"
    "field_for snapshot_fields ''book_id'' = Some ''book_id''" "field_for snapshot_fields ''tables'' = Some ''tables''"
    "field_for snapshot_fields ''digests'' = Some ''digests''" "field_for snapshot_fields ''counts'' = Some ''counts''"
    by (simp_all add: field_for_exact snapshot_fields_def)
  show ?thesis
    by (simp add: snapshot_json_def f set_snapshot_def string_member_def map_member_def zero_snapshot_def t d c ordered_def)
qed

lemma Decode_written:
  assumes "text_snapshot s" and "length (write_json (snapshot_json s)) \<le> export_limit"
  shows "Decode_snapshot (write_json (snapshot_json s)) = Some (ordered s)"
proof -
  have "json_read (write_json (snapshot_json s)) = Some (snapshot_json s, [])"
    using json_read_written [OF snapshot_plain [OF assms(1)], of "[]"] by (simp add: ends_value_def)
  moreover obtain kvs where "snapshot_json s = JObj kvs" by (simp add: snapshot_json_def)
  ultimately show ?thesis using assms(2) snapshot_read [OF assms(1)] by (simp add: Decode_snapshot_def skip_def)
qed

section \<open>The size of the artifact\<close>

lemma escaped_six: "length (escaped s) \<le> 6 * length s"
proof (induction s rule: escaped.induct)
  case (2 c r)
  show ?case
  proof (cases "code_of c < 128")
    case True
    then show ?thesis using 2(1) by (simp add: escape_char_def)
  next
    case False
    let ?k = "rune_length (c # r)"
    show ?thesis
    proof (cases "?k = 0")
      case True
      then show ?thesis using 2(2) [OF False refl] False by (simp add: Let_def)
    next
      case k: False
      have "?k \<le> length (c # r)" using rune_length_own(1) [OF refl k] .
      then show ?thesis using 2(3) [OF False refl k] False k by (auto simp: Let_def)
    qed
  qed
qed simp

lemma quoted_length: "length (quoted s) \<le> 6 * length s + 2"
  using escaped_six [of s] by (simp add: quoted_def)

lemma between_length: "length (between [sep] xs) \<le> (\<Sum>x\<leftarrow>xs. length x + 1)"
proof (cases xs)
  case (Cons x ys)
  have "length (concat (map ((@) [sep]) ys)) = (\<Sum>y\<leftarrow>ys. length y + 1)" by (induction ys) auto
  then show ?thesis by (simp add: between_def Cons)
qed (simp add: between_def)

lemma object_length:
  "length (write_json (JObj (map (\<lambda>(k, x). (k, f x)) m))) \<le> 2 + (\<Sum>kx\<leftarrow>m. length (quoted (fst kx)) + length (write_json (f (snd kx))) + 2)"
proof -
  have "length (between '','' (map (\<lambda>kx. quoted (fst kx) @ '':'' @ write_json (f (snd kx))) m))
      \<le> (\<Sum>kx\<leftarrow>m. length (quoted (fst kx)) + length (write_json (f (snd kx))) + 2)"
    using between_length [of "CHR '',''" "map (\<lambda>kx. quoted (fst kx) @ '':'' @ write_json (f (snd kx))) m"] by (simp add: o_def)
  then show ?thesis by (simp add: case_prod_beta o_def)
qed

lemma rows_length: "length (write_json (rows_json (Some rs))) \<le> 2 + rows_weight rs + length rs"
proof -
  have "(\<Sum>r\<leftarrow>rs. length (write_json (row_json r)) + 1) = rows_weight rs + length rs" by (induction rs) (simp_all add: rows_weight_def)
  then show ?thesis using between_length [of "CHR '',''" "map (write_json \<circ> row_json) rs"] by (simp add: rows_json_def o_def)
qed

lemma sum_const_bound: "\<forall>x\<in>set xs. f x \<le> (k :: nat) \<Longrightarrow> (\<Sum>x\<leftarrow>xs. f x) \<le> length xs * k"
  by (induction xs) auto

lemma name_length: "t \<in> set exportColumns \<Longrightarrow> length (quoted (fst t)) \<le> 22"
proof -
  have "list_all (\<lambda>t. length (quoted (fst t)) \<le> 22) exportColumns" by code_simp
  then show "t \<in> set exportColumns \<Longrightarrow> length (quoted (fst t)) \<le> 22" by (simp add: list_all_iff)
qed

lemma exported_length:
  assumes "mset (xp_order X) = mset exportColumns" and "\<forall>t. length (xp_sha256 X t) = 32"
    and "(\<Sum>t\<leftarrow>xp_order X. length (exported_rows X db book t)) \<le> 100000"
    and "(\<Sum>t\<leftarrow>xp_order X. rows_weight (exported_rows X db book t)) \<le> 15 * 1048576"
    and "length moment \<le> 1000" and "length book = 36"
  shows "length (write_json (snapshot_json (exported X db book moment))) \<le> export_limit"
proof -
  let ?rs = "exported_rows X db book" and ?s = "exported X db book moment"
  note names = ordered_names [OF assms(1)]
  have q: "\<forall>t\<in>set (xp_order X). length (quoted (fst t)) \<le> 22" using names(2) name_length by blast
  have "length (write_json (JObj (map (\<lambda>(k, t). (k, rows_json t)) (by_name (sn_Tables ?s)))))
      \<le> 2 + (\<Sum>t\<leftarrow>xp_order X. length (quoted (fst t)) + length (write_json (rows_json (Some (?rs t)))) + 2)"
    using object_length [of rows_json "by_name (sn_Tables ?s)"] unfolding sum_by_name by (simp add: exported_def Let_def o_def)
  also have "\<dots> \<le> 2 + (\<Sum>t\<leftarrow>xp_order X. 26 + (rows_weight (?rs t) + length (?rs t)))"
  proof -
    have "length (quoted (fst t)) + length (write_json (rows_json (Some (?rs t)))) + 2 \<le> 26 + (rows_weight (?rs t) + length (?rs t))"
      if "t \<in> set (xp_order X)" for t using q rows_length [of "?rs t"] that by fastforce
    then show ?thesis by (intro add_left_mono sum_list_mono)
  qed
  also have "\<dots> = 2 + (17 * 26 + (\<Sum>t\<leftarrow>xp_order X. rows_weight (?rs t)) + (\<Sum>t\<leftarrow>xp_order X. length (?rs t)))"
    by (simp add: sum_list_addf sum_list_triv names(3))
  finally have tables: "length (write_json (JObj (map (\<lambda>(k, t). (k, rows_json t)) (by_name (sn_Tables ?s))))) \<le> 444 + 15 * 1048576 + 100000"
    using assms(3,4) by linarith
  have "length (write_json (JStr (bodyDigest X c))) \<le> 386" for c
    using quoted_length [of "bodyDigest X c"] assms(2) by (simp add: bodyDigest_def)
  then have d: "length (quoted (fst t)) + length (write_json (JStr (bodyDigest X c))) + 2 \<le> 410" if "t \<in> set (xp_order X)" for t c
  proof -
    assume short: "\<And>c. length (write_json (JStr (bodyDigest X c))) \<le> 386"
    have "length (quoted (fst t)) \<le> 22" using q that by blast
    then show ?thesis using short [of c] by linarith
  qed
  have "length (write_json (JObj (map (\<lambda>(k, d). (k, JStr d)) (by_name (sn_Digests ?s)))))
      \<le> 2 + (\<Sum>t\<leftarrow>xp_order X. length (quoted (fst t)) + length (write_json (JStr (bodyDigest X (canonical_text X (rows_json (Some (?rs t))))))) + 2)"
    using object_length [of JStr "by_name (sn_Digests ?s)"] unfolding sum_by_name by (simp add: exported_def Let_def o_def del: write_json.simps)
  moreover have "(\<Sum>t\<leftarrow>xp_order X. length (quoted (fst t)) + length (write_json (JStr (bodyDigest X (canonical_text X (rows_json (Some (?rs t))))))) + 2)
      \<le> length (xp_order X) * 410" by (rule sum_const_bound) (use d in blast)
  ultimately have digests: "length (write_json (JObj (map (\<lambda>(k, d). (k, JStr d)) (by_name (sn_Digests ?s))))) \<le> 6972"
    unfolding names(3) by linarith
  have n: "length (quoted (fst t)) + length (write_json (JNum (format_int (int (length (?rs t)))))) + 2 \<le> 30" if "t \<in> set (xp_order X)" for t
  proof -
    have "length (?rs t) \<le> (\<Sum>t\<leftarrow>xp_order X. length (?rs t))" using that by (intro member_le_sum_list) simp_all
    then have "length (dec (length (?rs t))) \<le> 6" using assms(3) dec_length_le [of 6 "length (?rs t)"] by simp
    then have "length (write_json (JNum (format_int (int (length (?rs t)))))) \<le> 6" by (simp add: format_int_def)
    moreover have "length (quoted (fst t)) \<le> 22" using q that by blast
    ultimately show ?thesis by linarith
  qed
  have "length (write_json (JObj (map (\<lambda>(k, n). (k, JNum (format_int n))) (by_name (sn_Counts ?s)))))
      \<le> 2 + (\<Sum>t\<leftarrow>xp_order X. length (quoted (fst t)) + length (write_json (JNum (format_int (int (length (?rs t)))))) + 2)"
    using object_length [of "\<lambda>n. JNum (format_int n)" "by_name (sn_Counts ?s)"] unfolding sum_by_name
    by (simp add: exported_def Let_def o_def del: write_json.simps)
  moreover have "(\<Sum>t\<leftarrow>xp_order X. length (quoted (fst t)) + length (write_json (JNum (format_int (int (length (?rs t)))))) + 2)
      \<le> length (xp_order X) * 30" by (rule sum_const_bound) (use n in blast)
  ultimately have counts: "length (write_json (JObj (map (\<lambda>(k, n). (k, JNum (format_int n))) (by_name (sn_Counts ?s))))) \<le> 512"
    unfolding names(3) by linarith
  have head: "length (write_json (JStr (sn_SchemaVersion ?s))) \<le> 8" "length (write_json (JStr (sn_Cut ?s))) \<le> 6002" "length (write_json (JStr (sn_BookID ?s))) \<le> 218"
    using quoted_length [of "''1''"] quoted_length [of moment] quoted_length [of book] assms(5,6) by (simp_all add: exported_def Let_def)
  obtain kvs where kvs: "snapshot_json ?s = JObj kvs" by (simp add: snapshot_json_def)
  have "length (write_json (JObj kvs)) \<le> 2 + (\<Sum>kx\<leftarrow>kvs. length (quoted (fst kx)) + length (write_json (snd kx)) + 2)"
    using object_length [of "\<lambda>x. x" kvs] by (simp del: write_json.simps)
  also have "\<dots> \<le> export_limit"
    using kvs head tables digests counts quoted_length [of "''schema_version''"] quoted_length [of "''cut''"] quoted_length [of "''book_id''"]
      quoted_length [of "''tables''"] quoted_length [of "''digests''"] quoted_length [of "''counts''"]
    unfolding snapshot_json_def export_limit_def by (auto simp del: write_json.simps)
  finally show ?thesis unfolding kvs .
qed

section \<open>What the database returns\<close>

text \<open>
  The documented behaviour of the queries: every cell is text or NULL, a row has a cell for each column, and the first is the
  book that was asked for.
\<close>

definition query_law :: "export_tx \<Rightarrow> db \<Rightarrow> ID \<Rightarrow> bool" where
  "query_law X db book = list_all (\<lambda>(table, columns).
     case xp_query X db (export_query table columns) book of None \<Rightarrow> True
     | Some (rows, _) \<Rightarrow> list_all (\<lambda>r. case r of None \<Rightarrow> True
         | Some vs \<Rightarrow> length vs = length columns \<and> hd vs = JStr book \<and> list_all text_cell vs) rows) exportColumns"

lemma export_columns: "list_all (\<lambda>(table, columns). valid_text table \<and> distinct columns \<and> list_all valid_text columns \<and> columns \<noteq> []
    \<and> hd columns = ''book_id'') exportColumns"
  by code_simp

lemma sort_names:
  fixes m :: "(string \<times> 'a) list"
  shows "distinct (map fst m) \<Longrightarrow> distinct (map fst (sort_key fst m)) \<and> map_of (sort_key fst m) = map_of m"
  using by_name_keys [of m] map_of_by_name [of m] by (simp add: by_name_def)

lemma export_row_text:
  assumes "(table, columns) \<in> set exportColumns" and "length vs = length columns" and "hd vs = JStr book" and "list_all text_cell vs"
  shows "text_rows [export_row columns vs]" and "str (export_row columns vs) ''book_id'' = book"
proof -
  have c: "distinct columns" "list_all valid_text columns" "columns \<noteq> []" "hd columns = ''book_id''"
    using export_columns assms(1) by (auto simp: list_all_iff)
  have keys: "distinct (map fst (zip columns vs))" using c(1) assms(2) by simp
  have "\<forall>(k, v)\<in>set (zip columns vs). valid_text k \<and> text_cell v" using c(2) assms(4) by (auto simp: list_all_iff dest: set_zip_leftD set_zip_rightD)
  then show "text_rows [export_row columns vs]" using sort_names [OF keys] by (simp add: text_rows_def export_row_def list_all_iff)
  obtain cs where columns: "columns = ''book_id'' # cs" using c(3,4) by (cases columns) auto
  then obtain ws where "vs = JStr book # ws" using assms(2,3) by (cases vs) auto
  then show "str (export_row columns vs) ''book_id'' = book"
    using sort_names [OF keys] columns by (simp add: str_def cell_def export_row_def)
qed

lemma exported_rows_text:
  assumes "query_law X db book" and "t \<in> set exportColumns"
    and "\<forall>rows e. xp_query X db (export_query (fst t) (snd t)) book = Some (rows, e) \<longrightarrow> None \<notin> set rows"
  shows "text_rows (exported_rows X db book t)" and "r \<in> set (exported_rows X db book t) \<Longrightarrow> str r ''book_id'' = book"
proof -
  obtain table columns where t: "t = (table, columns)" by (cases t)
  have each: "text_rows [r] \<and> str r ''book_id'' = book" if r: "r \<in> set (exported_rows X db book t)" for r
  proof -
    obtain q where "xp_query X db (export_query table columns) book = Some q"
      using r by (cases "xp_query X db (export_query table columns) book") (simp_all add: exported_rows_def t)
    then obtain rows e where q: "xp_query X db (export_query table columns) book = Some (rows, e)" by (cases q) simp
    then have "r \<in> (\<lambda>v. export_row columns (the v)) ` set rows" using r by (auto simp: exported_rows_def t)
    then obtain v where v: "xp_query X db (export_query table columns) book = Some (rows, e)" "v \<in> set rows" "r = export_row columns (the v)"
      using q by blast
    then obtain vs where "v = Some vs" using assms(3) by (cases v) (auto simp: t)
    have "case t of (table, columns) \<Rightarrow> (case xp_query X db (export_query table columns) book of None \<Rightarrow> True
       | Some (rows, _) \<Rightarrow> list_all (\<lambda>r. case r of None \<Rightarrow> True
           | Some vs \<Rightarrow> length vs = length columns \<and> hd vs = JStr book \<and> list_all text_cell vs) rows)"
      using assms(1,2) unfolding query_law_def list_all_iff [of _ exportColumns] by (rule bspec)
    then have "length vs = length columns" "hd vs = JStr book" "list_all text_cell vs"
      using v(1,2) \<open>v = Some vs\<close> by (auto simp: t list_all_iff)
    then show ?thesis using export_row_text [of table columns vs book] assms(2) v(3) \<open>v = Some vs\<close> t by simp
  qed
  then show "text_rows (exported_rows X db book t)" by (simp add: text_rows_def list_all_iff)
  show "r \<in> set (exported_rows X db book t) \<Longrightarrow> str r ''book_id'' = book" using each by blast
qed

lemma hex_text_ascii: "ascii (hex_encode bs)"
proof -
  have "list_all (\<lambda>d. of_char (hex_char d) < (128 :: nat)) [0..<16]" by code_simp
  then have "of_char (hex_char d) < (128 :: nat)" if "d < 16" for d using that by (simp add: list_all_iff)
  moreover have "unat (b :: 8 word) div 16 < 16" for b using unsigned_less [of b] by (intro less_mult_imp_div_less) simp
  ultimately show ?thesis by (induction bs) (simp_all add: hex_encode_def hex_byte_def ascii_def)
qed

lemma exported_text:
  assumes "mset (xp_order X) = mset exportColumns" and "query_law X db book" and "valid_text moment" and "valid_text book"
    and "(\<Sum>t\<leftarrow>xp_order X. length (exported_rows X db book t)) \<le> 100000"
    and "\<forall>t\<in>set exportColumns. \<forall>rows e. xp_query X db (export_query (fst t) (snd t)) book = Some (rows, e) \<longrightarrow> None \<notin> set rows"
  shows "text_snapshot (exported X db book moment)"
proof -
  note names = ordered_names [OF assms(1)]
  have t: "valid_text (fst t)" "text_rows (exported_rows X db book t)" "length (exported_rows X db book t) < 2 ^ 63" if "t \<in> set (xp_order X)" for t
  proof -
    show "valid_text (fst t)" using export_columns that names(2) by (auto simp: list_all_iff)
    show "text_rows (exported_rows X db book t)" using exported_rows_text(1) [OF assms(2)] assms(6) that names(2) by blast
    have "length (exported_rows X db book t) \<le> (\<Sum>t\<leftarrow>xp_order X. length (exported_rows X db book t))"
      using that by (intro member_le_sum_list) simp_all
    then show "length (exported_rows X db book t) < 2 ^ 63" using assms(5) by simp
  qed
  have keys: "map fst (map (\<lambda>t. (fst t, f t)) ts) = map fst ts" for f :: "string \<times> string list \<Rightarrow> 'x" and ts by (induction ts) auto
  have hex: "valid_text (bodyDigest X c)" for c by (simp add: bodyDigest_def valid_text_ascii hex_text_ascii)
  have one: "valid_text ''1''" by code_simp
  show ?thesis using t names(1) assms(3,4) one hex
    by (simp add: text_snapshot_def exported_def Let_def list_all_iff o_def)
qed

section \<open>What the verifier makes of it\<close>

text \<open>
  A snapshot the store exports passes every check of the verifier that concerns the artifact itself: the identity, the
  seventeen tables and no other, the counts, the digests, and that every row is of the book; whatever the order in which the tables were
  visited, and if the two services share canonical form and hash.
\<close>

lemma exported_manifest_accepted:
  assumes "Store_Snapshot X db book = Inr s" and "mset (xp_order X) = mset exportColumns" and "query_law X db book"
    and "book \<noteq> []" and "xp_cut X \<noteq> Some []" and "vf_canonical V = canonical_text X" and "vf_sha256 V = xp_sha256 X"
  shows "identity_problems (ordered s) = [] \<and> length (remdups (map fst (sn_Tables (ordered s)))) = length required
    \<and> (\<forall>name\<in>set required. table_problems V (ordered s) name = [])"
proof -
  obtain moment where s: "xp_cut X = Some moment" "s = exported X db book moment"
    and all: "\<forall>t\<in>set exportColumns. \<forall>rows e. xp_query X db (export_query (fst t) (snd t)) book = Some (rows, e) \<longrightarrow> None \<notin> set rows"
    by (rule Store_Snapshot_Inr [OF assms(1,2)])
  note names = ordered_names [OF assms(2)]
  let ?rs = "exported_rows X db book"
  have maps: "map_of (sn_Tables (ordered s)) (fst t) = Some (Some (?rs t))" "map_of (sn_Counts (ordered s)) (fst t) = Some (int (length (?rs t)))"
    "map_of (sn_Digests (ordered s)) (fst t) = Some (bodyDigest X (canonical_text X (rows_json (Some (?rs t)))))" if "t \<in> set exportColumns" for t
  proof -
    have at: "map_of (by_name (map (\<lambda>t. (fst t, f t)) (xp_order X))) (fst t) = Some (f t)" for f :: "string \<times> string list \<Rightarrow> 'x"
    proof -
      have "distinct (map fst (map (\<lambda>t. (fst t, f t)) (xp_order X)))" using names(1) by (simp add: o_def)
      then show ?thesis using that names(2) by (simp add: map_of_by_name map_of_eq_Some_iff)
    qed
    show "map_of (sn_Tables (ordered s)) (fst t) = Some (Some (?rs t))" "map_of (sn_Counts (ordered s)) (fst t) = Some (int (length (?rs t)))"
      "map_of (sn_Digests (ordered s)) (fst t) = Some (bodyDigest X (canonical_text X (rows_json (Some (?rs t)))))"
      by (simp_all add: ordered_def s(2) exported_def Let_def at)
  qed
  have "table_problems V (ordered s) (fst t) = []" if "t \<in> set exportColumns" for t
  proof -
    have "str r ''book_id'' = book" if "r \<in> set (?rs t)" for r
      using exported_rows_text(2) [OF assms(3) \<open>t \<in> set exportColumns\<close>] all \<open>t \<in> set exportColumns\<close> that by blast
    moreover have "sn_BookID (ordered s) = book" by (simp add: ordered_def s(2) exported_def Let_def)
    ultimately show ?thesis using maps [OF that] assms(6,7)
      by (simp add: table_problems_def rows_in_def table_of_def digest_of_def bodyDigest_def)
  qed
  then have "\<forall>name\<in>set required. table_problems V (ordered s) name = []" using export_names(2) by (metis imageE list.set_map)
  moreover have "identity_problems (ordered s) = []"
    using assms(4,5) s(1) by (simp add: identity_problems_def ordered_def s(2) exported_def Let_def)
  moreover have "length (remdups (map fst (sn_Tables (ordered s)))) = length required"
  proof -
    have "set (map fst (sn_Tables (ordered s))) = set required"
      using export_names(2) names(2) by (simp add: ordered_def s(2) exported_def Let_def image_image)
    moreover have "distinct required" by code_simp
    ultimately show ?thesis by (metis distinct_card length_remdups_card_conv)
  qed
  ultimately show ?thesis by blast
qed

end
