(* ===== verification/Server.thy ===== *)
theory Server
  imports Wire Exported Inbox
begin

text \<open>
  The gRPC boundary: \<open>transport/server.go\<close> and \<open>transport/security.go\<close>. A handler turns its request into a command or a
  read, calls the service, and answers with a message or a status; the interceptors authenticate the peer and check the message before. The
  service is a parameter here, and the theorems apply the handlers to the service of this development.
\<close>

section \<open>Statuses\<close>

datatype code = InvalidArgument | PermissionDenied | NotFound | AlreadyExists | Internal | Unavailable | Unauthenticated

record status =
  ss_Code :: code
  ss_Reason :: string
  ss_Domain :: "string option"

definition rpcError :: "error \<Rightarrow> status" where
  "rpcError e =
     (let (c, reason) =
        (case e of
           ErrInvalid \<Rightarrow> (InvalidArgument, ''INVALID_ARGUMENT'')
         | ErrPermission \<Rightarrow> (PermissionDenied, ''PERMISSION_DENIED'')
         | ErrNotFound \<Rightarrow> (NotFound, ''NOT_FOUND'')
         | ErrConflict \<Rightarrow> (AlreadyExists, ''IDEMPOTENCY_CONFLICT'')
         | ErrIntegrity \<Rightarrow> (Internal, ''INTEGRITY_ERROR'')
         | ErrUnknown \<Rightarrow> (Unavailable, ''OUTCOME_UNKNOWN'')
         | _ \<Rightarrow> (Unavailable, ''UNAVAILABLE''))
      in \<lparr>ss_Code = c, ss_Reason = reason, ss_Domain = Some ''ledger.pesaro''\<rparr>)"

text \<open>What a handler ends with: an answer, or a panic of the service.\<close>

datatype 'a answer = Answer 'a | Refused status | Panic

definition answer_of :: "('a \<Rightarrow> 'b) \<Rightarrow> 'a result \<Rightarrow> 'b answer" where
  "answer_of f r = (case r of Inr x \<Rightarrow> Answer (f x) | Inl e \<Rightarrow> if e = NilDereference then Panic else Refused (rpcError e))"

section \<open>Requests\<close>

definition parse_id :: "string \<Rightarrow> ID result" where
  "parse_id s = (case ParseID s of Inl _ \<Rightarrow> Inl ErrInvalid | Inr i \<Rightarrow> Inr i)"

definition envelope_command :: "message option \<Rightarrow> kind \<Rightarrow> command result" where
  "envelope_command e k =
     (if e = None \<or> GetString e ''schema_version'' \<noteq> ''1'' then Inl ErrInvalid
      else res_bind (parse_id (GetString e ''book_id'')) (\<lambda>book. res_bind (parse_id (GetString e ''operation_id'')) (\<lambda>op.
        Inr \<lparr>cm_BookID = book, cm_OperationID = op, cm_Kind = k, cm_Create = None, cm_Transfer = None, cm_Reserve = None, cm_Expose = None,
             cm_Capture = None, cm_Release = None, cm_Control = None\<rparr>)))"

definition CreateAccount_command :: "message option \<Rightarrow> command result" where
  "CreateAccount_command r =
     res_bind (envelope_command (GetMessage r ''envelope'') CreateAccount) (\<lambda>c.
     res_bind (parse_id (GetString r ''account_id'')) (\<lambda>account. res_bind (parse_id (GetString r ''owner_id'')) (\<lambda>owner.
       Inr (c\<lparr>cm_Create := Some \<lparr>cr_AccountID = account, cr_OwnerID = owner, cr_Purpose = GetString r ''purpose''\<rparr>\<rparr>))))"

definition TransferInternal_command :: "protojson \<Rightarrow> message option \<Rightarrow> command result" where
  "TransferInternal_command pj r =
     res_bind (envelope_command (GetMessage r ''envelope'') TransferInternal) (\<lambda>c.
     res_bind (decode pj (GetMessage r ''terms'') terms_fields zero_terms) (\<lambda>t. Inr (c\<lparr>cm_Transfer := Some \<lparr>tr_Terms = t\<rparr>\<rparr>)))"

definition ReservePayout_command :: "protojson \<Rightarrow> message option \<Rightarrow> command result" where
  "ReservePayout_command pj r =
     res_bind (envelope_command (GetMessage r ''envelope'') ReservePayout) (\<lambda>c.
     res_bind (decode pj r reserve_body_fields
         \<lparr>rb_Terms = zero_terms, rb_HoldID = [], rb_AttemptID = [], rb_PoolID = [], rb_ExpiresAt = None\<rparr>) (\<lambda>b.
       case Option.bind (rb_ExpiresAt b) (\<lambda>v. time_member (\<lambda>t _. t) v zero_time) of
         None \<Rightarrow> Inl ErrInvalid
       | Some t \<Rightarrow> Inr (c\<lparr>cm_Reserve := Some \<lparr>rs_Terms = rb_Terms b, rs_HoldID = rb_HoldID b, rs_AttemptID = rb_AttemptID b,
                          rs_PoolID = rb_PoolID b, rs_ExpiresAt = Time_UTC t\<rparr>\<rparr>)))"

definition MarkHoldExposed_command :: "protojson \<Rightarrow> message option \<Rightarrow> command result" where
  "MarkHoldExposed_command pj r =
     res_bind (envelope_command (GetMessage r ''envelope'') MarkHoldExposed) (\<lambda>c. res_bind (parse_id (GetString r ''grant_id'')) (\<lambda>g.
     res_bind (decode pj (GetMessage r ''ref'') ref_fields zero_ref) (\<lambda>f. Inr (c\<lparr>cm_Expose := Some \<lparr>ex_Ref = f, ex_GrantID = g\<rparr>\<rparr>))))"

definition CapturePayout_command :: "protojson \<Rightarrow> message option \<Rightarrow> command result" where
  "CapturePayout_command pj r =
     res_bind (envelope_command (GetMessage r ''envelope'') CapturePayout) (\<lambda>c.
     res_bind (decode pj (GetMessage r ''ref'') ref_fields zero_ref) (\<lambda>f.
     res_bind (decode pj (GetMessage r ''evidence'') signed_evidence_fields zero_evidence) (\<lambda>e.
       Inr (c\<lparr>cm_Capture := Some \<lparr>cp_Ref = f, cp_Evidence = e\<rparr>\<rparr>))))"

definition ReleasePayout_command :: "protojson \<Rightarrow> message option \<Rightarrow> command result" where
  "ReleasePayout_command pj r =
     res_bind (envelope_command (GetMessage r ''envelope'') ReleasePayout) (\<lambda>c.
     res_bind (decode pj (GetMessage r ''ref'') ref_fields zero_ref) (\<lambda>f.
     res_bind (case GetMessage r ''evidence'' of
         None \<Rightarrow> Inr None
       | Some m \<Rightarrow> res_bind (decode pj (Some m) signed_evidence_fields zero_evidence) (\<lambda>e. Inr (Some e))) (\<lambda>e.
       Inr (c\<lparr>cm_Release := Some \<lparr>rl_Ref = f, rl_Reason = GetString r ''reason'', rl_Evidence = e\<rparr>\<rparr>))))"

definition SetAccountControl_command :: "protojson \<Rightarrow> message option \<Rightarrow> command result" where
  "SetAccountControl_command pj r =
     res_bind (envelope_command (GetMessage r ''envelope'') SetAccountControl) (\<lambda>c.
     res_bind (decode pj r control_fields zero_control) (\<lambda>s. Inr (c\<lparr>cm_Control := Some s\<rparr>)))"

text \<open>The seven commands by their method.\<close>

definition request_command :: "protojson \<Rightarrow> kind \<Rightarrow> message option \<Rightarrow> command result" where
  "request_command pj k r =
     (if k = CreateAccount then CreateAccount_command r
      else if k = TransferInternal then TransferInternal_command pj r
      else if k = ReservePayout then ReservePayout_command pj r
      else if k = MarkHoldExposed then MarkHoldExposed_command pj r
      else if k = CapturePayout then CapturePayout_command pj r
      else if k = ReleasePayout then ReleasePayout_command pj r
      else SetAccountControl_command pj r)"

section \<open>Answers\<close>

record wire_usage =
  wu_OwnerId :: string
  wu_Bucket :: string
  wu_Reserved :: string
  wu_Consumed :: string
  wu_Version :: string

definition usage_message :: "usage option \<Rightarrow> wire_usage option" where
  "usage_message u = map_option (\<lambda>u. \<lparr>wu_OwnerId = ug_OwnerID u, wu_Bucket = ug_Bucket u, wu_Reserved = Wide_String (uv_Reserved (ug_Values u)),
     wu_Consumed = Wide_String (uv_Consumed (ug_Values u)), wu_Version = format_int64 (ug_Version u)\<rparr>) u"

record wire_receipt =
  wr_SchemaVersion :: string
  wr_BookId :: string
  wr_OperationId :: string
  wr_Kind :: string
  wr_RequestHash :: string
  wr_Outcome :: string
  wr_Reason :: string
  wr_PaymentId :: string
  wr_SubjectIds :: "string list"
  wr_JournalId :: string
  wr_HoldId :: string
  wr_HoldVersion :: string
  wr_ControlVersions :: "string \<rightharpoonup> string"
  wr_AccountVersions :: "string \<rightharpoonup> string"
  wr_PolicyId :: string
  wr_EvidenceId :: string
  wr_LimitChange :: "(wire_usage option \<times> wire_usage option) option"
  wr_RecordedAt :: string
  wr_EventId :: string
  wr_CallerIdentity :: string

definition receipt_message :: "receipt \<Rightarrow> wire_receipt" where
  "receipt_message r =
     \<lparr>wr_SchemaVersion = rc_SchemaVersion r, wr_BookId = rc_BookID r, wr_OperationId = rc_OperationID r, wr_Kind = rc_Kind r,
      wr_RequestHash = rc_RequestHash r, wr_Outcome = rc_Outcome r, wr_Reason = rc_Reason r, wr_PaymentId = rc_PaymentID r,
      wr_SubjectIds = rc_SubjectIDs r, wr_JournalId = rc_JournalID r, wr_HoldId = rc_HoldID r, wr_HoldVersion = format_int64 (rc_HoldVersion r),
      wr_ControlVersions = rc_ControlVersions r, wr_AccountVersions = rc_AccountVersions r, wr_PolicyId = rc_PolicyID r,
      wr_EvidenceId = rc_EvidenceID r,
      wr_LimitChange = map_option (\<lambda>c. (usage_message (ch_Before c), usage_message (Some (ch_After c)))) (rc_LimitChange r),
      wr_RecordedAt = Time_Format (rc_RecordedAt r), wr_EventId = rc_EventID r, wr_CallerIdentity = rc_CallerIdentity r\<rparr>"

record wire_balance =
  wb_BookId :: string
  wb_AccountId :: string
  wb_Currency :: string
  wb_Scale :: string
  wb_Purpose :: string
  wb_DebitsPosted :: string
  wb_CreditsPosted :: string
  wb_Held :: string
  wb_Posted :: string
  wb_Available :: string
  wb_Version :: string

definition balance_message :: "ID \<Rightarrow> ID \<Rightarrow> account \<times> balance \<Rightarrow> wire_balance result" where
  "balance_message book i = (\<lambda>(a, b).
     case Posted (bl_Totals b) (ac_Purpose a) of Inl _ \<Rightarrow> Inl ErrIntegrity
     | Inr posted \<Rightarrow> (case Available (bl_Totals b) (ac_Purpose a) of Inl _ \<Rightarrow> Inl ErrIntegrity
       | Inr available \<Rightarrow>
           Inr \<lparr>wb_BookId = book, wb_AccountId = i, wb_Currency = bk_Currency (ac_Book a), wb_Scale = format_int (bk_Scale (ac_Book a)),
                wb_Purpose = ac_Purpose a, wb_DebitsPosted = Wide_String (tt_Debits (bl_Totals b)),
                wb_CreditsPosted = Wide_String (tt_Credits (bl_Totals b)), wb_Held = Wide_String (tt_Held (bl_Totals b)),
                wb_Posted = Wide_String posted, wb_Available = Wide_String available, wb_Version = format_int64 (bl_Version b)\<rparr>))"

section \<open>Handlers\<close>

record 'db service =
  sv_Execute :: "caller \<Rightarrow> command \<Rightarrow> 'db \<Rightarrow> receipt result \<times> 'db"
  sv_GetOperation :: "caller \<Rightarrow> ID \<Rightarrow> ID \<Rightarrow> 'db \<Rightarrow> receipt result"
  sv_GetBalance :: "caller \<Rightarrow> ID \<Rightarrow> ID \<Rightarrow> 'db \<Rightarrow> (account \<times> balance) result"
  sv_Export :: "caller \<Rightarrow> ID \<Rightarrow> 'db \<Rightarrow> snapshot result"

definition execute_request :: "'db service \<Rightarrow> protojson \<Rightarrow> kind \<Rightarrow> caller \<Rightarrow> message option \<Rightarrow> 'db \<Rightarrow> wire_receipt answer \<times> 'db" where
  "execute_request S pj k c r db =
     (case request_command pj k r of
        Inl e \<Rightarrow> (Refused (rpcError e), db)
      | Inr cmd \<Rightarrow> (let (res, db') = sv_Execute S c cmd db in (answer_of receipt_message res, db')))"

definition GetOperation_request :: "'db service \<Rightarrow> caller \<Rightarrow> message option \<Rightarrow> 'db \<Rightarrow> wire_receipt answer" where
  "GetOperation_request S c r db =
     answer_of receipt_message (res_bind (parse_id (GetString r ''book_id'')) (\<lambda>book. res_bind (parse_id (GetString r ''operation_id'')) (\<lambda>i.
       sv_GetOperation S c book i db)))"

definition GetBalance_request :: "'db service \<Rightarrow> caller \<Rightarrow> message option \<Rightarrow> 'db \<Rightarrow> wire_balance answer" where
  "GetBalance_request S c r db =
     answer_of id (res_bind (parse_id (GetString r ''book_id'')) (\<lambda>book. res_bind (parse_id (GetString r ''account_id'')) (\<lambda>i.
       res_bind (sv_GetBalance S c book i db) (balance_message book i))))"

text \<open>How a stream ends: complete, with a status, or with an error of \<open>Send\<close>.\<close>

datatype stream_end = Complete | Ended status | Broken

definition ExportLedgerSnapshot ::
  "'db service \<Rightarrow> (string \<Rightarrow> bytes) \<Rightarrow> (nat \<Rightarrow> bool) \<Rightarrow> caller \<Rightarrow> message option \<Rightarrow> 'db \<Rightarrow> chunk list \<times> stream_end" where
  "ExportLedgerSnapshot S sha256 sends c r db =
     (case parse_id (GetString r ''book_id'') of
        Inl e \<Rightarrow> ([], Ended (rpcError e))
      | Inr book \<Rightarrow>
          (case sv_Export S c book db of
             Inl e \<Rightarrow> ([], Ended (rpcError e))
           | Inr s \<Rightarrow>
               (let data = write_json (snapshot_json s); (cs, ok) = send_chunks sends book (sn_Cut s) data (hex_encode (sha256 data)) 0
                in (cs, if ok then Complete else Broken))))"

section \<open>Authentication\<close>

definition NewAuthenticator :: "(string \<rightharpoonup> caller) \<Rightarrow> string \<rightharpoonup> caller" where
  "NewAuthenticator rules = (\<lambda>identity. map_option (\<lambda>c. c\<lparr>cl_Identity := identity\<rparr>) (rules identity))"

definition bare_status :: "code \<Rightarrow> string \<Rightarrow> status" where
  "bare_status c reason = \<lparr>ss_Code = c, ss_Reason = reason, ss_Domain = None\<rparr>"

text \<open>The peer of a call: none, one without TLS, or the state of its connection.\<close>

definition authenticate :: "(string \<rightharpoonup> caller) \<Rightarrow> tls_state option option \<Rightarrow> status + caller" where
  "authenticate rules p =
     (case p of
        Some (Some s) \<Rightarrow>
          if tls_chains s = 0 \<or> tls_uris s = [] then Inl (bare_status Unauthenticated ''MTLS_REQUIRED'')
          else (case hd (tls_uris s) of
            [uri] \<Rightarrow> (case rules uri of None \<Rightarrow> Inl (bare_status PermissionDenied ''WORKLOAD_NOT_ALLOWED'') | Some c \<Rightarrow> Inr c)
          | _ \<Rightarrow> Inl (bare_status PermissionDenied ''WORKLOAD_IDENTITY_REQUIRED''))
      | _ \<Rightarrow> Inl (bare_status Unauthenticated ''MTLS_REQUIRED''))"

definition version_fields :: "string list" where
  "version_fields = [''expected_version'', ''subject_epoch'', ''account_epoch'']"

definition version_text :: "string \<Rightarrow> bool" where
  "version_text s = (case parse_int64 s of None \<Rightarrow> False | Some n \<Rightarrow> \<not> sint n < 0 \<and> s = format_int64 n)"

text \<open>\<open>Range\<close> visits the fields that are set; an empty string is not.\<close>

fun valid_message :: "message \<Rightarrow> bool" and valid_field :: "string \<Rightarrow> field \<Rightarrow> bool" where
  "valid_message (Message u fs) = (u = [] \<and> list_all (\<lambda>(n, f). valid_field n f) fs)"
| "valid_field n (PString s) = (s = [] \<or> n \<notin> set version_fields \<or> version_text s)"
| "valid_field n (PBool b) = True"
| "valid_field n (PMessage m) = (case m of None \<Rightarrow> True | Some x \<Rightarrow> valid_message x)"
| "valid_field n (PMap kvs) = True"
| "valid_field n (PMessages ms) = list_all valid_message ms"

definition Unary ::
  "(string \<rightharpoonup> caller) \<Rightarrow> tls_state option option \<Rightarrow> message option \<Rightarrow> (caller \<Rightarrow> message option \<Rightarrow> 'db \<Rightarrow> 'a answer \<times> 'db) \<Rightarrow> 'db \<Rightarrow>
   'a answer \<times> 'db" where
  "Unary rules p request handler db =
     (case authenticate rules p of
        Inl st \<Rightarrow> (Refused st, db)
      | Inr c \<Rightarrow>
          if (case request of None \<Rightarrow> True | Some m \<Rightarrow> \<not> valid_message m) then (Refused (rpcError ErrInvalid), db)
          else (case handler c request db of
            (Panic, db') \<Rightarrow> (Refused (bare_status Internal ''INTERNAL_ERROR_RECOVER_ORIGINAL_OPERATION''), db')
          | (a, db') \<Rightarrow> (a, db')))"

text \<open>A streaming call reads its request through \<open>RecvMsg\<close> of the authenticated stream.\<close>

definition Stream ::
  "(string \<rightharpoonup> caller) \<Rightarrow> tls_state option option \<Rightarrow> message option \<Rightarrow> (caller \<Rightarrow> message option \<Rightarrow> chunk list \<times> stream_end) \<Rightarrow>
   chunk list \<times> stream_end" where
  "Stream rules p request handler =
     (case authenticate rules p of
        Inl st \<Rightarrow> ([], Ended st)
      | Inr c \<Rightarrow>
          if (case request of None \<Rightarrow> True | Some m \<Rightarrow> \<not> valid_message m) then ([], Ended (rpcError ErrInvalid))
          else handler c request)"

record tls_config =
  tc_MinVersion :: nat
  tc_RequiresVerifiedClient :: bool
  tc_HasClientCAs :: bool

definition VersionTLS13 :: nat where "VersionTLS13 = 772"

text \<open>The server as it is composed, if its TLS configuration is accepted: a call of one of the seven commands.\<close>

definition NewGRPC ::
  "'db service \<Rightarrow> tls_config option \<Rightarrow> (string \<rightharpoonup> caller) \<Rightarrow>
   (protojson \<Rightarrow> kind \<Rightarrow> tls_state option option \<Rightarrow> message option \<Rightarrow> 'db \<Rightarrow> wire_receipt answer \<times> 'db) result" where
  "NewGRPC S config rules =
     (if (case config of None \<Rightarrow> True
          | Some t \<Rightarrow> tc_MinVersion t < VersionTLS13 \<or> \<not> tc_RequiresVerifiedClient t \<or> \<not> tc_HasClientCAs t) then Inl ErrConfig
      else Inr (\<lambda>pj k p request. Unary (NewAuthenticator rules) p request (execute_request S pj k)))"

end
