(* ===== verification/Served.thy ===== *)
theory Served
  imports Server Ledger
begin

text \<open>
  What the boundary guarantees: who is behind a call, that a decoded command is well formed, and that no request takes the ledger
  out of its reachable states.
\<close>

section \<open>Decoded commands\<close>

lemma members_keep:
  assumes "members fs kvs r = Some r'" and "P r" and "\<forall>(n, put)\<in>set fs. \<forall>v r r'. P r \<longrightarrow> put v r = Some r' \<longrightarrow> P r'"
  shows "P r'"
  using assms(1,2)
proof (induction kvs arbitrary: r)
  case (Cons kv kvs)
  obtain k v where kv: "kv = (k, v)" by (cases kv)
  show ?case
  proof (cases "Option.bind (field_for (map fst fs) k) (map_of fs)")
    case None
    then show ?thesis using Cons kv by simp
  next
    case (Some put)
    then obtain n where "map_of fs n = Some put" by (auto simp: bind_eq_Some_conv)
    then have "(n, put) \<in> set fs" by (rule map_of_SomeD)
    moreover obtain r1 where "put v r = Some r1" "members fs kvs r1 = Some r'"
      using Cons.prems(1) Some kv by (auto simp: bind_eq_Some_conv)
    ultimately show ?thesis using Cons.IH Cons.prems(2) assms(3) by blast
  qed
qed simp

lemma into_struct_keep:
  assumes "into_struct fs v r = Some r'" and "P r" and "\<forall>(n, put)\<in>set fs. \<forall>v r r'. P r \<longrightarrow> put v r = Some r' \<longrightarrow> P r'"
  shows "P r'"
  using assms members_keep [of fs _ r r' P] by (auto simp: into_struct_def split: json.split_asm)

lemma terms_fees:
  assumes "into_struct terms_fields v t = Some t'" and "amount_ok (tm_Fee t)"
  shows "amount_ok (tm_Fee t')"
  using assms(1)
proof (rule into_struct_keep [where P = "\<lambda>t. amount_ok (tm_Fee t)"])
  show "\<forall>(n, put)\<in>set terms_fields. \<forall>v r r'. amount_ok (tm_Fee r) \<longrightarrow> put v r = Some r' \<longrightarrow> amount_ok (tm_Fee r')"
    unfolding terms_fields_def
    by (auto simp: string_member_def id_member_def amount_member_def struct_member_def ParseAmount_ok split: json.split_asm sum.split_asm if_split_asm)
qed (rule assms(2))

lemma decode_Inr:
  assumes "decode pj m fs zero = Inr x"
  obtains v where "into_struct fs v zero = Some x"
  using assms by (auto simp: decode_def split: option.split_asm)

lemma decoded_terms: "decode pj m terms_fields zero_terms = Inr t \<Longrightarrow> amount_ok (tm_Fee t)"
  by (erule decode_Inr) (rule terms_fees, auto simp: zero_terms_def amount_ok_def)

lemma decoded_reserve:
  assumes "decode pj m reserve_body_fields zero = Inr b" and "amount_ok (tm_Fee (rb_Terms zero))"
  shows "amount_ok (tm_Fee (rb_Terms b))"
proof -
  obtain v where "into_struct reserve_body_fields v zero = Some b" using assms(1) by (rule decode_Inr)
  then show ?thesis
  proof (rule into_struct_keep [where P = "\<lambda>b. amount_ok (tm_Fee (rb_Terms b))"])
    show "\<forall>(n, put)\<in>set reserve_body_fields. \<forall>v r r'. amount_ok (tm_Fee (rb_Terms r)) \<longrightarrow> put v r = Some r' \<longrightarrow> amount_ok (tm_Fee (rb_Terms r'))"
      unfolding reserve_body_fields_def
      by (auto simp: id_member_def struct_member_def intro: terms_fees split: json.split_asm sum.split_asm if_split_asm)
  qed (rule assms(2))
qed

lemma envelope_Inr:
  assumes "envelope_command e k = Inr c"
  shows "cm_Kind c = k" and "ID_Valid (cm_BookID c)" and "ID_Valid (cm_OperationID c)"
    and "cm_Create c = None" and "cm_Transfer c = None" and "cm_Reserve c = None" and "cm_Expose c = None" and "cm_Capture c = None"
    and "cm_Release c = None" and "cm_Control c = None"
  using assms by (auto simp: envelope_command_def parse_id_def dest: ParseID_Inr split: if_split_asm sum.split_asm)

definition command_kinds :: "kind list" where
  "command_kinds = [CreateAccount, TransferInternal, ReservePayout, MarkHoldExposed, CapturePayout, ReleasePayout, SetAccountControl]"

definition has_payload :: "command \<Rightarrow> bool" where
  "has_payload c =
     (if cm_Kind c = CreateAccount then cm_Create c \<noteq> None else if cm_Kind c = TransferInternal then cm_Transfer c \<noteq> None
      else if cm_Kind c = ReservePayout then cm_Reserve c \<noteq> None else if cm_Kind c = MarkHoldExposed then cm_Expose c \<noteq> None
      else if cm_Kind c = CapturePayout then cm_Capture c \<noteq> None else if cm_Kind c = ReleasePayout then cm_Release c \<noteq> None
      else cm_Control c \<noteq> None)"

definition well_typed :: "kind \<Rightarrow> command \<Rightarrow> bool" where
  "well_typed k c = (cm_Kind c = k \<and> ID_Valid (cm_BookID c) \<and> ID_Valid (cm_OperationID c) \<and> payload_count c = 1 \<and> has_payload c \<and> fees_ok c)"

lemma envelope_payload:
  assumes "envelope_command e k = Inr c"
  shows "k = CreateAccount \<Longrightarrow> well_typed k (c\<lparr>cm_Create := Some a\<rparr>)"
    and "k = TransferInternal \<Longrightarrow> amount_ok (tm_Fee (tr_Terms t)) \<Longrightarrow> well_typed k (c\<lparr>cm_Transfer := Some t\<rparr>)"
    and "k = ReservePayout \<Longrightarrow> amount_ok (tm_Fee (rs_Terms h)) \<Longrightarrow> well_typed k (c\<lparr>cm_Reserve := Some h\<rparr>)"
    and "k = MarkHoldExposed \<Longrightarrow> well_typed k (c\<lparr>cm_Expose := Some x\<rparr>)"
    and "k = CapturePayout \<Longrightarrow> well_typed k (c\<lparr>cm_Capture := Some y\<rparr>)"
    and "k = ReleasePayout \<Longrightarrow> well_typed k (c\<lparr>cm_Release := Some z\<rparr>)"
    and "k = SetAccountControl \<Longrightarrow> well_typed k (c\<lparr>cm_Control := Some s\<rparr>)"
  using envelope_Inr [OF assms] by (simp_all add: well_typed_def payload_count_def has_payload_def fees_ok_def)

lemma request_typed:
  assumes "request_command pj k r = Inr c" and "k \<in> set command_kinds"
  shows "well_typed k c"
proof -
  let ?zero = "\<lparr>rb_Terms = zero_terms, rb_HoldID = [], rb_AttemptID = [], rb_PoolID = [], rb_ExpiresAt = None\<rparr>"
  have zero: "amount_ok (tm_Fee (rb_Terms ?zero))" by (simp add: zero_terms_def amount_ok_def)
  consider "k = CreateAccount" | "k = TransferInternal" | "k = ReservePayout" | "k = MarkHoldExposed" | "k = CapturePayout"
    | "k = ReleasePayout" | "k = SetAccountControl" using assms(2) by (auto simp: command_kinds_def)
  then show ?thesis
  proof cases
    case 1
    then show ?thesis using assms(1) envelope_payload(1) by (auto simp: request_command_def CreateAccount_command_def)
  next
    case 2
    then show ?thesis using assms(1) envelope_payload(2) decoded_terms by (fastforce simp: request_command_def TransferInternal_command_def)
  next
    case 3
    with assms(1) have "ReservePayout_command pj r = Inr c" by (simp add: request_command_def)
    then obtain c0 b t where "envelope_command (GetMessage r ''envelope'') ReservePayout = Inr c0" "decode pj r reserve_body_fields ?zero = Inr b"
      "c = c0\<lparr>cm_Reserve := Some \<lparr>rs_Terms = rb_Terms b, rs_HoldID = rb_HoldID b, rs_AttemptID = rb_AttemptID b, rs_PoolID = rb_PoolID b,
         rs_ExpiresAt = Time_UTC t\<rparr>\<rparr>"
      by (auto simp: ReservePayout_command_def split: option.split_asm)
    then show ?thesis using envelope_payload(3) decoded_reserve [OF _ zero] 3 by simp
  next
    case 4
    then show ?thesis using assms(1) envelope_payload(4) by (auto simp: request_command_def MarkHoldExposed_command_def)
  next
    case 5
    then show ?thesis using assms(1) envelope_payload(5) by (auto simp: request_command_def CapturePayout_command_def)
  next
    case 6
    then show ?thesis using assms(1) envelope_payload(6) by (auto simp: request_command_def ReleasePayout_command_def)
  next
    case 7
    then show ?thesis using assms(1) envelope_payload(7) by (auto simp: request_command_def SetAccountControl_command_def)
  qed
qed

text \<open>
  C39. Whatever message a method receives, the command it hands to the service is well typed: of the method's kind, with
  the payload of this kind and no other, for a book and an operation in canonical form, and without a negative fee.
\<close>

theorem decoded_command_typed:
  assumes "request_command pj k r = Inr c" and "k \<in> set command_kinds"
  shows "cm_Kind c = k \<and> ID_Valid (cm_BookID c) \<and> ID_Valid (cm_OperationID c) \<and> payload_count c = 1 \<and> has_payload c \<and> fees_ok c"
  using request_typed [OF assms] by (simp add: well_typed_def)

text \<open>A request of each kind of member: a transfer, its terms and its grant.\<close>

definition x_pj :: protojson where
  "x_pj m = Some (write_json (message_json m))"

definition x_envelope_field :: "string \<times> field" where
  "x_envelope_field = (''envelope'', PMessage (Some (Message []
     [(''schema_version'', PString ''1''), (''book_id'', PString x_book_id), (''operation_id'', PString x_op)])))"

definition x_create_request :: message where
  "x_create_request = Message [] [x_envelope_field, (''account_id'', PString x_wallet_a), (''owner_id'', PString x_alice), (''purpose'', PString Wallet)]"

definition x_fee_request :: message where
  "x_fee_request = Message [] [x_envelope_field, (''terms'', PMessage (Some (Message []
     [(''payment_id'', PString x_payment), (''fee'', PString ''5''), (''grant'', PMessage None)])))]"

lemma x_fee_request_runs:
  "case request_command x_pj TransferInternal (Some x_fee_request) of Inl _ \<Rightarrow> False
   | Inr c \<Rightarrow> map_option (tm_Fee \<circ> tr_Terms) (cm_Transfer c) = Some (Amount 5)"
  by code_simp

theorem decoded_command_typed_witness:
  "\<exists>c. request_command x_pj TransferInternal (Some x_fee_request) = Inr c \<and> payload_count c = 1 \<and> cm_Transfer c \<noteq> None \<and> fees_ok c"
proof -
  obtain c where c: "request_command x_pj TransferInternal (Some x_fee_request) = Inr c"
    using x_fee_request_runs by (auto split: sum.split_asm)
  have "TransferInternal \<in> set command_kinds" by (simp add: command_kinds_def)
  from decoded_command_typed [OF c this] show ?thesis using c by (auto simp: has_payload_def split: if_split_asm)
qed

section \<open>Calls\<close>

lemma Unary_cases:
  assumes "Unary (NewAuthenticator rules) p request handler db = (a, db')"
  obtains (refused) st where "a = Refused st" and "db' = db"
  | (handled) s uri certs c m a1 where "p = Some (Some s)" and "0 < tls_chains s" and "tls_uris s = [uri] # certs" and "rules uri = Some c"
      and "request = Some m" and "valid_message m" and "handler (c\<lparr>cl_Identity := uri\<rparr>) request db = (a1, db')"
      and "a = (case a1 of Panic \<Rightarrow> Refused (bare_status Internal ''INTERNAL_ERROR_RECOVER_ORIGINAL_OPERATION'') | _ \<Rightarrow> a1)"
proof (cases "authenticate (NewAuthenticator rules) p")
  case (Inl st)
  then show ?thesis using assms refused [of st] by (simp add: Unary_def)
next
  case (Inr c')
  then obtain s uri certs where peer: "p = Some (Some s)" "0 < tls_chains s" "tls_uris s = [uri] # certs" "NewAuthenticator rules uri = Some c'"
    unfolding authenticate_def by (auto split: option.split_asm if_split_asm list.split_asm simp: neq_Nil_conv)
  then obtain c where c: "rules uri = Some c" "c' = c\<lparr>cl_Identity := uri\<rparr>" by (auto simp: NewAuthenticator_def)
  show ?thesis
  proof (cases "\<exists>m. request = Some m \<and> valid_message m")
    case True
    then obtain m where m: "request = Some m" "valid_message m" by blast
    obtain a1 d1 where h: "handler c' request db = (a1, d1)" by fastforce
    then have "a = (case a1 of Panic \<Rightarrow> Refused (bare_status Internal ''INTERNAL_ERROR_RECOVER_ORIGINAL_OPERATION'') | _ \<Rightarrow> a1)" "db' = d1"
      using assms Inr m by (auto simp: Unary_def split: answer.split_asm)
    then show ?thesis using handled [OF peer(1-3) c(1) m] h c(2) by simp
  next
    case False
    then show ?thesis using assms Inr refused by (auto simp: Unary_def split: option.split_asm if_split_asm)
  qed
qed

lemma execute_request_cases:
  assumes "execute_request S pj k c request db = (a, db')"
  obtains (undecoded) st where "a = Refused st" and "db' = db"
  | (run) cmd res where "request_command pj k request = Inr cmd" and "sv_Execute S c cmd db = (res, db')" and "a = answer_of receipt_message res"
  using assms by (auto simp: execute_request_def split: sum.split_asm prod.split_asm)

text \<open>
  C9. No call of the server takes the ledger out of its reachable states, so the properties of reachable ledgers hold
  whatever is sent, by whomever, over whatever connection, and whatever fails on the way.
\<close>

theorem server_keeps_ledger:
  assumes "ledger E t db" and "fits (\<lambda>a b. ledger E t a \<longrightarrow> ledger E t b) attempts" and "sv_Execute S = ledger_execute E t attempts jb eb"
    and "k \<in> set command_kinds" and "Unary (NewAuthenticator rules) p request (execute_request S pj k) db = (a, db')"
  shows "ledger E t db'"
  using assms(5)
proof (cases rule: Unary_cases)
  case refused
  then show ?thesis using assms(1) by simp
next
  case (handled s uri certs c m a1)
  from handled(7) show ?thesis
  proof (cases rule: execute_request_cases)
    case undecoded
    then show ?thesis using assms(1) by simp
  next
    case (run cmd res)
    have "fees_ok cmd" using request_typed [OF run(1) assms(4)] by (simp add: well_typed_def)
    then show ?thesis using ledger_call [OF assms(1) _ assms(2)] run(2) assms(3) by simp
  qed
qed

definition x_service :: "db service" where
  "x_service = \<lparr>sv_Execute = ledger_execute x_env x_trust x_attempts (replicate 16 1) (replicate 16 2),
     sv_GetOperation = (\<lambda>_ _ _ _. Inl ErrNotFound), sv_GetBalance = (\<lambda>_ _ _ _. Inl ErrNotFound), sv_Export = (\<lambda>_ _ _. Inl ErrUnavailable)\<rparr>"

definition x_peer :: "tls_state option option" where
  "x_peer = Some (Some \<lparr>tls_chains = 1, tls_uris = [[''svc'']]\<rparr>)"

lemma x_create_request_runs: "request_command x_pj CreateAccount (Some x_create_request) = Inr x_create"
  by code_simp

lemma x_create_served:
  obtains r d where "x_execute x_create x_db = (Inr r, d)"
    and "Unary (NewAuthenticator [''svc'' \<mapsto> x_caller]) x_peer (Some x_create_request) (execute_request x_service x_pj CreateAccount) x_db
      = (Answer (receipt_message r), d)"
proof -
  obtain r d where r: "x_execute x_create x_db = (Inr r, d)" using x_create_returns by blast
  have "authenticate (NewAuthenticator [''svc'' \<mapsto> x_caller]) x_peer = Inr x_caller"
    by (simp add: authenticate_def x_peer_def NewAuthenticator_def x_caller_def)
  moreover have "valid_message x_create_request" by code_simp
  ultimately have "Unary (NewAuthenticator [''svc'' \<mapsto> x_caller]) x_peer (Some x_create_request) (execute_request x_service x_pj CreateAccount) x_db
      = (Answer (receipt_message r), d)"
    using r by (simp add: Unary_def execute_request_def x_create_request_runs x_service_def answer_of_def)
  with r show ?thesis by (rule that)
qed

theorem server_keeps_ledger_witness:
  "\<exists>w d. Unary (NewAuthenticator [''svc'' \<mapsto> x_caller]) x_peer (Some x_create_request) (execute_request x_service x_pj CreateAccount) x_db
     = (Answer w, d) \<and> ledger x_env x_trust d \<and> d \<noteq> x_db"
proof -
  obtain r d where r: "x_execute x_create x_db = (Inr r, d)"
    and u: "Unary (NewAuthenticator [''svc'' \<mapsto> x_caller]) x_peer (Some x_create_request) (execute_request x_service x_pj CreateAccount) x_db
      = (Answer (receipt_message r), d)" by (rule x_create_served)
  have "x_db = empty_db\<lparr>db_books := db_books x_db, db_policies := []\<rparr>" by (simp add: x_db_def empty_db_def)
  then have "ledger x_env x_trust x_db" using ledger.migrated by metis
  then have "ledger x_env x_trust d"
    using server_keeps_ledger [OF _ _ _ _ u, of x_env x_trust x_attempts] by (simp add: fits_def x_attempts_def x_service_def command_kinds_def)
  moreover have "d \<noteq> x_db" using x_create_runs r by (auto simp: x_db_def)
  ultimately show ?thesis using u by blast
qed

text \<open>
  C10. A call that is answered with a receipt, or that changes anything, came over a connection with a verified chain whose first
  certificate carries exactly one identity, and this identity has a rule; the service was called for the caller of this rule under
  this identity with the command of the valid request, and the answer is what the service returned: the receipt, or the status of the
  error, or after a panic the advice to recover the original operation.
\<close>

theorem request_is_vouched:
  assumes "Unary (NewAuthenticator rules) p request (execute_request S pj k) db = (a, db')" and "(\<exists>w. a = Answer w) \<or> db' \<noteq> db"
  shows "\<exists>s uri certs c m cmd res. p = Some (Some s) \<and> 0 < tls_chains s \<and> tls_uris s = [uri] # certs \<and> rules uri = Some c
    \<and> request = Some m \<and> valid_message m \<and> request_command pj k request = Inr cmd
    \<and> sv_Execute S (c\<lparr>cl_Identity := uri\<rparr>) cmd db = (res, db')
    \<and> a = (case res of Inr r \<Rightarrow> Answer (receipt_message r)
           | Inl e \<Rightarrow> Refused (if e = NilDereference then bare_status Internal ''INTERNAL_ERROR_RECOVER_ORIGINAL_OPERATION'' else rpcError e))"
  using assms(1)
proof (cases rule: Unary_cases)
  case refused
  then show ?thesis using assms(2) by simp
next
  case (handled s uri certs c m a1)
  from handled(7) show ?thesis
  proof (cases rule: execute_request_cases)
    case undecoded
    then show ?thesis using handled(8) assms(2) by auto
  next
    case (run cmd res)
    have "a = (case res of Inr r \<Rightarrow> Answer (receipt_message r)
           | Inl e \<Rightarrow> Refused (if e = NilDereference then bare_status Internal ''INTERNAL_ERROR_RECOVER_ORIGINAL_OPERATION'' else rpcError e))"
      using handled(8) run(3) by (auto simp: answer_of_def split: sum.split)
    then show ?thesis using handled(1-6) run(1,2) by blast
  qed
qed

theorem request_is_vouched_witness:
  "\<exists>r d s uri certs. Unary (NewAuthenticator [''svc'' \<mapsto> x_caller]) x_peer (Some x_create_request)
       (execute_request x_service x_pj CreateAccount) x_db = (Answer (receipt_message r), d)
     \<and> x_peer = Some (Some s) \<and> tls_uris s = [uri] # certs \<and> sv_Execute x_service (x_caller\<lparr>cl_Identity := uri\<rparr>) x_create x_db = (Inr r, d)"
proof -
  obtain r d where r: "x_execute x_create x_db = (Inr r, d)"
    and u: "Unary (NewAuthenticator [''svc'' \<mapsto> x_caller]) x_peer (Some x_create_request) (execute_request x_service x_pj CreateAccount) x_db
      = (Answer (receipt_message r), d)" by (rule x_create_served)
  from request_is_vouched [OF u] obtain s uri certs c cmd res where v: "x_peer = Some (Some s)" "tls_uris s = [uri] # certs"
    "[''svc'' \<mapsto> x_caller] uri = Some c" "request_command x_pj CreateAccount (Some x_create_request) = Inr cmd"
    "sv_Execute x_service (c\<lparr>cl_Identity := uri\<rparr>) cmd x_db = (res, d)" by blast
  then have "c = x_caller" "cmd = x_create" "uri = ''svc''" using x_create_request_runs by (auto split: if_split_asm)
  moreover have "x_caller\<lparr>cl_Identity := ''svc''\<rparr> = x_caller" by (simp add: x_caller_def)
  ultimately have "sv_Execute x_service (x_caller\<lparr>cl_Identity := uri\<rparr>) x_create x_db = (Inr r, d)" using r by (simp add: x_service_def)
  then show ?thesis using u v(1,2) by blast
qed

end
