(* ===== verification/Sent.thy ===== *)
theory Sent
  imports Served
begin

text \<open>
  Commands on their way: the messages of \<open>contracts/ledger/v1/ledger.proto\<close> that carry a command, as a specification (clients are
  not part of the repository), and that the server decodes them to the same command, in whatever order \<open>protojson\<close> writes the
  members of a message.
\<close>

section \<open>The messages of a command\<close>

text \<open>Every message has its fields in the order of their numbers.\<close>

definition struct_of :: "(string \<times> field) list \<Rightarrow> field" where
  "struct_of fs = PMessage (Some (Message [] fs))"

definition envelope_field :: "command \<Rightarrow> field" where
  "envelope_field c = struct_of
     [(''schema_version'', PString ''1''), (''book_id'', PString (cm_BookID c)), (''operation_id'', PString (cm_OperationID c))]"

definition grant_field :: "grant \<Rightarrow> field" where
  "grant_field g = struct_of
     [(''id'', PString (gr_ID g)), (''issuer'', PString (gr_Issuer g)), (''book_id'', PString (gr_BookID g)),
      (''payment_id'', PString (gr_PaymentID g)), (''subject_id'', PString (gr_SubjectID g)), (''source_id'', PString (gr_SourceID g)),
      (''beneficiary_id'', PString (gr_BeneficiaryID g)), (''principal'', PString (Amount_String (gr_Principal g))),
      (''fee'', PString (Amount_String (gr_Fee g))), (''policy_id'', PString (gr_PolicyID g)), (''quote_id'', PString (gr_QuoteID g)),
      (''currency'', PString (gr_Currency g)), (''subject_epoch'', PString (format_int64 (gr_SubjectEpoch g))),
      (''account_epoch'', PString (format_int64 (gr_AccountEpoch g))), (''not_before'', PString (Time_Format (gr_NotBefore g))),
      (''expires_at'', PString (Time_Format (gr_ExpiresAt g)))]"

definition signed_grant_field :: "signed_grant \<Rightarrow> field" where
  "signed_grant_field s = struct_of [(''claims'', grant_field (sg_Claims s)), (''signature'', PString (sg_Signature s))]"

definition terms_field :: "terms \<Rightarrow> field" where
  "terms_field t = struct_of
     [(''payment_id'', PString (tm_PaymentID t)), (''source_id'', PString (tm_SourceID t)),
      (''beneficiary_id'', PString (tm_BeneficiaryID t)), (''principal'', PString (Amount_String (tm_Principal t))),
      (''fee'', PString (Amount_String (tm_Fee t))), (''currency'', PString (tm_Currency t)), (''policy_id'', PString (tm_PolicyID t)),
      (''quote_id'', PString (tm_QuoteID t)), (''grant'', signed_grant_field (tm_Grant t))]"

definition evidence_field :: "evidence \<Rightarrow> field" where
  "evidence_field e = struct_of
     [(''id'', PString (ev_ID e)), (''issuer'', PString (ev_Issuer e)), (''book_id'', PString (ev_BookID e)),
      (''payment_id'', PString (ev_PaymentID e)), (''hold_id'', PString (ev_HoldID e)), (''attempt_id'', PString (ev_AttemptID e)),
      (''provider_account_id'', PString (ev_ProviderAccountID e)), (''beneficiary_id'', PString (ev_BeneficiaryID e)),
      (''principal'', PString (Amount_String (ev_Principal e))), (''currency'', PString (ev_Currency e)),
      (''capability_id'', PString (ev_CapabilityID e)), (''final_state'', PString (ev_FinalState e)),
      (''submission_fenced'', PBool (ev_SubmissionFenced e)), (''observed_at'', PString (Time_Format (ev_ObservedAt e))),
      (''source_digest'', PString (ev_SourceDigest e))]"

definition signed_evidence_field :: "signed_evidence \<Rightarrow> field" where
  "signed_evidence_field s = struct_of [(''claims'', evidence_field (se_Claims s)), (''signature'', PString (se_Signature s))]"

definition ref_field :: "hold_ref \<Rightarrow> field" where
  "ref_field f = struct_of
     [(''payment_id'', PString (rf_PaymentID f)), (''hold_id'', PString (rf_HoldID f)), (''attempt_id'', PString (rf_AttemptID f)),
      (''expected_version'', PString (format_int64 (rf_ExpectedVersion f)))]"

definition key_field :: "control_key \<Rightarrow> field" where
  "key_field k = struct_of [(''kind'', PString (ck_Kind k)), (''id'', PString (ck_ID k))]"

definition control_body :: "set_control \<Rightarrow> (string \<times> field) list" where
  "control_body s =
     [(''key'', key_field (sc_Key s)), (''expected_version'', PString (format_int64 (sc_ExpectedVersion s))),
      (''debit_frozen'', PBool (sc_DebitFrozen s)), (''credit_frozen'', PBool (sc_CreditFrozen s)),
      (''daily_cap'', PString (Wide_String (sc_DailyCap s))), (''revoke_grants'', PBool (sc_RevokeGrants s)),
      (''reason'', PString (sc_Reason s))]"

definition reserve_message :: "reserve \<Rightarrow> (string \<times> field) list" where
  "reserve_message r =
     [(''terms'', terms_field (rs_Terms r)), (''hold_id'', PString (rs_HoldID r)), (''attempt_id'', PString (rs_AttemptID r)),
      (''pool_id'', PString (rs_PoolID r)), (''expires_at'', PString (Time_Format (rs_ExpiresAt r)))]"

text \<open>The fields after the envelope, by the kind of the command.\<close>

definition payload_fields :: "command \<Rightarrow> (string \<times> field) list" where
  "payload_fields c =
     (if cm_Kind c = CreateAccount then
        (case cm_Create c of None \<Rightarrow> [] | Some a \<Rightarrow>
           [(''account_id'', PString (cr_AccountID a)), (''owner_id'', PString (cr_OwnerID a)), (''purpose'', PString (cr_Purpose a))])
      else if cm_Kind c = TransferInternal then
        (case cm_Transfer c of None \<Rightarrow> [] | Some a \<Rightarrow> [(''terms'', terms_field (tr_Terms a))])
      else if cm_Kind c = ReservePayout then (case cm_Reserve c of None \<Rightarrow> [] | Some a \<Rightarrow> reserve_message a)
      else if cm_Kind c = MarkHoldExposed then
        (case cm_Expose c of None \<Rightarrow> [] | Some a \<Rightarrow> [(''ref'', ref_field (ex_Ref a)), (''grant_id'', PString (ex_GrantID a))])
      else if cm_Kind c = CapturePayout then
        (case cm_Capture c of None \<Rightarrow> [] | Some a \<Rightarrow>
           [(''ref'', ref_field (cp_Ref a)), (''evidence'', signed_evidence_field (cp_Evidence a))])
      else if cm_Kind c = ReleasePayout then
        (case cm_Release c of None \<Rightarrow> [] | Some a \<Rightarrow>
           [(''ref'', ref_field (rl_Ref a)), (''reason'', PString (rl_Reason a)),
            (''evidence'', case rl_Evidence a of None \<Rightarrow> PMessage None | Some e \<Rightarrow> signed_evidence_field e)])
      else (case cm_Control c of None \<Rightarrow> [] | Some a \<Rightarrow> control_body a))"

definition request_message :: "command \<Rightarrow> message" where
  "request_message c = Message [] ((''envelope'', envelope_field c) # payload_fields c)"

section \<open>What \<open>protojson\<close> writes\<close>

text \<open>
  The same value, but for the order in which the members of an object come. \<open>protojson\<close> documents no order and no
  spacing.
\<close>

inductive reordered :: "json \<Rightarrow> json \<Rightarrow> bool" where
  null: "reordered JNull JNull"
| bool: "reordered (JBool b) (JBool b)"
| num: "reordered (JNum n) (JNum n)"
| str: "reordered (JStr s) (JStr s)"
| arr: "list_all2 reordered js js' \<Longrightarrow> reordered (JArr js) (JArr js')"
| obj: "distinct (map fst kvs) \<Longrightarrow> distinct (map fst kvs') \<Longrightarrow> set (map fst kvs') = set (map fst kvs) \<Longrightarrow>
    (\<And>k v v'. map_of kvs k = Some v \<Longrightarrow> map_of kvs' k = Some v' \<Longrightarrow> reordered v v') \<Longrightarrow> reordered (JObj kvs) (JObj kvs')"

inductive_simps reordered_simps [simp]: "reordered JNull j" "reordered (JBool b) j" "reordered (JStr s) j"
inductive_cases reordered_objE: "reordered (JObj kvs) j"

lemma reordered_refl: "plain_json j \<Longrightarrow> reordered j j"
proof (induction j)
  case (JArr js)
  then have "list_all2 reordered js js" by (simp add: list_all2_conv_all_nth list_all_length)
  then show ?case by (rule reordered.arr)
next
  case (JObj kvs)
  have "reordered v v'" if "map_of kvs k = Some v" "map_of kvs k = Some v'" for k v v'
  proof -
    have kv: "(k, v) \<in> set kvs" "v' = v" using that by (simp_all add: map_of_SomeD)
    have "plain_json v" using JObj.prems kv(1) by (auto simp: list_all_iff)
    then show ?thesis using JObj.IH [of "(k, v)" v] kv by (simp add: snds.intros)
  qed
  then show ?case using JObj.prems by (intro reordered.obj) auto
qed (auto intro: reordered.intros)

lemma reordered_members:
  assumes "reordered (JObj kvs) j"
  obtains kvs' where "j = JObj kvs'" and "set (map fst kvs') = set (map fst kvs)"
    and "\<And>k v'. (k, v') \<in> set kvs' \<Longrightarrow> \<exists>v. (k, v) \<in> set kvs \<and> reordered v v'"
proof (rule reordered_objE [OF assms])
  fix kvs'
  assume j: "j = JObj kvs'" "fst ` set kvs' = fst ` set kvs"
    and same: "\<And>k v v'. (k, v) \<in> set kvs \<Longrightarrow> (k, v') \<in> set kvs' \<Longrightarrow> reordered v v'"
  have "\<exists>v. (k, v) \<in> set kvs \<and> reordered v v'" if "(k, v') \<in> set kvs'" for k v'
  proof -
    have "k \<in> fst ` set kvs" using that j(2) by force
    then obtain v where "(k, v) \<in> set kvs" by auto
    then show ?thesis using same that by blast
  qed
  then show thesis using that j by simp
qed

text \<open>The text of a message is its JSON within the bound; so for a request and the messages in its fields.\<close>

definition writes :: "protojson \<Rightarrow> message \<Rightarrow> bool" where
  "writes pj m = (case pj m of None \<Rightarrow> False | Some data \<Rightarrow> length data \<le> 16384
     \<and> (case json_read data of None \<Rightarrow> False | Some (v, rest) \<Rightarrow> reordered (message_json m) v \<and> skip rest = []))"

definition writes_request :: "protojson \<Rightarrow> message \<Rightarrow> bool" where
  "writes_request pj m = (writes pj m \<and> list_all (\<lambda>(n, f). case f of PMessage (Some x) \<Rightarrow> writes pj x | _ \<Rightarrow> True) (message.fields m))"

text \<open>Values with a text of their own.\<close>

definition sent_id :: "ID \<Rightarrow> bool" where
  "sent_id i = (i = [] \<or> ID_Valid i)"

definition sent_time :: "time \<Rightarrow> bool" where
  "sent_time t = (Time_Parse (Time_Format t) = Some t)"

definition sent_grant :: "grant \<Rightarrow> bool" where
  "sent_grant g = (list_all sent_id [gr_ID g, gr_BookID g, gr_PaymentID g, gr_SubjectID g, gr_SourceID g, gr_BeneficiaryID g, gr_PolicyID g, gr_QuoteID g]
     \<and> amount_ok (gr_Principal g) \<and> amount_ok (gr_Fee g) \<and> sent_time (gr_NotBefore g) \<and> sent_time (gr_ExpiresAt g))"

definition sent_terms :: "terms \<Rightarrow> bool" where
  "sent_terms t = (list_all sent_id [tm_PaymentID t, tm_SourceID t, tm_BeneficiaryID t, tm_PolicyID t, tm_QuoteID t]
     \<and> amount_ok (tm_Principal t) \<and> amount_ok (tm_Fee t) \<and> sent_grant (sg_Claims (tm_Grant t)))"

definition sent_ref :: "hold_ref \<Rightarrow> bool" where
  "sent_ref r = list_all sent_id [rf_PaymentID r, rf_HoldID r, rf_AttemptID r]"

definition sent_evidence :: "evidence \<Rightarrow> bool" where
  "sent_evidence e = (list_all sent_id [ev_ID e, ev_BookID e, ev_PaymentID e, ev_HoldID e, ev_AttemptID e, ev_ProviderAccountID e, ev_BeneficiaryID e,
       ev_CapabilityID e] \<and> amount_ok (ev_Principal e) \<and> sent_time (ev_ObservedAt e))"

definition sent_payload :: "command \<Rightarrow> bool" where
  "sent_payload c =
     ((case cm_Create c of None \<Rightarrow> True | Some r \<Rightarrow> ID_Valid (cr_AccountID r) \<and> ID_Valid (cr_OwnerID r))
    \<and> (case cm_Transfer c of None \<Rightarrow> True | Some t \<Rightarrow> sent_terms (tr_Terms t))
    \<and> (case cm_Reserve c of None \<Rightarrow> True | Some r \<Rightarrow> sent_terms (rs_Terms r) \<and> list_all sent_id [rs_HoldID r, rs_AttemptID r, rs_PoolID r]
         \<and> sent_time (rs_ExpiresAt r) \<and> t_offset (rs_ExpiresAt r) = 0)
    \<and> (case cm_Expose c of None \<Rightarrow> True | Some x \<Rightarrow> sent_ref (ex_Ref x) \<and> ID_Valid (ex_GrantID x))
    \<and> (case cm_Capture c of None \<Rightarrow> True | Some x \<Rightarrow> sent_ref (cp_Ref x) \<and> sent_evidence (se_Claims (cp_Evidence x)))
    \<and> (case cm_Release c of None \<Rightarrow> True | Some r \<Rightarrow> sent_ref (rl_Ref r) \<and> (case rl_Evidence r of None \<Rightarrow> True | Some e \<Rightarrow> sent_evidence (se_Claims e)))
    \<and> (case cm_Control c of None \<Rightarrow> True | Some s \<Rightarrow> sent_id (ck_ID (sc_Key s)) \<and> wide_ok (sc_DailyCap s)))"

section \<open>Structs, member by member\<close>

text \<open>What one member does to a struct: nothing, if no field has its name.\<close>

definition store :: "(string \<times> 'r put) list \<Rightarrow> string \<Rightarrow> 'r put" where
  "store fs k v r = (case Option.bind (field_for (map fst fs) k) (map_of fs) of None \<Rightarrow> Some r | Some put \<Rightarrow> put v r)"

lemma members_store: "members fs ((k, v) # kvs) r = Option.bind (store fs k v r) (members fs kvs)"
  by (simp add: store_def split: option.split)

text \<open>
  An order does not matter when each member settles one condition and keeps all others: \<open>A\<close> lists the conditions by the
  name of their member, and \<open>x\<close> is the only struct that meets all of them.
\<close>

definition settles :: "(string \<times> 'r put) list \<Rightarrow> (string \<times> ('r \<Rightarrow> bool)) list \<Rightarrow> string \<Rightarrow> json \<Rightarrow> bool" where
  "settles fs A k v = (\<forall>r. \<exists>r'. store fs k v r = Some r' \<and> list_all (\<lambda>(m, P). P r \<or> m = k \<longrightarrow> P r') A)"

lemma members_settled:
  assumes "\<And>k v. (k, v) \<in> set kvs \<Longrightarrow> settles fs A k v"
  shows "\<exists>r'. members fs kvs r = Some r' \<and> list_all (\<lambda>(m, P). P r \<or> m \<in> set (map fst kvs) \<longrightarrow> P r') A"
  using assms
proof (induction kvs arbitrary: r)
  case (Cons kv kvs)
  obtain k v where kv: "kv = (k, v)" by fastforce
  obtain r1 where r1: "store fs k v r = Some r1" "list_all (\<lambda>(m, P). P r \<or> m = k \<longrightarrow> P r1) A"
    using Cons.prems [of k v] kv by (auto simp: settles_def)
  obtain r' where "members fs kvs r1 = Some r'" "list_all (\<lambda>(m, P). P r1 \<or> m \<in> set (map fst kvs) \<longrightarrow> P r') A"
    using Cons.IH [of r1] Cons.prems by auto
  then show ?case using r1 unfolding kv members_store by (auto simp: list_all_iff)
qed (simp add: list_all_iff)

lemma struct_read:
  assumes "reordered (field_json (struct_of sent)) j" and "list_all (\<lambda>(k, f). \<forall>v. reordered (field_json f) v \<longrightarrow> settles fs A k v) sent"
    and "list_all (\<lambda>(m, P). m \<in> set (map fst sent)) A" and "\<And>r. list_all (\<lambda>(m, P). P r) A \<Longrightarrow> r = x"
  shows "into_struct fs j z = Some x"
proof (rule reordered_members [OF assms(1) [unfolded struct_of_def field_json.simps option.case message_json.simps]])
  fix kvs
  assume j: "j = JObj kvs" "set (map fst kvs) = set (map fst (map (\<lambda>(n, f). (n, field_json f)) sent))"
    and same: "\<And>k v. (k, v) \<in> set kvs \<Longrightarrow> \<exists>w. (k, w) \<in> set (map (\<lambda>(n, f). (n, field_json f)) sent) \<and> reordered w v"
  have names: "set (map fst kvs) = set (map fst sent)" using j(2) by (force simp: image_image)
  have "settles fs A k v" if "(k, v) \<in> set kvs" for k v
    using same [OF that] assms(2) by (auto simp: list_all_iff)
  then obtain r where "members fs kvs z = Some r" "list_all (\<lambda>(m, P). P z \<or> m \<in> set (map fst kvs) \<longrightarrow> P r) A"
    using members_settled [of kvs fs A z] by blast
  moreover then have "r = x" using assms(3) unfolding names by (intro assms(4)) (auto simp: list_all_iff)
  ultimately show ?thesis by (simp add: j(1) into_struct_def)
qed

section \<open>The structs of a command\<close>

lemma quoted_int_format: "quoted_int (format_int64 n) = Some (Some n)"
proof -
  have "\<exists>c r. format_int64 n = c # r \<and> (c = CHR ''-'' \<or> is_digit c)"
  proof (cases "sint n < 0")
    case False
    obtain c r where "dec (nat (sint n)) = c # r" by (cases "dec (nat (sint n))") (auto simp: dec_not_Nil)
    then show ?thesis using False dec_digits [of "nat (sint n)"] by (simp add: format_int64_def format_int_def)
  qed (simp add: format_int64_def format_int_def)
  then obtain c r where f: "format_int64 n = c # r" "c = CHR ''-'' \<or> is_digit c" by blast
  then have "format_int64 n \<noteq> ''null''" by (auto simp: is_digit_def)
  then show ?thesis using f parse_int64_format [of n] by (simp add: quoted_int_def)
qed

lemma id_member_sent: "sent_id i \<Longrightarrow> id_member f (JStr i) r = Some (f i r)"
  using ID_Valid_ParseID [of i] by (auto simp: id_member_def sent_id_def)

lemma time_member_sent: "sent_time t \<Longrightarrow> time_member f (JStr (Time_Format t)) r = Some (f t r)"
  by (simp add: time_member_def sent_time_def)

lemma amount_member_sent: "amount_ok a \<Longrightarrow> amount_member f (JStr (Amount_String a)) r = Some (f a r)"
  by (simp add: amount_member_def ParseAmount_String)

lemma member_simps [simp]:
  "string_member f (JStr s) r = Some (f s r)" "bool_member g (JBool b) r = Some (g b r)"
  "int_member h (JStr (format_int64 n)) r = Some (h n r)"
  by (simp_all add: string_member_def bool_member_def int_member_def quoted_int_format)

lemma wide_member_sent: "wide_ok w \<Longrightarrow> wide_member f (JStr (Wide_String w)) r = Some (f w r)"
  by (simp add: wide_member_def ParseWide_String)

lemmas sent_simps = settles_def store_def field_for_exact struct_member_def id_member_sent time_member_sent amount_member_sent wide_member_sent

lemma grant_read:
  assumes "sent_grant g" and "reordered (field_json (grant_field g)) j"
  shows "into_struct grant_fields j z = Some g"
  by (rule struct_read [OF assms(2) [unfolded grant_field_def], where A =
       "[(''id'', \<lambda>r. gr_ID r = gr_ID g), (''issuer'', \<lambda>r. gr_Issuer r = gr_Issuer g), (''book_id'', \<lambda>r. gr_BookID r = gr_BookID g),
        (''payment_id'', \<lambda>r. gr_PaymentID r = gr_PaymentID g), (''subject_id'', \<lambda>r. gr_SubjectID r = gr_SubjectID g),
        (''source_id'', \<lambda>r. gr_SourceID r = gr_SourceID g), (''beneficiary_id'', \<lambda>r. gr_BeneficiaryID r = gr_BeneficiaryID g),
        (''principal'', \<lambda>r. gr_Principal r = gr_Principal g), (''fee'', \<lambda>r. gr_Fee r = gr_Fee g),
        (''policy_id'', \<lambda>r. gr_PolicyID r = gr_PolicyID g), (''quote_id'', \<lambda>r. gr_QuoteID r = gr_QuoteID g),
        (''currency'', \<lambda>r. gr_Currency r = gr_Currency g), (''subject_epoch'', \<lambda>r. gr_SubjectEpoch r = gr_SubjectEpoch g),
        (''account_epoch'', \<lambda>r. gr_AccountEpoch r = gr_AccountEpoch g), (''not_before'', \<lambda>r. gr_NotBefore r = gr_NotBefore g),
        (''expires_at'', \<lambda>r. gr_ExpiresAt r = gr_ExpiresAt g)]"])
     (use assms(1) [unfolded sent_grant_def list.pred_inject] in \<open>simp_all add: grant_fields_def sent_simps grant.equality\<close>)

lemma signed_grant_read:
  assumes "sent_grant (sg_Claims s)" and "reordered (field_json (signed_grant_field s)) j"
  shows "into_struct signed_grant_fields j z = Some s"
  by (rule struct_read [OF assms(2) [unfolded signed_grant_field_def], where A =
       "[(''claims'', \<lambda>r. sg_Claims r = sg_Claims s), (''signature'', \<lambda>r. sg_Signature r = sg_Signature s)]"])
     (use grant_read [OF assms(1)] in \<open>simp_all add: signed_grant_fields_def sent_simps signed_grant.equality\<close>)

lemma terms_read:
  assumes "sent_terms t" and "reordered (field_json (terms_field t)) j"
  shows "into_struct terms_fields j z = Some t"
  by (rule struct_read [OF assms(2) [unfolded terms_field_def], where A =
       "[(''payment_id'', \<lambda>r. tm_PaymentID r = tm_PaymentID t), (''source_id'', \<lambda>r. tm_SourceID r = tm_SourceID t),
        (''beneficiary_id'', \<lambda>r. tm_BeneficiaryID r = tm_BeneficiaryID t), (''principal'', \<lambda>r. tm_Principal r = tm_Principal t),
        (''fee'', \<lambda>r. tm_Fee r = tm_Fee t), (''currency'', \<lambda>r. tm_Currency r = tm_Currency t), (''policy_id'', \<lambda>r. tm_PolicyID r = tm_PolicyID t),
        (''quote_id'', \<lambda>r. tm_QuoteID r = tm_QuoteID t), (''grant'', \<lambda>r. tm_Grant r = tm_Grant t)]"])
     (use assms(1) signed_grant_read [of "tm_Grant t"] in \<open>simp_all add: sent_terms_def terms_fields_def sent_simps terms.equality\<close>)

lemma ref_read:
  assumes "sent_ref f" and "reordered (field_json (ref_field f)) j"
  shows "into_struct ref_fields j z = Some f"
  by (rule struct_read [OF assms(2) [unfolded ref_field_def], where A =
       "[(''payment_id'', \<lambda>r. rf_PaymentID r = rf_PaymentID f), (''hold_id'', \<lambda>r. rf_HoldID r = rf_HoldID f),
        (''attempt_id'', \<lambda>r. rf_AttemptID r = rf_AttemptID f), (''expected_version'', \<lambda>r. rf_ExpectedVersion r = rf_ExpectedVersion f)]"])
     (use assms(1) in \<open>simp_all add: sent_ref_def ref_fields_def sent_simps hold_ref.equality\<close>)

lemma evidence_read:
  assumes "sent_evidence e" and "reordered (field_json (evidence_field e)) j"
  shows "into_struct evidence_fields j z = Some e"
  by (rule struct_read [OF assms(2) [unfolded evidence_field_def], where A =
       "[(''id'', \<lambda>r. ev_ID r = ev_ID e), (''issuer'', \<lambda>r. ev_Issuer r = ev_Issuer e), (''book_id'', \<lambda>r. ev_BookID r = ev_BookID e),
        (''payment_id'', \<lambda>r. ev_PaymentID r = ev_PaymentID e), (''hold_id'', \<lambda>r. ev_HoldID r = ev_HoldID e),
        (''attempt_id'', \<lambda>r. ev_AttemptID r = ev_AttemptID e), (''provider_account_id'', \<lambda>r. ev_ProviderAccountID r = ev_ProviderAccountID e),
        (''beneficiary_id'', \<lambda>r. ev_BeneficiaryID r = ev_BeneficiaryID e), (''principal'', \<lambda>r. ev_Principal r = ev_Principal e),
        (''currency'', \<lambda>r. ev_Currency r = ev_Currency e), (''capability_id'', \<lambda>r. ev_CapabilityID r = ev_CapabilityID e),
        (''final_state'', \<lambda>r. ev_FinalState r = ev_FinalState e), (''submission_fenced'', \<lambda>r. ev_SubmissionFenced r = ev_SubmissionFenced e),
        (''observed_at'', \<lambda>r. ev_ObservedAt r = ev_ObservedAt e), (''source_digest'', \<lambda>r. ev_SourceDigest r = ev_SourceDigest e)]"])
     (use assms(1) [unfolded sent_evidence_def list.pred_inject] in \<open>simp_all add: evidence_fields_def sent_simps evidence.equality\<close>)

lemma signed_evidence_read:
  assumes "sent_evidence (se_Claims s)" and "reordered (field_json (signed_evidence_field s)) j"
  shows "into_struct signed_evidence_fields j z = Some s"
  by (rule struct_read [OF assms(2) [unfolded signed_evidence_field_def], where A =
       "[(''claims'', \<lambda>r. se_Claims r = se_Claims s), (''signature'', \<lambda>r. se_Signature r = se_Signature s)]"])
     (use evidence_read [OF assms(1)] in \<open>simp_all add: signed_evidence_fields_def sent_simps signed_evidence.equality\<close>)

lemma key_read:
  assumes "sent_id (ck_ID k)" and "reordered (field_json (key_field k)) j"
  shows "into_struct key_fields j z = Some k"
  by (rule struct_read [OF assms(2) [unfolded key_field_def], where A =
       "[(''kind'', \<lambda>r. ck_Kind r = ck_Kind k), (''id'', \<lambda>r. ck_ID r = ck_ID k)]"])
     (use assms(1) in \<open>simp_all add: key_fields_def sent_simps control_key.equality\<close>)

text \<open>The envelope is not a field of the structs that are decoded from a whole request.\<close>

lemma whole_names: "list_all (\<lambda>n. ascii n \<and> map lower_char n = n) [''envelope'', ''key'', ''expected_version'', ''debit_frozen'', ''credit_frozen'',
    ''daily_cap'', ''revoke_grants'', ''reason'', ''terms'', ''hold_id'', ''attempt_id'', ''pool_id'', ''expires_at'']"
  by code_simp

lemma envelope_ignored:
  "field_for [''key'', ''expected_version'', ''debit_frozen'', ''credit_frozen'', ''daily_cap'', ''revoke_grants'', ''reason''] ''envelope'' = None"
  "field_for [''terms'', ''hold_id'', ''attempt_id'', ''pool_id'', ''expires_at''] ''envelope'' = None"
  by (rule field_for_other; use whole_names in simp)+

lemma control_read:
  assumes "sent_id (ck_ID (sc_Key s))" and "wide_ok (sc_DailyCap s)" and "reordered (field_json (struct_of ((''envelope'', e) # control_body s))) j"
  shows "into_struct control_fields j z = Some s"
  by (rule struct_read [OF assms(3) [unfolded control_body_def], where A =
       "[(''key'', \<lambda>r. sc_Key r = sc_Key s), (''expected_version'', \<lambda>r. sc_ExpectedVersion r = sc_ExpectedVersion s),
        (''debit_frozen'', \<lambda>r. sc_DebitFrozen r = sc_DebitFrozen s), (''credit_frozen'', \<lambda>r. sc_CreditFrozen r = sc_CreditFrozen s),
        (''daily_cap'', \<lambda>r. sc_DailyCap r = sc_DailyCap s), (''revoke_grants'', \<lambda>r. sc_RevokeGrants r = sc_RevokeGrants s),
        (''reason'', \<lambda>r. sc_Reason r = sc_Reason s)]"])
     (use assms(2) key_read [OF assms(1)] in \<open>simp_all add: control_fields_def envelope_ignored sent_simps set_control.equality\<close>)

lemma reserve_read:
  assumes "sent_terms (rs_Terms r)" and "list_all sent_id [rs_HoldID r, rs_AttemptID r, rs_PoolID r]"
    and "reordered (field_json (struct_of ((''envelope'', e) # reserve_message r))) j"
  shows "into_struct reserve_body_fields j z = Some \<lparr>rb_Terms = rs_Terms r, rb_HoldID = rs_HoldID r,
    rb_AttemptID = rs_AttemptID r, rb_PoolID = rs_PoolID r, rb_ExpiresAt = Some (JStr (Time_Format (rs_ExpiresAt r)))\<rparr>"
  by (rule struct_read [OF assms(3) [unfolded reserve_message_def], where A =
       "[(''terms'', \<lambda>b. rb_Terms b = rs_Terms r), (''hold_id'', \<lambda>b. rb_HoldID b = rs_HoldID r), (''attempt_id'', \<lambda>b. rb_AttemptID b = rs_AttemptID r),
        (''pool_id'', \<lambda>b. rb_PoolID b = rs_PoolID r), (''expires_at'', \<lambda>b. rb_ExpiresAt b = Some (JStr (Time_Format (rs_ExpiresAt r))))]"])
     (use assms(2) terms_read [OF assms(1)] in \<open>simp_all add: reserve_body_fields_def envelope_ignored sent_simps reserve_body.equality\<close>)


section \<open>Requests\<close>

lemma decode_sent:
  assumes "writes pj m" and "\<And>j. reordered (message_json m) j \<Longrightarrow> into_struct fs j z = Some x"
  shows "decode pj (Some m) fs z = Inr x"
  using assms by (auto simp: writes_def decode_def decode_json_def split: option.split_asm)

lemma envelope_sent:
  assumes "ID_Valid (cm_BookID c)" and "ID_Valid (cm_OperationID c)"
  shows "envelope_command (GetMessage (Some (request_message c)) ''envelope'') k
    = Inr \<lparr>cm_BookID = cm_BookID c, cm_OperationID = cm_OperationID c, cm_Kind = k, cm_Create = None, cm_Transfer = None, cm_Reserve = None,
        cm_Expose = None, cm_Capture = None, cm_Release = None, cm_Control = None\<rparr>"
  using assms
  by (simp add: envelope_command_def request_message_def envelope_field_def struct_of_def GetMessage_def GetString_def parse_id_def ID_Valid_ParseID)

lemma parse_id_valid: "ID_Valid i \<Longrightarrow> parse_id i = Inr i"
  by (simp add: parse_id_def ID_Valid_ParseID)

lemma whole_sent:
  assumes "writes_request pj (request_message c)"
    and "\<And>j. reordered (field_json (struct_of ((''envelope'', envelope_field c) # payload_fields c))) j \<Longrightarrow> into_struct fs j z = Some x"
  shows "decode pj (Some (request_message c)) fs z = Inr x"
  using assms by (intro decode_sent) (simp_all add: writes_request_def request_message_def struct_of_def)

text \<open>A part that is decoded into a struct, and a text.\<close>

lemma part_sent:
  assumes "writes_request pj (request_message c)" and "map_of (payload_fields c) n = Some f" and "f = struct_of fs" and "n \<noteq> ''envelope''"
    and "\<And>j. reordered (field_json f) j \<Longrightarrow> into_struct gs j z = Some x"
  shows "decode pj (GetMessage (Some (request_message c)) n) gs z = Inr x"
proof -
  have "(n, PMessage (Some (Message [] fs))) \<in> set (message.fields (request_message c))"
    using map_of_SomeD [OF assms(2)] by (simp add: request_message_def assms(3) struct_of_def)
  then have "writes pj (Message [] fs)" using assms(1) by (force simp: writes_request_def list_all_iff)
  moreover have "GetMessage (Some (request_message c)) n = Some (Message [] fs)"
    using assms(2-4) by (simp add: GetMessage_def request_message_def struct_of_def)
  ultimately show ?thesis using assms(5) by (auto simp: assms(3) struct_of_def intro: decode_sent)
qed

lemma text_sent:
  assumes "map_of (payload_fields c) n = Some (PString s)" and "n \<noteq> ''envelope''"
  shows "GetString (Some (request_message c)) n = s"
  using assms by (simp add: GetString_def request_message_def)

definition bare_command :: "command \<Rightarrow> command" where
  "bare_command c = c\<lparr>cm_Create := None, cm_Transfer := None, cm_Reserve := None, cm_Expose := None, cm_Capture := None, cm_Release := None,
     cm_Control := None\<rparr>"

lemma envelope_bare:
  assumes "ID_Valid (cm_BookID c)" and "ID_Valid (cm_OperationID c)"
  shows "envelope_command (GetMessage (Some (request_message c)) ''envelope'') (cm_Kind c) = Inr (bare_command c)"
  using envelope_sent [OF assms] by (cases c) (simp add: bare_command_def)

lemma restored:
  assumes "payload_count c = 1"
  shows "cm_Create c = Some a1 \<Longrightarrow> bare_command c\<lparr>cm_Create := Some a1\<rparr> = c"
    and "cm_Transfer c = Some a2 \<Longrightarrow> bare_command c\<lparr>cm_Transfer := Some a2\<rparr> = c"
    and "cm_Reserve c = Some a3 \<Longrightarrow> bare_command c\<lparr>cm_Reserve := Some a3\<rparr> = c"
    and "cm_Expose c = Some a4 \<Longrightarrow> bare_command c\<lparr>cm_Expose := Some a4\<rparr> = c"
    and "cm_Capture c = Some a5 \<Longrightarrow> bare_command c\<lparr>cm_Capture := Some a5\<rparr> = c"
    and "cm_Release c = Some a6 \<Longrightarrow> bare_command c\<lparr>cm_Release := Some a6\<rparr> = c"
    and "cm_Control c = Some a7 \<Longrightarrow> bare_command c\<lparr>cm_Control := Some a7\<rparr> = c"
  using assms by (cases c; simp add: bare_command_def payload_count_def split: if_split_asm)+

section \<open>Arrival, by kind\<close>

lemma create_arrives:
  assumes "well_typed CreateAccount c" and "sent_payload c"
  shows "request_command pj CreateAccount (Some (request_message c)) = Inr c"
proof -
  obtain a where a: "cm_Create c = Some a" using assms(1) by (auto simp: well_typed_def has_payload_def)
  have k: "cm_Kind c = CreateAccount" "ID_Valid (cm_BookID c)" "ID_Valid (cm_OperationID c)" "payload_count c = 1"
    using assms(1) by (simp_all add: well_typed_def)
  have p: "payload_fields c = [(''account_id'', PString (cr_AccountID a)), (''owner_id'', PString (cr_OwnerID a)), (''purpose'', PString (cr_Purpose a))]"
    by (simp add: payload_fields_def k a)
  have "ID_Valid (cr_AccountID a)" "ID_Valid (cr_OwnerID a)" using assms(2) by (simp_all add: sent_payload_def a)
  then show ?thesis using envelope_bare [OF k(2,3)] restored(1) [OF k(4) a] text_sent [of c, unfolded p]
    by (cases a) (simp add: request_command_def CreateAccount_command_def parse_id_valid k(1))
qed

lemma transfer_arrives:
  assumes "well_typed TransferInternal c" and "sent_payload c" and "writes_request pj (request_message c)"
  shows "request_command pj TransferInternal (Some (request_message c)) = Inr c"
proof -
  obtain a where a: "cm_Transfer c = Some a" using assms(1) by (auto simp: well_typed_def has_payload_def)
  have k: "cm_Kind c = TransferInternal" "ID_Valid (cm_BookID c)" "ID_Valid (cm_OperationID c)" "payload_count c = 1"
    using assms(1) by (simp_all add: well_typed_def)
  have p: "map_of (payload_fields c) ''terms'' = Some (terms_field (tr_Terms a))" by (simp add: payload_fields_def k a)
  have "sent_terms (tr_Terms a)" using assms(2) by (simp add: sent_payload_def a)
  from part_sent [OF assms(3) p terms_field_def _ terms_read [OF this]]
  show ?thesis using envelope_bare [OF k(2,3)] restored(2) [OF k(4) a]
    by (cases a) (simp add: request_command_def TransferInternal_command_def k(1))
qed

lemma reserve_arrives:
  assumes "well_typed ReservePayout c" and "sent_payload c" and "writes_request pj (request_message c)"
  shows "request_command pj ReservePayout (Some (request_message c)) = Inr c"
proof -
  obtain a where a: "cm_Reserve c = Some a" using assms(1) by (auto simp: well_typed_def has_payload_def)
  have k: "cm_Kind c = ReservePayout" "ID_Valid (cm_BookID c)" "ID_Valid (cm_OperationID c)" "payload_count c = 1"
    using assms(1) by (simp_all add: well_typed_def)
  have p: "payload_fields c = reserve_message a" by (simp add: payload_fields_def k a)
  have s: "sent_terms (rs_Terms a)" "list_all sent_id [rs_HoldID a, rs_AttemptID a, rs_PoolID a]" "sent_time (rs_ExpiresAt a)" "t_offset (rs_ExpiresAt a) = 0"
    using assms(2) by (simp_all add: sent_payload_def a)
  note d = whole_sent [OF assms(3), unfolded p, OF reserve_read [OF s(1,2)]]
  have "Time_UTC (rs_ExpiresAt a) = rs_ExpiresAt a" using s(4) by (simp add: Time_UTC_def)
  then show ?thesis using envelope_bare [OF k(2,3)] restored(3) [OF k(4) a] d s(3)
    by (cases a) (simp add: request_command_def ReservePayout_command_def k(1) time_member_sent)
qed

lemma expose_arrives:
  assumes "well_typed MarkHoldExposed c" and "sent_payload c" and "writes_request pj (request_message c)"
  shows "request_command pj MarkHoldExposed (Some (request_message c)) = Inr c"
proof -
  obtain a where a: "cm_Expose c = Some a" using assms(1) by (auto simp: well_typed_def has_payload_def)
  have k: "cm_Kind c = MarkHoldExposed" "ID_Valid (cm_BookID c)" "ID_Valid (cm_OperationID c)" "payload_count c = 1"
    using assms(1) by (simp_all add: well_typed_def)
  have p: "map_of (payload_fields c) ''ref'' = Some (ref_field (ex_Ref a))" "map_of (payload_fields c) ''grant_id'' = Some (PString (ex_GrantID a))"
    by (simp_all add: payload_fields_def k a)
  have s: "sent_ref (ex_Ref a)" "ID_Valid (ex_GrantID a)" using assms(2) by (simp_all add: sent_payload_def a)
  from part_sent [OF assms(3) p(1) ref_field_def _ ref_read [OF s(1)]] text_sent [OF p(2)]
  show ?thesis using envelope_bare [OF k(2,3)] restored(4) [OF k(4) a] s(2)
    by (cases a) (simp add: request_command_def MarkHoldExposed_command_def k(1) parse_id_valid)
qed

lemma capture_arrives:
  assumes "well_typed CapturePayout c" and "sent_payload c" and "writes_request pj (request_message c)"
  shows "request_command pj CapturePayout (Some (request_message c)) = Inr c"
proof -
  obtain a where a: "cm_Capture c = Some a" using assms(1) by (auto simp: well_typed_def has_payload_def)
  have k: "cm_Kind c = CapturePayout" "ID_Valid (cm_BookID c)" "ID_Valid (cm_OperationID c)" "payload_count c = 1"
    using assms(1) by (simp_all add: well_typed_def)
  have p: "map_of (payload_fields c) ''ref'' = Some (ref_field (cp_Ref a))"
    "map_of (payload_fields c) ''evidence'' = Some (signed_evidence_field (cp_Evidence a))"
    by (simp_all add: payload_fields_def k a)
  have s: "sent_ref (cp_Ref a)" "sent_evidence (se_Claims (cp_Evidence a))" using assms(2) by (simp_all add: sent_payload_def a)
  from part_sent [OF assms(3) p(1) ref_field_def _ ref_read [OF s(1)]]
    part_sent [OF assms(3) p(2) signed_evidence_field_def _ signed_evidence_read [OF s(2)]]
  show ?thesis using envelope_bare [OF k(2,3)] restored(5) [OF k(4) a]
    by (cases a) (simp add: request_command_def CapturePayout_command_def k(1))
qed

lemma release_arrives:
  assumes "well_typed ReleasePayout c" and "sent_payload c" and "writes_request pj (request_message c)"
  shows "request_command pj ReleasePayout (Some (request_message c)) = Inr c"
proof -
  obtain a where a: "cm_Release c = Some a" using assms(1) by (auto simp: well_typed_def has_payload_def)
  have k: "cm_Kind c = ReleasePayout" "ID_Valid (cm_BookID c)" "ID_Valid (cm_OperationID c)" "payload_count c = 1"
    using assms(1) by (simp_all add: well_typed_def)
  have p: "map_of (payload_fields c) ''ref'' = Some (ref_field (rl_Ref a))" "map_of (payload_fields c) ''reason'' = Some (PString (rl_Reason a))"
    "map_of (payload_fields c) ''evidence'' = Some (case rl_Evidence a of None \<Rightarrow> PMessage None | Some e \<Rightarrow> signed_evidence_field e)"
    by (simp_all add: payload_fields_def k a)
  have s: "sent_ref (rl_Ref a)" using assms(2) by (simp add: sent_payload_def a)
  note r = part_sent [OF assms(3) p(1) ref_field_def _ ref_read [OF s]] text_sent [OF p(2)]
  show ?thesis
  proof (cases "rl_Evidence a")
    case None
    then have "GetMessage (Some (request_message c)) ''evidence'' = None" using p(3) by (simp add: GetMessage_def request_message_def)
    then show ?thesis using envelope_bare [OF k(2,3)] restored(6) [OF k(4) a] r None
      by (cases a) (simp add: request_command_def ReleasePayout_command_def k(1))
  next
    case (Some e)
    have q: "map_of (payload_fields c) ''evidence'' = Some (signed_evidence_field e)" using p(3) Some by simp
    have e: "sent_evidence (se_Claims e)" using assms(2) Some by (simp add: sent_payload_def a)
    have d: "decode pj (GetMessage (Some (request_message c)) ''evidence'') signed_evidence_fields zero_evidence = Inr e"
      using part_sent [OF assms(3) q signed_evidence_field_def _ signed_evidence_read [OF e]] by simp
    then obtain m where "GetMessage (Some (request_message c)) ''evidence'' = Some m" by (auto simp: decode_def decode_json_def split: option.split_asm)
    then show ?thesis using envelope_bare [OF k(2,3)] restored(6) [OF k(4) a] r d Some
      by (cases a) (simp add: request_command_def ReleasePayout_command_def k(1))
  qed
qed

lemma control_arrives:
  assumes "well_typed SetAccountControl c" and "sent_payload c" and "writes_request pj (request_message c)"
  shows "request_command pj SetAccountControl (Some (request_message c)) = Inr c"
proof -
  obtain a where a: "cm_Control c = Some a" using assms(1) by (auto simp: well_typed_def has_payload_def)
  have k: "cm_Kind c = SetAccountControl" "ID_Valid (cm_BookID c)" "ID_Valid (cm_OperationID c)" "payload_count c = 1"
    using assms(1) by (simp_all add: well_typed_def)
  have p: "payload_fields c = control_body a" by (simp add: payload_fields_def k a)
  have s: "sent_id (ck_ID (sc_Key a))" "wide_ok (sc_DailyCap a)" using assms(2) by (simp_all add: sent_payload_def a)
  from whole_sent [OF assms(3), unfolded p, OF control_read [OF s]]
  show ?thesis using envelope_bare [OF k(2,3)] restored(7) [OF k(4) a]
    by (simp add: request_command_def SetAccountControl_command_def k(1))
qed

section \<open>Property\<close>

text \<open>
  C19. A command arrives as it was sent: the request of \<open>ledger.proto\<close> that carries a well-typed command, whose
  identities, amounts and times have a text of their own and whose expiry is in UTC, is decoded to the same command, if what
  \<open>protojson\<close> writes for the request and its parts is their JSON within the bound, whatever the spacing and the order of
  the members.
\<close>

theorem sent_command_arrives:
  assumes "well_typed k c" and "k \<in> set command_kinds" and "sent_payload c" and "writes_request pj (request_message c)"
  shows "request_command pj k (Some (request_message c)) = Inr c"
  using assms create_arrives transfer_arrives reserve_arrives expose_arrives capture_arrives release_arrives control_arrives
  by (auto simp: command_kinds_def)

lemma x_transfer_typed: "well_typed TransferInternal x_transfer"
  using x_terms_ok by (simp add: well_typed_def x_transfer_def x_command_def payload_count_def has_payload_def fees_ok_def terms_ok_def) code_simp

definition short_message :: "message \<Rightarrow> bool" where
  "short_message m = (plain_json (message_json m) \<and> nesting (message_json m) < 10 \<and> int (length (write_json (message_json m))) < 2000)"

lemma short_writes: "short_message m \<Longrightarrow> writes x_pj m"
  using json_read_written [of "message_json m" "[]"] reordered_refl [of "message_json m"]
  by (simp add: short_message_def writes_def x_pj_def ends_value_def skip_def)

lemma x_request_short: "short_message (request_message x_transfer)"
  by code_simp

lemma x_parts_short: "list_all (\<lambda>(n, f). case f of PMessage (Some x) \<Rightarrow> short_message x | _ \<Rightarrow> True) (message.fields (request_message x_transfer))"
  by code_simp

lemma x_transfer_writes: "writes_request x_pj (request_message x_transfer)"
  unfolding writes_request_def
proof
  show "writes x_pj (request_message x_transfer)" by (rule short_writes [OF x_request_short])
  show "list_all (\<lambda>(n, f). case f of PMessage (Some x) \<Rightarrow> writes x_pj x | _ \<Rightarrow> True) (message.fields (request_message x_transfer))"
    by (rule list.pred_mono_strong [OF x_parts_short]) (auto split: field.split option.split intro: short_writes)
qed

lemma x_payload_sent: "sent_payload x_transfer"
  by code_simp

theorem sent_command_arrives_witness:
  "request_command x_pj TransferInternal (Some (request_message x_transfer)) = Inr x_transfer"
  using sent_command_arrives [OF x_transfer_typed _ x_payload_sent x_transfer_writes] by (simp add: command_kinds_def)

end
