(* ===== verification/Streamed.thy ===== *)
theory Streamed
  imports Served
begin

text \<open>
  The export from end to end: the chunks that are streamed are the artifact cut into pieces, and the artifact is the snapshot
  the verifier of the other service decodes and whose manifest it accepts.
\<close>

section \<open>Chunks\<close>

lemma chunk_data: "sk_Data (chunk_at book moment data dg offset) = take chunk_size (drop offset data)"
  by (auto simp: chunk_at_def Let_def min_def)

text \<open>From the \<open>k\<close>-th chunk on: the chunks are consecutive, and they end where \<open>Send\<close> fails or the data do.\<close>

lemma send_chunks_from:
  assumes "send_chunks sends book moment data dg (k * chunk_size) = (cs, ok)"
  shows "cs = map (\<lambda>i. chunk_at book moment data dg (i * chunk_size)) [k..<k + length cs]
    \<and> (\<forall>i\<in>set [k..<k + length cs]. i * chunk_size < length data) \<and> (ok \<longleftrightarrow> length data \<le> (k + length cs) * chunk_size)"
  using assms
proof (induction "length data - k * chunk_size" arbitrary: k cs ok rule: less_induct)
  case less
  show ?case
  proof (cases "k * chunk_size < length data")
    case False
    then show ?thesis using less.prems by (subst (asm) send_chunks.simps) simp
  next
    case more: True
    have div: "k * chunk_size div chunk_size = k" by (simp add: chunk_size_def)
    have step: "send_chunks sends book moment data dg (k * chunk_size) = (if sends k then
        (let (cs, ok) = send_chunks sends book moment data dg (Suc k * chunk_size) in (chunk_at book moment data dg (k * chunk_size) # cs, ok))
      else ([], False))"
      by (subst send_chunks.simps) (simp add: more div add.commute [of chunk_size])
    show ?thesis
    proof (cases "sends k")
      case False
      then show ?thesis using less.prems more by (auto simp: step)
    next
      case True
      obtain cs' ok' where rest: "send_chunks sends book moment data dg (Suc k * chunk_size) = (cs', ok')" by fastforce
      then have cs: "cs = chunk_at book moment data dg (k * chunk_size) # cs'" "ok = ok'"
        using less.prems True by (simp_all add: step)
      have "length data - Suc k * chunk_size < length data - k * chunk_size" using more by (simp add: chunk_size_def)
      note IH = less.hyps [OF this rest]
      have upt: "[k..<k + length cs] = k # [Suc k..<Suc k + length cs']" using cs(1) by (simp add: upt_conv_Cons del: upt_Suc)
      show ?thesis unfolding upt using IH more cs by simp
    qed
  qed
qed

lemma send_chunks_all: "(\<And>i. sends i) \<Longrightarrow> snd (send_chunks sends book moment data dg offset)"
  by (induction sends book moment data dg offset rule: send_chunks.induct) (subst send_chunks.simps, simp add: case_prod_beta Let_def)

lemma chunks_concat:
  "concat (map (\<lambda>i. take n (drop (i * n) xs)) [k..<k + m]) = take (m * n) (drop (k * n) xs)"
proof (induction m arbitrary: k)
  case (Suc m)
  have "concat (map (\<lambda>i. take n (drop (i * n) xs)) [k..<k + Suc m])
      = take n (drop (k * n) xs) @ concat (map (\<lambda>i. take n (drop (i * n) xs)) [Suc k..<Suc k + m])"
    by (simp add: upt_conv_Cons del: upt_Suc)
  also have "\<dots> = take (Suc m * n) (drop (k * n) xs)"
    unfolding Suc.IH by (simp add: take_add add.commute)
  finally show ?case .
qed simp

text \<open>A stream of the artifact, whatever its length.\<close>

definition stream_of :: "ID \<Rightarrow> string \<Rightarrow> string \<Rightarrow> string \<Rightarrow> chunk list \<Rightarrow> bool" where
  "stream_of book moment data dg cs =
     list_all (\<lambda>(i, ch). sk_SchemaVersion ch = ''1'' \<and> sk_BookId ch = book \<and> sk_Cut ch = moment \<and> unat (sk_Index ch) = i \<and> sk_Sha256 ch = dg
       \<and> sk_Data ch \<noteq> [] \<and> length (sk_Data ch) \<le> chunk_size \<and> (sk_Last ch \<longleftrightarrow> length data \<le> Suc i * chunk_size)) (enumerate 0 cs)"

lemma send_chunks_stream:
  assumes "send_chunks sends book moment data dg 0 = (cs, ok)"
  shows "length data \<le> export_limit \<Longrightarrow> stream_of book moment data dg cs"
    and "concat (map sk_Data cs) = take (length cs * chunk_size) data"
    and "ok \<longleftrightarrow> length data \<le> length cs * chunk_size" 
proof -
  have z: "send_chunks sends book moment data dg (0 * chunk_size) = (cs, ok)" using assms by simp
  note c = send_chunks_from [OF z]
  show "ok \<longleftrightarrow> length data \<le> length cs * chunk_size" using c by simp
  have cs: "cs = map (\<lambda>i. chunk_at book moment data dg (i * chunk_size)) [0..<length cs]" using c by simp
  have "map sk_Data cs = map (\<lambda>i. take chunk_size (drop (i * chunk_size) data)) [0..<length cs]"
    by (subst cs) (simp add: chunk_data)
  then show "concat (map sk_Data cs) = take (length cs * chunk_size) data" using chunks_concat [of chunk_size data 0 "length cs"] by simp
  assume short: "length data \<le> export_limit"
  show "stream_of book moment data dg cs"
    unfolding stream_of_def list_all_iff
  proof (intro ballI, clarify)
    fix i ch
    assume "(i, ch) \<in> set (enumerate 0 cs)"
    then have i: "i < length cs" and ch: "ch = cs ! i" by (simp_all add: in_set_enumerate_eq)
    have at: "ch = chunk_at book moment data dg (i * chunk_size)" using i unfolding ch by (subst cs) simp
    have more: "i * chunk_size < length data" using c i by simp
    then have "i < 256" using short by (simp add: chunk_size_def export_limit_def)
    then have "unat (sk_Index ch) = i" by (simp add: at chunk_at_def Let_def chunk_size_def unat_of_nat)
    then show "sk_SchemaVersion ch = ''1'' \<and> sk_BookId ch = book \<and> sk_Cut ch = moment \<and> unat (sk_Index ch) = i \<and> sk_Sha256 ch = dg
       \<and> sk_Data ch \<noteq> [] \<and> length (sk_Data ch) \<le> chunk_size \<and> (sk_Last ch \<longleftrightarrow> length data \<le> Suc i * chunk_size)"
      using more by (auto simp: at chunk_at_def Let_def min_def chunk_size_def)
  qed
qed

section \<open>Identities are plain text\<close>

lemma hex_decode_plain: "hex_decode s = Some bs \<Longrightarrow> ascii s"
proof (induction s arbitrary: bs rule: hex_decode.induct)
  case (3 a b s)
  then show ?case by (auto simp: ascii_def hex_val_def Let_def split: option.split_asm if_split_asm)
qed (simp_all add: ascii_def)

lemma ParseID_plain:
  assumes "ParseID s = Inr i"
  shows "valid_text i" and "length i = 36" and "i \<noteq> []"
proof -
  have i: "ID_Valid i" "length i = 36" using ParseID_Inr [OF assms] by blast+
  then obtain raw where "hex_decode (filter (\<lambda>c. c \<noteq> CHR ''-'') i) = Some raw"
    by (auto simp: ID_Valid_ParseID ParseID_def split: if_split_asm option.split_asm)
  then have "ascii (filter (\<lambda>c. c \<noteq> CHR ''-'') i)" by (rule hex_decode_plain)
  then have "ascii i" by (induction i) (auto simp: ascii_def split: if_split_asm)
  then show "valid_text i" by (rule valid_text_ascii)
  show "length i = 36" "i \<noteq> []" using i(2) by auto
qed

section \<open>Property\<close>

text \<open>
  C25. A complete export arrives. The chunks carry consecutive indices, at most 64 KiB each, the identity and the digest of the
  artifact, and the flag on the last alone; put together they are a text the verifier decodes, within its bound, to a snapshot
  of the book at the cut that passes every check of the artifact itself: identity, the seventeen tables and no other, counts, digests, and
  every row of the book. It does not matter in which order the tables were read.
\<close>

theorem export_reaches_verifier:
  assumes "ExportLedgerSnapshot S sha256 sends c request db = (cs, Complete)" and "sv_Export S = Export (Store_Snapshot X)"
    and "ParseID (GetString request ''book_id'') = Inr book" and "mset (xp_order X) = mset exportColumns" and "query_law X db book"
    and "\<forall>t. length (xp_sha256 X t) = 32" and "xp_cut X = Some moment" and "moment \<noteq> []" and "valid_text moment" and "length moment \<le> 1000"
    and "vf_canonical V = canonical_text X" and "vf_sha256 V = xp_sha256 X"
  shows "\<exists>s. Decode_snapshot (concat (map sk_Data cs)) = Some s \<and> sn_BookID s = book \<and> sn_Cut s = moment
    \<and> stream_of book moment (concat (map sk_Data cs)) (hex_encode (sha256 (concat (map sk_Data cs)))) cs
    \<and> identity_problems s = [] \<and> length (remdups (map fst (sn_Tables s))) = length required \<and> (\<forall>name\<in>set required. table_problems V s name = [])"
proof -
  note id = ParseID_plain [OF assms(3)]
  have parsed: "parse_id (GetString request ''book_id'') = Inr book" using assms(3) by (simp add: parse_id_def)
  obtain s where s: "Store_Snapshot X db book = Inr s"
    "send_chunks sends book (sn_Cut s) (write_json (snapshot_json s)) (hex_encode (sha256 (write_json (snapshot_json s)))) 0 = (cs, True)"
    using assms(1,2) parsed
    by (auto simp: ExportLedgerSnapshot_def Export_def Let_def split: sum.split_asm if_split_asm prod.split_asm)
  obtain moment' where e: "xp_cut X = Some moment'" "s = exported X db book moment'"
    "(\<Sum>t\<leftarrow>xp_order X. length (exported_rows X db book t)) \<le> 100000" "(\<Sum>t\<leftarrow>xp_order X. rows_weight (exported_rows X db book t)) \<le> 15 * 1048576"
    "\<forall>t\<in>set exportColumns. \<forall>rows e. xp_query X db (export_query (fst t) (snd t)) book = Some (rows, e) \<longrightarrow> None \<notin> set rows"
    by (rule Store_Snapshot_Inr [OF s(1) assms(4)])
  have m: "moment' = moment" using e(1) assms(7) by simp
  have names: "sn_Cut s = moment" "sn_BookID (ordered s) = book" "sn_Cut (ordered s) = moment"
    using e(2) m by (simp_all add: exported_def ordered_def Let_def)
  have short: "length (write_json (snapshot_json s)) \<le> export_limit"
    unfolding e(2) m by (rule exported_length [OF assms(4,6) e(3,4) assms(10) id(2)])
  have "text_snapshot s" unfolding e(2) m by (rule exported_text [OF assms(4,5,9) id(1) e(3,5)])
  note d = Decode_written [OF this short]
  note c = send_chunks_stream [OF s(2)]
  have "concat (map sk_Data cs) = write_json (snapshot_json s)" using c(2,3) by simp
  then show ?thesis using d c(1) [OF short] names exported_manifest_accepted [OF s(1) assms(4,5) id(3) _ assms(11,12)] assms(7,8) by simp
qed

definition x_query :: "db \<Rightarrow> string \<Rightarrow> ID \<Rightarrow> (json list option list \<times> bool) option" where
  "x_query db q book = Some
     (if q = export_query ''books'' [''book_id'', ''entity_id'', ''country'', ''currency'', ''scale'', ''synthetic'', ''default_cap'']
      then [Some [JStr book, JStr x_house, JStr ''KE'', JStr ''KES'', JStr ''2'', JStr ''true'', JStr ''100000'']] else [], True)"

definition x_export :: export_tx where
  "x_export = \<lparr>xp_begins = True, xp_commits = True, xp_cut = Some ''1.0'', xp_query = x_query, xp_canonical = (\<lambda>j. Inr (write_json j)),
     xp_sha256 = (\<lambda>s. replicate 32 (word_of_nat (length s))), xp_order = rev exportColumns\<rparr>"

definition x_exporter :: "db service" where
  "x_exporter = x_service\<lparr>sv_Export := Export (Store_Snapshot x_export)\<rparr>"

definition x_export_request :: "message option" where
  "x_export_request = Some (Message [] [(''book_id'', PString x_book_id)])"

definition x_reader :: caller where
  "x_reader = x_caller\<lparr>cl_Permissions := [(''verify'', True)]\<rparr>"

definition x_verifier :: verifier where
  "x_verifier = \<lparr>vf_canonical = canonical_text x_export, vf_Transform = Some, vf_sha256 = xp_sha256 x_export, vf_zone = (\<lambda>_. 10800), vf_range = (\<lambda>_ ks. ks)\<rparr>"

lemma export_rows_code [code]:
  "export_rows columns [] data totals = Inr (data, totals)"
  "export_rows columns (None # vs) data (n, b) = Inl ErrUnavailable"
  "export_rows columns (Some values # vs) data (n, b) =
     (let row = export_row columns values; b1 = b + length (write_json (row_json row))
      in if int b1 > 15728640 then Inl ErrInvalid
         else if int n + 1 > 100000 then Inl ErrInvalid
         else export_rows columns vs (data @ [row]) (n + 1, b1))"
  by (simp_all add: Let_def)

lemma x_export_runs: "is_ok (Store_Snapshot x_export x_db x_book_id)"
  by code_simp

lemma x_query_law: "query_law x_export x_db x_book_id"
  by code_simp

theorem export_reaches_verifier_witness:
  "\<exists>cs s. ExportLedgerSnapshot x_exporter (xp_sha256 x_export) (\<lambda>_. True) x_reader x_export_request x_db = (cs, Complete)
    \<and> Decode_snapshot (concat (map sk_Data cs)) = Some s \<and> identity_problems s = [] \<and> sn_BookID s = x_book_id"
proof -
  have p: "ParseID (GetString x_export_request ''book_id'') = Inr x_book_id" "valid_text ''1.0''" "ID_Valid x_book_id"
    "Allows x_reader x_book_id ''verify''" "cl_Subjects x_reader = []" by code_simp+
  obtain s where "Store_Snapshot x_export x_db x_book_id = Inr s" using x_export_runs by (auto simp: is_ok_iff)
  then obtain cs where cs: "ExportLedgerSnapshot x_exporter (xp_sha256 x_export) (\<lambda>_. True) x_reader x_export_request x_db = (cs, Complete)"
    using p send_chunks_all [of "\<lambda>_. True"]
    by (simp add: ExportLedgerSnapshot_def parse_id_def x_exporter_def Export_def Let_def case_prod_beta)
  have "sv_Export x_exporter = Export (Store_Snapshot x_export)" "mset (xp_order x_export) = mset exportColumns" "xp_cut x_export = Some ''1.0''"
    "\<forall>t. length (xp_sha256 x_export t) = 32" "vf_canonical x_verifier = canonical_text x_export" "vf_sha256 x_verifier = xp_sha256 x_export"
    by (simp_all add: x_exporter_def x_export_def x_verifier_def)
  with export_reaches_verifier [OF cs _ p(1) _ x_query_law, of "''1.0''" x_verifier] p(2) cs show ?thesis by auto
qed

end
