(* ===== verification/Configuration.thy ===== *)
theory Configuration
  imports Server Publisher
begin

text \<open>
  The configuration of the ledger and of its event transport: \<open>app/config.go\<close> and \<open>internal/platform/eventtransport/tls.go\<close>.
  The file system, certificates, \<open>url.Parse\<close> and the test for a loopback IP are parameters. Every refusal is one and
  the same error.
\<close>

section \<open>What the loader calls\<close>

text \<open>A parsed URL; \<open>ur_User\<close> is the user name of its user information, if it has any.\<close>

record url =
  ur_Scheme :: string
  ur_Host :: string
  ur_Hostname :: string
  ur_User :: "string option"
  ur_Path :: string
  ur_RawPath :: string
  ur_RawQuery :: string
  ur_Fragment :: string
  ur_Query :: "(string \<times> string list) list"

text \<open>
  \<open>fs_key_pair\<close> gives for a certificate and a key file that belong together the certificate's validity, \<open>None\<close> within if it
  does not parse; \<open>fs_roots\<close> tells whether a file has certificates; \<open>fs_resolve\<close> is a file name relative to the configuration.
\<close>

record machine =
  fs_read :: "string \<Rightarrow> string option"
  fs_resolve :: "string \<Rightarrow> string \<Rightarrow> string"
  fs_key_pair :: "string \<Rightarrow> string \<Rightarrow> (time \<times> time) option option"
  fs_roots :: "string \<Rightarrow> bool"
  fs_now :: time
  fs_url :: "string \<Rightarrow> url option"
  fs_loopback :: "string \<Rightarrow> bool"

section \<open>Addresses\<close>

text \<open>\<open>net.SplitHostPort\<close>: the port starts after the last colon; a host in brackets ends just before it.\<close>

definition SplitHostPort :: "string \<Rightarrow> (string \<times> string) option" where
  "SplitHostPort s =
     (if CHR '':'' \<notin> set s then None
      else
        let port = rev (takeWhile (\<lambda>c. c \<noteq> CHR '':'') (rev s)); front = take (length s - length port - 1) s
        in if s \<noteq> [] \<and> hd s = CHR ''['' then
             (let host = takeWhile (\<lambda>c. c \<noteq> CHR '']'') (tl s)
              in if CHR ''['' # host @ '']'' = front \<and> CHR ''['' \<notin> set host \<and> CHR ''['' \<notin> set port \<and> CHR '']'' \<notin> set port
                 then Some (host, port) else None)
           else if CHR '':'' \<in> set front \<or> CHR ''['' \<in> set s \<or> CHR '']'' \<in> set s then None
           else Some (front, port))"

definition LoopbackAddress :: "machine \<Rightarrow> string \<Rightarrow> bool" where
  "LoopbackAddress F address =
     (case SplitHostPort address of None \<Rightarrow> False
      | Some (host, port) \<Rightarrow> (case parse_int64 port of None \<Rightarrow> False
        | Some n \<Rightarrow> sint n > 0 \<and> sint n \<le> 65535 \<and> fs_loopback F host))"

definition Endpoint :: "machine \<Rightarrow> string \<Rightarrow> string \<Rightarrow> bool" where
  "Endpoint F raw path =
     (case fs_url F raw of None \<Rightarrow> False
      | Some u \<Rightarrow> ur_Scheme u = ''https'' \<and> ur_User u = None \<and> ur_RawQuery u = [] \<and> ur_Fragment u = [] \<and> ur_Path u = path \<and> ur_RawPath u = []
          \<and> LoopbackAddress F (ur_Host u))"

definition ValidIdentity :: "machine \<Rightarrow> string \<Rightarrow> bool" where
  "ValidIdentity F identity =
     (case fs_url F identity of None \<Rightarrow> False
      | Some u \<Rightarrow> ur_Scheme u = ''spiffe'' \<and> ur_Host u \<noteq> [] \<and> ur_User u = None \<and> ur_Path u \<noteq> [] \<and> ur_RawQuery u = [] \<and> ur_Fragment u = []
          \<and> CHR ''%'' \<notin> set identity)"

definition runtimeURL :: "machine \<Rightarrow> string \<Rightarrow> bool" where
  "runtimeURL F dsn =
     (case fs_url F dsn of None \<Rightarrow> False
      | Some u \<Rightarrow> ur_Scheme u = ''postgresql'' \<and> ur_User u = Some ''ledger_runtime'' \<and> ur_Path u = ''/pesaro_ledger'' \<and> ur_Host u \<noteq> []
          \<and> ur_Fragment u = [] \<and> (case map_of (ur_Query u) ''sslmode'' of Some (v # _) \<Rightarrow> v = ''verify-full'' | _ \<Rightarrow> False)
          \<and> list_all (\<lambda>(key, values). key \<in> set [''sslmode'', ''sslrootcert'', ''sslcert'', ''sslkey''] \<and> length values = 1) (ur_Query u))"

section \<open>Transport security\<close>

record tls_files =
  tf_Certificate :: string
  tf_Key :: string
  tf_CA :: string

text \<open>\<open>VerifyConnection\<close> admits the one peer of a configuration.\<close>

record peer_tls =
  pt_Config :: tls_config
  pt_Peer :: string

definition certificate_valid :: "machine \<Rightarrow> string \<Rightarrow> string \<Rightarrow> bool" where
  "certificate_valid F cert key =
     (case fs_key_pair F cert key of
        Some (Some (not_before, not_after)) \<Rightarrow> \<not> Before (fs_now F) not_before \<and> Before (fs_now F) not_after
      | _ \<Rightarrow> False)"

definition LoadTLS :: "machine \<Rightarrow> string \<Rightarrow> tls_files \<Rightarrow> bool \<Rightarrow> string \<Rightarrow> peer_tls result" where
  "LoadTLS F path files server peer =
     (if tf_Certificate files = [] \<or> tf_Key files = [] \<or> tf_CA files = [] \<or> \<not> ValidIdentity F peer then Inl ErrConfig
      else if \<not> certificate_valid F (fs_resolve F path (tf_Certificate files)) (fs_resolve F path (tf_Key files)) then Inl ErrConfig
      else if \<not> fs_roots F (fs_resolve F path (tf_CA files)) then Inl ErrConfig
      else Inr \<lparr>pt_Config = \<lparr>tc_MinVersion = VersionTLS13, tc_RequiresVerifiedClient = server, tc_HasClientCAs = server\<rparr>, pt_Peer = peer\<rparr>)"

section \<open>The file\<close>

record outbox_config =
  oc_Endpoint :: string
  oc_ConsumerIdentity :: string
  oc_TLS :: tls_files
  oc_Options :: options

record caller_rule =
  ru_Identity :: string
  ru_Books :: "string list"
  ru_Permissions :: "string list"
  ru_Subjects :: "string list"
  ru_AllSubjects :: bool

record ledger_config =
  lc_Mode :: string
  lc_GRPCAddress :: string
  lc_HTTPAddress :: string
  lc_TLS :: tls_files
  lc_Callers :: "caller_rule list"
  lc_GrantKeys :: "(string \<times> string) list"
  lc_EvidenceKeys :: "(string \<times> string) list"
  lc_Outbox :: "outbox_config option"

text \<open>
  \<open>DisallowUnknownFields\<close>, and the members a configuration has beside those of a request: integers, lists, maps and pointers.
  A list that is given twice is decoded over the elements it has.
\<close>

definition strict_struct :: "(string \<times> 'r put) list \<Rightarrow> json \<Rightarrow> 'r \<Rightarrow> 'r option" where
  "strict_struct fs v r =
     (case v of JObj kvs \<Rightarrow> if list_all (\<lambda>(k, _). field_for (map fst fs) k \<noteq> None) kvs then into_struct fs v r else None | _ \<Rightarrow> into_struct fs v r)"

definition strict_member :: "(string \<times> 's put) list \<Rightarrow> ('r \<Rightarrow> 's) \<Rightarrow> ('s \<Rightarrow> 'r \<Rightarrow> 'r) \<Rightarrow> 'r put" where
  "strict_member fs get set_it v r = map_option (\<lambda>x. set_it x r) (strict_struct fs v (get r))"

definition number_member :: "(int64 \<Rightarrow> 'r \<Rightarrow> 'r) \<Rightarrow> 'r put" where
  "number_member set_it v r = (case v of JNull \<Rightarrow> Some r | JNum n \<Rightarrow> map_option (\<lambda>x. set_it x r) (parse_int64 n) | _ \<Rightarrow> None)"

fun decode_elements :: "'e put \<Rightarrow> 'e \<Rightarrow> 'e list \<Rightarrow> json list \<Rightarrow> 'e list option" where
  "decode_elements elem zero old [] = Some []"
| "decode_elements elem zero old (v # vs) =
     Option.bind (elem v (case old of [] \<Rightarrow> zero | x # _ \<Rightarrow> x)) (\<lambda>x. map_option ((#) x) (decode_elements elem zero (tl old) vs))"

definition list_member :: "'e put \<Rightarrow> 'e \<Rightarrow> ('r \<Rightarrow> 'e list) \<Rightarrow> ('e list \<Rightarrow> 'r \<Rightarrow> 'r) \<Rightarrow> 'r put" where
  "list_member elem zero get set_it v r =
     (case v of JNull \<Rightarrow> Some (set_it [] r) | JArr vs \<Rightarrow> map_option (\<lambda>xs. set_it xs r) (decode_elements elem zero (get r) vs) | _ \<Rightarrow> None)"

fun decode_entries :: "(string \<times> json) list \<Rightarrow> (string \<times> string) list \<Rightarrow> (string \<times> string) list option" where
  "decode_entries [] m = Some m"
| "decode_entries ((k, v) # kvs) m = Option.bind (string_member (\<lambda>x _. x) v []) (\<lambda>s. decode_entries kvs (AList.update k s m))"

definition texts_member :: "('r \<Rightarrow> (string \<times> string) list) \<Rightarrow> ((string \<times> string) list \<Rightarrow> 'r \<Rightarrow> 'r) \<Rightarrow> 'r put" where
  "texts_member get set_it v r =
     (case v of JNull \<Rightarrow> Some (set_it [] r) | JObj kvs \<Rightarrow> map_option (\<lambda>m. set_it m r) (decode_entries kvs (get r)) | _ \<Rightarrow> None)"

definition pointer_member :: "(string \<times> 's put) list \<Rightarrow> 's \<Rightarrow> ('r \<Rightarrow> 's option) \<Rightarrow> ('s option \<Rightarrow> 'r \<Rightarrow> 'r) \<Rightarrow> 'r put" where
  "pointer_member fs zero get set_it v r =
     (case v of JNull \<Rightarrow> Some (set_it None r)
      | _ \<Rightarrow> map_option (\<lambda>x. set_it (Some x) r) (strict_struct fs v (case get r of None \<Rightarrow> zero | Some x \<Rightarrow> x)))"

definition zero_files :: tls_files where "zero_files = \<lparr>tf_Certificate = [], tf_Key = [], tf_CA = []\<rparr>"

definition zero_rule :: caller_rule where
  "zero_rule = \<lparr>ru_Identity = [], ru_Books = [], ru_Permissions = [], ru_Subjects = [], ru_AllSubjects = False\<rparr>"

definition zero_outbox :: outbox_config where
  "zero_outbox = \<lparr>oc_Endpoint = [], oc_ConsumerIdentity = [], oc_TLS = zero_files,
     oc_Options = \<lparr>opt_PollMS = 0, opt_LeaseMS = 0, opt_TimeoutMS = 0\<rparr>\<rparr>"

definition zero_ledger_config :: ledger_config where
  "zero_ledger_config = \<lparr>lc_Mode = [], lc_GRPCAddress = [], lc_HTTPAddress = [], lc_TLS = zero_files, lc_Callers = [], lc_GrantKeys = [],
     lc_EvidenceKeys = [], lc_Outbox = None\<rparr>"

definition files_fields :: "string \<Rightarrow> (string \<times> tls_files put) list" where
  "files_fields ca =
     [(''certificate'', string_member (\<lambda>x f. f\<lparr>tf_Certificate := x\<rparr>)), (''key'', string_member (\<lambda>x f. f\<lparr>tf_Key := x\<rparr>)),
      (ca, string_member (\<lambda>x f. f\<lparr>tf_CA := x\<rparr>))]"

definition options_fields :: "(string \<times> options put) list" where
  "options_fields =
     [(''poll_ms'', number_member (\<lambda>x p. p\<lparr>opt_PollMS := x\<rparr>)), (''lease_ms'', number_member (\<lambda>x p. p\<lparr>opt_LeaseMS := x\<rparr>)),
      (''timeout_ms'', number_member (\<lambda>x p. p\<lparr>opt_TimeoutMS := x\<rparr>))]"

definition outbox_fields :: "(string \<times> outbox_config put) list" where
  "outbox_fields =
     [(''endpoint'', string_member (\<lambda>x b. b\<lparr>oc_Endpoint := x\<rparr>)), (''consumer_identity'', string_member (\<lambda>x b. b\<lparr>oc_ConsumerIdentity := x\<rparr>)),
      (''tls'', strict_member (files_fields ''ca'') oc_TLS (\<lambda>x b. b\<lparr>oc_TLS := x\<rparr>)),
      (''worker'', strict_member options_fields oc_Options (\<lambda>x b. b\<lparr>oc_Options := x\<rparr>))]"

definition text_element :: "string put" where "text_element = string_member (\<lambda>x _. x)"

definition rule_fields :: "(string \<times> caller_rule put) list" where
  "rule_fields =
     [(''identity'', string_member (\<lambda>x u. u\<lparr>ru_Identity := x\<rparr>)), (''books'', list_member text_element [] ru_Books (\<lambda>x u. u\<lparr>ru_Books := x\<rparr>)),
      (''permissions'', list_member text_element [] ru_Permissions (\<lambda>x u. u\<lparr>ru_Permissions := x\<rparr>)),
      (''subjects'', list_member text_element [] ru_Subjects (\<lambda>x u. u\<lparr>ru_Subjects := x\<rparr>)),
      (''all_subjects'', bool_member (\<lambda>x u. u\<lparr>ru_AllSubjects := x\<rparr>))]"

definition config_fields :: "(string \<times> ledger_config put) list" where
  "config_fields =
     [(''mode'', string_member (\<lambda>x c. c\<lparr>lc_Mode := x\<rparr>)), (''grpc_address'', string_member (\<lambda>x c. c\<lparr>lc_GRPCAddress := x\<rparr>)),
      (''http_address'', string_member (\<lambda>x c. c\<lparr>lc_HTTPAddress := x\<rparr>)),
      (''tls'', strict_member (files_fields ''client_ca'') lc_TLS (\<lambda>x c. c\<lparr>lc_TLS := x\<rparr>)),
      (''callers'', list_member (strict_struct rule_fields) zero_rule lc_Callers (\<lambda>x c. c\<lparr>lc_Callers := x\<rparr>)),
      (''grant_keys'', texts_member lc_GrantKeys (\<lambda>x c. c\<lparr>lc_GrantKeys := x\<rparr>)),
      (''evidence_keys'', texts_member lc_EvidenceKeys (\<lambda>x c. c\<lparr>lc_EvidenceKeys := x\<rparr>)),
      (''outbox'', pointer_member outbox_fields zero_outbox lc_Outbox (\<lambda>x c. c\<lparr>lc_Outbox := x\<rparr>))]"

text \<open>One value and nothing after it, in 64 KiB at most.\<close>

definition config_value :: "machine \<Rightarrow> string \<Rightarrow> json result" where
  "config_value F path =
     (case fs_read F path of None \<Rightarrow> Inl ErrConfig
      | Some data \<Rightarrow>
          if length data > 65536 then Inl ErrConfig
          else case json_read data of None \<Rightarrow> Inl ErrConfig | Some (v, rest) \<Rightarrow> if skip rest = [] then Inr v else Inl ErrConfig)"

section \<open>Rules\<close>

definition allowed_permissions :: "string list" where
  "allowed_permissions = [''spend'', ''resolve'', ''control'', ''provision'', ''read'', ''verify'']"

fun distinct_ids :: "string list \<Rightarrow> (ID \<times> bool) list \<Rightarrow> (ID \<times> bool) list result" where
  "distinct_ids [] ids = Inr ids"
| "distinct_ids (v # vs) ids =
     (case ParseID v of Inl _ \<Rightarrow> Inl ErrConfig
      | Inr i \<Rightarrow> if map_of ids i = Some True then Inl ErrConfig else distinct_ids vs (ids @ [(i, True)]))"

fun distinct_permissions :: "string list \<Rightarrow> (string \<times> bool) list \<Rightarrow> (string \<times> bool) list result" where
  "distinct_permissions [] ps = Inr ps"
| "distinct_permissions (p # rest) ps =
     (if p \<notin> set allowed_permissions \<or> map_of ps p = Some True then Inl ErrConfig else distinct_permissions rest (ps @ [(p, True)]))"

definition rule_caller :: "machine \<Rightarrow> (string \<rightharpoonup> caller) \<Rightarrow> caller_rule \<Rightarrow> caller result" where
  "rule_caller F rules rule =
     (if \<not> ValidIdentity F (ru_Identity rule) then Inl ErrConfig
      else if rules (ru_Identity rule) \<noteq> None then Inl ErrConfig
      else if ru_Books rule = [] \<or> ru_Permissions rule = [] \<or> ru_AllSubjects rule = (length (ru_Subjects rule) > 0) then Inl ErrConfig
      else res_bind (distinct_ids (ru_Books rule) []) (\<lambda>books.
        res_bind (distinct_permissions (ru_Permissions rule) []) (\<lambda>permissions.
          if map_of permissions ''verify'' = Some True \<and> \<not> ru_AllSubjects rule then Inl ErrConfig
          else res_bind (distinct_ids (ru_Subjects rule) []) (\<lambda>subjects.
            Inr \<lparr>cl_Identity = ru_Identity rule, cl_Books = books, cl_Permissions = permissions, cl_Subjects = subjects\<rparr>))))"

text \<open>The books of all callers are a set; a range over it has no order.\<close>

fun caller_rules :: "machine \<Rightarrow> caller_rule list \<Rightarrow> (string \<rightharpoonup> caller) \<times> ID list \<Rightarrow> ((string \<rightharpoonup> caller) \<times> ID list) result" where
  "caller_rules F [] acc = Inr acc"
| "caller_rules F (rule # rest) (rules, books) =
     res_bind (rule_caller F rules rule) (\<lambda>c. caller_rules F rest (rules(ru_Identity rule \<mapsto> c), remdups (books @ map fst (cl_Books c))))"

fun decode_keys :: "(string \<times> string) list \<Rightarrow> (string \<rightharpoonup> bytes) \<Rightarrow> (string \<rightharpoonup> bytes) result" where
  "decode_keys [] m = Inr m"
| "decode_keys ((issuer, value) # rest) m =
     (case b64_decode value of None \<Rightarrow> Inl ErrConfig
      | Some key \<Rightarrow> if length key \<noteq> 32 \<or> length issuer = 0 \<or> length issuer > 64 then Inl ErrConfig else decode_keys rest (m(issuer \<mapsto> key)))"

definition config_keys :: "(string \<times> string) list \<Rightarrow> (string \<rightharpoonup> bytes) result" where
  "config_keys encoded = (if length encoded = 0 \<or> length encoded > 32 then Inl ErrConfig else decode_keys encoded Map.empty)"

section \<open>The configuration\<close>

record prepared_config =
  pc_Config :: ledger_config
  pc_tls :: tls_config
  pc_rules :: "string \<rightharpoonup> caller"
  pc_trust :: trust
  pc_books :: "ID list"
  pc_outboxTLS :: "peer_tls option"

definition config_addresses :: "machine \<Rightarrow> ledger_config \<Rightarrow> ledger_config result" where
  "config_addresses F c =
     (if lc_Mode c \<noteq> ''synthetic'' then Inl ErrConfig
      else
        let c1 = (if lc_GRPCAddress c = [] then c\<lparr>lc_GRPCAddress := ''127.0.0.1:9105''\<rparr> else c);
            c2 = (if lc_HTTPAddress c1 = [] then c1\<lparr>lc_HTTPAddress := ''127.0.0.1:8105''\<rparr> else c1)
        in if \<not> LoopbackAddress F (lc_GRPCAddress c2) \<or> \<not> LoopbackAddress F (lc_HTTPAddress c2) \<or> lc_GRPCAddress c2 = lc_HTTPAddress c2
           then Inl ErrConfig else Inr c2)"

definition config_outbox :: "machine \<Rightarrow> string \<Rightarrow> outbox_config option \<Rightarrow> (outbox_config option \<times> peer_tls option) result" where
  "config_outbox F path outbox =
     (case outbox of None \<Rightarrow> Inr (None, None)
      | Some b \<Rightarrow>
          if \<not> Endpoint F (oc_Endpoint b) EventPath then Inl ErrConfig
          else (case Options_Defaults (oc_Options b) of Inl _ \<Rightarrow> Inl ErrConfig
            | Inr opts \<Rightarrow> (case LoadTLS F path (oc_TLS b) False (oc_ConsumerIdentity b) of Inl _ \<Rightarrow> Inl ErrConfig
              | Inr t \<Rightarrow> Inr (Some (b\<lparr>oc_Options := opts\<rparr>), Some t))))"

text \<open>What becomes of the decoded value, in the order of the code.\<close>

definition prepare_config :: "machine \<Rightarrow> string \<Rightarrow> json \<Rightarrow> prepared_config result" where
  "prepare_config F path v =
     (case strict_struct config_fields v zero_ledger_config of None \<Rightarrow> Inl ErrConfig | Some c0 \<Rightarrow>
     res_bind (config_addresses F c0) (\<lambda>c.
     if length (lc_Callers c) = 0 \<or> length (lc_Callers c) > 128 then Inl ErrConfig
     else res_bind (caller_rules F (lc_Callers c) (Map.empty, [])) (\<lambda>(rules, books).
     res_bind (config_keys (lc_GrantKeys c)) (\<lambda>grants. res_bind (config_keys (lc_EvidenceKeys c)) (\<lambda>evidence.
     if \<not> certificate_valid F (fs_resolve F path (tf_Certificate (lc_TLS c))) (fs_resolve F path (tf_Key (lc_TLS c))) then Inl ErrConfig
     else if \<not> fs_roots F (fs_resolve F path (tf_CA (lc_TLS c))) then Inl ErrConfig
     else res_bind (config_outbox F path (lc_Outbox c)) (\<lambda>(outbox, security).
       Inr \<lparr>pc_Config = c\<lparr>lc_Outbox := outbox\<rparr>,
            pc_tls = \<lparr>tc_MinVersion = VersionTLS13, tc_RequiresVerifiedClient = True, tc_HasClientCAs = True\<rparr>, pc_rules = rules,
            pc_trust = \<lparr>ts_GrantKeys = grants, ts_EvidenceKeys = evidence\<rparr>, pc_books = books, pc_outboxTLS = security\<rparr>))))))"

definition loadConfig :: "machine \<Rightarrow> string \<Rightarrow> prepared_config result" where
  "loadConfig F path = res_bind (config_value F path) (prepare_config F path)"

section \<open>The configuration of Reconciliation\<close>

record event_settings =
  es_Mode :: string
  es_Address :: string
  es_ProducerIdentity :: string
  es_Books :: "string list"
  es_TLS :: tls_files

definition event_settings_fields :: "(string \<times> event_settings put) list" where
  "event_settings_fields =
     [(''mode'', string_member (\<lambda>x c. c\<lparr>es_Mode := x\<rparr>)), (''address'', string_member (\<lambda>x c. c\<lparr>es_Address := x\<rparr>)),
      (''producer_identity'', string_member (\<lambda>x c. c\<lparr>es_ProducerIdentity := x\<rparr>)),
      (''books'', list_member text_element [] es_Books (\<lambda>x c. c\<lparr>es_Books := x\<rparr>)),
      (''tls'', strict_member (files_fields ''ca'') es_TLS (\<lambda>x c. c\<lparr>es_TLS := x\<rparr>))]"

definition load_event_config :: "machine \<Rightarrow> string \<Rightarrow> (event_settings \<times> peer_tls) result" where
  "load_event_config F path =
     res_bind (config_value F path) (\<lambda>v.
     case strict_struct event_settings_fields v
         \<lparr>es_Mode = [], es_Address = [], es_ProducerIdentity = [], es_Books = [], es_TLS = zero_files\<rparr> of
       None \<Rightarrow> Inl ErrConfig
     | Some c \<Rightarrow>
         if es_Mode c \<noteq> ''synthetic'' \<or> \<not> LoopbackAddress F (es_Address c) \<or> length (es_Books c) = 0 \<or> length (es_Books c) > 128 then Inl ErrConfig
         else if \<not> list_all ValidID (es_Books c) \<or> \<not> distinct (es_Books c) then Inl ErrConfig
         else res_bind (LoadTLS F path (es_TLS c) True (es_ProducerIdentity c)) (\<lambda>t. Inr (c, t)))"

section \<open>What a loaded configuration guarantees\<close>

definition ids_ok :: "(ID \<times> bool) list \<Rightarrow> bool" where
  "ids_ok ids = (distinct (map fst ids) \<and> list_all (\<lambda>(i, b). ID_Valid i \<and> b) ids)"

lemma distinct_ids_Inr: "distinct_ids vs ids = Inr r \<Longrightarrow> ids_ok ids \<Longrightarrow> ids_ok r \<and> length r = length ids + length vs"
proof (induction vs arbitrary: ids)
  case (Cons v vs)
  obtain i where i: "ParseID v = Inr i" "map_of ids i \<noteq> Some True" "distinct_ids vs (ids @ [(i, True)]) = Inr r"
    using Cons.prems(1) by (auto split: sum.split_asm if_split_asm)
  have "i \<notin> fst ` set ids"
  proof
    assume "i \<in> fst ` set ids"
    then obtain b where b: "map_of ids i = Some b" by (metis map_of_eq_None_iff option.exhaust)
    then have "b" using Cons.prems(2) by (auto simp: ids_ok_def list_all_iff dest: map_of_SomeD)
    then show False using b i(2) by simp
  qed
  moreover have "ID_Valid i" using ParseID_Inr [OF i(1)] by blast
  ultimately have "ids_ok (ids @ [(i, True)])" using Cons.prems(2) by (simp add: ids_ok_def)
  then show ?case using Cons.IH [OF i(3)] by simp
qed simp

definition permissions_ok :: "(string \<times> bool) list \<Rightarrow> bool" where
  "permissions_ok ps = list_all (\<lambda>(p, b). p \<in> set allowed_permissions \<and> b) ps"

lemma distinct_permissions_Inr:
  "distinct_permissions qs ps = Inr r \<Longrightarrow> permissions_ok ps \<Longrightarrow> permissions_ok r \<and> length r = length ps + length qs"
  by (induction qs arbitrary: ps) (force simp: permissions_ok_def split: if_split_asm)+

text \<open>
  A caller is scoped: a workload identity, at least one book and one permission, identities in canonical form, known
  permissions only, and to verify it may not be limited to subjects.
\<close>

definition scoped_caller :: "machine \<Rightarrow> string \<Rightarrow> caller \<Rightarrow> bool" where
  "scoped_caller F identity c =
     (ValidIdentity F identity \<and> cl_Identity c = identity \<and> cl_Books c \<noteq> [] \<and> ids_ok (cl_Books c) \<and> cl_Permissions c \<noteq> []
    \<and> permissions_ok (cl_Permissions c) \<and> ids_ok (cl_Subjects c) \<and> (map_of (cl_Permissions c) ''verify'' = Some True \<longrightarrow> cl_Subjects c = []))"

lemma rule_caller_Inr:
  assumes "rule_caller F rules rule = Inr c"
  shows "scoped_caller F (ru_Identity rule) c" and "rules (ru_Identity rule) = None" and "ru_AllSubjects rule \<longleftrightarrow> cl_Subjects c = []"
proof -
  obtain books ps subjects where r: "ValidIdentity F (ru_Identity rule)" "rules (ru_Identity rule) = None" "ru_Books rule \<noteq> []" "ru_Permissions rule \<noteq> []"
    "ru_AllSubjects rule \<noteq> (length (ru_Subjects rule) > 0)" "distinct_ids (ru_Books rule) [] = Inr books"
    "distinct_permissions (ru_Permissions rule) [] = Inr ps" "\<not> (map_of ps ''verify'' = Some True \<and> \<not> ru_AllSubjects rule)"
    "distinct_ids (ru_Subjects rule) [] = Inr subjects"
    "c = \<lparr>cl_Identity = ru_Identity rule, cl_Books = books, cl_Permissions = ps, cl_Subjects = subjects\<rparr>"
    using assms by (auto simp: rule_caller_def split: if_split_asm)
  have e: "ids_ok []" "permissions_ok []" by (simp_all add: ids_ok_def permissions_ok_def)
  note d = distinct_ids_Inr [OF r(6) e(1)] distinct_permissions_Inr [OF r(7) e(2)] distinct_ids_Inr [OF r(9) e(1)]
  have s: "subjects = [] \<longleftrightarrow> ru_AllSubjects rule" using d(3) r(5) by auto
  then show "ru_AllSubjects rule \<longleftrightarrow> cl_Subjects c = []" using r(10) by simp
  show "rules (ru_Identity rule) = None" by (rule r(2))
  show "scoped_caller F (ru_Identity rule) c" using r d s by (auto simp: scoped_caller_def)
qed

text \<open>The rules and the set of their books.\<close>

definition rules_ok :: "machine \<Rightarrow> (string \<rightharpoonup> caller) \<Rightarrow> ID list \<Rightarrow> bool" where
  "rules_ok F rules books =
     ((\<forall>i c. rules i = Some c \<longrightarrow> scoped_caller F i c) \<and> set books = (\<Union>c\<in>ran rules. fst ` set (cl_Books c)))"

lemma rules_ok_add:
  assumes "rules_ok F rules books" and "scoped_caller F i c" and "rules i = None"
  shows "rules_ok F (rules(i \<mapsto> c)) (remdups (books @ map fst (cl_Books c)))"
  using assms by (simp add: rules_ok_def ran_map_upd Un_commute)

lemma caller_rules_Inr:
  assumes "caller_rules F us (rules, books) = Inr (rules', books')" and "rules_ok F rules books"
  shows "rules_ok F rules' books' \<and> (us \<noteq> [] \<longrightarrow> rules' \<noteq> Map.empty) \<and> (rules \<noteq> Map.empty \<longrightarrow> rules' \<noteq> Map.empty)"
  using assms
proof (induction us arbitrary: rules books)
  case (Cons u us)
  obtain c where c: "rule_caller F rules u = Inr c"
    "caller_rules F us (rules(ru_Identity u \<mapsto> c), remdups (books @ map fst (cl_Books c))) = Inr (rules', books')"
    using Cons.prems(1) by auto
  note r = rule_caller_Inr [OF c(1)]
  have "rules(ru_Identity u \<mapsto> c) \<noteq> Map.empty" by (rule map_upd_nonempty)
  then show ?case using Cons.IH [OF c(2) rules_ok_add [OF Cons.prems(2) r(1,2)]] by blast
qed simp

definition keys_ok :: "(string \<rightharpoonup> bytes) \<Rightarrow> bool" where
  "keys_ok m = (\<forall>i k. m i = Some k \<longrightarrow> length k = 32 \<and> 0 < length i \<and> length i \<le> 64)"

lemma keys_ok_add: "keys_ok m \<Longrightarrow> length k = 32 \<Longrightarrow> 0 < length i \<Longrightarrow> length i \<le> 64 \<Longrightarrow> keys_ok (m(i \<mapsto> k))"
  by (simp add: keys_ok_def)

lemma decode_keys_Inr: "decode_keys encoded m = Inr m' \<Longrightarrow> keys_ok m \<Longrightarrow> keys_ok m'"
  by (induction encoded m rule: decode_keys.induct) (simp_all add: keys_ok_add split: option.split_asm if_split_asm)

lemma config_keys_Inr: "config_keys encoded = Inr m \<Longrightarrow> keys_ok m"
  by (rule decode_keys_Inr [of encoded Map.empty]) (simp_all add: config_keys_def keys_ok_def split: if_split_asm)

lemma options_stable: "Options_Defaults opts = Inr o2 \<Longrightarrow> Options_Defaults o2 = Inr o2"
  unfolding Options_Defaults_def Let_def by (auto split: if_split_asm)

lemma config_addresses_Inr:
  assumes "config_addresses F c = Inr c'"
  shows "lc_Mode c' = ''synthetic''" and "LoopbackAddress F (lc_GRPCAddress c')" and "LoopbackAddress F (lc_HTTPAddress c')"
    and "lc_GRPCAddress c' \<noteq> lc_HTTPAddress c'" and "lc_Callers c' = lc_Callers c"
  using assms by (auto simp: config_addresses_def Let_def split: if_split_asm)

lemma config_outbox_Inr:
  assumes "config_outbox F path outbox = Inr (b', t')"
  shows "case b' of None \<Rightarrow> t' = None | Some b \<Rightarrow> Endpoint F (oc_Endpoint b) EventPath \<and> Options_Defaults (oc_Options b) = Inr (oc_Options b)
    \<and> (\<exists>t. t' = Some t \<and> pt_Peer t = oc_ConsumerIdentity b \<and> ValidIdentity F (pt_Peer t))"
proof (cases outbox)
  case None
  then show ?thesis using assms by (simp add: config_outbox_def)
next
  case (Some b)
  then obtain opts t where o: "Endpoint F (oc_Endpoint b) EventPath" "Options_Defaults (oc_Options b) = Inr opts"
    "LoadTLS F path (oc_TLS b) False (oc_ConsumerIdentity b) = Inr t" "b' = Some (b\<lparr>oc_Options := opts\<rparr>)" "t' = Some t"
    using assms by (auto simp: config_outbox_def split: if_split_asm sum.split_asm)
  then show ?thesis using options_stable [OF o(2)] by (auto simp: LoadTLS_def split: if_split_asm)
qed

lemma loadConfig_Inr:
  assumes "loadConfig F path = Inr p"
  obtains c0 c outbox security rules books grants evidence where "config_addresses F c0 = Inr c" and "lc_Callers c \<noteq> []"
    and "caller_rules F (lc_Callers c) (Map.empty, []) = Inr (rules, books)" and "config_keys (lc_GrantKeys c) = Inr grants"
    and "config_keys (lc_EvidenceKeys c) = Inr evidence" and "config_outbox F path (lc_Outbox c) = Inr (outbox, security)"
    and "p = \<lparr>pc_Config = c\<lparr>lc_Outbox := outbox\<rparr>,
            pc_tls = \<lparr>tc_MinVersion = VersionTLS13, tc_RequiresVerifiedClient = True, tc_HasClientCAs = True\<rparr>, pc_rules = rules,
            pc_trust = \<lparr>ts_GrantKeys = grants, ts_EvidenceKeys = evidence\<rparr>, pc_books = books, pc_outboxTLS = security\<rparr>"
proof -
  obtain v where "prepare_config F path v = Inr p" using assms by (auto simp: loadConfig_def)
  then show ?thesis unfolding prepare_config_def
    by (auto split: option.split_asm if_split_asm prod.split_asm intro: that)
qed

section \<open>Property\<close>

text \<open>
  C28. A configuration that is loaded is safe to serve: synthetic mode on two different loopback listeners; at least one caller, each with a
  workload identity, books and permissions of its own, in canonical form and known, and verification only without a limit to subjects; the
  books are those of the callers; public keys of 32 bytes for issuers with a name; TLS settings the server accepts; an outbox, if there is one,
  with a loopback endpoint, options that are final, and the one peer its identity names. So whoever is authenticated is a scoped caller.
\<close>

theorem loaded_config_scoped:
  assumes "loadConfig F path = Inr p"
  shows "lc_Mode (pc_Config p) = ''synthetic'' \<and> LoopbackAddress F (lc_GRPCAddress (pc_Config p)) \<and> LoopbackAddress F (lc_HTTPAddress (pc_Config p))
    \<and> lc_GRPCAddress (pc_Config p) \<noteq> lc_HTTPAddress (pc_Config p) \<and> pc_rules p \<noteq> Map.empty \<and> rules_ok F (pc_rules p) (pc_books p)
    \<and> keys_ok (ts_GrantKeys (pc_trust p)) \<and> keys_ok (ts_EvidenceKeys (pc_trust p)) \<and> is_ok (NewGRPC S (Some (pc_tls p)) (pc_rules p))
    \<and> (\<forall>peer c. authenticate (NewAuthenticator (pc_rules p)) peer = Inr c \<longrightarrow> scoped_caller F (cl_Identity c) c)
    \<and> (case lc_Outbox (pc_Config p) of None \<Rightarrow> pc_outboxTLS p = None
       | Some b \<Rightarrow> Endpoint F (oc_Endpoint b) EventPath \<and> Options_Defaults (oc_Options b) = Inr (oc_Options b)
           \<and> (\<exists>t. pc_outboxTLS p = Some t \<and> pt_Peer t = oc_ConsumerIdentity b \<and> ValidIdentity F (pt_Peer t)))"
proof -
  obtain c0 c outbox security rules books grants evidence where a: "config_addresses F c0 = Inr c" and some: "lc_Callers c \<noteq> []"
    and r: "caller_rules F (lc_Callers c) (Map.empty, []) = Inr (rules, books)" and k: "config_keys (lc_GrantKeys c) = Inr grants"
    "config_keys (lc_EvidenceKeys c) = Inr evidence" and b: "config_outbox F path (lc_Outbox c) = Inr (outbox, security)"
    and p: "p = \<lparr>pc_Config = c\<lparr>lc_Outbox := outbox\<rparr>,
            pc_tls = \<lparr>tc_MinVersion = VersionTLS13, tc_RequiresVerifiedClient = True, tc_HasClientCAs = True\<rparr>, pc_rules = rules,
            pc_trust = \<lparr>ts_GrantKeys = grants, ts_EvidenceKeys = evidence\<rparr>, pc_books = books, pc_outboxTLS = security\<rparr>"
    by (rule loadConfig_Inr [OF assms])
  have "rules_ok F Map.empty []" by (simp add: rules_ok_def)
  from caller_rules_Inr [OF r this] have rules: "rules_ok F rules books" "rules \<noteq> Map.empty" using some by blast+
  have caller: "scoped_caller F (cl_Identity d) d" if auth: "authenticate (NewAuthenticator rules) peer = Inr d" for peer d
  proof -
    obtain uri where "NewAuthenticator rules uri = Some d"
      using auth by (auto simp: authenticate_def split: option.split_asm if_split_asm list.split_asm)
    then obtain d0 where "rules uri = Some d0" "d = d0\<lparr>cl_Identity := uri\<rparr>" by (auto simp: NewAuthenticator_def)
    moreover from this have "scoped_caller F uri d0" using rules(1) by (simp add: rules_ok_def)
    ultimately show ?thesis by (simp add: scoped_caller_def)
  qed
  show ?thesis unfolding p
    using config_addresses_Inr [OF a] rules caller config_keys_Inr [OF k(1)] config_keys_Inr [OF k(2)] config_outbox_Inr [OF b]
    by (simp add: NewGRPC_def VersionTLS13_def cong: option.case_cong)
qed

definition x_config_json :: json where
  "x_config_json = JObj [(''mode'', JStr ''synthetic''),
     (''callers'', JArr [JObj [(''identity'', JStr ''spiffe://p/l''), (''books'', JArr [JStr x_book_id]), (''permissions'', JArr [JStr ''read'']),
        (''all_subjects'', JBool True)]]),
     (''grant_keys'', JObj [(''i'', JStr (replicate 43 (CHR ''A'')))]), (''evidence_keys'', JObj [(''i'', JStr (replicate 43 (CHR ''A'')))])]"

definition x_machine :: machine where
  "x_machine = \<lparr>fs_read = (\<lambda>_. Some (write_json x_config_json)), fs_resolve = (\<lambda>_ n. n),
     fs_key_pair = (\<lambda>_ _. Some (Some (x_time 1000, x_time 9000))), fs_roots = (\<lambda>_. True), fs_now = x_time 2000,
     fs_url = (\<lambda>s. if s = ''spiffe://p/l'' then Some \<lparr>ur_Scheme = ''spiffe'', ur_Host = ''p'', ur_Hostname = ''p'', ur_User = None, ur_Path = ''/l'',
        ur_RawPath = [], ur_RawQuery = [], ur_Fragment = [], ur_Query = []\<rparr> else None), fs_loopback = (\<lambda>h. h = ''127.0.0.1'')\<rparr>"

lemma x_config_plain: "plain_json x_config_json" "nesting x_config_json < 10" "int (length (write_json x_config_json)) < 1000"
  by code_simp+

lemma x_config_value: "config_value x_machine path = Inr x_config_json"
  using json_read_written [of x_config_json "[]"] x_config_plain by (simp add: config_value_def x_machine_def ends_value_def skip_def)

lemma x_config_prepared: "is_ok (prepare_config x_machine ''c'' x_config_json)"
  by code_simp

theorem loaded_config_scoped_witness:
  "\<exists>p. loadConfig x_machine ''c'' = Inr p \<and> pc_rules p \<noteq> Map.empty \<and> lc_GRPCAddress (pc_Config p) \<noteq> lc_HTTPAddress (pc_Config p)"
proof -
  obtain p where "loadConfig x_machine ''c'' = Inr p"
    using x_config_prepared by (auto simp: loadConfig_def x_config_value is_ok_iff)
  with loaded_config_scoped [OF this] show ?thesis by blast
qed

end
