(* ===== verification/Runtime.thy ===== *)
theory Runtime
  imports Configuration Served
begin

text \<open>
  Starting the ledger: opening and checking the store (\<open>store/cockroach/store.go\<close>), \<open>Open\<close> of \<open>app/runtime.go\<close>, and what
  the operations listener answers. Errors that are only texts are \<open>ErrConfig\<close> here.
\<close>

section \<open>The store\<close>

text \<open>
  What the database server answers: whether the pool opens, the text of its version, the last row of the migrations, the current
  user, whether the query for a book succeeds. The embedded migration and SHA-256 are parameters.
\<close>

record db_server =
  ds_opens :: bool
  ds_pool :: bool
  ds_version :: "string option"
  ds_migration :: "(int \<times> string) option"
  ds_user :: "string option"
  ds_reads :: "ID \<Rightarrow> bool"
  ds_sql :: string
  ds_sha256 :: "string \<Rightarrow> bytes"

definition SchemaVersion :: int where "SchemaVersion = 2"
definition EngineVersion :: string where "EngineVersion = ''v26.2.3''"

text \<open>\<open>strings.Fields\<close> on ASCII text; \<open>w\<close> is the current word, reversed.\<close>

definition is_space :: "char \<Rightarrow> bool" where
  "is_space c = (c \<in> set [CHR '' '', CHR 0x09, CHR 0x0A, CHR 0x0B, CHR 0x0C, CHR 0x0D])"

fun Fields :: "string \<Rightarrow> string \<Rightarrow> string list" where
  "Fields [] w = (if w = [] then [] else [rev w])"
| "Fields (c # s) w = (if is_space c then (if w = [] then [] else [rev w]) @ Fields s [] else Fields s (c # w))"

definition contains :: "string \<Rightarrow> string \<Rightarrow> bool" where
  "contains part s = list_ex (\<lambda>k. take (length part) (drop k s) = part) [0..<Suc (length s)]"

definition Store_Open :: "machine \<Rightarrow> db_server \<Rightarrow> string \<Rightarrow> unit result" where
  "Store_Open F D dsn =
     (case fs_url F dsn of None \<Rightarrow> Inl ErrConfig
      | Some u \<Rightarrow>
          if ur_Scheme u \<noteq> ''postgresql'' \<or> (case map_of (ur_Query u) ''sslmode'' of Some (v # _) \<Rightarrow> v \<noteq> ''verify-full'' | _ \<Rightarrow> True) then Inl ErrConfig
          else if \<not> ds_opens D then Inl ErrConfig
          else if \<not> ds_pool D then Inl ErrUnavailable
          else (case ds_version D of None \<Rightarrow> Inl ErrUnavailable
            | Some v \<Rightarrow> if \<not> contains ''CockroachDB'' v \<or> EngineVersion \<notin> set (Fields v []) then Inl ErrConfig else Inr ()))"

fun unix_lines :: "string \<Rightarrow> string" where
  "unix_lines (c # d # s) = (if c = CHR 0x0D \<and> d = CHR 0x0A then d # unix_lines s else c # unix_lines (d # s))"
| "unix_lines s = s"

definition migrationChecksum :: "(string \<Rightarrow> bytes) \<Rightarrow> string \<Rightarrow> string" where
  "migrationChecksum sha sql = hex_encode (sha (unix_lines sql))"

definition schema_checksum :: "db_server \<Rightarrow> string" where
  "schema_checksum D = migrationChecksum (ds_sha256 D) (ds_sql D)"

definition Ready :: "db_server \<Rightarrow> unit result" where
  "Ready D =
     (case ds_migration D of None \<Rightarrow> Inl ErrUnavailable
      | Some (version, recorded) \<Rightarrow> if version \<noteq> SchemaVersion \<or> recorded \<noteq> schema_checksum D then Inl ErrConfig else Inr ())"

fun books_ready :: "db_server \<Rightarrow> db \<Rightarrow> ID list \<Rightarrow> unit result" where
  "books_ready D db [] = Inr ()"
| "books_ready D db (book # books) =
     (if \<not> ds_reads D book then Inl ErrUnavailable
      else case map_of (db_books db) book of None \<Rightarrow> Inl ErrUnavailable
        | Some r \<Rightarrow> if \<not> bkr_synthetic r then Inl ErrUnavailable else books_ready D db books)"

definition ReadyForBooks :: "db_server \<Rightarrow> db \<Rightarrow> ID list \<Rightarrow> unit result" where
  "ReadyForBooks D db books =
     res_bind (Ready D) (\<lambda>_. if ds_user D \<noteq> Some ''ledger_runtime'' \<or> books = [] then Inl ErrUnavailable else books_ready D db books)"

section \<open>The runtime\<close>

text \<open>What the attempts at binding the \<open>k\<close>-th book meet is \<open>attempts k\<close>.\<close>

fun bind_books :: "(nat \<Rightarrow> nat \<Rightarrow> db attempt) \<Rightarrow> nat \<Rightarrow> ID list \<Rightarrow> string \<Rightarrow> db \<Rightarrow> unit result \<times> db" where
  "bind_books attempts k [] consumer db = (Inr (), db)"
| "bind_books attempts k (book # books) consumer db =
     (case BindOutboxConsumer (attempts k) book consumer db of
        (Inl _, db') \<Rightarrow> (Inl ErrConfig, db')
      | (Inr _, db') \<Rightarrow> bind_books attempts (Suc k) books consumer db')"

type_synonym grpc_server = "protojson \<Rightarrow> kind \<Rightarrow> tls_state option option \<Rightarrow> message option \<Rightarrow> db \<Rightarrow> wire_receipt answer \<times> db"

record runtime =
  rn_config :: prepared_config
  rn_server :: grpc_server
  rn_outbox :: "(string \<times> peer_tls) option"

text \<open>The service is made of the store with the trust of the configuration.\<close>

definition Runtime_Open ::
  "machine \<Rightarrow> db_server \<Rightarrow> (trust \<Rightarrow> db service) \<Rightarrow> (nat \<Rightarrow> nat \<Rightarrow> db attempt) \<Rightarrow> string \<Rightarrow> string \<Rightarrow> db \<Rightarrow> runtime result \<times> db" where
  "Runtime_Open F D S attempts path dsn db =
     (case loadConfig F path of Inl e \<Rightarrow> (Inl e, db)
      | Inr config \<Rightarrow>
          if \<not> runtimeURL F dsn then (Inl ErrConfig, db)
          else (case Store_Open F D dsn of Inl e \<Rightarrow> (Inl e, db)
            | Inr _ \<Rightarrow> (case ReadyForBooks D db (pc_books config) of Inl e \<Rightarrow> (Inl e, db)
              | Inr _ \<Rightarrow> (case NewGRPC (S (pc_trust config)) (Some (pc_tls config)) (pc_rules config) of Inl e \<Rightarrow> (Inl e, db)
                | Inr server \<Rightarrow>
                    (case (lc_Outbox (pc_Config config), pc_outboxTLS config) of
                       (Some b, Some t) \<Rightarrow>
                         (case bind_books attempts 0 (pc_books config) (oc_ConsumerIdentity b) db of
                            (Inl e, db') \<Rightarrow> (Inl e, db')
                          | (Inr _, db') \<Rightarrow> (Inr \<lparr>rn_config = config, rn_server = server, rn_outbox = Some (oc_Endpoint b, t)\<rparr>, db'))
                     | _ \<Rightarrow> (Inr \<lparr>rn_config = config, rn_server = server, rn_outbox = None\<rparr>, db))))))"

text \<open>
  The operations listener: status and, unless the method is HEAD, the JSON body; other bodies are empty here. \<open>serving\<close> is set between
  start and drain. The path is in the form to which \<open>ServeMux\<close> redirects.
\<close>

definition operations :: "runtime \<Rightarrow> db_server \<Rightarrow> db \<Rightarrow> bool \<Rightarrow> string \<Rightarrow> string \<Rightarrow> nat \<times> (string \<times> string) list" where
  "operations R D db serving path meth =
     (if path \<notin> set [''/livez'', ''/readyz'', ''/info''] then (404, [])
      else if meth \<noteq> ''GET'' \<and> meth \<noteq> ''HEAD'' then (405, [])
      else
        let (status, body) =
          (if path = ''/info'' then (200, [(''product'', ''Pesar''), (''service'', ''ledger''), (''stage'', ''synthetic_m1''), (''production_ready'', ''false'')])
           else if path = ''/readyz'' then
             (if \<not> serving \<or> \<not> is_ok (ReadyForBooks D db (pc_books (rn_config R)))
              then (503, [(''status'', ''not_ready''), (''capability'', ''synthetic_ledger'')])
              else (200, [(''status'', ''ready''), (''capability'', ''synthetic_ledger'')]))
           else (200, [(''status'', ''alive'')]))
        in (status, if meth = ''HEAD'' then [] else body))"

section \<open>The other processes\<close>

text \<open>\<open>Open\<close> and \<open>Ready\<close> of the inbox of Reconciliation, whose only migration is the first.\<close>

definition Inbox_Open :: "machine \<Rightarrow> db_server \<Rightarrow> string \<Rightarrow> bool \<Rightarrow> unit result" where
  "Inbox_Open F D dsn admin =
     (let role = (if admin then ''root'' else ''reconciliation_runtime'')
      in case fs_url F dsn of None \<Rightarrow> Inl ErrUnavailable
       | Some u \<Rightarrow>
           if ur_Scheme u \<noteq> ''postgresql'' \<or> ur_User u \<noteq> Some role \<or> ur_Path u \<noteq> ''/pesaro_reconciliation'' \<or> ur_Fragment u \<noteq> []
             \<or> (case map_of (ur_Query u) ''sslmode'' of Some (v # _) \<Rightarrow> v \<noteq> ''verify-full'' | _ \<Rightarrow> True) then Inl ErrUnavailable
           else if ur_Hostname u \<noteq> ''localhost'' \<and> \<not> fs_loopback F (ur_Hostname u) then Inl ErrUnavailable
           else if \<not> list_all (\<lambda>(key, values). length values = 1 \<and> key \<in> set [''sslmode'', ''sslrootcert'', ''sslcert'', ''sslkey'']) (ur_Query u)
             then Inl ErrUnavailable
           else if \<not> ds_opens D \<or> \<not> ds_pool D then Inl ErrUnavailable
           else (case (ds_version D, ds_user D) of
               (Some v, Some identity) \<Rightarrow>
                 if identity \<noteq> role \<or> \<not> contains ''CockroachDB'' v \<or> EngineVersion \<notin> set (Fields v []) then Inl ErrUnavailable else Inr ()
             | _ \<Rightarrow> Inl ErrUnavailable))"

definition Inbox_Ready :: "db_server \<Rightarrow> unit result" where
  "Inbox_Ready D =
     (case ds_migration D of None \<Rightarrow> Inl ErrUnavailable
      | Some (version, recorded) \<Rightarrow> if version \<noteq> 1 \<or> recorded \<noteq> schema_checksum D then Inl ErrUnavailable else Inr ())"

text \<open>The scaffold of a service without business behaviour (\<open>internal/platform/service\<close>).\<close>

record service_definition =
  sd_Name :: string
  sd_DefaultPort :: int

definition Address :: "service_definition \<Rightarrow> string \<Rightarrow> string result" where
  "Address d override =
     (let addr = (if override = [] then ''127.0.0.1:'' @ format_int (sd_DefaultPort d) else override)
      in case SplitHostPort addr of None \<Rightarrow> Inl ErrConfig
       | Some (host, port) \<Rightarrow>
           if host = [] then Inl ErrConfig
           else (case parse_int64 port of None \<Rightarrow> Inl ErrConfig
             | Some n \<Rightarrow> if sint n < 1 \<or> sint n > 65535 then Inl ErrConfig else Inr addr))"

definition scaffold_handler :: "service_definition \<Rightarrow> string \<Rightarrow> string \<Rightarrow> nat \<times> (string \<times> string) list" where
  "scaffold_handler d path meth =
     (let answers = [(''/livez'', 200, [(''status'', ''alive'')]),
        (''/readyz'', 503, [(''status'', ''not_ready''), (''reason'', ''business_capability_not_implemented'')]),
        (''/info'', 200, [(''service'', sd_Name d), (''stage'', ''scaffold'')])]
      in case map_of answers path of None \<Rightarrow> (404, [])
       | Some (status, body) \<Rightarrow> if meth \<noteq> ''GET'' \<and> meth \<noteq> ''HEAD'' then (405, []) else (status, if meth = ''HEAD'' then [] else body))"

text \<open>
  \<open>ledger-verify\<close>: its exit status, for the path that is given, the number of other arguments, the file if it opens, and
  whether the report can be written.
\<close>

definition ledger_verify :: "verifier \<Rightarrow> string \<Rightarrow> nat \<Rightarrow> string option \<Rightarrow> bool \<Rightarrow> nat" where
  "ledger_verify V path others file writes =
     (if path = [] \<or> others \<noteq> 0 then 2
      else case file of None \<Rightarrow> 2
        | Some data \<Rightarrow> (case Decode_snapshot data of None \<Rightarrow> 2
          | Some s \<Rightarrow> if \<not> writes then 2 else if \<not> rep_Valid (Verify V s) then 1 else 0))"

section \<open>An opened runtime\<close>

definition keeps_routes :: "db \<Rightarrow> db \<Rightarrow> bool" where
  "keeps_routes d d' = (\<forall>k v. map_of (db_routes d) k = Some v \<longrightarrow> map_of (db_routes d') k = Some v)"

lemma bind_tx_routes:
  assumes "bind_tx book consumer now db = Inr (r, db')"
  shows "map_of (db_routes db') book = Some consumer" and "keeps_routes db db'"
  using assms by (auto simp: bind_tx_def keeps_routes_def insert_row_Inr update_conv' split: option.split_asm if_split_asm)

lemma bind_routes:
  assumes "BindOutboxConsumer attempts book consumer db = (Inr u, db')" and "fits keeps_routes attempts"
  shows "map_of (db_routes db') book = Some consumer" and "keeps_routes db db'"
proof -
  obtain r where run: "Transact attempts (bind_tx book consumer) db = (Inr r, db')"
    using assms(1) by (auto simp: BindOutboxConsumer_def split: if_split_asm prod.split_asm sum.split_asm)
  have "\<exists>db1. keeps_routes db db1 \<and> (\<exists>now. bind_tx book consumer now db1 = Inr (r, db'))"
    using transact_loop_outcome [OF run [unfolded Transact_def], where R = keeps_routes] assms(2)
    by (auto simp: keeps_routes_def fits_def)
  then obtain db1 now where one: "keeps_routes db db1" "bind_tx book consumer now db1 = Inr (r, db')" by blast
  show "map_of (db_routes db') book = Some consumer" by (rule bind_tx_routes [OF one(2)])
  show "keeps_routes db db'" using one(1) bind_tx_routes(2) [OF one(2)] by (simp add: keeps_routes_def)
qed

lemma bind_books_routes:
  assumes "bind_books attempts k books consumer db = (Inr u, db')" and "\<And>k. fits keeps_routes (attempts k)"
  shows "keeps_routes db db' \<and> list_all (\<lambda>book. map_of (db_routes db') book = Some consumer) books"
  using assms(1)
proof (induction books arbitrary: k db)
  case (Cons book books)
  obtain u1 db1 where one: "BindOutboxConsumer (attempts k) book consumer db = (Inr u1, db1)"
    "bind_books attempts (Suc k) books consumer db1 = (Inr u, db')"
    using Cons.prems by (auto split: prod.split_asm sum.split_asm)
  note b = bind_routes [OF one(1) assms(2)] Cons.IH [OF one(2)]
  then show ?case by (simp add: keeps_routes_def)
qed (simp add: keeps_routes_def)

lemma books_ready_Inr: "books_ready D db books = Inr u \<Longrightarrow>
  list_all (\<lambda>book. case map_of (db_books db) book of None \<Rightarrow> False | Some r \<Rightarrow> bkr_synthetic r) books"
  by (induction books) (auto split: if_split_asm option.split_asm)

lemma ReadyForBooks_Inr:
  assumes "ReadyForBooks D db books = Inr u"
  shows "ds_migration D = Some (SchemaVersion, schema_checksum D)" and "ds_user D = Some ''ledger_runtime''" and "books \<noteq> []"
    and "list_all (\<lambda>book. case map_of (db_books db) book of None \<Rightarrow> False | Some r \<Rightarrow> bkr_synthetic r) books"
  using assms books_ready_Inr by (auto simp: ReadyForBooks_def Ready_def split: option.split_asm if_split_asm)

section \<open>Property\<close>

text \<open>
  C27. A runtime that opens may serve: its configuration is loaded, the database URL is of the restricted role over verified TLS, the
  schema is the one of this program with the checksum of its migration, the user is that role, every book of a caller exists and is
  synthetic, the server is the one of the configured callers and trust, and, if there is an outbox, every book is bound to its consumer,
  provided other transactions leave bound routes alone.
\<close>

theorem opened_runtime_ready:
  assumes "Runtime_Open F D S attempts path dsn db = (Inr R, db')" and "\<And>k. fits keeps_routes (attempts k)"
  shows "loadConfig F path = Inr (rn_config R) \<and> runtimeURL F dsn \<and> Store_Open F D dsn = Inr ()
    \<and> ds_migration D = Some (SchemaVersion, schema_checksum D) \<and> ds_user D = Some ''ledger_runtime'' \<and> pc_books (rn_config R) \<noteq> []
    \<and> list_all (\<lambda>book. case map_of (db_books db) book of None \<Rightarrow> False | Some r \<Rightarrow> bkr_synthetic r) (pc_books (rn_config R))
    \<and> NewGRPC (S (pc_trust (rn_config R))) (Some (pc_tls (rn_config R))) (pc_rules (rn_config R)) = Inr (rn_server R)
    \<and> (case rn_outbox R of None \<Rightarrow> db' = db
       | Some (endpoint, t) \<Rightarrow> \<exists>b. lc_Outbox (pc_Config (rn_config R)) = Some b \<and> endpoint = oc_Endpoint b \<and> pc_outboxTLS (rn_config R) = Some t
           \<and> list_all (\<lambda>book. map_of (db_routes db') book = Some (oc_ConsumerIdentity b)) (pc_books (rn_config R)))"
proof -
  obtain config server u where c: "loadConfig F path = Inr config" "runtimeURL F dsn" "Store_Open F D dsn = Inr ()"
    "ReadyForBooks D db (pc_books config) = Inr u" "NewGRPC (S (pc_trust config)) (Some (pc_tls config)) (pc_rules config) = Inr server"
    using assms(1) by (auto simp: Runtime_Open_def split: sum.split_asm if_split_asm)
  note ready = ReadyForBooks_Inr [OF c(4)]
  consider (none) "R = \<lparr>rn_config = config, rn_server = server, rn_outbox = None\<rparr>" "db' = db"
    | (outbox) b t v where "lc_Outbox (pc_Config config) = Some b" "pc_outboxTLS config = Some t"
        "bind_books attempts 0 (pc_books config) (oc_ConsumerIdentity b) db = (Inr v, db')"
        "R = \<lparr>rn_config = config, rn_server = server, rn_outbox = Some (oc_Endpoint b, t)\<rparr>"
    using assms(1) c by (auto simp: Runtime_Open_def split: option.split_asm prod.split_asm sum.split_asm)
  then show ?thesis
  proof cases
    case none
    then show ?thesis using c ready by simp
  next
    case outbox
    then show ?thesis using c ready bind_books_routes [OF outbox(3) assms(2)] by simp
  qed
qed

definition x_server :: db_server where
  "x_server = \<lparr>ds_opens = True, ds_pool = True, ds_version = Some ''CockroachDB CCL v26.2.3 (linux)'',
     ds_migration = Some (2, hex_encode [0]), ds_user = Some ''ledger_runtime'', ds_reads = (\<lambda>_. True), ds_sql = ''CREATE'', ds_sha256 = (\<lambda>_. [0])\<rparr>"

definition x_dsn :: string where "x_dsn = ''postgresql://ledger_runtime@db/pesaro_ledger?sslmode=verify-full''"

definition x_host :: machine where
  "x_host = x_machine\<lparr>fs_url := (\<lambda>s. if s = x_dsn then Some \<lparr>ur_Scheme = ''postgresql'', ur_Host = ''db'', ur_Hostname = ''db'',
       ur_User = Some ''ledger_runtime'', ur_Path = ''/pesaro_ledger'', ur_RawPath = [], ur_RawQuery = ''sslmode=verify-full'', ur_Fragment = [],
       ur_Query = [(''sslmode'', [''verify-full''])]\<rparr> else fs_url x_machine s)\<rparr>"

lemma x_host_value: "config_value x_host path = Inr x_config_json"
  using x_config_value [of path] by (simp add: config_value_def x_host_def)

lemma x_host_prepared:
  "case prepare_config x_host ''c'' x_config_json of Inl _ \<Rightarrow> False | Inr p \<Rightarrow> pc_books p = [x_book_id] \<and> lc_Outbox (pc_Config p) = None"
  by code_simp

lemma x_host_ready: "runtimeURL x_host x_dsn" "Store_Open x_host x_server x_dsn = Inr ()" "ReadyForBooks x_server x_db [x_book_id] = Inr ()"
  by code_simp+

theorem opened_runtime_ready_witness:
  "\<exists>R. Runtime_Open x_host x_server (\<lambda>_. x_service) (\<lambda>_. x_attempts) ''c'' x_dsn x_db = (Inr R, x_db) \<and> pc_books (rn_config R) \<noteq> []"
proof -
  obtain p where p: "loadConfig x_host ''c'' = Inr p" "pc_books p = [x_book_id]" "lc_Outbox (pc_Config p) = None"
    using x_host_prepared by (auto simp: loadConfig_def x_host_value split: sum.split_asm)
  have "is_ok (NewGRPC x_service (Some (pc_tls p)) (pc_rules p))"
    using p(1) by (auto elim!: loadConfig_Inr simp: NewGRPC_def VersionTLS13_def)
  then obtain R where R: "Runtime_Open x_host x_server (\<lambda>_. x_service) (\<lambda>_. x_attempts) ''c'' x_dsn x_db = (Inr R, x_db)"
    using p x_host_ready by (auto simp: Runtime_Open_def is_ok_iff)
  have "fits keeps_routes x_attempts" by (simp add: fits_def x_attempts_def keeps_routes_def)
  with opened_runtime_ready [OF R] R show ?thesis by blast
qed

end
