(* ===== verification/Writes.thy ===== *)
theory Writes
  imports Ledger
begin

text \<open>
  Which rights on which tables the transactions of a serving ledger need: rows they insert, change or remove, table by table.
\<close>

section \<open>What serving writes\<close>

text \<open>The rights a change of a table needs.\<close>

definition touched :: "string \<Rightarrow> ('k, 'v) table \<Rightarrow> ('k, 'v) table \<Rightarrow> (string \<times> string) list" where
  "touched name t t' =
     (if list_all (\<lambda>k. map_of t k \<noteq> None) (map fst t') then [] else [(''INSERT'', name)])
     @ (if list_all (\<lambda>k. map_of t' k = None \<or> map_of t' k = map_of t k) (map fst t) then [] else [(''UPDATE'', name)])
     @ (if list_all (\<lambda>k. map_of t' k \<noteq> None) (map fst t) then [] else [(''DELETE'', name)])"

definition needed :: "db \<Rightarrow> db \<Rightarrow> (string \<times> string) list" where
  "needed d d' =
     touched ''books'' (db_books d) (db_books d') @ touched ''accounts'' (db_accounts d) (db_accounts d')
     @ touched ''posting_policies'' (db_policies d) (db_policies d') @ touched ''account_balances'' (db_balances d) (db_balances d')
     @ touched ''spending_controls'' (db_controls d) (db_controls d') @ touched ''business_claims'' (db_claims d) (db_claims d')
     @ touched ''holds'' (db_holds d) (db_holds d') @ touched ''limit_usage'' (db_usage d) (db_usage d')
     @ touched ''journals'' (db_journals d) (db_journals d') @ touched ''journal_lines'' (db_lines d) (db_lines d')
     @ touched ''account_events'' (db_account_events d) (db_account_events d')
     @ touched ''control_events'' (db_control_events d) (db_control_events d')
     @ touched ''hold_events'' (db_hold_events d) (db_hold_events d') @ touched ''limit_events'' (db_limit_events d) (db_limit_events d')
     @ touched ''resolution_evidence'' (db_evidence d) (db_evidence d')
     @ touched ''financial_operations'' (db_operations d) (db_operations d') @ touched ''outbox_facts'' (db_facts d) (db_facts d')
     @ touched ''outbox_delivery'' (db_delivery d) (db_delivery d') @ touched ''outbox_routes'' (db_routes d) (db_routes d')"

lemma list_all_keys: "list_all P (map fst t) \<longleftrightarrow> (\<forall>k v. map_of t k = Some v \<longrightarrow> P k)"
proof -
  have "list_all P (map fst t) \<longleftrightarrow> (\<forall>k\<in>dom (map_of t). P k)" by (simp add: list_all_iff dom_map_of_conv_image_fst)
  then show ?thesis by blast
qed

lemma touched_iff:
  "(p, n) \<in> set (touched name t t') \<longleftrightarrow> n = name \<and>
     (p = ''INSERT'' \<and> (\<exists>k v. map_of t k = None \<and> map_of t' k = Some v)
      \<or> p = ''UPDATE'' \<and> (\<exists>k v w. map_of t k = Some v \<and> map_of t' k = Some w \<and> v \<noteq> w)
      \<or> p = ''DELETE'' \<and> (\<exists>k v. map_of t k = Some v \<and> map_of t' k = None))"
proof -
  have u: "(\<forall>k v. map_of t k = Some v \<longrightarrow> map_of t' k = None \<or> map_of t' k = map_of t k)
    \<longleftrightarrow> \<not> (\<exists>k v w. map_of t k = Some v \<and> map_of t' k = Some w \<and> v \<noteq> w)" by fastforce
  have i: "(\<forall>k v. map_of t' k = Some v \<longrightarrow> map_of t k \<noteq> None) \<longleftrightarrow> \<not> (\<exists>k v. map_of t k = None \<and> map_of t' k = Some v)" by auto
  have d: "(\<forall>k v. map_of t k = Some v \<longrightarrow> map_of t' k \<noteq> None) \<longleftrightarrow> \<not> (\<exists>k v. map_of t k = Some v \<and> map_of t' k = None)" by fastforce
  have m: "(p, n) \<in> set ((if a then [] else [(x, name)]) @ (if b then [] else [(y, name)]) @ (if c then [] else [(z, name)]))
    \<longleftrightarrow> n = name \<and> (p = x \<and> \<not> a \<or> p = y \<and> \<not> b \<or> p = z \<and> \<not> c)" for a b c and x y z :: string by auto
  show ?thesis unfolding touched_def list_all_keys m u i d not_not by (rule refl)
qed

lemma touched_intros:
  "map_of t k = None \<Longrightarrow> map_of t' k = Some v \<Longrightarrow> (''INSERT'', name) \<in> set (touched name t t')"
  "map_of t k = Some v \<Longrightarrow> map_of t' k = Some w \<Longrightarrow> v \<noteq> w \<Longrightarrow> (''UPDATE'', name) \<in> set (touched name t t')"
  "map_of t k = Some v \<Longrightarrow> map_of t' k = None \<Longrightarrow> (''DELETE'', name) \<in> set (touched name t t')"
  unfolding touched_iff by auto

lemma touched_refl [simp]: "touched name t t = []"
  by (simp add: touched_def list_all_keys)

lemma touched_trans:
  assumes "set (touched name a b) \<subseteq> G" and "set (touched name b c) \<subseteq> G" and "(''DELETE'', name) \<notin> G"
  shows "set (touched name a c) \<subseteq> G"
proof -
  have none: "\<exists>w. map_of b k = Some w" if "map_of a k = Some v" for k v
  proof (rule ccontr)
    assume "\<not> ?thesis"
    then have "(''DELETE'', name) \<in> set (touched name a b)" using that by (auto simp: touched_iff)
    then show False using assms(1,3) by blast
  qed
  have "(p, n) \<in> set (touched name a b) \<or> (p, n) \<in> set (touched name b c)" if "(p, n) \<in> set (touched name a c)" for p n
  proof -
    from that consider (i) k v where "p = ''INSERT''" "n = name" "map_of a k = None" "map_of c k = Some v"
      | (u) k v w where "p = ''UPDATE''" "n = name" "map_of a k = Some v" "map_of c k = Some w" "v \<noteq> w"
      | (d) k v where "p = ''DELETE''" "n = name" "map_of a k = Some v" "map_of c k = None" unfolding touched_iff by blast
    then show ?thesis
    proof cases
      case i
      then show ?thesis by (cases "map_of b k") (simp_all add: touched_intros)
    next
      case u
      then obtain x where "map_of b k = Some x" using none by blast
      then show ?thesis using u by (cases "x = v") (simp_all add: touched_intros(2))
    next
      case d
      then show ?thesis using none [OF d(3)] by (auto intro: touched_intros(3))
    qed
  qed
  then show ?thesis using assms(1,2) by auto
qed

lemma touched_update: "set (touched name t (AList.update k v t)) \<subseteq> {(if map_of t k = None then ''INSERT'' else ''UPDATE'', name)}"
  by (auto simp: touched_iff update_conv' split: if_split_asm)
definition inserted_tables :: "string list" where
  "inserted_tables = [''accounts'', ''account_balances'', ''spending_controls'', ''business_claims'', ''holds'', ''limit_usage'', ''journals'',
     ''journal_lines'', ''account_events'', ''control_events'', ''hold_events'', ''limit_events'', ''resolution_evidence'',
     ''financial_operations'', ''outbox_facts'', ''outbox_delivery'', ''outbox_routes'']"

definition updated_tables :: "string list" where
  "updated_tables = [''account_balances'', ''spending_controls'', ''business_claims'', ''holds'', ''limit_usage'', ''outbox_delivery'']"

definition serving_rights :: "(string \<times> string) list" where
  "serving_rights = map (Pair ''INSERT'') inserted_tables @ map (Pair ''UPDATE'') updated_tables"

text \<open>A table changes with these rights only; a step does if every table does.\<close>

definition allowed :: "string \<Rightarrow> ('k, 'v) table \<Rightarrow> ('k, 'v) table \<Rightarrow> bool" where
  "allowed name t t' = (set (touched name t t') \<subseteq> set serving_rights)"

definition within :: "db \<Rightarrow> db \<Rightarrow> bool" where
  "within d d' = (set (needed d d') \<subseteq> set serving_rights)"

lemma within_iff: "within d d' \<longleftrightarrow>
     allowed ''books'' (db_books d) (db_books d') \<and> allowed ''accounts'' (db_accounts d) (db_accounts d')
     \<and> allowed ''posting_policies'' (db_policies d) (db_policies d') \<and> allowed ''account_balances'' (db_balances d) (db_balances d')
     \<and> allowed ''spending_controls'' (db_controls d) (db_controls d') \<and> allowed ''business_claims'' (db_claims d) (db_claims d')
     \<and> allowed ''holds'' (db_holds d) (db_holds d') \<and> allowed ''limit_usage'' (db_usage d) (db_usage d')
     \<and> allowed ''journals'' (db_journals d) (db_journals d') \<and> allowed ''journal_lines'' (db_lines d) (db_lines d')
     \<and> allowed ''account_events'' (db_account_events d) (db_account_events d')
     \<and> allowed ''control_events'' (db_control_events d) (db_control_events d')
     \<and> allowed ''hold_events'' (db_hold_events d) (db_hold_events d') \<and> allowed ''limit_events'' (db_limit_events d) (db_limit_events d')
     \<and> allowed ''resolution_evidence'' (db_evidence d) (db_evidence d')
     \<and> allowed ''financial_operations'' (db_operations d) (db_operations d') \<and> allowed ''outbox_facts'' (db_facts d) (db_facts d')
     \<and> allowed ''outbox_delivery'' (db_delivery d) (db_delivery d') \<and> allowed ''outbox_routes'' (db_routes d) (db_routes d')"
  by (simp add: within_def needed_def allowed_def)

lemma no_deletes: "(''DELETE'', name) \<notin> set serving_rights"
  by (auto simp: serving_rights_def)

lemma allowed_refl [simp]: "allowed name t t"
  by (simp add: allowed_def)

lemma allowed_trans: "allowed name a b \<Longrightarrow> allowed name b c \<Longrightarrow> allowed name a c"
  unfolding allowed_def by (rule touched_trans [OF _ _ no_deletes])

lemma within_refl [simp]: "within d d"
  by (simp add: within_iff)

lemma within_trans: "within a b \<Longrightarrow> within b c \<Longrightarrow> within a c"
  unfolding within_iff by (elim conjE, intro conjI; rule allowed_trans; assumption)

lemma allowed_new: "(''INSERT'', name) \<in> set serving_rights \<Longrightarrow> map_of t k = None \<Longrightarrow> allowed name t (AList.update k v t)"
  using touched_update [of name t k v] by (auto simp: allowed_def)

lemma allowed_old: "(''UPDATE'', name) \<in> set serving_rights \<Longrightarrow> map_of t k \<noteq> None \<Longrightarrow> allowed name t (AList.update k v t)"
  using touched_update [of name t k v] by (auto simp: allowed_def)

lemma rights: "name \<in> set updated_tables \<Longrightarrow> (''UPDATE'', name) \<in> set serving_rights"
  "name \<in> set inserted_tables \<Longrightarrow> (''INSERT'', name) \<in> set serving_rights"
  by (simp_all add: serving_rights_def)

lemma inserted: "insert_row checks unique references k v t = Inr t' \<Longrightarrow> name \<in> set inserted_tables \<Longrightarrow> allowed name t t'"
  by (auto simp: insert_row_Inr intro: allowed_new rights(2))

lemma updated: "update_row matches ok k f t = Inr t' \<Longrightarrow> name \<in> set updated_tables \<Longrightarrow> allowed name t t'"
  by (auto simp: update_row_Inr intro!: allowed_old rights(1))

lemmas written = inserted updated inserted_tables_def updated_tables_def

section \<open>Serving\<close>

lemma save_account_within: "save_account book new db = Inr db' \<Longrightarrow> within db db'"
  unfolding save_account_def by (auto simp: within_iff Let_def written split: option.split_asm)

lemma save_control_within: "save_control book op ch db = Inr db' \<Longrightarrow> within db db'"
  unfolding save_control_def by (auto simp: within_iff Let_def written split: option.split_asm)

lemma save_line_within: "save_line book journal x db = Inr db' \<Longrightarrow> within db db'"
  unfolding save_line_def by (auto simp: within_iff Let_def written split: prod.split_asm)

lemma save_each_within:
  assumes "\<And>x a b. f x a = Inr b \<Longrightarrow> within a b" and "save_each f xs db = Inr db'"
  shows "within db db'"
  using assms(2) by (induction xs arbitrary: db) (auto intro: within_trans assms(1))

lemma save_balance_within: "save_balance book op ch db = Inr db' \<Longrightarrow> within db db'"
  unfolding save_balance_def by (auto simp: within_iff Let_def written split: option.split_asm)

lemma save_each_control_within: "save_each (save_control book op) xs db = Inr db' \<Longrightarrow> within db db'"
  by (rule save_each_within [OF save_control_within])

lemma save_each_balance_within: "save_each (save_balance book op) xs db = Inr db' \<Longrightarrow> within db db'"
  by (rule save_each_within [OF save_balance_within])

lemma save_hold_within: "save_hold E book op ch db = Inr db' \<Longrightarrow> within db db'"
  unfolding save_hold_def by (auto simp: within_iff Let_def written split: option.split_asm)

lemma save_usage_within: "save_usage book op ch db = Inr db' \<Longrightarrow> within db db'"
  unfolding save_usage_def by (auto simp: within_iff Let_def written split: option.split_asm)

lemma save_claim_within: "save_claim book ch db = Inr db' \<Longrightarrow> within db db'"
  unfolding save_claim_def by (auto simp: within_iff Let_def written split: option.split_asm)

lemma save_operation_within: "save_operation canonical rc db = Inr db' \<Longrightarrow> within db db'"
  unfolding save_operation_def by (auto simp: within_iff Let_def written)

lemma save_journal_within: "save_journal E rc j db = Inr db' \<Longrightarrow> within db db'"
proof (cases j)
  case (Some x)
  assume "save_journal E rc j db = Inr db'"
  then obtain ok uniq refs k r t where t: "insert_row ok uniq refs k r (db_journals db) = Inr t"
    "save_each (save_line (rc_BookID rc) (rc_JournalID rc)) (enumerate 0 (jr_lines x)) (db\<lparr>db_journals := t\<rparr>) = Inr db'"
    using Some by (auto simp: save_journal_def Let_def)
  have "within db (db\<lparr>db_journals := t\<rparr>)" using inserted [OF t(1)] by (simp add: within_iff inserted_tables_def)
  then show ?thesis by (rule within_trans) (rule save_each_within [OF save_line_within t(2)])
qed (simp add: save_journal_def)

lemma evidence_allowed: "map_of t k = None \<Longrightarrow> allowed ''resolution_evidence'' t (AList.update k r t)"
  by (rule allowed_new [OF rights(2)]) (simp_all add: inserted_tables_def)

lemma save_evidence_within:
  assumes "save_evidence E book e db = Inr db'"
  shows "within db db'"
proof (cases e)
  case None
  then show ?thesis using assms by (simp add: save_evidence_def)
next
  case (Some x)
  show ?thesis
  proof (cases "map_of (db_evidence db) (book, ev_ID x)")
    case None
    then obtain r where "db' = db\<lparr>db_evidence := AList.update (book, ev_ID x) r (db_evidence db)\<rparr>"
      using assms Some by (auto simp: save_evidence_def Let_def split: if_split_asm)
    then show ?thesis using evidence_allowed [OF None] by (simp add: within_iff)
  next
    case (Some old)
    then have "db' = db" using assms \<open>e = Some x\<close>
      by (cases old) (auto simp: save_evidence_def Let_def split: if_split_asm)
    then show ?thesis by simp
  qed
qed

lemma Save_within:
  assumes "Save E db p = Inr db'"
  shows "within db db'"
  using assms unfolding Save_def Let_def res_bind_eq_Inr
  by (elim exE conjE)
    (drule save_account_within, drule save_each_control_within, drule save_journal_within, drule save_each_balance_within,
     drule save_hold_within, drule save_usage_within, drule save_claim_within, drule save_evidence_within, drule save_operation_within,
     (rule within_trans, assumption)+, rule within_refl)

lemma claim_each_within: "claim_each book token lease now is db = Inr (fs, db') \<Longrightarrow> within db db'"
proof (induction "is" arbitrary: db fs)
  case (Cons i "is")
  obtain fits ok f t fs1 where t: "update_row fits ok (book, i) f (db_delivery db) = Inr t"
    "claim_each book token lease now is (db\<lparr>db_delivery := t\<rparr>) = Inr (fs1, db')"
    using Cons.prems by (auto split: option.split_asm)
  have "within db (db\<lparr>db_delivery := t\<rparr>)" using updated [OF t(1)] by (simp add: within_iff updated_tables_def)
  then show ?case by (rule within_trans) (rule Cons.IH [OF t(2)])
qed simp

text \<open>The steps of a serving ledger: commands, bindings, claims and acknowledgements. Bootstrapping belongs to the administrator.\<close>

inductive serving :: "env \<Rightarrow> trust \<Rightarrow> db \<Rightarrow> db \<Rightarrow> bool" for E t where
  execute: "execute_tx (cockroach_tx E) E t c cmd canonical j e now db = Inr (r, db') \<Longrightarrow> serving E t db db'"
| bind_consumer: "bind_tx book consumer now db = Inr (r, db') \<Longrightarrow> serving E t db db'"
| claim: "claim_tx book token limit lease now db = Inr (fs, db') \<Longrightarrow> serving E t db db'"
| acknowledge: "ack_update now lf db = Some db' \<Longrightarrow> serving E t db db'"

lemma serving_within: "serving E t db db' \<Longrightarrow> within db db'"
proof (induction rule: serving.induct)
  case (execute c cmd canonical j e now db r db')
  then show ?case
    by (auto simp: execute_tx_def cockroach_tx_def Let_def intro: Save_within split: option.split_asm if_split_asm)
next
  case (bind_consumer book consumer now db r db')
  then show ?case by (auto simp: bind_tx_def within_iff written split: option.split_asm if_split_asm)
next
  case (claim book token limit lease now db fs db')
  then show ?case by (simp add: claim_tx_def claim_each_within)
next
  case (acknowledge now lf db db')
  then show ?case
    by (auto simp: ack_update_def within_iff updated_tables_def intro!: allowed_old rights(1) split: option.split_asm if_split_asm)
qed

lemma served_within: "(serving E t)\<^sup>*\<^sup>* db db' \<Longrightarrow> within db db'"
  by (induction rule: rtranclp_induct) (auto intro: within_trans serving_within)

end
