(* ===== verification/Administration.thy ===== *)
theory Administration
  imports Runtime Writes
begin

text \<open>
  Administration: \<open>Migrate\<close> and \<open>GrantRuntime\<close> of \<open>store/cockroach/store.go\<close>, \<open>Migrate\<close> of the
  inbox, the commands \<open>ledger-admin\<close> and \<open>reconciliation-admin\<close>, and the start of the two configured processes. The theorem compares
  what serving writes with what is granted.
\<close>

section \<open>The schema\<close>

text \<open>A privilege names its role, the right, the kind of object and the object; a list of them stands for their set.\<close>

type_synonym privilege = "string \<times> string \<times> string \<times> string"

record 'c schema =
  sc_objects :: 'c
  sc_privileges :: "privilege list"
  sc_migrations :: "(int \<times> string) list"

text \<open>
  What the statements of a connection meet. DDL is a parameter: whether it succeeds, and what it leaves. A grant or an insert fails if it is
  \<open>Some reached\<close>, applied or not.
\<close>

record 'c session =
  se_ddl :: "string \<Rightarrow> 'c \<Rightarrow> bool \<times> 'c"
  se_grant :: "string \<Rightarrow> bool option"
  se_insert :: "int \<Rightarrow> bool option"
  se_select :: "int \<Rightarrow> bool"
  se_latest :: bool

fun split_on :: "char \<Rightarrow> string \<Rightarrow> string \<Rightarrow> string list" where
  "split_on c [] w = [rev w]"
| "split_on c (d # s) w = (if d = c then rev w # split_on c s [] else split_on c s (d # w))"

fun run_ddl :: "'c session \<Rightarrow> string list \<Rightarrow> 'c schema \<Rightarrow> unit result \<times> 'c schema" where
  "run_ddl Q [] s = (Inr (), s)"
| "run_ddl Q (q # qs) s =
     (if list_all is_space q then run_ddl Q qs s
      else case se_ddl Q q (sc_objects s) of
        (ok, c) \<Rightarrow> if ok then run_ddl Q qs (s\<lparr>sc_objects := c\<rparr>) else (Inl ErrDriver, s\<lparr>sc_objects := c\<rparr>))"

text \<open>\<open>ON CONFLICT(version) DO NOTHING\<close>, and the row of the greatest version.\<close>

definition record_version :: "int \<Rightarrow> string \<Rightarrow> 'c schema \<Rightarrow> 'c schema" where
  "record_version v c s = (if map_of (sc_migrations s) v = None then s\<lparr>sc_migrations := AList.update v c (sc_migrations s)\<rparr> else s)"

definition insert_version :: "'c session \<Rightarrow> int \<Rightarrow> string \<Rightarrow> 'c schema \<Rightarrow> unit result \<times> 'c schema" where
  "insert_version Q v c s =
     (case se_insert Q v of
        Some reached \<Rightarrow> (Inl ErrDriver, if reached then record_version v c s else s)
      | None \<Rightarrow> (Inr (), record_version v c s))"

definition latest_version :: "(int \<times> string) list \<Rightarrow> (int \<times> string) option" where
  "latest_version rows =
     (case map fst rows of [] \<Rightarrow> None
      | v # vs \<Rightarrow> let top = fold max vs v in map_option (\<lambda>c. (top, c)) (map_of rows top))"

definition seen_by :: "'c session \<Rightarrow> 'c schema \<Rightarrow> db_server \<Rightarrow> db_server" where
  "seen_by Q s D = D\<lparr>ds_migration := if se_latest Q then latest_version (sc_migrations s) else None\<rparr>"

section \<open>Migrations\<close>

fun migrate_each :: "'c session \<Rightarrow> (string \<Rightarrow> bytes) \<Rightarrow> int \<Rightarrow> string list \<Rightarrow> 'c schema \<Rightarrow> unit result \<times> 'c schema" where
  "migrate_each Q sha v [] s = (Inr (), s)"
| "migrate_each Q sha v (sql # sqls) s =
     (case run_ddl Q (split_on (CHR '';'') sql []) s of (Inl e, s1) \<Rightarrow> (Inl e, s1)
      | (Inr _, s1) \<Rightarrow> (case insert_version Q v (migrationChecksum sha sql) s1 of (Inl e, s2) \<Rightarrow> (Inl e, s2)
        | (Inr _, s2) \<Rightarrow>
            if \<not> se_select Q v \<or> map_of (sc_migrations s2) v \<noteq> Some (migrationChecksum sha sql) then (Inl ErrConfig, s2)
            else migrate_each Q sha (v + 1) sqls s2))"

text \<open>The first migration is \<open>initial\<close>, the second the one the server record has.\<close>

definition Migrate :: "'c session \<Rightarrow> db_server \<Rightarrow> string \<Rightarrow> 'c schema \<Rightarrow> unit result \<times> 'c schema" where
  "Migrate Q D initial s =
     (case migrate_each Q (ds_sha256 D) 1 [initial, ds_sql D] s of
        (Inl e, s') \<Rightarrow> (Inl e, s')
      | (Inr _, s') \<Rightarrow> (Ready (seen_by Q s' D), s'))"

section \<open>Grants\<close>

text \<open>
  The SQL of the grants: rights and objects are lists with commas, the kind of the objects is the word before them.
\<close>

definition privileges_of :: "string list \<Rightarrow> privilege list" where
  "privileges_of ws =
     [(ws ! 6, p, ws ! 3, x). p \<leftarrow> split_on (CHR '','') (ws ! 1) [], x \<leftarrow> split_on (CHR '','') (ws ! 4) []]"

definition grant_statement :: "string \<Rightarrow> privilege list \<Rightarrow> privilege list" where
  "grant_statement q ps =
     (let ws = Fields q [] in
      if length ws \<noteq> 7 then ps
      else if ws ! 0 = ''GRANT'' then ps @ privileges_of ws
      else filter (\<lambda>p. p \<notin> set (privileges_of ws)) ps)"

fun run_grants :: "'c session \<Rightarrow> string list \<Rightarrow> 'c schema \<Rightarrow> unit result \<times> 'c schema" where
  "run_grants Q [] s = (Inr (), s)"
| "run_grants Q (q # qs) s =
     (let s1 = s\<lparr>sc_privileges := grant_statement q (sc_privileges s)\<rparr>
      in case se_grant Q q of
        Some reached \<Rightarrow> (Inl ErrDriver, if reached then s1 else s)
      | None \<Rightarrow> run_grants Q qs s1)"

definition runtime_grants :: "string list" where
  "runtime_grants =
     [''REVOKE CREATE ON SCHEMA public FROM public'',
      ''REVOKE CREATE ON SCHEMA public FROM ledger_runtime'',
      ''REVOKE CREATE ON DATABASE pesaro_ledger FROM ledger_runtime'',
      ''GRANT CONNECT ON DATABASE pesaro_ledger TO ledger_runtime'',
      ''GRANT USAGE ON SCHEMA public TO ledger_runtime'',
      ''GRANT SELECT ON TABLE schema_migrations,books,accounts,posting_policies,account_balances,spending_controls,business_claims,holds,limit_usage,journals,journal_lines,account_events,control_events,hold_events,limit_events,resolution_evidence,financial_operations,outbox_facts,outbox_delivery TO ledger_runtime'',
      ''GRANT INSERT ON TABLE accounts,account_balances,spending_controls,business_claims,holds,limit_usage,journals,journal_lines,account_events,control_events,hold_events,limit_events,resolution_evidence,financial_operations,outbox_facts,outbox_delivery TO ledger_runtime'',
      ''GRANT UPDATE ON TABLE account_balances,spending_controls,business_claims,holds,limit_usage,outbox_delivery TO ledger_runtime'',
      ''GRANT SELECT,INSERT ON TABLE outbox_routes TO ledger_runtime'']"

definition GrantRuntime :: "'c session \<Rightarrow> 'c schema \<Rightarrow> unit result \<times> 'c schema" where
  "GrantRuntime Q s = run_grants Q runtime_grants s"

text \<open>The inbox: its one migration, its grants, its readiness.\<close>

definition inbox_grants :: "string list" where
  "inbox_grants =
     [''REVOKE CREATE ON SCHEMA public FROM public'',
      ''REVOKE CREATE ON SCHEMA public FROM reconciliation_runtime'',
      ''REVOKE CREATE ON DATABASE pesaro_reconciliation FROM reconciliation_runtime'',
      ''GRANT CONNECT ON DATABASE pesaro_reconciliation TO reconciliation_runtime'',
      ''GRANT USAGE ON SCHEMA public TO reconciliation_runtime'',
      ''GRANT SELECT ON TABLE schema_migrations,event_inbox,ledger_operations TO reconciliation_runtime'',
      ''GRANT INSERT ON TABLE event_inbox,ledger_operations TO reconciliation_runtime'']"

definition Inbox_Migrate :: "'c session \<Rightarrow> db_server \<Rightarrow> 'c schema \<Rightarrow> unit result \<times> 'c schema" where
  "Inbox_Migrate Q D s =
     (case run_ddl Q (split_on (CHR '';'') (ds_sql D) []) s of (Inl e, s1) \<Rightarrow> (Inl e, s1)
      | (Inr _, s1) \<Rightarrow> (case insert_version Q 1 (schema_checksum D) s1 of (Inl e, s2) \<Rightarrow> (Inl e, s2)
        | (Inr _, s2) \<Rightarrow> (case run_grants Q inbox_grants s2 of (Inl e, s3) \<Rightarrow> (Inl e, s3)
          | (Inr _, s3) \<Rightarrow> (Inbox_Ready (seen_by Q s3 D), s3))))"

section \<open>The commands\<close>

text \<open>\<open>ledger-admin\<close>: its flags as they are parsed, \<open>None\<close> if they do not parse.\<close>

record admin_flags =
  af_synthetic :: bool
  af_action :: string
  af_others :: nat

record ('c) admin_world =
  aw_schema :: "'c schema"
  aw_db :: db

definition ledger_admin ::
  "machine \<Rightarrow> db_server \<Rightarrow> 'c session \<Rightarrow> string \<Rightarrow> env \<Rightarrow> (nat \<Rightarrow> db attempt) \<Rightarrow> (nat \<Rightarrow> bytes) \<Rightarrow> admin_flags option \<Rightarrow> string
    \<Rightarrow> 'c admin_world \<Rightarrow> fixture option result \<times> 'c admin_world" where
  "ledger_admin F D Q initial E attempts rnd flags dsn w =
     (case flags of None \<Rightarrow> (Inl ErrConfig, w)
      | Some a \<Rightarrow>
          if af_others a \<noteq> 0 \<or> \<not> af_synthetic a \<or> (af_action a \<noteq> ''migrate'' \<and> af_action a \<noteq> ''fixture'') then (Inl ErrConfig, w)
          else (case fs_url F dsn of None \<Rightarrow> (Inl ErrConfig, w)
            | Some u \<Rightarrow>
                if ur_User u \<noteq> Some ''root'' \<or> ur_Path u \<noteq> ''/pesaro_ledger'' then (Inl ErrConfig, w)
                else if ur_Hostname u \<noteq> ''localhost'' \<and> \<not> fs_loopback F (ur_Hostname u) then (Inl ErrConfig, w)
                else if \<not> is_ok (Store_Open F D dsn) then (Inl ErrConfig, w)
                else if af_action a = ''migrate'' then
                  (case Migrate Q D initial (aw_schema w) of
                     (Inl _, s1) \<Rightarrow> (Inl ErrConfig, w\<lparr>aw_schema := s1\<rparr>)
                   | (Inr _, s1) \<Rightarrow> (case GrantRuntime Q s1 of
                       (Inl _, s2) \<Rightarrow> (Inl ErrConfig, w\<lparr>aw_schema := s2\<rparr>)
                     | (Inr _, s2) \<Rightarrow> (Inr None, w\<lparr>aw_schema := s2\<rparr>)))
                else if \<not> is_ok (Ready (seen_by Q (aw_schema w) D)) then (Inl ErrConfig, w)
                else (case BootstrapSynthetic E attempts rnd (aw_db w) of
                    ((f, Some _), db') \<Rightarrow> (Inl ErrConfig, w\<lparr>aw_db := db'\<rparr>)
                  | ((f, None), db') \<Rightarrow> (Inr (Some f), w\<lparr>aw_db := db'\<rparr>))))"

text \<open>\<open>reconciliation-admin\<close>: its exit status for its arguments.\<close>

definition reconciliation_admin ::
  "machine \<Rightarrow> db_server \<Rightarrow> 'c session \<Rightarrow> string list \<Rightarrow> string \<Rightarrow> 'c schema \<Rightarrow> nat \<times> 'c schema" where
  "reconciliation_admin F D Q args dsn s =
     (if args \<noteq> [''-synthetic''] then (1, s)
      else case Inbox_Open F D dsn True of Inl _ \<Rightarrow> (1, s)
        | Inr _ \<Rightarrow> (case Inbox_Migrate Q D s of (Inl _, s') \<Rightarrow> (1, s') | (Inr _, s') \<Rightarrow> (0, s')))"

section \<open>Starting the processes\<close>

text \<open>
  \<open>Run\<close> of the two composition roots: the scaffold without a configuration, else what is served, if the listeners can be bound.
\<close>

datatype 'r process = Scaffold string | Serving 'r

definition run_scaffold :: "(string \<Rightarrow> bool) \<Rightarrow> service_definition \<Rightarrow> string \<Rightarrow> 'r process result" where
  "run_scaffold binds d override =
     res_bind (Address d override) (\<lambda>addr. if \<not> binds addr then Inl ErrConfig else Inr (Scaffold addr))"

definition runConfigured ::
  "machine \<Rightarrow> db_server \<Rightarrow> (trust \<Rightarrow> db service) \<Rightarrow> (nat \<Rightarrow> nat \<Rightarrow> db attempt) \<Rightarrow> (string \<Rightarrow> bool) \<Rightarrow> string \<Rightarrow> string \<Rightarrow> db
    \<Rightarrow> runtime process result \<times> db" where
  "runConfigured F D S attempts binds path dsn db =
     (case Runtime_Open F D S attempts path dsn db of (Inl e, db') \<Rightarrow> (Inl e, db')
      | (Inr R, db') \<Rightarrow>
          if \<not> binds (lc_GRPCAddress (pc_Config (rn_config R))) then (Inl ErrConfig, db')
          else if \<not> binds (lc_HTTPAddress (pc_Config (rn_config R))) then (Inl ErrConfig, db')
          else (Inr (Serving R), db'))"

definition ledger_run ::
  "machine \<Rightarrow> db_server \<Rightarrow> (trust \<Rightarrow> db service) \<Rightarrow> (nat \<Rightarrow> nat \<Rightarrow> db attempt) \<Rightarrow> (string \<Rightarrow> bool) \<Rightarrow> (string \<Rightarrow> string) \<Rightarrow> db
    \<Rightarrow> runtime process result \<times> db" where
  "ledger_run F D S attempts binds getenv db =
     (if getenv ''PESAR_LEDGER_CONFIG'' \<noteq> [] then
        runConfigured F D S attempts binds (getenv ''PESAR_LEDGER_CONFIG'') (getenv ''PESAR_LEDGER_DATABASE_URL'') db
      else (run_scaffold binds \<lparr>sd_Name = ''ledger'', sd_DefaultPort = 8105\<rparr> (getenv ''PESARO_HTTP_ADDR''), db))"

definition runEvents ::
  "machine \<Rightarrow> db_server \<Rightarrow> (string \<Rightarrow> bool) \<Rightarrow> string \<Rightarrow> string \<Rightarrow> (event_settings \<times> peer_tls) process result" where
  "runEvents F D binds path dsn =
     res_bind (load_event_config F path) (\<lambda>(config, security).
     res_bind (Inbox_Open F D dsn False) (\<lambda>_. res_bind (Inbox_Ready D) (\<lambda>_.
       if \<not> binds (es_Address config) then Inl ErrConfig else Inr (Serving (config, security)))))"

definition reconciliation_run ::
  "machine \<Rightarrow> db_server \<Rightarrow> (string \<Rightarrow> bool) \<Rightarrow> (string \<Rightarrow> string) \<Rightarrow> (event_settings \<times> peer_tls) process result" where
  "reconciliation_run F D binds getenv =
     (if getenv ''PESAR_RECONCILIATION_CONFIG'' \<noteq> [] then
        runEvents F D binds (getenv ''PESAR_RECONCILIATION_CONFIG'') (getenv ''PESAR_RECONCILIATION_DATABASE_URL'')
      else run_scaffold binds \<lparr>sd_Name = ''reconciliation'', sd_DefaultPort = 8111\<rparr> (getenv ''PESARO_HTTP_ADDR''))"

section \<open>What is recorded stays\<close>

definition kept_versions :: "'c schema \<Rightarrow> 'c schema \<Rightarrow> bool" where
  "kept_versions s s' = (\<forall>v c. map_of (sc_migrations s) v = Some c \<longrightarrow> map_of (sc_migrations s') v = Some c)"

lemma run_ddl_versions: "run_ddl Q qs s = (r, s') \<Longrightarrow> sc_migrations s' = sc_migrations s"
  by (induction qs arbitrary: s) (force split: if_split_asm prod.split_asm)+

lemma run_grants_versions: "run_grants Q qs s = (r, s') \<Longrightarrow> sc_migrations s' = sc_migrations s"
  by (induction qs arbitrary: s) (force simp: Let_def split: option.split_asm if_split_asm)+

lemma insert_version_kept: "insert_version Q v c s = (r, s') \<Longrightarrow> kept_versions s s'"
  by (auto simp: insert_version_def record_version_def kept_versions_def update_conv' split: option.split_asm if_split_asm)

lemma migrate_each_kept: "migrate_each Q sha v sqls s = (r, s') \<Longrightarrow> kept_versions s s'"
proof (induction sqls arbitrary: v s)
  case (Cons sql sqls)
  obtain r1 s1 r2 s2 where steps: "run_ddl Q (split_on (CHR '';'') sql []) s = (r1, s1)"
    "insert_version Q v (migrationChecksum sha sql) s1 = (r2, s2)" by (metis prod.exhaust)
  have "kept_versions s s1" using run_ddl_versions [OF steps(1)] by (simp add: kept_versions_def)
  moreover have "kept_versions s1 s2" by (rule insert_version_kept [OF steps(2)])
  ultimately have "kept_versions s s2" by (simp add: kept_versions_def)
  moreover have "kept_versions s2 s'" if "migrate_each Q sha (v + 1) sqls s2 = (r, s')" by (rule Cons.IH [OF that])
  ultimately show ?case using Cons.prems steps \<open>kept_versions s s1\<close>
    by (auto simp: kept_versions_def split: sum.split_asm if_split_asm)
qed (simp add: kept_versions_def)

lemma migrate_each_recorded:
  assumes "migrate_each Q sha v sqls s = (Inr u, s')" and "k < length sqls"
  shows "map_of (sc_migrations s') (v + int k) = Some (migrationChecksum sha (sqls ! k))"
  using assms
proof (induction sqls arbitrary: v s k)
  case (Cons sql sqls)
  obtain s2 where s2: "map_of (sc_migrations s2) v = Some (migrationChecksum sha sql)" "migrate_each Q sha (v + 1) sqls s2 = (Inr u, s')"
    using Cons.prems(1) by (auto split: prod.split_asm sum.split_asm if_split_asm)
  show ?case
  proof (cases k)
    case 0
    then show ?thesis using migrate_each_kept [OF s2(2)] s2(1) by (simp add: kept_versions_def)
  next
    case (Suc n)
    then show ?thesis using Cons.IH [OF s2(2), of n] Cons.prems(2) by (simp add: algebra_simps)
  qed
qed simp

text \<open>A schema with another migration under the same version is refused, whatever the statements did.\<close>

lemma foreign_schema_refused:
  assumes "map_of (sc_migrations s) 1 = Some c" and "c \<noteq> migrationChecksum (ds_sha256 D) initial"
    and "Migrate Q D initial s = (r, s')"
  shows "\<not> is_ok r"
proof
  assume "is_ok r"
  then obtain u s1 where m: "migrate_each Q (ds_sha256 D) 1 [initial, ds_sql D] s = (Inr u, s1)"
    using assms(3) unfolding Migrate_def by (auto split: prod.split_asm sum.split_asm)
  have "map_of (sc_migrations s1) 1 = Some c" using migrate_each_kept [OF m] assms(1) by (simp add: kept_versions_def)
  then show False using migrate_each_recorded [OF m, of 0] assms(2) by simp
qed

section \<open>What is granted\<close>

definition table_privilege :: "string \<times> string \<Rightarrow> privilege" where
  "table_privilege = (\<lambda>(right, name). (''ledger_runtime'', right, ''TABLE'', name))"

lemma run_grants_value: "run_grants Q qs s = (Inr u, s') \<Longrightarrow> sc_privileges s' = fold grant_statement qs (sc_privileges s)"
  by (induction qs arbitrary: s) (auto simp: Let_def split: option.split_asm)

lemma grant_statement_mono: "set ps \<subseteq> set ps' \<Longrightarrow> set (grant_statement q ps) \<subseteq> set (grant_statement q ps')"
  by (auto simp: grant_statement_def Let_def)

lemma fold_grants_mono: "set ps \<subseteq> set ps' \<Longrightarrow> set (fold grant_statement qs ps) \<subseteq> set (fold grant_statement qs ps')"
  by (induction qs arbitrary: ps ps') (simp_all add: grant_statement_mono)

lemma fold_grants_new:
  "set a \<subseteq> set ps \<union> set b \<Longrightarrow> set (fold grant_statement qs a) \<subseteq> set ps \<union> set (fold grant_statement qs b)"
proof (induction qs arbitrary: a b)
  case (Cons q qs)
  have "set (grant_statement q a) \<subseteq> set ps \<union> set (grant_statement q b)"
    using Cons.prems by (auto simp: grant_statement_def Let_def)
  then show ?case using Cons.IH by simp
qed simp

lemma grants_evaluated:
  "let G = fold grant_statement runtime_grants [] in
     list_all (\<lambda>p. p \<in> set G) (map table_privilege serving_rights) \<and>
     list_all (\<lambda>(role, right, kind, name). role = ''ledger_runtime'' \<and> kind = ''TABLE'' \<longrightarrow>
       right = ''SELECT'' \<or> right = ''INSERT'' \<or> right = ''UPDATE'' \<and> name \<in> set updated_tables) G"
  by code_simp

lemmas granted = grants_evaluated [unfolded Let_def, THEN conjunct1] grants_evaluated [unfolded Let_def, THEN conjunct2]

section \<open>Property\<close>

text \<open>
  C26. The serving workload needs no right it is not granted, and is granted no right to rewrite history: after \<open>GrantRuntime\<close>, whatever
  commands, bindings, claims and acknowledgements are committed insert or change rows only where the role may, nothing is ever deleted, and
  on tables the grants add reading, inserting, and updating of the current state alone: journals, events, evidence, operations, facts,
  accounts, books and policies cannot be updated.
\<close>

theorem serving_needs_granted_rights:
  assumes "GrantRuntime Q s = (Inr u, s')" and "(serving E t)\<^sup>*\<^sup>* db db'"
  shows "set (map table_privilege (needed db db')) \<subseteq> set (sc_privileges s')
    \<and> (\<forall>right name. (''ledger_runtime'', right, ''TABLE'', name) \<in> set (sc_privileges s') \<longrightarrow>
         (''ledger_runtime'', right, ''TABLE'', name) \<in> set (sc_privileges s) \<or> right = ''SELECT'' \<or> right = ''INSERT''
         \<or> right = ''UPDATE'' \<and> name \<in> set updated_tables)"
proof -
  have s': "sc_privileges s' = fold grant_statement runtime_grants (sc_privileges s)"
    using assms(1) by (simp add: GrantRuntime_def run_grants_value)
  have "set (map table_privilege (needed db db')) \<subseteq> set (map table_privilege serving_rights)"
    using served_within [OF assms(2)] by (auto simp: within_def)
  also have "\<dots> \<subseteq> set (fold grant_statement runtime_grants [])" using granted(1) by (auto simp only: list_all_iff)
  also have "\<dots> \<subseteq> set (sc_privileges s')" unfolding s' by (rule fold_grants_mono) simp
  finally have rights: "set (map table_privilege (needed db db')) \<subseteq> set (sc_privileges s')" .
  have "set (sc_privileges s') \<subseteq> set (sc_privileges s) \<union> set (fold grant_statement runtime_grants [])"
    unfolding s' by (rule fold_grants_new) simp
  with rights show ?thesis using granted(2) by (fastforce simp: list_all_iff)
qed

definition x_session :: "unit session" where
  "x_session = \<lparr>se_ddl = (\<lambda>_ _. (True, ())), se_grant = (\<lambda>_. None), se_insert = (\<lambda>_. None), se_select = (\<lambda>_. True), se_latest = True\<rparr>"

definition x_schema :: "unit schema" where
  "x_schema = \<lparr>sc_objects = (), sc_privileges = [], sc_migrations = []\<rparr>"

definition x_unbound :: db where "x_unbound = empty_db\<lparr>db_books := db_books x_db\<rparr>"

definition x_bound :: db where "x_bound = x_unbound\<lparr>db_routes := [(x_book_id, ''c'')]\<rparr>"

lemma run_grants_succeeds: "(\<And>q. se_grant Q q = None) \<Longrightarrow> fst (run_grants Q qs s) = Inr ()"
  by (induction qs arbitrary: s) (simp_all add: Let_def)

lemma x_granted: "fst (GrantRuntime x_session x_schema) = Inr ()"
  unfolding GrantRuntime_def by (rule run_grants_succeeds) (simp add: x_session_def)

lemma x_binds: "bind_tx x_book_id ''c'' (x_time 1) x_unbound = Inr (zero_receipt, x_bound)"
  by (simp add: bind_tx_def x_bound_def x_unbound_def x_db_def empty_db_def outbox_used_def insert_row_def has_book_def)

theorem serving_needs_granted_rights_witness:
  "\<exists>s'. GrantRuntime x_session x_schema = (Inr (), s') \<and> (''ledger_runtime'', ''INSERT'', ''TABLE'', ''outbox_routes'') \<in> set (sc_privileges s')"
proof -
  obtain s' where s': "GrantRuntime x_session x_schema = (Inr (), s')" using x_granted by (metis prod.collapse)
  have "serving x_env x_trust x_unbound x_bound" by (rule serving.bind_consumer [OF x_binds])
  then have "set (map table_privilege (needed x_unbound x_bound)) \<subseteq> set (sc_privileges s')"
    using serving_needs_granted_rights [OF s'] by blast
  moreover have "needed x_unbound x_bound = [(''INSERT'', ''outbox_routes'')]"
    by (simp add: needed_def x_bound_def x_unbound_def) (simp add: touched_def empty_db_def)
  ultimately show ?thesis using s' by (simp add: table_privilege_def)
qed

end
