(* ===== verification/Draining.thy ===== *)
theory Draining
  imports Runtime
begin

text \<open>
  \<open>Serve\<close> of \<open>app/runtime.go\<close>: the main goroutine, the worker, the two servers and the drain timer as one step relation, and how
  the single servers of \<open>service.go\<close> and \<open>events.go\<close> end. What \<open>net/http\<close> and gRPC document of \<open>Serve\<close>,
  \<open>Shutdown\<close>, \<open>GracefulStop\<close> and \<open>Stop\<close> is in the guards.
\<close>

section \<open>States\<close>

text \<open>What a \<open>Serve\<close> of a server returns.\<close>

datatype stop = NilError | ServerClosed | ServerStopped | Failed error

text \<open>Where the main goroutine is: at the statement it is about to pass.\<close>

datatype serve_pc = Entry | Waiting | ShuttingDown | AwaitGraceful | AwaitStop | Collecting | AwaitWorker | Returned

text \<open>
  \<open>sv_stopped\<close> is the channel of that name; \<open>sv_worker\<close>, \<open>sv_rpc\<close> and \<open>sv_http\<close> tell which goroutines run;
  \<open>sv_graceful\<close> and \<open>sv_hard\<close> whether \<open>GracefulStop\<close> and \<open>Stop\<close> were called, \<open>sv_grpc_done\<close> is \<open>grpcDone\<close>.
\<close>

record serve_state =
  sv_at :: serve_pc
  sv_done :: bool
  sv_serving :: bool
  sv_worker :: bool
  sv_stop_worker :: bool
  sv_rpc :: bool
  sv_http :: bool
  sv_stopped :: "stop list"
  sv_completed :: nat
  sv_result :: stop
  sv_graceful :: bool
  sv_hard :: bool
  sv_grpc_done :: bool
  sv_shutdown :: bool
  sv_drain :: bool

definition serve_init :: serve_state where
  "serve_init = \<lparr>sv_at = Entry, sv_done = False, sv_serving = False, sv_worker = False, sv_stop_worker = False, sv_rpc = False, sv_http = False,
     sv_stopped = [], sv_completed = 0, sv_result = NilError, sv_graceful = False, sv_hard = False, sv_grpc_done = False, sv_shutdown = False,
     sv_drain = False\<rparr>"

text \<open>What follows the first \<open>select\<close>.\<close>

definition begin_drain :: "serve_state \<Rightarrow> serve_state" where
  "begin_drain s = s\<lparr>sv_at := ShuttingDown, sv_serving := False, sv_graceful := True, sv_shutdown := True\<rparr>"

definition stop_result :: "stop \<Rightarrow> stop" where
  "stop_result e = (if e = ServerClosed \<or> e = ServerStopped then NilError else e)"

section \<open>Steps\<close>

text \<open>
  The label tells whether the step is certain to happen once it is possible: steps of the main goroutine are, the timer is, a server that was
  told to stop returns, a worker whose context is done returns. A cancellation, a failure, and the end of the last call need not happen.
\<close>

inductive serve_step :: "bool \<Rightarrow> bool \<Rightarrow> serve_state \<Rightarrow> serve_state \<Rightarrow> bool" for outbox where
  refuse: "sv_at s = Entry \<Longrightarrow> sv_done s \<Longrightarrow> serve_step outbox True s (s\<lparr>sv_at := Returned\<rparr>)"
| enter: "sv_at s = Entry \<Longrightarrow> \<not> sv_done s \<Longrightarrow>
    serve_step outbox True s (s\<lparr>sv_at := Waiting, sv_serving := True, sv_worker := outbox, sv_rpc := True, sv_http := True\<rparr>)"
| cancelled: "sv_at s = Waiting \<Longrightarrow> sv_done s \<Longrightarrow> serve_step outbox True s (begin_drain s)"
| server_ended: "sv_at s = Waiting \<Longrightarrow> sv_stopped s = e # es \<Longrightarrow>
    serve_step outbox True s (begin_drain (s\<lparr>sv_stopped := es, sv_completed := 1, sv_result := stop_result e\<rparr>))"
| drained: "sv_at s = ShuttingDown \<Longrightarrow> serve_step outbox False s (s\<lparr>sv_at := AwaitGraceful\<rparr>)"
| closed: "sv_at s = ShuttingDown \<Longrightarrow> sv_drain s \<Longrightarrow> serve_step outbox True s (s\<lparr>sv_at := AwaitGraceful\<rparr>)"
| graceful: "sv_at s = AwaitGraceful \<Longrightarrow> sv_grpc_done s \<Longrightarrow> serve_step outbox True s (s\<lparr>sv_at := Collecting\<rparr>)"
| hard: "sv_at s = AwaitGraceful \<Longrightarrow> sv_drain s \<Longrightarrow> serve_step outbox True s (s\<lparr>sv_at := AwaitStop, sv_hard := True\<rparr>)"
| stopped: "sv_at s = AwaitStop \<Longrightarrow> sv_grpc_done s \<Longrightarrow> serve_step outbox True s (s\<lparr>sv_at := Collecting\<rparr>)"
| collect: "sv_at s = Collecting \<Longrightarrow> sv_completed s < 2 \<Longrightarrow> sv_stopped s = e # es \<Longrightarrow>
    serve_step outbox True s (s\<lparr>sv_stopped := es, sv_completed := sv_completed s + 1\<rparr>)"
| collected: "sv_at s = Collecting \<Longrightarrow> \<not> sv_completed s < 2 \<Longrightarrow>
    serve_step outbox True s (s\<lparr>sv_at := AwaitWorker, sv_stop_worker := True\<rparr>)"
| finish: "sv_at s = AwaitWorker \<Longrightarrow> \<not> sv_worker s \<Longrightarrow> serve_step outbox True s (s\<lparr>sv_at := Returned\<rparr>)"
| cancel: "\<not> sv_done s \<Longrightarrow> serve_step outbox False s (s\<lparr>sv_done := True\<rparr>)"
| worker_ends: "sv_worker s \<Longrightarrow> serve_step outbox (sv_done s \<or> sv_stop_worker s) s (s\<lparr>sv_worker := False\<rparr>)"
| rpc_fails: "sv_rpc s \<Longrightarrow> serve_step outbox False s (s\<lparr>sv_rpc := False, sv_stopped := sv_stopped s @ [Failed e]\<rparr>)"
| rpc_closes: "sv_rpc s \<Longrightarrow> sv_graceful s \<Longrightarrow> e \<in> {NilError, ServerStopped} \<Longrightarrow>
    serve_step outbox (sv_grpc_done s) s (s\<lparr>sv_rpc := False, sv_stopped := sv_stopped s @ [e]\<rparr>)"
| http_fails: "sv_http s \<Longrightarrow> serve_step outbox False s (s\<lparr>sv_http := False, sv_stopped := sv_stopped s @ [Failed e]\<rparr>)"
| http_closes: "sv_http s \<Longrightarrow> sv_shutdown s \<Longrightarrow>
    serve_step outbox True s (s\<lparr>sv_http := False, sv_stopped := sv_stopped s @ [ServerClosed]\<rparr>)"
| calls_end: "sv_graceful s \<Longrightarrow> \<not> sv_grpc_done s \<Longrightarrow> serve_step outbox (sv_hard s) s (s\<lparr>sv_grpc_done := True\<rparr>)"
| timer: "sv_shutdown s \<Longrightarrow> \<not> sv_drain s \<Longrightarrow> serve_step outbox True s (s\<lparr>sv_drain := True\<rparr>)"

text \<open>The states after a number of steps.\<close>

inductive serve_run :: "bool \<Rightarrow> nat \<Rightarrow> serve_state \<Rightarrow> bool" for outbox where
  init: "serve_run outbox 0 serve_init"
| step: "serve_run outbox n s \<Longrightarrow> serve_step outbox c s s' \<Longrightarrow> serve_run outbox (Suc n) s'"

text \<open>The single HTTP servers: what ended first, whether \<open>Shutdown\<close> was in time, what \<open>Serve\<close> returned in the end.\<close>

definition scaffold_serve :: "stop option \<Rightarrow> bool \<Rightarrow> stop \<Rightarrow> stop" where
  "scaffold_serve first in_time last_stop =
     (case first of Some e \<Rightarrow> e
      | None \<Rightarrow> if \<not> in_time then Failed ErrUnavailable else if last_stop = ServerClosed then NilError else last_stop)"

definition events_serve :: "stop option \<Rightarrow> stop" where
  "events_serve first = (case first of Some e \<Rightarrow> if e = ServerClosed then NilError else e | None \<Rightarrow> NilError)"

definition exit_status :: "stop \<Rightarrow> nat" where
  "exit_status e = (if e = NilError then 0 else 1)"

section \<open>Invariant\<close>

text \<open>Goroutines of servers that run or whose end was seen or waits in the channel.\<close>

definition servers :: "serve_state \<Rightarrow> nat" where
  "servers s = sv_completed s + length (sv_stopped s) + of_bool (sv_rpc s) + of_bool (sv_http s)"

definition serve_inv :: "serve_state \<Rightarrow> bool" where
  "serve_inv s =
     ((sv_serving s \<longleftrightarrow> sv_at s = Waiting)
    \<and> (sv_at s \<noteq> Returned \<longrightarrow> servers s = (if sv_at s = Entry then 0 else 2))
    \<and> (sv_at s = Waiting \<longrightarrow> sv_completed s = 0) \<and> sv_completed s \<le> 2
    \<and> (sv_at s \<in> {ShuttingDown, AwaitGraceful, AwaitStop, Collecting, AwaitWorker} \<longrightarrow> sv_graceful s \<and> sv_shutdown s)
    \<and> (sv_at s \<in> {Entry, Waiting} \<longrightarrow> \<not> sv_graceful s \<and> \<not> sv_shutdown s)
    \<and> (sv_at s = AwaitStop \<longrightarrow> sv_hard s) \<and> (sv_at s \<in> {Collecting, AwaitWorker} \<longrightarrow> sv_grpc_done s)
    \<and> (sv_at s = AwaitWorker \<longrightarrow> sv_completed s = 2 \<and> sv_stop_worker s)
    \<and> (sv_at s \<in> {Entry, Returned} \<longrightarrow> \<not> sv_worker s \<and> \<not> sv_rpc s \<and> \<not> sv_http s)
    \<and> (sv_at s = Returned \<longrightarrow> sv_stopped s = [] \<and>
         (sv_completed s = 0 \<and> sv_done s \<and> \<not> sv_shutdown s \<or> sv_completed s = 2 \<and> sv_grpc_done s \<and> sv_shutdown s))
    \<and> sv_result s \<notin> {ServerClosed, ServerStopped})"

lemma serve_inv_init: "serve_inv serve_init"
  by (simp add: serve_inv_def serve_init_def servers_def)

lemma serve_inv_step: "serve_step outbox c s s' \<Longrightarrow> serve_inv s \<Longrightarrow> serve_inv s'"
  by (induction rule: serve_step.induct)
    (auto simp: serve_inv_def begin_drain_def servers_def stop_result_def of_bool_def split: if_splits)

lemma serve_run_inv: "serve_run outbox n s \<Longrightarrow> serve_inv s"
  by (induction rule: serve_run.induct) (simp_all add: serve_inv_init serve_inv_step)

section \<open>Termination\<close>

text \<open>What may still happen: the way of the main goroutine, and every other event once.\<close>

definition way :: "serve_pc \<Rightarrow> nat" where
  "way pc = (case pc of Entry \<Rightarrow> 10 | Waiting \<Rightarrow> 6 | ShuttingDown \<Rightarrow> 5 | AwaitGraceful \<Rightarrow> 4 | AwaitStop \<Rightarrow> 3 | Collecting \<Rightarrow> 2
     | AwaitWorker \<Rightarrow> 1 | Returned \<Rightarrow> 0)"

definition left :: "serve_state \<Rightarrow> nat" where
  "left s = way (sv_at s) + (2 - sv_completed s) + of_bool (\<not> sv_done s) + of_bool (sv_worker s) + of_bool (sv_rpc s) + of_bool (sv_http s)
     + of_bool (\<not> sv_grpc_done s) + of_bool (\<not> sv_drain s)"

lemma serve_step_left: "serve_step outbox c s s' \<Longrightarrow> serve_inv s \<Longrightarrow> left s' < left s"
  by (induction rule: serve_step.induct) (auto simp: left_def way_def begin_drain_def serve_inv_def of_bool_def)

lemma serve_run_left: "serve_run outbox n s \<Longrightarrow> n + left s \<le> 15"
proof (induction rule: serve_run.induct)
  case init
  then show ?case by (simp add: left_def way_def serve_init_def)
next
  case (step n s c s')
  then show ?case using serve_step_left [OF step.hyps(2) serve_run_inv [OF step.hyps(1)]] by simp
qed

text \<open>Nothing certain is left to happen only where it waits for its context or has returned.\<close>

lemma serve_certain:
  assumes "serve_inv s" and "\<And>s'. \<not> serve_step outbox True s s'" and "sv_done s \<or> sv_stopped s \<noteq> [] \<or> sv_graceful s"
  shows "sv_at s = Returned"
proof -
  have c1: "\<not> sv_shutdown s \<or> sv_drain s" using assms(2) serve_step.timer by blast
  have c2: "\<not> sv_http s \<or> \<not> sv_shutdown s" using assms(2) serve_step.http_closes by blast
  have c4: "\<not> sv_worker s \<or> \<not> sv_stop_worker s"
  proof (rule ccontr)
    assume "\<not> ?thesis"
    then show False using serve_step.worker_ends [of s outbox] assms(2) by simp
  qed
  have c5: "\<not> sv_graceful s \<or> sv_grpc_done s \<or> \<not> sv_hard s"
  proof (rule ccontr)
    assume "\<not> ?thesis"
    then show False using serve_step.calls_end [of s outbox] assms(2) by simp
  qed
  have c6: "\<not> sv_rpc s \<or> \<not> sv_graceful s \<or> \<not> sv_grpc_done s"
  proof (rule ccontr)
    assume "\<not> ?thesis"
    then show False using serve_step.rpc_closes [of s NilError outbox] assms(2) by simp
  qed
  show ?thesis
  proof (rule ccontr)
    assume "sv_at s \<noteq> Returned"
    then consider "sv_at s = Entry" | "sv_at s = Waiting" | "sv_at s = ShuttingDown" | "sv_at s = AwaitGraceful" | "sv_at s = AwaitStop"
      | "sv_at s = Collecting" | "sv_at s = AwaitWorker" by (cases "sv_at s") auto
    then show False
    proof cases
      case 1
      then show ?thesis using assms(2) serve_step.refuse serve_step.enter by blast
    next
      case 2
      then have "\<not> sv_done s" using assms(2) serve_step.cancelled by blast
      moreover have "\<not> sv_graceful s" using 2 assms(1) by (simp add: serve_inv_def)
      ultimately obtain e es where "sv_stopped s = e # es" using assms(3) by (cases "sv_stopped s") auto
      then show ?thesis using 2 assms(2) serve_step.server_ended by blast
    next
      case 3
      then show ?thesis using assms(1,2) c1 serve_step.closed by (auto simp: serve_inv_def)
    next
      case 4
      then show ?thesis using assms(1,2) c1 serve_step.hard by (auto simp: serve_inv_def)
    next
      case 5
      then show ?thesis using assms(1,2) c5 serve_step.stopped by (auto simp: serve_inv_def)
    next
      case 6
      then have "sv_completed s < 2 \<Longrightarrow> sv_stopped s \<noteq> []" using assms(1) c2 c6 by (auto simp: serve_inv_def servers_def)
      then show ?thesis using 6 assms(2) serve_step.collect serve_step.collected by (cases "sv_stopped s") blast+
    next
      case 7
      then show ?thesis using assms(1,2) c4 serve_step.finish by (auto simp: serve_inv_def)
    qed
  qed
qed

section \<open>Property\<close>

text \<open>
  C37. \<open>Serve\<close> drains and returns: whatever happens in whatever order, there are at most fifteen steps, and once the context is done or a
  server has ended something certain is left to happen until it has returned; then the worker and both servers have ended, their results are
  consumed, every call has ended if the servers were started at all, and a regular end of a server is no error. It is ready only while it waits.
\<close>

theorem serve_drains:
  assumes "serve_run outbox n s"
  shows "n \<le> 15
    \<and> (sv_at s \<noteq> Waiting \<longrightarrow> fst (operations R D db (sv_serving s) ''/readyz'' ''GET'') = 503)
    \<and> (sv_done s \<or> sv_stopped s \<noteq> [] \<or> sv_graceful s \<longrightarrow> sv_at s = Returned \<or> (\<exists>s'. serve_step outbox True s s'))
    \<and> (sv_at s = Returned \<longrightarrow> \<not> sv_worker s \<and> \<not> sv_rpc s \<and> \<not> sv_http s \<and> sv_stopped s = [] \<and> (sv_grpc_done s \<or> sv_completed s = 0 \<and> sv_done s)
         \<and> (sv_result s = NilError \<or> (\<exists>e. sv_result s = Failed e)))"
proof (intro conjI)
  note inv = serve_run_inv [OF assms]
  show "n \<le> 15" using serve_run_left [OF assms] by simp
  show "sv_at s \<noteq> Waiting \<longrightarrow> fst (operations R D db (sv_serving s) ''/readyz'' ''GET'') = 503"
    using inv by (simp add: serve_inv_def operations_def)
  show "sv_done s \<or> sv_stopped s \<noteq> [] \<or> sv_graceful s \<longrightarrow> sv_at s = Returned \<or> (\<exists>s'. serve_step outbox True s s')"
    using serve_certain [OF inv] by blast
  show "sv_at s = Returned \<longrightarrow> \<not> sv_worker s \<and> \<not> sv_rpc s \<and> \<not> sv_http s \<and> sv_stopped s = [] \<and> (sv_grpc_done s \<or> sv_completed s = 0 \<and> sv_done s)
         \<and> (sv_result s = NilError \<or> (\<exists>e. sv_result s = Failed e))"
    using inv by (cases "sv_result s") (auto simp: serve_inv_def)
qed

text \<open>A run: it enters, the listener of the operations fails, and it drains.\<close>

definition x_waiting :: serve_state where
  "x_waiting = serve_init\<lparr>sv_at := Waiting, sv_serving := True, sv_worker := True, sv_rpc := True, sv_http := True\<rparr>"

definition x_failed :: serve_state where "x_failed = x_waiting\<lparr>sv_http := False, sv_stopped := [Failed ErrUnavailable]\<rparr>"

definition x_draining :: serve_state where
  "x_draining = begin_drain (x_failed\<lparr>sv_stopped := [], sv_completed := 1, sv_result := Failed ErrUnavailable\<rparr>)"

definition x_closed :: serve_state where
  "x_closed = x_draining\<lparr>sv_grpc_done := True, sv_rpc := False, sv_stopped := [NilError], sv_at := Collecting\<rparr>"

definition x_returned :: serve_state where
  "x_returned = x_closed\<lparr>sv_stopped := [], sv_completed := 2, sv_stop_worker := True, sv_worker := False, sv_at := Returned\<rparr>"

lemmas x_runs = x_waiting_def x_failed_def x_draining_def x_closed_def x_returned_def serve_init_def begin_drain_def stop_result_def

lemma x_run_waiting: "serve_run True 1 x_waiting"
  using serve_run.step [OF serve_run.init serve_step.enter [of serve_init True]] by (simp add: x_runs)

lemma x_run_failed: "serve_run True 2 x_failed"
  using serve_run.step [OF x_run_waiting serve_step.http_fails [of x_waiting True ErrUnavailable]] by (simp add: x_runs numeral_2_eq_2)

lemma x_run_draining: "serve_run True 3 x_draining"
  using serve_run.step [OF x_run_failed serve_step.server_ended [of x_failed "Failed ErrUnavailable" "[]" True]] by (simp add: x_runs eval_nat_numeral)

lemma x_run_closed: "serve_run True 7 x_closed"
proof -
  have 1: "serve_run True 4 (x_draining\<lparr>sv_grpc_done := True\<rparr>)"
    using serve_run.step [OF x_run_draining serve_step.calls_end [of x_draining True]] by (simp add: x_runs eval_nat_numeral)
  have 2: "serve_run True 5 (x_draining\<lparr>sv_grpc_done := True, sv_rpc := False, sv_stopped := [NilError]\<rparr>)"
    using serve_run.step [OF 1 serve_step.rpc_closes [of _ NilError True]] by (simp add: x_runs eval_nat_numeral)
  have 3: "serve_run True 6 (x_draining\<lparr>sv_grpc_done := True, sv_rpc := False, sv_stopped := [NilError], sv_at := AwaitGraceful\<rparr>)"
    using serve_run.step [OF 2 serve_step.drained [of _ True]] by (simp add: x_runs eval_nat_numeral)
  show ?thesis using serve_run.step [OF 3 serve_step.graceful [of _ True]] by (simp add: x_runs eval_nat_numeral)
qed

lemma x_run_returned: "serve_run True 11 x_returned"
proof -
  have 1: "serve_run True 8 (x_closed\<lparr>sv_stopped := [], sv_completed := 2\<rparr>)"
    using serve_run.step [OF x_run_closed serve_step.collect [of x_closed NilError "[]" True]] by (simp add: x_runs eval_nat_numeral)
  have 2: "serve_run True 9 (x_closed\<lparr>sv_stopped := [], sv_completed := 2, sv_at := AwaitWorker, sv_stop_worker := True\<rparr>)"
    using serve_run.step [OF 1 serve_step.collected [of _ True]] by (simp add: x_runs eval_nat_numeral)
  have 3: "serve_run True 10 (x_closed\<lparr>sv_stopped := [], sv_completed := 2, sv_at := AwaitWorker, sv_stop_worker := True, sv_worker := False\<rparr>)"
    using serve_run.step [OF 2 serve_step.worker_ends [of _ True]] by (simp add: x_runs eval_nat_numeral)
  show ?thesis using serve_run.step [OF 3 serve_step.finish [of _ True]] by (simp add: x_runs eval_nat_numeral)
qed

theorem serve_drains_witness:
  "serve_run True 11 x_returned \<and> sv_result x_returned = Failed ErrUnavailable \<and> \<not> sv_worker x_returned \<and> \<not> sv_rpc x_returned"
proof -
  have "sv_at x_returned = Returned" "sv_result x_returned = Failed ErrUnavailable" by (simp_all add: x_runs)
  then show ?thesis using serve_drains [OF x_run_returned] x_run_returned by blast
qed

end
