(* ===== verification/Spec2Isabelle.thy ===== *)
theory Spec2Isabelle
  imports Publisher Small_Book Sent Streamed Administration Draining
begin

text \<open>
  The Pesaro ledger and its reconciliation: a payments ledger in Go that executes commands exactly once against serializable SQL
  transactions, publishes one event per operation to a second service, and exports snapshots that this second service verifies on its own.
  The theories model the Go code under \<open>src/services/ledger\<close>, \<open>src/services/reconciliation\<close>,
  \<open>src/contracts/events\<close> and \<open>src/internal/platform\<close>.

  Parts and theories, in the order of the calls. Below, \<open>L\<close> is \<open>services/ledger/internal\<close> and \<open>R\<close> is
  \<open>services/reconciliation/internal\<close>.

  \<^item> Domain. \<open>Money\<close> (\<open>L/domain/money.go\<close>): \<open>Amount\<close> is a 64-bit word of minor units, \<open>Wide\<close> a canonical decimal
    text. \<open>Accounting\<close> (\<open>accounting.go\<close>): identities, books, accounts, totals, balanced journals. \<open>Holds\<close>
    (\<open>holds.go\<close>): the state machine of a hold and the usage of a daily limit. Both arithmetics are instances of the locale
    \<open>exact_money\<close>, and posting, reserving and admission refine specifications on integers.
  \<^item> Decision. \<open>Model\<close>, \<open>Auth\<close>, \<open>Command\<close> and \<open>Evaluate\<close>
    (\<open>L/application/model.go, auth.go, service.go, evaluate.go\<close>): the data, signed grants and evidence, validation and the canonical
    instruction of a command, and \<open>evaluate\<close>, which turns a command and the state loaded for it into a plan or a rejection.
    \<open>Effects\<close> describes what an applied plan does to money, \<open>Payments\<close> proves that it conserves money, needs authority, respects
    freezes and limits, and moves holds on evidence only. \<open>Scenario\<close> is the small state on which these properties are evaluated.
  \<^item> Execution. \<open>Service\<close> (\<open>service.go\<close>): \<open>Execute\<close>, its reads and its receipts, over the locale
    \<open>receipt_store\<close>, which says what the service expects of a store. \<open>Tables\<close>, \<open>Store\<close>, \<open>Save\<close> and
    \<open>Transact\<close> (\<open>L/store/cockroach/store.go, read.go, save.go\<close> and the migrations): the tables with their constraints, every read
    and write, and the retry loop. \<open>Exactly_Once\<close> proves idempotence and atomicity under interference of other transactions.
  \<^item> The books. \<open>Persistence\<close>, \<open>Books\<close>, \<open>Loading\<close>, \<open>Plans\<close> and \<open>Integrity\<close> carry the invariant
    that ties balances to journal lines and held funds to open holds through load, decision and save. \<open>Fixture\<close> (\<open>fixture.go\<close>) is
    the synthetic bootstrap, \<open>Outbox\<close> (\<open>outbox.go\<close>) routes, leases and acknowledgements. \<open>Ledger\<close> is the step
    relation of all of them with its reachable databases, and the properties of every reachable one.
  \<^item> Publication. \<open>Event\<close> (\<open>contracts/events/ledger/v1/event.go\<close>): the envelope, encoded and decoded. \<open>Inbox\<close>
    (\<open>R/inbox/store.go\<close>, \<open>R/app/events.go\<close>, \<open>internal/platform/eventtransport\<close>): acceptance of an event with
    retries, the HTTP handler, peers and sending. \<open>Publisher\<close> (\<open>L/publisher/worker.go\<close>): the worker, over the locale
    \<open>event_sink\<close> and its extension \<open>sound_sink\<close>, both interpreted on the inbox; what is marked delivered is in the
    inbox, projected with what its receipt says, as long as SHA-256 does not collide on the texts in play. \<open>Encode\<close> bounds the
    length of a text before canonicalisation only, so a wire form may be too long for \<open>Decode\<close> (\<open>encoded_may_outgrow\<close>).
  \<^item> Verification of snapshots. \<open>Json_Text\<close> and \<open>Json_Write\<close> read and write JSON as \<open>encoding/json\<close> does.
    \<open>Snapshot_Data\<close>, \<open>Verify\<close> and \<open>Histories\<close> (\<open>R/verify/snapshot.go\<close>): decoding and every check.
    \<open>Verified\<close>, \<open>Reconciled\<close> and \<open>Limits\<close> prove what a valid report establishes, \<open>Small_Book\<close> is a snapshot
    that is accepted.
  \<^item> Boundary. \<open>Snapshot_Export\<close> (\<open>L/store/cockroach/snapshot.go\<close>): the export transaction. \<open>Wire\<close> and
    \<open>Server\<close> (\<open>L/transport/server.go, security.go\<close>): requests decoded to commands, answers and statuses, the chunk stream,
    authentication and message validation. \<open>Served\<close> proves that calls are vouched for and that no call leaves the reachable
    ledgers, \<open>Sent\<close> that a command arrives as it was sent in a message of \<open>ledger.proto\<close>, in whatever order and spacing
    \<open>protojson\<close> writes its members, \<open>Exported\<close> and \<open>Streamed\<close> that the artifact that is
    streamed is the one the verifier decodes and accepts as an artifact.
  \<^item> Processes. \<open>Configuration\<close> (\<open>L/app/config.go\<close>, \<open>internal/platform/eventtransport/tls.go\<close>,
    \<open>loadConfig\<close> of \<open>R/app/events.go\<close>): the configuration files, decoded without unknown fields and checked; a loaded
    configuration has scoped callers only. \<open>Runtime\<close> (\<open>L/app/runtime.go\<close>, opening and readiness in
    \<open>L/store/cockroach/store.go\<close> and \<open>R/inbox/store.go\<close>, \<open>internal/platform/service\<close>, \<open>ledger-verify\<close>):
    what a runtime that opens may rely on, the operations listener, and the scaffold of the services without behaviour.
    \<open>Administration\<close> (\<open>Migrate\<close> and \<open>GrantRuntime\<close> of the stores, \<open>ledger-admin\<close>, \<open>reconciliation-admin\<close>,
    \<open>app.go\<close>): migrations, grants, and which process runs. \<open>Writes\<close> finds the rights the transactions of a serving ledger
    need, table by table; they are among those granted. \<open>Draining\<close> (\<open>Serve\<close> of \<open>L/app/runtime.go\<close>) interleaves the main
    goroutine, the worker, both servers and the timer; every run returns within fifteen steps.

  Correspondence. Go's errors are the datatype \<open>error\<close>, a result is \<open>Inl\<close> of an error or \<open>Inr\<close> of a value, a read
  through a nil pointer is \<open>Inl NilDereference\<close>. Integers of 64 bits are words read with \<open>sint\<close>, Go's \<open>int\<close> is an integer
  where it counts rows. A table is an association list from its primary key; a transaction is a function from a database to a result
  with a database, and an error leaves the old one. Time is nanoseconds with an offset.

  Parameters, for code that is not in the repository: the record \<open>env\<close> (canonical JSON, SHA-256, Ed25519, the offset of Nairobi, the
  precision of a stored timestamp), the random bytes of \<open>NewID\<close>, what each attempt at a transaction meets (its clock, faults, commits and
  what others do in between), the codec of the event contract with its laws, the context and the faults of the worker, what the
  export query returns, the order in which Go visits a map, the text \<open>protojson\<close> writes, TLS states, the files, certificates, URLs and clock of the machine
  (\<open>machine\<close>) and what the database server says of itself and its DDL does
  (\<open>db_server\<close>, \<open>session\<close>). Properties that need a law of
  such a parameter state it as a hypothesis and have a witness with concrete functions.

  Loops. Retries run through at most eight attempts, as in the code. The worker's outer loop and the readers of JSON take fuel: the worker
  stops once its context is done, and its theorem gives the number of rounds that is enough; a reader gets the length of its text plus
  one, and each call consumes a character.

  Not modelled: what the DDL of a migration does beyond the constraints of the tables; timeouts of single calls, which appear as faults of these calls; the servers of
  \<open>net/http\<close> and gRPC but for what they document of serving and stopping, and their settings; the parsing of certificates
  and URLs; the parsing of flags; \<open>tools/repo\<close>, a script over the source tree; the generated contract code, except
  that a message is a tree of named fields with its getters; and the services that are placeholders so far. \<open>Verify\<close> sorts
  history entries with an unstable sort; the model's is stable, which makes no difference to the verdict as versions repeat only in reports
  that are invalid.
\<close>

end
